(* ===== verification/Prelude.thy ===== *)
theory Prelude
  imports Main "HOL-Library.Word"
begin

text \<open>
  Shared vocabulary of the development: the machine integers of the Rust code
  as words, the result type of a Rust function that may return an error or
  panic, the slice and buffer operations of the standard library, the byte
  codecs (\<open>to_le_bytes\<close>, \<open>from_be_bytes\<close>, ...), decimal and hexadecimal
  formatting, and the generic lemmas on them that every component uses.
\<close>

unbundle bit_operations_syntax

named_theorems res_simps \<open>unfolding of monadic result code\<close>
named_theorems buf_simps \<open>lengths and contents of buffers built by slicing\<close>
named_theorems codec_simps \<open>round trips of the byte codecs\<close>

section \<open>Types\<close>

type_synonym u8 = "8 word"
type_synonym u16 = "16 word"
type_synonym u32 = "32 word"
type_synonym u64 = "64 word"
type_synonym u128 = "128 word"

text \<open>The names \<open>bytes\<close> and \<open>block\<close> are for byte buffers of any length and of sixteen bytes.\<close>

type_synonym bytes = "u8 list"
type_synonym block = "u8 list"

section \<open>Results: value, error or panic\<close>

text \<open>
  A Rust function of type \<open>Result\<close> ends in one of three ways: it returns \<open>Ok\<close>,
  it returns \<open>Err\<close>, or it panics (a slice index out of range, an \<open>unwrap\<close> of
  an error, an overflow in a debug build).
\<close>

datatype ('e, 'a) res = Ok (the_ok: 'a) | Err 'e | Panic

fun bind_res :: "('e, 'a) res \<Rightarrow> ('a \<Rightarrow> ('e, 'b) res) \<Rightarrow> ('e, 'b) res" where
  "bind_res (Ok x) f = f x"
| "bind_res (Err e) f = Err e"
| "bind_res Panic f = Panic"

fun map_err :: "('e \<Rightarrow> 'f) \<Rightarrow> ('e, 'a) res \<Rightarrow> ('f, 'a) res" where
  "map_err g (Ok x) = Ok x"
| "map_err g (Err e) = Err (g e)"
| "map_err g Panic = Panic"

fun is_ok :: "('e, 'a) res \<Rightarrow> bool" where
  "is_ok (Ok x) = True"
| "is_ok (Err e) = False"
| "is_ok Panic = False"

fun ok_of :: "('e, 'a) res \<Rightarrow> 'a option" where
  "ok_of (Ok x) = Some x"
| "ok_of (Err e) = None"
| "ok_of Panic = None"

text \<open>\<open>fold_res\<close> is a \<open>for\<close> loop whose body uses \<open>?\<close>; \<open>mapM_res\<close> collects into a vector.\<close>

fun fold_res :: "('a \<Rightarrow> 's \<Rightarrow> ('e, 's) res) \<Rightarrow> 'a list \<Rightarrow> 's \<Rightarrow> ('e, 's) res" where
  "fold_res f [] s = Ok s"
| "fold_res f (x # xs) s = bind_res (f x s) (fold_res f xs)"

fun mapM_res :: "('a \<Rightarrow> ('e, 'b) res) \<Rightarrow> 'a list \<Rightarrow> ('e, 'b list) res" where
  "mapM_res f [] = Ok []"
| "mapM_res f (x # xs) = bind_res (f x) (\<lambda>y. bind_res (mapM_res f xs) (\<lambda>ys. Ok (y # ys)))"

lemma bind_res_cong [fundef_cong]:
  assumes "m = m'" and "\<And>x. m' = Ok x \<Longrightarrow> f x = g x"
  shows "bind_res m f = bind_res m' g"
  using assms by (cases m') auto

lemma mapM_res_cong [fundef_cong]:
  assumes "xs = ys" and "\<And>x. x \<in> set ys \<Longrightarrow> f x = g x"
  shows "mapM_res f xs = mapM_res g ys"
  unfolding assms(1) using assms(2) by (induction ys) auto

lemma fold_res_cong [fundef_cong]:
  assumes "xs = ys" and "s = t" and "\<And>x s. x \<in> set ys \<Longrightarrow> f x s = g x s"
  shows "fold_res f xs s = fold_res g ys t"
  unfolding assms(1,2) using assms(3)
  by (induction ys arbitrary: t) (auto intro!: bind_res_cong)

lemma bind_res_Ok_iff [simp]:
  "bind_res m f = Ok y \<longleftrightarrow> (\<exists>x. m = Ok x \<and> f x = Ok y)"
  by (cases m) auto

lemma bind_res_Err_iff:
  "bind_res m f = Err e \<longleftrightarrow> m = Err e \<or> (\<exists>x. m = Ok x \<and> f x = Err e)"
  by (cases m) auto

lemma bind_res_Panic_iff:
  "bind_res m f = Panic \<longleftrightarrow> m = Panic \<or> (\<exists>x. m = Ok x \<and> f x = Panic)"
  by (cases m) auto

lemma bind_res_assoc [res_simps]:
  "bind_res (bind_res m f) g = bind_res m (\<lambda>x. bind_res (f x) g)"
  by (cases m) auto

lemma map_err_Ok_iff [simp]: "map_err g m = Ok x \<longleftrightarrow> m = Ok x"
  by (cases m) auto

lemma map_err_Panic_iff [simp]: "map_err g m = Panic \<longleftrightarrow> m = Panic"
  by (cases m) auto

lemma is_ok_iff: "is_ok m \<longleftrightarrow> (\<exists>x. m = Ok x)"
  by (cases m) auto

lemma ok_of_eq_Some_iff [simp]: "ok_of m = Some x \<longleftrightarrow> m = Ok x"
  by (cases m) auto

lemma fold_res_append:
  "fold_res f (xs @ ys) s = bind_res (fold_res f xs s) (fold_res f ys)"
  by (induction xs arbitrary: s) (auto simp: res_simps intro!: bind_res_cong)

lemma bind_res_Ok_right [simp]: "bind_res m Ok = m"
  by (cases m) auto

lemma fold_res_upt_Suc:
  "fold_res f [0..<Suc n] s = bind_res (fold_res f [0..<n] s) (f n)"
  by (simp add: fold_res_append cong: bind_res_cong)

lemma fold_res_Ok:
  assumes "\<And>x s. x \<in> set xs \<Longrightarrow> P s \<Longrightarrow> f x s = Ok (g x s) \<and> P (g x s)" and "P s"
  shows "fold_res f xs s = Ok (fold g xs s) \<and> P (fold g xs s)"
  using assms by (induction xs arbitrary: s) auto

lemma mapM_res_Ok:
  assumes "\<And>x. x \<in> set xs \<Longrightarrow> f x = Ok (g x)"
  shows "mapM_res f xs = Ok (map g xs)"
  using assms by (induction xs) auto

lemma mapM_res_length:
  "mapM_res f xs = Ok ys \<Longrightarrow> length ys = length xs"
  by (induction xs arbitrary: ys) auto

section \<open>Slices and in-place buffer updates\<close>

text \<open>
  \<open>sub xs a b\<close> is the contents of \<open>xs[a..b]\<close>; \<open>slice\<close> adds the bounds check of
  the Rust indexing operator. \<open>blit xs a ys\<close> is the buffer after
  \<open>xs[a..a + ys.len()].copy_from_slice(ys)\<close>; \<open>resize\<close> is \<open>Vec::resize\<close>.
\<close>

definition sub :: "'a list \<Rightarrow> nat \<Rightarrow> nat \<Rightarrow> 'a list" where
  "sub xs a b = take (b - a) (drop a xs)"

definition slice :: "'a list \<Rightarrow> nat \<Rightarrow> nat \<Rightarrow> ('e, 'a list) res" where
  "slice xs a b = (if a \<le> b \<and> b \<le> length xs then Ok (sub xs a b) else Panic)"

definition blit :: "'a list \<Rightarrow> nat \<Rightarrow> 'a list \<Rightarrow> 'a list" where
  "blit xs a ys = take a xs @ ys @ drop (a + length ys) xs"

definition resize :: "nat \<Rightarrow> 'a \<Rightarrow> 'a list \<Rightarrow> 'a list" where
  "resize n x xs = take n xs @ replicate (n - length xs) x"

lemma slice_Ok [simp]: "a \<le> b \<Longrightarrow> b \<le> length xs \<Longrightarrow> slice xs a b = Ok (sub xs a b)"
  by (simp add: slice_def)

lemma length_sub [buf_simps, simp]:
  "length (sub xs a b) = min (b - a) (length xs - a)"
  by (simp add: sub_def)

lemma length_blit [buf_simps, simp]:
  "a + length ys \<le> length xs \<Longrightarrow> length (blit xs a ys) = length xs"
  by (simp add: blit_def)

lemma length_resize [buf_simps, simp]: "length (resize n x xs) = n"
  by (simp add: resize_def)

lemma sub_nth: "i < b - a \<Longrightarrow> b \<le> length xs \<Longrightarrow> sub xs a b ! i = xs ! (a + i)"
  by (simp add: sub_def)

lemma sub_full [buf_simps]: "length xs = n \<Longrightarrow> sub xs 0 n = xs"
  by (simp add: sub_def)

lemma sub_sub: "sub (sub x v e) a b = sub x (v + a) (min e (v + b))"
  unfolding sub_def drop_take take_take drop_drop by (rule arg_cong2 [where f = take]) (auto simp: add.commute)

lemma sub_blit_same [buf_simps]:
  "a + length ys \<le> length xs \<Longrightarrow> b = a + length ys \<Longrightarrow> sub (blit xs a ys) a b = ys"
  by (simp add: sub_def blit_def)

lemma sub_blit_before [buf_simps]:
  "b \<le> a \<Longrightarrow> a \<le> length xs \<Longrightarrow> sub (blit xs a ys) c b = sub xs c b"
  by (simp add: sub_def blit_def take_drop min_def)

lemma sub_blit_after [buf_simps]:
  assumes "a + length ys \<le> c" "a + length ys \<le> length xs"
  shows "sub (blit xs a ys) c b = sub xs c b"
proof -
  have "drop c (blit xs a ys) = drop c xs"
    using assms by (simp add: blit_def)
  then show ?thesis
    by (simp add: sub_def)
qed

lemma blit_nth:
  assumes "a + length ys \<le> length xs" "i < length xs"
  shows "blit xs a ys ! i = (if a \<le> i \<and> i < a + length ys then ys ! (i - a) else xs ! i)"
  using assms by (auto simp: blit_def nth_append)

lemma blit_blit_same:
  assumes "a + length ys \<le> length xs" "length zs = length ys"
  shows "blit (blit xs a ys) a zs = blit xs a zs"
  using assms by (simp add: blit_def)

lemma blit_sub_id:
  assumes "a \<le> b" "b \<le> length xs"
  shows "blit xs a (sub xs a b) = xs"
proof -
  have "length (sub xs a b) = b - a"
    using assms by simp
  then show ?thesis
    unfolding blit_def sub_def using assms
    by (metis append_take_drop_id drop_drop le_add_diff_inverse le_add_diff_inverse2)
qed

section \<open>Chunks\<close>

text \<open>\<open>chunks k xs\<close> is the sequence \<open>xs.chunks(k)\<close> visits, the last one possibly short.\<close>

function chunks :: "nat \<Rightarrow> 'a list \<Rightarrow> 'a list list" where
  "chunks k xs = (if k = 0 \<or> xs = [] then [] else take k xs # chunks k (drop k xs))"
  by pat_completeness auto
termination
  by (relation "measure (\<lambda>(k, xs). length xs)") auto

declare chunks.simps [simp del]

lemma chunks_Nil [simp]: "chunks k [] = []"
  by (simp add: chunks.simps)

lemma chunks_append:
  assumes "0 < k" "length b = k"
  shows "chunks k (b @ xs) = b # chunks k xs"
  using assms by (subst chunks.simps) auto

lemma concat_chunks: "0 < k \<Longrightarrow> concat (chunks k xs) = xs"
proof (induction k xs rule: chunks.induct)
  case (1 k xs)
  then show ?case
    by (subst chunks.simps) auto
qed

lemma chunks_append_dvd:
  assumes "0 < k" "k dvd length a"
  shows "chunks k (a @ b) = chunks k a @ chunks k b"
  using assms
proof (induction k a rule: chunks.induct)
  case (1 k a)
  show ?case
  proof (cases "a = []")
    case False
    then have l: "k \<le> length a"
      using 1 by (auto dest: dvd_imp_le)
    then have "chunks k (a @ b) = take k a # chunks k (drop k a @ b)"
      using False 1(2) by (subst chunks.simps) simp
    then show ?thesis
      using False l 1 by (subst (2) chunks.simps) (simp add: dvd_diff_nat)
  qed simp
qed

lemma chunks_concat:
  assumes "0 < k" "\<forall>b \<in> set bs. length b = k"
  shows "chunks k (concat bs) = bs"
  using assms by (induction bs) (auto simp: chunks_append)

lemma length_concat_blocks:
  "\<forall>b \<in> set bs. length b = k \<Longrightarrow> length (concat bs) = length bs * k"
  by (induction bs) auto

lemma chunks_blocks:
  assumes "0 < k" "k dvd length xs" "b \<in> set (chunks k xs)"
  shows "length b = k"
  using assms
proof (induction k xs rule: chunks.induct)
  case (1 k xs)
  show ?case
  proof (cases "xs = []")
    case False
    have "k \<le> length xs"
      using 1 False by (simp add: dvd_imp_le)
    moreover have "k dvd length (drop k xs)"
      using 1(3) by (metis dvd_minus_self length_drop)
    ultimately show ?thesis
      using 1 False chunks.simps [of k xs] by auto
  qed (use 1 in simp)
qed

lemma length_chunks:
  assumes "0 < k" "k dvd length xs"
  shows "length (chunks k xs) = length xs div k"
proof -
  have "length xs = length (chunks k xs) * k"
    using length_concat_blocks [of "chunks k xs" k] chunks_blocks [OF assms] concat_chunks [OF assms(1), of xs]
    by metis
  then show ?thesis
    using assms(1) by (metis nonzero_mult_div_cancel_right not_less0)
qed

section \<open>Byte codecs\<close>

text \<open>
  \<open>le_bytes n w\<close> is the \<open>n\<close> low bytes of \<open>w\<close>, least significant first, and
  \<open>from_le\<close> reads them back: with \<open>n\<close> the width of the type in bytes these are
  \<open>to_le_bytes\<close> and \<open>from_le_bytes\<close>. The big-endian versions are their mirror.
\<close>

definition le_bytes :: "nat \<Rightarrow> 'a::len word \<Rightarrow> bytes" where
  "le_bytes n w = map (\<lambda>i. ucast (drop_bit (8 * i) w)) [0..<n]"

fun from_le :: "bytes \<Rightarrow> 'a::len word" where
  "from_le [] = 0"
| "from_le (b # bs) = ucast b OR push_bit 8 (from_le bs)"

definition be_bytes :: "nat \<Rightarrow> 'a::len word \<Rightarrow> bytes" where
  "be_bytes n w = rev (le_bytes n w)"

definition from_be :: "bytes \<Rightarrow> 'a::len word" where
  "from_be bs = from_le (rev bs)"

lemma length_le_bytes [simp, buf_simps]: "length (le_bytes n w) = n"
  by (simp add: le_bytes_def)

lemma length_be_bytes [simp, buf_simps]: "length (be_bytes n w) = n"
  by (simp add: be_bytes_def)

lemma bit_le_bytes:
  assumes "j < n"
  shows "bit (le_bytes n w ! j) i \<longleftrightarrow> i < 8 \<and> bit w (8 * j + i)"
  using assms by (auto simp: le_bytes_def bit_simps)

lemma bit_from_le:
  "bit (from_le bs :: 'a::len word) i \<longleftrightarrow>
     i < LENGTH('a) \<and> i div 8 < length bs \<and> bit (bs ! (i div 8)) (i mod 8)"
proof (induction bs arbitrary: i)
  case (Cons b bs)
  show ?case
  proof (cases "i < 8")
    case True
    then show ?thesis
      by (auto simp: bit_simps dest: bit_imp_le_length)
  next
    case False
    then obtain j where j: "i = 8 + j"
      by (metis add_diff_inverse_nat)
    have jd: "(8 + j) div 8 = Suc (j div 8)"
      by simp
    have "\<not> bit b i"
      using False bit_imp_le_length [of b i] by auto
    then show ?thesis
      using Cons [of j] by (auto simp: bit_simps j jd simp del: div_add_self1)
  qed
qed simp

lemma from_le_le_bytes [simp, codec_simps]:
  assumes "LENGTH('a::len) \<le> 8 * n"
  shows "from_le (le_bytes n w) = (w :: 'a word)"
proof (rule bit_word_eqI)
  fix i assume i: "i < LENGTH('a)"
  then have "i div 8 < n"
    using assms by linarith
  then show "bit (from_le (le_bytes n w) :: 'a word) i = bit w i"
    using i by (simp add: bit_from_le bit_le_bytes)
qed

lemma le_bytes_from_le [simp, codec_simps]:
  assumes "length bs = n" "8 * n \<le> LENGTH('a::len)"
  shows "le_bytes n (from_le bs :: 'a word) = bs"
proof (rule nth_equalityI)
  fix j assume "j < length (le_bytes n (from_le bs :: 'a word))"
  then have j: "j < n" by simp
  show "le_bytes n (from_le bs :: 'a word) ! j = bs ! j"
  proof (rule bit_word_eqI)
    fix i assume "i < LENGTH(8)"
    then show "bit (le_bytes n (from_le bs :: 'a word) ! j) i = bit (bs ! j) i"
      using j assms by (auto simp: bit_le_bytes bit_from_le)
  qed
qed (simp add: assms)

lemma from_be_be_bytes [simp, codec_simps]:
  "LENGTH('a::len) \<le> 8 * n \<Longrightarrow> from_be (be_bytes n w) = (w :: 'a word)"
  by (simp add: from_be_def be_bytes_def)

lemma be_bytes_from_be [simp, codec_simps]:
  "length bs = n \<Longrightarrow> 8 * n \<le> LENGTH('a::len) \<Longrightarrow> be_bytes n (from_be bs :: 'a word) = bs"
  by (simp add: from_be_def be_bytes_def)

section \<open>Fields of fixed width\<close>

text \<open>
  What the layouts of headers, packets and packed structures rely on: a field has
  a width, and what is encoded is read back. The clients are buffers with a field
  laid into them and arrays of fields.
\<close>

locale field_codec =
  fixes enc :: "'a \<Rightarrow> bytes"
    and dec :: "bytes \<Rightarrow> 'a"
    and width :: nat
  assumes enc_width: "length (enc x) = width"
    and dec_enc: "dec (enc x) = x"
    and enc_dec: "length b = width \<Longrightarrow> enc (dec b) = b"
begin

lemma read_back:
  assumes "a + width \<le> length buf"
  shows "dec (sub (blit buf a (enc x)) a (a + width)) = x"
proof -
  have "sub (blit buf a (enc x)) a (a + width) = enc x"
    by (rule sub_blit_same) (simp_all only: enc_width assms)
  then show ?thesis
    by (simp only: dec_enc)
qed

lemma read_other:
  assumes "a + width \<le> length buf" "b \<le> a \<or> a + width \<le> c"
  shows "sub (blit buf a (enc x)) c b = sub buf c b"
  using assms(2)
proof
  assume "b \<le> a"
  then show ?thesis
    using assms(1) by (intro sub_blit_before) simp_all
next
  assume "a + width \<le> c"
  then show ?thesis
    using assms(1) by (intro sub_blit_after) (simp_all add: enc_width)
qed

lemma enc_inject: "enc x = enc y \<longleftrightarrow> x = y"
  using dec_enc by metis

lemma array_width: "length (concat (map enc xs)) = width * length xs"
  by (induction xs) (simp_all add: enc_width)

lemma array_nth: "i < length xs \<Longrightarrow> sub (concat (map enc xs)) (width * i) (width * i + width) = enc (xs ! i)"
proof (induction xs arbitrary: i)
  case (Cons x xs)
  then show ?case
    by (cases i) (simp_all add: sub_def enc_width)
qed simp

lemma array_read_back:
  "map (\<lambda>i. dec (sub (concat (map enc xs)) (width * i) (width * i + width))) [0..<length xs] = xs"
  by (rule nth_equalityI) (simp_all add: array_nth dec_enc)

end

interpretation le16: field_codec "le_bytes 2" "from_le :: bytes \<Rightarrow> u16" 2
  by unfold_locales simp_all

interpretation le32: field_codec "le_bytes 4" "from_le :: bytes \<Rightarrow> u32" 4
  by unfold_locales simp_all

interpretation le64: field_codec "le_bytes 8" "from_le :: bytes \<Rightarrow> u64" 8
  by unfold_locales simp_all

interpretation be16: field_codec "be_bytes 2" "from_be :: bytes \<Rightarrow> u16" 2
  by unfold_locales simp_all

interpretation be32: field_codec "be_bytes 4" "from_be :: bytes \<Rightarrow> u32" 4
  by unfold_locales simp_all

interpretation be64: field_codec "be_bytes 8" "from_be :: bytes \<Rightarrow> u64" 8
  by unfold_locales simp_all

section \<open>Words as natural numbers\<close>

lemma unat_of_nat64: "m < 2 ^ 64 \<Longrightarrow> unat (of_nat m :: u64) = m"
  by (simp add: unat_of_nat take_bit_nat_def)

lemma unat_plus64: "unat (a :: u64) + unat b < 2 ^ 64 \<Longrightarrow> unat (a + b) = unat a + unat b"
  using unat_of_nat64 [of "unat a + unat b"] by simp

lemma unat_minus64: "(b :: u64) \<le> a \<Longrightarrow> unat (a - b) = unat a - unat b"
  using unat_sub [of b a] by simp

lemma unat_times64: "unat (a :: u64) * unat b < 2 ^ 64 \<Longrightarrow> unat (a * b) = unat a * unat b"
  using unat_of_nat64 [of "unat a * unat b"] by simp

section \<open>Exclusive or of buffers\<close>

definition xor_bytes :: "bytes \<Rightarrow> bytes \<Rightarrow> bytes" where
  "xor_bytes xs ys = map2 (XOR) xs ys"

lemma length_xor_bytes [simp, buf_simps]:
  "length (xor_bytes xs ys) = min (length xs) (length ys)"
  by (simp add: xor_bytes_def)

lemma xor_bytes_nth: "i < length xs \<Longrightarrow> i < length ys \<Longrightarrow> xor_bytes xs ys ! i = xs ! i XOR ys ! i"
  by (simp add: xor_bytes_def)

lemma xor_bytes_cancel [simp]:
  "length xs \<le> length ys \<Longrightarrow> xor_bytes (xor_bytes xs ys) ys = xs"
  by (rule nth_equalityI) (auto simp: xor_bytes_nth xor.assoc)

lemma xor_bytes_append:
  "length xs = length ys \<Longrightarrow> xor_bytes (xs @ xs') (ys @ ys') = xor_bytes xs ys @ xor_bytes xs' ys'"
  by (simp add: xor_bytes_def)

lemma le_bytes_xor:
  "le_bytes n (v XOR w) = xor_bytes (le_bytes n v) (le_bytes n w)"
  by (rule nth_equalityI) (auto simp: xor_bytes_nth le_bytes_def drop_bit_xor unsigned_xor_eq)

lemma le_bytes_xor_from_le:
  assumes "length a = n" "length b = n" "8 * n \<le> LENGTH('a::len)"
  shows "le_bytes n ((from_le a :: 'a word) XOR from_le b) = xor_bytes a b"
  using assms by (simp add: le_bytes_xor)

section \<open>Number formatting\<close>

definition digit_char :: "nat \<Rightarrow> char" where
  "digit_char d = (if d < 10 then char_of (48 + d) else char_of (87 + d))"

fun show_nat :: "nat \<Rightarrow> string" where
  "show_nat n = (if n < 10 then [digit_char n] else show_nat (n div 10) @ [digit_char (n mod 10)])"

declare show_nat.simps [simp del]

text \<open>\<open>show_hex8 w\<close> is the \<open>{:#010x}\<close> format of a \<open>u32\<close>: \<open>0x\<close> and eight hexadecimal digits.\<close>

definition show_hex8 :: "u32 \<Rightarrow> string" where
  "show_hex8 w = ''0x'' @ map (\<lambda>i. digit_char (unat (drop_bit (4 * i) w AND 15))) (rev [0..<8])"

end
