(* ===== verification/CryptoLib.thy ===== *)
theory CryptoLib
  imports Prelude
begin

text \<open>
  The error type of \<open>vcrypt-core\<close> and the third-party crates it calls. The
  crates (\<open>aes\<close>, \<open>serpent\<close>, \<open>camellia\<close>, \<open>kuznyechik\<close>, \<open>sha2\<close>, \<open>blake2\<close>,
  \<open>whirlpool\<close>, \<open>streebog\<close>, \<open>pbkdf2\<close>, \<open>argon2\<close>, \<open>crc\<close>) are not part of the
  repository: they are the record \<open>crypto_lib\<close>, a parameter of every
  definition that calls them. What the code relies on is the predicate
  \<open>lib_ok\<close>: the documented contract of a block cipher, a key derivation
  function and an incremental hash function, nothing about the particular
  algorithms.
\<close>

section \<open>Errors\<close>

datatype CryptoError =
    InvalidKeySize nat nat
  | InvalidBlockSize nat nat
  | InvalidDataLength string
  | CipherInitFailed string
  | KeyDerivationFailed string
  | XtsError string
  | UnsupportedCipher string
  | UnsupportedHash string

text \<open>The \<open>Display\<close> text of the \<open>std\<close> build, which the upper layers put into their own errors.\<close>

fun display_crypto_error :: "CryptoError \<Rightarrow> string" where
  "display_crypto_error (InvalidKeySize e a) =
     ''Invalid key size: expected '' @ show_nat e @ '', got '' @ show_nat a"
| "display_crypto_error (InvalidBlockSize e a) =
     ''Invalid block size: expected '' @ show_nat e @ '', got '' @ show_nat a"
| "display_crypto_error (InvalidDataLength msg) = ''Invalid data length: '' @ msg"
| "display_crypto_error (CipherInitFailed msg) = ''Cipher initialization failed: '' @ msg"
| "display_crypto_error (KeyDerivationFailed msg) = ''Key derivation failed: '' @ msg"
| "display_crypto_error (XtsError msg) = ''XTS mode error: '' @ msg"
| "display_crypto_error (UnsupportedCipher msg) = ''Unsupported cipher: '' @ msg"
| "display_crypto_error (UnsupportedHash msg) = ''Unsupported hash function: '' @ msg"

text \<open>The texts of the \<open>no_std\<close> build differ in four messages.\<close>

fun display_crypto_error_kernel :: "CryptoError \<Rightarrow> string" where
  "display_crypto_error_kernel (InvalidKeySize e a) =
     ''Invalid key size: expected '' @ show_nat e @ '', got '' @ show_nat a"
| "display_crypto_error_kernel (InvalidBlockSize e a) =
     ''Invalid block size: expected '' @ show_nat e @ '', got '' @ show_nat a"
| "display_crypto_error_kernel (InvalidDataLength msg) = ''Invalid data length: '' @ msg"
| "display_crypto_error_kernel (CipherInitFailed msg) = ''Cipher init failed: '' @ msg"
| "display_crypto_error_kernel (KeyDerivationFailed msg) = ''Key derivation failed: '' @ msg"
| "display_crypto_error_kernel (XtsError msg) = ''XTS error: '' @ msg"
| "display_crypto_error_kernel (UnsupportedCipher msg) = ''Unsupported cipher: '' @ msg"
| "display_crypto_error_kernel (UnsupportedHash msg) = ''Unsupported hash: '' @ msg"

type_synonym 'a cres = "(CryptoError, 'a) res"

section \<open>The crates as parameters\<close>

text \<open>
  A block cipher crate: \<open>new_from_slice\<close> (the error text, if it fails), and
  the operations of the instance with that key. The instance is represented
  by its key.
\<close>

record block_lib =
  bl_new :: "bytes \<Rightarrow> string option"
  bl_enc :: "bytes \<Rightarrow> block \<Rightarrow> block"
  bl_dec :: "bytes \<Rightarrow> block \<Rightarrow> block"
  bl_enc_blocks :: "bytes \<Rightarrow> block list \<Rightarrow> block list"
  bl_dec_blocks :: "bytes \<Rightarrow> block list \<Rightarrow> block list"

text \<open>
  A digest is a function of the sequence of chunks passed to \<open>update\<close>; the
  contract says that only their concatenation matters.
\<close>

type_synonym digest_lib = "bytes list \<Rightarrow> bytes"

record crypto_lib =
  lib_aes :: block_lib
  lib_serpent :: block_lib
  lib_camellia :: block_lib
  lib_kuznyechik :: block_lib
  lib_sha256 :: digest_lib
  lib_sha512 :: digest_lib
  lib_blake2s :: digest_lib
  lib_whirlpool :: digest_lib
  lib_streebog256 :: digest_lib
  lib_streebog512 :: digest_lib
  lib_pbkdf2_sha256 :: "bytes \<Rightarrow> bytes \<Rightarrow> u32 \<Rightarrow> nat \<Rightarrow> bytes"
  lib_pbkdf2_sha512 :: "bytes \<Rightarrow> bytes \<Rightarrow> u32 \<Rightarrow> nat \<Rightarrow> bytes"
  lib_pbkdf2_whirlpool :: "bytes \<Rightarrow> bytes \<Rightarrow> u32 \<Rightarrow> nat \<Rightarrow> bytes"
  lib_pbkdf2_streebog :: "bytes \<Rightarrow> bytes \<Rightarrow> u32 \<Rightarrow> nat \<Rightarrow> bytes"
  lib_argon2_params :: "u32 \<Rightarrow> u32 \<Rightarrow> u32 \<Rightarrow> nat \<Rightarrow> string option"
  lib_argon2id :: "u32 \<Rightarrow> u32 \<Rightarrow> u32 \<Rightarrow> nat \<Rightarrow> bytes \<Rightarrow> bytes \<Rightarrow> string + bytes"
  lib_crc32 :: "bytes \<Rightarrow> u32"
  lib_crc32_from :: "u32 \<Rightarrow> bytes \<Rightarrow> u32"

definition block_lib_ok :: "block_lib \<Rightarrow> bool" where
  "block_lib_ok bl \<longleftrightarrow>
     (\<forall>k. length k = 32 \<longrightarrow> bl_new bl k = None) \<and>
     (\<forall>k b. length k = 32 \<longrightarrow> length b = 16 \<longrightarrow>
        length (bl_enc bl k b) = 16 \<and> length (bl_dec bl k b) = 16 \<and>
        bl_dec bl k (bl_enc bl k b) = b \<and> bl_enc bl k (bl_dec bl k b) = b) \<and>
     (\<forall>k bs. length k = 32 \<longrightarrow> (\<forall>b \<in> set bs. length b = 16) \<longrightarrow>
        bl_enc_blocks bl k bs = map (bl_enc bl k) bs \<and>
        bl_dec_blocks bl k bs = map (bl_dec bl k) bs)"

definition digest_ok :: "nat \<Rightarrow> digest_lib \<Rightarrow> bool" where
  "digest_ok n h \<longleftrightarrow> (\<forall>cs. h cs = h [concat cs] \<and> length (h cs) = n)"

definition pbkdf2_ok :: "(bytes \<Rightarrow> bytes \<Rightarrow> u32 \<Rightarrow> nat \<Rightarrow> bytes) \<Rightarrow> bool" where
  "pbkdf2_ok f \<longleftrightarrow> (\<forall>p s i n. length (f p s i n) = n)"

definition argon2_ok :: "(u32 \<Rightarrow> u32 \<Rightarrow> u32 \<Rightarrow> nat \<Rightarrow> bytes \<Rightarrow> bytes \<Rightarrow> string + bytes) \<Rightarrow> bool" where
  "argon2_ok f \<longleftrightarrow> (\<forall>m t p n pw s out. f m t p n pw s = Inr out \<longrightarrow> length out = n)"

definition lib_ok :: "crypto_lib \<Rightarrow> bool" where
  "lib_ok L \<longleftrightarrow>
     block_lib_ok (lib_aes L) \<and> block_lib_ok (lib_serpent L) \<and>
     block_lib_ok (lib_camellia L) \<and> block_lib_ok (lib_kuznyechik L) \<and>
     digest_ok 32 (lib_sha256 L) \<and> digest_ok 64 (lib_sha512 L) \<and> digest_ok 32 (lib_blake2s L) \<and>
     digest_ok 64 (lib_whirlpool L) \<and> digest_ok 32 (lib_streebog256 L) \<and> digest_ok 64 (lib_streebog512 L) \<and>
     pbkdf2_ok (lib_pbkdf2_sha256 L) \<and> pbkdf2_ok (lib_pbkdf2_sha512 L) \<and>
     pbkdf2_ok (lib_pbkdf2_whirlpool L) \<and> pbkdf2_ok (lib_pbkdf2_streebog L) \<and>
     argon2_ok (lib_argon2id L)"

lemma lib_ok_blocks:
  assumes "lib_ok L"
  shows "block_lib_ok (lib_aes L)" "block_lib_ok (lib_serpent L)"
    "block_lib_ok (lib_camellia L)" "block_lib_ok (lib_kuznyechik L)"
  using assms by (simp_all add: lib_ok_def)

section \<open>A concrete library\<close>

text \<open>
  A small instance of the contract, for evaluating the definitions on concrete
  inputs: the block cipher rotates the block by a key-dependent amount and
  adds a key byte, the digests and derivation functions mix a byte sum of
  their input into a block of the right length.
\<close>

definition toy_enc :: "u8 \<Rightarrow> bytes \<Rightarrow> block \<Rightarrow> block" where
  "toy_enc tag k b = map (\<lambda>x. x + tag + hd (k @ [0])) (rotate1 b)"

definition toy_dec :: "u8 \<Rightarrow> bytes \<Rightarrow> block \<Rightarrow> block" where
  "toy_dec tag k b = (let c = map (\<lambda>x. x - tag - hd (k @ [0])) b in last (0 # c) # butlast c)"

definition toy_block :: "u8 \<Rightarrow> block_lib" where
  "toy_block tag = \<lparr> bl_new = (\<lambda>k. if length k = 32 then None else Some ''Invalid Length''),
     bl_enc = toy_enc tag, bl_dec = toy_dec tag,
     bl_enc_blocks = (\<lambda>k. map (toy_enc tag k)), bl_dec_blocks = (\<lambda>k. map (toy_dec tag k)) \<rparr>"

definition toy_sum :: "bytes \<Rightarrow> u8" where
  "toy_sum bs = fold (+) bs 0"

definition toy_digest :: "nat \<Rightarrow> digest_lib" where
  "toy_digest n cs = replicate n (toy_sum (concat cs))"

definition toy_pbkdf2 :: "u8 \<Rightarrow> bytes \<Rightarrow> bytes \<Rightarrow> u32 \<Rightarrow> nat \<Rightarrow> bytes" where
  "toy_pbkdf2 tag p s i n = replicate n (tag + toy_sum p + toy_sum s)"

definition toy_lib :: crypto_lib where
  "toy_lib = \<lparr> lib_aes = toy_block 1, lib_serpent = toy_block 2,
     lib_camellia = toy_block 3, lib_kuznyechik = toy_block 4,
     lib_sha256 = toy_digest 32, lib_sha512 = toy_digest 64, lib_blake2s = toy_digest 32,
     lib_whirlpool = toy_digest 64, lib_streebog256 = toy_digest 32, lib_streebog512 = toy_digest 64,
     lib_pbkdf2_sha256 = toy_pbkdf2 1, lib_pbkdf2_sha512 = toy_pbkdf2 2,
     lib_pbkdf2_whirlpool = toy_pbkdf2 3, lib_pbkdf2_streebog = toy_pbkdf2 4,
     lib_argon2_params = (\<lambda>m t p n. None),
     lib_argon2id = (\<lambda>m t p n pw s. Inr (toy_pbkdf2 5 pw s t n)),
     lib_crc32 = (\<lambda>bs. ucast (toy_sum bs)),
     lib_crc32_from = (\<lambda>i bs. i + ucast (toy_sum bs)) \<rparr>"

lemma toy_dec_enc: "b \<noteq> [] \<Longrightarrow> toy_dec tag k (toy_enc tag k b) = b"
  by (cases b) (auto simp: toy_enc_def toy_dec_def Let_def butlast_append comp_def)

lemma toy_enc_dec: "b \<noteq> [] \<Longrightarrow> toy_enc tag k (toy_dec tag k b) = b"
  by (cases b rule: rev_cases) (auto simp: toy_enc_def toy_dec_def Let_def comp_def)

lemma length_toy [simp]:
  "length (toy_enc tag k b) = length b" "b \<noteq> [] \<Longrightarrow> length (toy_dec tag k b) = length b"
  by (auto simp: toy_enc_def toy_dec_def Let_def)

lemma toy_block_ok: "block_lib_ok (toy_block tag)"
proof -
  have "length b = 16 \<Longrightarrow> b \<noteq> []" for b :: block by auto
  then show ?thesis
    by (simp add: block_lib_ok_def toy_block_def toy_dec_enc toy_enc_dec)
qed

lemma toy_lib_ok: "lib_ok toy_lib"
  by (simp add: lib_ok_def toy_lib_def toy_block_ok digest_ok_def toy_digest_def
      pbkdf2_ok_def toy_pbkdf2_def argon2_ok_def)

end
