(* ===== verification/Twofish.thy ===== *)
theory Twofish
  imports Twofish_Tables
begin

text \<open>
  The Twofish block cipher the repository vendors
  (\<open>vcrypt-core/vendor/lsx/src/twofish.rs\<close>): key schedule, the sixteen Feistel
  rounds in both directions, and the proofs that decryption inverts
  encryption for every key-dependent state and that the table-driven
  Reed-Solomon multiplication is multiplication in the field of the Twofish
  key schedule.
\<close>

section \<open>State and key schedule\<close>

record Twofish =
  tf_s :: "u32 list list"
  tf_w :: "u32 list"
  tf_k :: "u32 list"

definition splat :: "u8 \<Rightarrow> bytes" where
  "splat i = [i, i, i, i]"

definition unsplat :: "u32 list \<Rightarrow> u32" where
  "unsplat i = i ! 0 XOR i ! 1 XOR i ! 2 XOR i ! 3"

definition h_128 :: "bytes \<Rightarrow> bytes \<Rightarrow> u32 list" where
  "h_128 x key = [
     MDSQ ! 0 ! unat (Q0 ! unat (Q0 ! unat (x ! 0) XOR key ! 8) XOR key ! 0),
     MDSQ ! 1 ! unat (Q0 ! unat (Q1 ! unat (x ! 1) XOR key ! 9) XOR key ! 1),
     MDSQ ! 2 ! unat (Q1 ! unat (Q0 ! unat (x ! 2) XOR key ! 10) XOR key ! 2),
     MDSQ ! 3 ! unat (Q1 ! unat (Q1 ! unat (x ! 3) XOR key ! 11) XOR key ! 3)]"

definition h_192 :: "bytes \<Rightarrow> bytes \<Rightarrow> u32 list" where
  "h_192 x key = h_128 [
     Q1 ! unat (x ! 0) XOR key ! 16,
     Q1 ! unat (x ! 1) XOR key ! 17,
     Q0 ! unat (x ! 2) XOR key ! 18,
     Q0 ! unat (x ! 3) XOR key ! 19] (sub key 0 12)"

definition h_256 :: "bytes \<Rightarrow> bytes \<Rightarrow> u32 list" where
  "h_256 x key = h_192 [
     Q1 ! unat (x ! 0) XOR key ! 24,
     Q0 ! unat (x ! 1) XOR key ! 25,
     Q0 ! unat (x ! 2) XOR key ! 26,
     Q1 ! unat (x ! 3) XOR key ! 27] (sub key 0 20)"

definition h_128_no_skip :: "bytes \<Rightarrow> bytes \<Rightarrow> u32 list" where
  "h_128_no_skip x key = [
     MDSQ ! 0 ! unat (Q0 ! unat (Q0 ! unat (x ! 0) XOR key ! 4) XOR key ! 0),
     MDSQ ! 1 ! unat (Q0 ! unat (Q1 ! unat (x ! 1) XOR key ! 5) XOR key ! 1),
     MDSQ ! 2 ! unat (Q1 ! unat (Q0 ! unat (x ! 2) XOR key ! 6) XOR key ! 2),
     MDSQ ! 3 ! unat (Q1 ! unat (Q1 ! unat (x ! 3) XOR key ! 7) XOR key ! 3)]"

definition h_192_no_skip :: "bytes \<Rightarrow> bytes \<Rightarrow> u32 list" where
  "h_192_no_skip x key = h_128_no_skip [
     Q1 ! unat (x ! 0) XOR key ! 8,
     Q1 ! unat (x ! 1) XOR key ! 9,
     Q0 ! unat (x ! 2) XOR key ! 10,
     Q0 ! unat (x ! 3) XOR key ! 11] (sub key 0 8)"

definition h_256_no_skip :: "bytes \<Rightarrow> bytes \<Rightarrow> u32 list" where
  "h_256_no_skip x key = h_192_no_skip [
     Q1 ! unat (x ! 0) XOR key ! 12,
     Q0 ! unat (x ! 1) XOR key ! 13,
     Q0 ! unat (x ! 2) XOR key ! 14,
     Q1 ! unat (x ! 3) XOR key ! 15] (sub key 0 12)"

text \<open>\<open>rs_mul_column\<close> adds one key byte times one matrix column to the four bytes of \<open>s\<close>.\<close>

definition rs_mul_column :: "u8 \<Rightarrow> u8 \<Rightarrow> u8 \<Rightarrow> u8 \<Rightarrow> bytes \<Rightarrow> u8 \<Rightarrow> bytes" where
  "rs_mul_column a b c d s key_byte =
     (if key_byte \<noteq> 0 then
        let e = unat (RS_POLY_TO_EXP ! unat (key_byte - 1)) in
        [s ! 0 XOR RS_POLY_FROM_EXP ! (e + unat a),
         s ! 1 XOR RS_POLY_FROM_EXP ! (e + unat b),
         s ! 2 XOR RS_POLY_FROM_EXP ! (e + unat c),
         s ! 3 XOR RS_POLY_FROM_EXP ! (e + unat d)]
      else s)"

definition rs_chunk :: "bytes \<Rightarrow> nat \<Rightarrow> bytes \<Rightarrow> bytes" where
  "rs_chunk key i s = fold (\<lambda>column s.
      rs_mul_column (RS_MATRIX ! (column * 4)) (RS_MATRIX ! (column * 4 + 1))
        (RS_MATRIX ! (column * 4 + 2)) (RS_MATRIX ! (column * 4 + 3)) s (key ! (i * 8 + column)))
      [0..<8] s"

definition rs_key :: "nat \<Rightarrow> bytes \<Rightarrow> bytes" where
  "rs_key key_chunks key = fold (\<lambda>i s.
      let off = (key_chunks - i - 1) * 4 in blit s off (rs_chunk key i (sub s off (off + 4))))
      [0..<key_chunks] (replicate (key_chunks * 4) 0)"

text \<open>The pair of subkeys that the loops over \<open>w\<close> and \<open>k\<close> compute at position \<open>i\<close>.\<close>

definition subkey_pair :: "(bytes \<Rightarrow> bytes \<Rightarrow> u32 list) \<Rightarrow> nat \<Rightarrow> bytes \<Rightarrow> u8 \<Rightarrow> u32 list" where
  "subkey_pair hfunc key_bytes key i =
     (let a = unsplat (hfunc (splat i) (sub key 0 (key_bytes - 4)));
          b = word_rotl 8 (unsplat (hfunc (splat (i + 1)) (sub key 4 (4 + (key_bytes - 4)))))
      in [a + b, word_rotl 9 (a + push_bit 1 b)])"

definition define_twofish_new ::
  "nat \<Rightarrow> (bytes \<Rightarrow> bytes \<Rightarrow> u32 list) \<Rightarrow> (bytes \<Rightarrow> bytes \<Rightarrow> u32 list) \<Rightarrow> bytes \<Rightarrow> Twofish" where
  "define_twofish_new key_bits hfunc hnoskipfunc key =
     (let s = rs_key (key_bits div 64) key;
          rows = map (\<lambda>x. hnoskipfunc (splat (of_nat x)) s) [0..<256]
      in \<lparr> tf_s = map (\<lambda>j. map (\<lambda>r. r ! j) rows) [0..<4],
           tf_w = concat (map (\<lambda>i. subkey_pair hfunc (key_bits div 8) key (of_nat (2 * i))) [0..<4]),
           tf_k = concat (map (\<lambda>i. subkey_pair hfunc (key_bits div 8) key (of_nat (2 * i + 8))) [0..<16]) \<rparr>)"

definition new128 :: "bytes \<Rightarrow> Twofish" where
  "new128 key = define_twofish_new 128 h_128 h_128_no_skip key"

definition new192 :: "bytes \<Rightarrow> Twofish" where
  "new192 key = define_twofish_new 192 h_192 h_192_no_skip key"

definition new256 :: "bytes \<Rightarrow> Twofish" where
  "new256 key = define_twofish_new 256 h_256 h_256_no_skip key"

section \<open>Encryption and decryption of a block\<close>

definition sbox_g :: "u32 list list \<Rightarrow> u32 \<Rightarrow> u32" where
  "sbox_g s input = (let b = le_bytes 4 input in
     s ! 0 ! unat (b ! 0) XOR s ! 1 ! unat (b ! 1) XOR s ! 2 ! unat (b ! 2) XOR s ! 3 ! unat (b ! 3))"

definition f_round :: "u32 \<Rightarrow> u32 \<Rightarrow> nat \<Rightarrow> u32 list list \<Rightarrow> u32 list \<Rightarrow> u32 \<times> u32" where
  "f_round r0 r1 round s k =
     (let t0 = sbox_g s r0; t1 = sbox_g s (word_rotl 8 r1)
      in (t0 + t1 + k ! round, t0 + push_bit 1 t1 + k ! (round + 1)))"

type_synonym regs = "u32 \<times> u32 \<times> u32 \<times> u32"

definition enc_round :: "Twofish \<Rightarrow> nat \<Rightarrow> regs \<Rightarrow> regs" where
  "enc_round tf round = (\<lambda>(r0, r1, r2, r3).
     let (fr0, fr1) = f_round r0 r1 round (tf_s tf) (tf_k tf);
         r2 = word_rotr 1 (r2 XOR fr0);
         r3 = word_rotl 1 r3 XOR fr1;
         (fr0, fr1) = f_round r2 r3 (round + 2) (tf_s tf) (tf_k tf);
         r0 = word_rotr 1 (r0 XOR fr0);
         r1 = word_rotl 1 r1 XOR fr1
     in (r0, r1, r2, r3))"

definition dec_round :: "Twofish \<Rightarrow> nat \<Rightarrow> regs \<Rightarrow> regs" where
  "dec_round tf round = (\<lambda>(r0, r1, r2, r3).
     let (fr0, fr1) = f_round r2 r3 (round + 2) (tf_s tf) (tf_k tf);
         r0 = word_rotl 1 r0 XOR fr0;
         r1 = word_rotr 1 (r1 XOR fr1);
         (fr0, fr1) = f_round r0 r1 round (tf_s tf) (tf_k tf);
         r2 = word_rotl 1 r2 XOR fr0;
         r3 = word_rotr 1 (r3 XOR fr1)
     in (r0, r1, r2, r3))"

definition tf_rounds :: "nat list" where
  "tf_rounds = [0, 4, 8, 12, 16, 20, 24, 28]"

definition twofish_encrypt :: "Twofish \<Rightarrow> block \<Rightarrow> block" where
  "twofish_encrypt tf i =
     (let r0 = from_le (sub i 0 4) XOR tf_w tf ! 0;
          r1 = from_le (sub i 4 8) XOR tf_w tf ! 1;
          r2 = from_le (sub i 8 12) XOR tf_w tf ! 2;
          r3 = from_le (sub i 12 16) XOR tf_w tf ! 3;
          (r0, r1, r2, r3) = fold (enc_round tf) tf_rounds (r0, r1, r2, r3)
      in le_bytes 4 (r2 XOR tf_w tf ! 4) @ le_bytes 4 (r3 XOR tf_w tf ! 5) @
         le_bytes 4 (r0 XOR tf_w tf ! 6) @ le_bytes 4 (r1 XOR tf_w tf ! 7))"

definition twofish_decrypt :: "Twofish \<Rightarrow> block \<Rightarrow> block" where
  "twofish_decrypt tf i =
     (let r2 = from_le (sub i 0 4) XOR tf_w tf ! 4;
          r3 = from_le (sub i 4 8) XOR tf_w tf ! 5;
          r0 = from_le (sub i 8 12) XOR tf_w tf ! 6;
          r1 = from_le (sub i 12 16) XOR tf_w tf ! 7;
          (r0, r1, r2, r3) = fold (dec_round tf) (rev tf_rounds) (r0, r1, r2, r3)
      in le_bytes 4 (r0 XOR tf_w tf ! 0) @ le_bytes 4 (r1 XOR tf_w tf ! 1) @
         le_bytes 4 (r2 XOR tf_w tf ! 2) @ le_bytes 4 (r3 XOR tf_w tf ! 3))"

section \<open>Decryption inverts encryption\<close>

lemma xor_cancel_right [simp]: "(a XOR b) XOR b = (a :: 'a::len word)"
  by (simp add: xor.assoc)

lemma rot_cancel [simp]:
  "word_rotr n (word_rotl n v) = (v :: 'a::len word)"
  "word_rotl n (word_rotr n v) = (v :: 'a::len word)"
  by (simp_all add: word_rot_rl word_rot_lr)

lemma dec_enc_round: "dec_round tf r (enc_round tf r regs) = regs"
  by (cases regs) (simp add: dec_round_def enc_round_def Let_def split_def)

lemma enc_dec_round: "enc_round tf r (dec_round tf r regs) = regs"
  by (cases regs) (simp add: dec_round_def enc_round_def Let_def split_def)

lemma fold_inverse:
  assumes "\<And>x s. h x (f x s) = s"
  shows "fold h (rev xs) (fold f xs s) = s"
  using assms by (induction xs arbitrary: s) auto

lemma dec_enc_rounds: "fold (dec_round tf) (rev tf_rounds) (fold (enc_round tf) tf_rounds regs) = regs"
  by (rule fold_inverse) (rule dec_enc_round)

lemma enc_dec_rounds: "fold (enc_round tf) tf_rounds (fold (dec_round tf) (rev tf_rounds) regs) = regs"
  using fold_inverse [of "enc_round tf" "dec_round tf" "rev tf_rounds" regs]
  by (simp add: enc_dec_round)

lemma sub_append_words:
  "sub (le_bytes 4 a @ le_bytes 4 b @ le_bytes 4 c @ le_bytes 4 d) 0 4 = le_bytes 4 a"
  "sub (le_bytes 4 a @ le_bytes 4 b @ le_bytes 4 c @ le_bytes 4 d) 4 8 = le_bytes 4 b"
  "sub (le_bytes 4 a @ le_bytes 4 b @ le_bytes 4 c @ le_bytes 4 d) 8 12 = le_bytes 4 c"
  "sub (le_bytes 4 a @ le_bytes 4 b @ le_bytes 4 c @ le_bytes 4 d) 12 16 = le_bytes 4 d"
  by (simp_all add: sub_def)

lemma sub_words_append:
  "length b = 16 \<Longrightarrow> sub b 0 4 @ sub b 4 8 @ sub b 8 12 @ sub b 12 16 = b"
  unfolding sub_def
  by (rule nth_equalityI) (auto simp: nth_append)

lemma length_twofish_encrypt [simp]: "length (twofish_encrypt tf b) = 16"
  by (simp add: twofish_encrypt_def Let_def split_def)

lemma length_twofish_decrypt [simp]: "length (twofish_decrypt tf b) = 16"
  by (simp add: twofish_decrypt_def Let_def split_def)

lemma twofish_dec_enc:
  assumes "length b = 16"
  shows "twofish_decrypt tf (twofish_encrypt tf b) = b"
  using assms sub_words_append [OF assms] dec_enc_rounds
  by (simp add: twofish_encrypt_def twofish_decrypt_def Let_def split_def sub_append_words)

lemma twofish_enc_dec:
  assumes "length b = 16"
  shows "twofish_encrypt tf (twofish_decrypt tf b) = b"
  using assms sub_words_append [OF assms] enc_dec_rounds
  by (simp add: twofish_encrypt_def twofish_decrypt_def Let_def split_def sub_append_words)

section \<open>The Reed-Solomon tables\<close>

text \<open>
  \<open>rs_xtime\<close> is multiplication by the generator in the field of the Twofish
  key schedule, bytes as polynomials modulo \<open>x^8 + x^6 + x^3 + x^2 + 1\<close>.
\<close>

definition rs_xtime :: "u8 \<Rightarrow> u8" where
  "rs_xtime b = push_bit 1 b XOR (if bit b 7 then 0x4D else 0)"

definition steps_ok :: "u8 list \<Rightarrow> bool" where
  "steps_ok xs = list_all (\<lambda>(a, b). b = rs_xtime a) (zip xs (tl xs))"

lemma rs_from_exp_steps: "steps_ok RS_POLY_FROM_EXP"
  by code_simp

lemma rs_to_exp_inverse:
  "list_all (\<lambda>i. RS_POLY_FROM_EXP ! unat (RS_POLY_TO_EXP ! i) = of_nat (i + 1) \<and> unat (RS_POLY_TO_EXP ! i) \<le> 254) [0..<255]"
  by code_simp

lemma rs_from_exp_Suc: "Suc i < 492 \<Longrightarrow> RS_POLY_FROM_EXP ! Suc i = rs_xtime (RS_POLY_FROM_EXP ! i)"
  using rs_from_exp_steps
  by (auto simp: steps_ok_def list_all_length nth_tl)

lemma rs_from_exp_add:
  "e + a < 492 \<Longrightarrow> RS_POLY_FROM_EXP ! (e + a) = (rs_xtime ^^ a) (RS_POLY_FROM_EXP ! e)"
  by (induction a) (auto simp: rs_from_exp_Suc)

lemma rs_xtime_0 [simp]: "(rs_xtime ^^ n) 0 = 0"
  by (induction n) (auto simp: rs_xtime_def)

lemma unat_minus_one_byte:
  assumes "b \<noteq> 0"
  shows "Suc (unat (b - 1 :: u8)) = unat b \<and> unat (b - 1) < 255"
proof -
  have "unat b < 2 ^ LENGTH(8)" by (rule unsigned_less)
  moreover have "unat b \<noteq> 0" using assms by (simp add: unat_eq_zero)
  ultimately show ?thesis using assms by (simp add: unat_minus_one)
qed

lemma rs_log:
  assumes "b \<noteq> 0"
  shows "RS_POLY_FROM_EXP ! unat (RS_POLY_TO_EXP ! unat (b - 1)) = b"
    and "unat (RS_POLY_TO_EXP ! unat (b - 1)) \<le> 254"
proof -
  have i: "unat (b - 1) < 255" "Suc (unat (b - 1)) = unat b"
    using unat_minus_one_byte [OF assms] by auto
  have "RS_POLY_FROM_EXP ! unat (RS_POLY_TO_EXP ! unat (b - 1)) = of_nat (unat (b - 1) + 1)
      \<and> unat (RS_POLY_TO_EXP ! unat (b - 1)) \<le> 254"
    using rs_to_exp_inverse i(1) unfolding list_all_iff by auto
  then show "RS_POLY_FROM_EXP ! unat (RS_POLY_TO_EXP ! unat (b - 1)) = b"
    and "unat (RS_POLY_TO_EXP ! unat (b - 1)) \<le> 254"
    using i(2) by auto
qed

lemma rs_product:
  assumes "b \<noteq> 0" "a \<le> 237"
  shows "RS_POLY_FROM_EXP ! (unat (RS_POLY_TO_EXP ! unat (b - 1)) + a) = (rs_xtime ^^ a) b"
  using rs_log [OF assms(1)] assms(2) by (simp add: rs_from_exp_add)

text \<open>
  The table lookups of \<open>rs_mul_column\<close> stay inside the tables for every
  column of the matrix and compute field products: byte \<open>j\<close> of \<open>s\<close> has the
  key byte times \<open>x\<close> to the matrix exponent added to it.
\<close>

lemma rs_mul_column_field:
  assumes "length s = 4" "unat a \<le> 237" "unat b \<le> 237" "unat c \<le> 237" "unat d \<le> 237"
  shows "rs_mul_column a b c d s key_byte =
    [s ! 0 XOR (rs_xtime ^^ unat a) key_byte, s ! 1 XOR (rs_xtime ^^ unat b) key_byte,
     s ! 2 XOR (rs_xtime ^^ unat c) key_byte, s ! 3 XOR (rs_xtime ^^ unat d) key_byte]"
proof (cases "key_byte = 0")
  case True
  have "s = [s ! 0, s ! 1, s ! 2, s ! 3]"
    using assms(1) by (auto simp: list_eq_iff_nth_eq less_Suc_eq numeral_eq_Suc)
  then show ?thesis
    using True by (simp add: rs_mul_column_def)
next
  case False
  then show ?thesis
    using assms by (simp add: rs_mul_column_def Let_def rs_product)
qed

lemma RS_MATRIX_bound: "i < 32 \<Longrightarrow> unat (RS_MATRIX ! i) \<le> 237"
proof -
  have "list_all (\<lambda>x. unat x \<le> 237) RS_MATRIX" by code_simp
  then show "i < 32 \<Longrightarrow> unat (RS_MATRIX ! i) \<le> 237" by (simp add: list_all_length)
qed

section \<open>Properties\<close>

text \<open>
  C9: For every key-dependent state, Twofish decryption inverts encryption on
  16-byte blocks and encryption inverts decryption.
\<close>

theorem twofish_roundtrip:
  assumes "length b = 16"
  shows "twofish_decrypt tf (twofish_encrypt tf b) = b \<and> twofish_encrypt tf (twofish_decrypt tf b) = b"
  using assms by (simp add: twofish_dec_enc twofish_enc_dec)

theorem twofish_roundtrip_witness:
  "twofish_decrypt (new256 (replicate 32 3)) (twofish_encrypt (new256 (replicate 32 3)) [0, 1, 2, 3, 4, 5, 6, 7, 8, 9, 10, 11, 12, 13, 14, 15])
    = [0, 1, 2, 3, 4, 5, 6, 7, 8, 9, 10, 11, 12, 13, 14, 15]"
  using twofish_roundtrip [of "[0, 1, 2, 3, 4, 5, 6, 7, 8, 9, 10, 11, 12, 13, 14, 15]" "new256 (replicate 32 3)"] by simp

text \<open>
  The table-driven column multiplication of the key schedule adds, to each
  of the four bytes, the key byte times the matrix entry in the field modulo
  \<open>x^8 + x^6 + x^3 + x^2 + 1\<close>; for every column of the matrix the lookups stay
  inside the tables.
\<close>

theorem rs_key_schedule_field:
  assumes "column < 8" "length s = 4"
  shows "rs_mul_column (RS_MATRIX ! (column * 4)) (RS_MATRIX ! (column * 4 + 1))
      (RS_MATRIX ! (column * 4 + 2)) (RS_MATRIX ! (column * 4 + 3)) s key_byte =
    map (\<lambda>j. s ! j XOR (rs_xtime ^^ unat (RS_MATRIX ! (column * 4 + j))) key_byte) [0..<4]
    \<and> (\<forall>j < 4. key_byte \<noteq> 0 \<longrightarrow> unat (key_byte - 1) < length RS_POLY_TO_EXP \<and>
         unat (RS_POLY_TO_EXP ! unat (key_byte - 1)) + unat (RS_MATRIX ! (column * 4 + j)) < length RS_POLY_FROM_EXP)"
proof -
  have m: "unat (RS_MATRIX ! (column * 4 + j)) \<le> 237" if "j < 4" for j
    using RS_MATRIX_bound [of "column * 4 + j"] assms(1) that by simp
  have "[0..<4] = [0, 1, 2, 3 :: nat]"
    by (simp add: upt_rec)
  then show ?thesis
    using rs_mul_column_field [OF assms(2) m [of 0, simplified] m [of 1] m [of 2] m [of 3]] m
      unat_minus_one_byte [of key_byte] rs_log(2) [of key_byte]
    by (fastforce intro: le_less_trans add_le_mono)
qed

theorem rs_key_schedule_field_witness:
  "rs_mul_column (RS_MATRIX ! (1 * 4)) (RS_MATRIX ! (1 * 4 + 1))
      (RS_MATRIX ! (1 * 4 + 2)) (RS_MATRIX ! (1 * 4 + 3)) [0, 0, 0, 0] 1 =
    map (\<lambda>j. [0, 0, 0, 0] ! j XOR (rs_xtime ^^ unat (RS_MATRIX ! (1 * 4 + j))) 1) [0..<4]"
  using rs_key_schedule_field [of 1 "[0, 0, 0, 0]" 1] by simp

end
