(* ===== verification/Ciphers.thy ===== *)
theory Ciphers
  imports CryptoLib Twofish
begin

text \<open>
  The block ciphers of \<open>vcrypt-core/src/ciphers\<close>: the \<open>BlockCipher\<close> trait as a
  dictionary of operations with its contract as the locale \<open>block_cipher\<close>, the
  five single ciphers with their wrappers around the crates, and the tables
  of \<open>CipherType\<close>.
\<close>

section \<open>Cipher types\<close>

datatype CipherType =
    Aes | Serpent | Twofish | Camellia | Kuznyechik
  | AesTwofish | AesTwofishSerpent | SerpentAes | SerpentTwofishAes | TwofishSerpent
  | CamelliaKuznyechik | CamelliaSerpent | KuznyechikAes | KuznyechikSerpentCamellia | KuznyechikTwofish

definition all_supported :: "CipherType list" where
  "all_supported = [Aes, Serpent, Twofish, Camellia, Kuznyechik, AesTwofish, AesTwofishSerpent,
     SerpentAes, SerpentTwofishAes, TwofishSerpent, CamelliaKuznyechik, CamelliaSerpent,
     KuznyechikAes, KuznyechikSerpentCamellia, KuznyechikTwofish]"

fun ct_key_size :: "CipherType \<Rightarrow> nat" where
  "ct_key_size Aes = 32"
| "ct_key_size Serpent = 32"
| "ct_key_size Twofish = 32"
| "ct_key_size Camellia = 32"
| "ct_key_size Kuznyechik = 32"
| "ct_key_size AesTwofish = 64"
| "ct_key_size AesTwofishSerpent = 96"
| "ct_key_size SerpentAes = 64"
| "ct_key_size SerpentTwofishAes = 96"
| "ct_key_size TwofishSerpent = 64"
| "ct_key_size CamelliaKuznyechik = 64"
| "ct_key_size CamelliaSerpent = 64"
| "ct_key_size KuznyechikAes = 64"
| "ct_key_size KuznyechikSerpentCamellia = 96"
| "ct_key_size KuznyechikTwofish = 64"

fun ct_name :: "CipherType \<Rightarrow> string" where
  "ct_name Aes = ''AES''"
| "ct_name Serpent = ''Serpent''"
| "ct_name Twofish = ''Twofish''"
| "ct_name Camellia = ''Camellia''"
| "ct_name Kuznyechik = ''Kuznyechik''"
| "ct_name AesTwofish = ''AES-Twofish''"
| "ct_name AesTwofishSerpent = ''AES-Twofish-Serpent''"
| "ct_name SerpentAes = ''Serpent-AES''"
| "ct_name SerpentTwofishAes = ''Serpent-Twofish-AES''"
| "ct_name TwofishSerpent = ''Twofish-Serpent''"
| "ct_name CamelliaKuznyechik = ''Camellia-Kuznyechik''"
| "ct_name CamelliaSerpent = ''Camellia-Serpent''"
| "ct_name KuznyechikAes = ''Kuznyechik-AES''"
| "ct_name KuznyechikSerpentCamellia = ''Kuznyechik-Serpent-Camellia''"
| "ct_name KuznyechikTwofish = ''Kuznyechik-Twofish''"

definition is_cascade :: "CipherType \<Rightarrow> bool" where
  "is_cascade ct \<longleftrightarrow> ct \<in> {AesTwofish, AesTwofishSerpent, SerpentAes, SerpentTwofishAes,
     TwofishSerpent, CamelliaKuznyechik, CamelliaSerpent, KuznyechikAes,
     KuznyechikSerpentCamellia, KuznyechikTwofish}"

definition ct_cipher_count :: "CipherType \<Rightarrow> nat" where
  "ct_cipher_count ct =
     (if ct \<in> {Aes, Serpent, Twofish, Camellia, Kuznyechik} then 1
      else if ct \<in> {AesTwofish, SerpentAes, TwofishSerpent, CamelliaKuznyechik, CamelliaSerpent,
                    KuznyechikAes, KuznyechikTwofish} then 2
      else 3)"

lemma all_supported_complete: "set all_supported = UNIV \<and> distinct all_supported"
proof -
  have "ct \<in> set all_supported" for ct
    by (cases ct) (simp_all add: all_supported_def)
  then show ?thesis
    by (auto simp: all_supported_def)
qed

text \<open>So the table enumerates the type, and statements about all ciphers can be evaluated.\<close>

instantiation CipherType :: enum
begin

definition enum_CipherType_def: "enum_class.enum = all_supported"
definition enum_all_CipherType_def: "enum_class.enum_all P \<longleftrightarrow> list_all P all_supported"
definition enum_ex_CipherType_def: "enum_class.enum_ex P \<longleftrightarrow> list_ex P all_supported"

instance
  using all_supported_complete
  by intro_classes
    (auto simp: enum_CipherType_def enum_all_CipherType_def enum_ex_CipherType_def list_all_iff list_ex_iff)

end

lemma ct_key_size_pos [simp]: "0 < ct_key_size ct"
  by (cases ct) auto

section \<open>The BlockCipher trait\<close>

text \<open>
  A type that implements the trait is a dictionary of its constants and
  methods; \<open>'c\<close> is the state of an instance. A method that works in place on
  a buffer returns the new buffer.
\<close>

record 'c block_cipher_ops =
  bc_block_size :: nat
  bc_key_size :: nat
  bc_name :: "'c \<Rightarrow> string"
  bc_encrypt_block :: "'c \<Rightarrow> bytes \<Rightarrow> bytes cres"
  bc_decrypt_block :: "'c \<Rightarrow> bytes \<Rightarrow> bytes cres"
  bc_encrypt_blocks :: "'c \<Rightarrow> bytes \<Rightarrow> bytes cres"
  bc_decrypt_blocks :: "'c \<Rightarrow> bytes \<Rightarrow> bytes cres"

text \<open>The default method of the trait: one call per chunk of the block size, \<open>?\<close> on each.\<close>

definition default_blocks :: "nat \<Rightarrow> (bytes \<Rightarrow> bytes cres) \<Rightarrow> bytes \<Rightarrow> bytes cres" where
  "default_blocks bs f data = bind_res (mapM_res f (chunks bs data)) (\<lambda>cs. Ok (concat cs))"

locale block_cipher =
  fixes B :: "'c block_cipher_ops"
    and valid :: "'c \<Rightarrow> bool"
    and E :: "'c \<Rightarrow> block \<Rightarrow> block"
    and D :: "'c \<Rightarrow> block \<Rightarrow> block"
  assumes block_size: "bc_block_size B = 16"
    and E_length: "valid c \<Longrightarrow> length b = 16 \<Longrightarrow> length (E c b) = 16"
    and D_length: "valid c \<Longrightarrow> length b = 16 \<Longrightarrow> length (D c b) = 16"
    and D_E: "valid c \<Longrightarrow> length b = 16 \<Longrightarrow> D c (E c b) = b"
    and E_D: "valid c \<Longrightarrow> length b = 16 \<Longrightarrow> E c (D c b) = b"
    and encrypt_block: "valid c \<Longrightarrow> length b = 16 \<Longrightarrow> bc_encrypt_block B c b = Ok (E c b)"
    and decrypt_block: "valid c \<Longrightarrow> length b = 16 \<Longrightarrow> bc_decrypt_block B c b = Ok (D c b)"
    and encrypt_block_err:
      "length b \<noteq> 16 \<Longrightarrow> bc_encrypt_block B c b = Err (InvalidBlockSize 16 (length b))"
    and decrypt_block_err:
      "length b \<noteq> 16 \<Longrightarrow> bc_decrypt_block B c b = Err (InvalidBlockSize 16 (length b))"
    and encrypt_blocks: "valid c \<Longrightarrow> 16 dvd length data \<Longrightarrow>
      bc_encrypt_blocks B c data = Ok (concat (map (E c) (chunks 16 data)))"
    and decrypt_blocks: "valid c \<Longrightarrow> 16 dvd length data \<Longrightarrow>
      bc_decrypt_blocks B c data = Ok (concat (map (D c) (chunks 16 data)))"
begin

lemma default_encrypt_blocks:
  assumes "valid c" "16 dvd length data"
  shows "default_blocks 16 (bc_encrypt_block B c) data = bc_encrypt_blocks B c data"
proof -
  have "mapM_res (bc_encrypt_block B c) (chunks 16 data) = Ok (map (E c) (chunks 16 data))"
    using assms chunks_blocks [of 16 data] by (intro mapM_res_Ok encrypt_block) auto
  then show ?thesis
    using encrypt_blocks assms by (simp add: default_blocks_def)
qed

lemma E_blocks_length:
  assumes "valid c" "b \<in> set (map (E c) (chunks 16 data))" "16 dvd length data"
  shows "length b = 16"
  using assms chunks_blocks [of 16 data] by (auto simp: E_length)

lemma D_blocks_length:
  assumes "valid c" "b \<in> set (map (D c) (chunks 16 data))" "16 dvd length data"
  shows "length b = 16"
  using assms chunks_blocks [of 16 data] by (auto simp: D_length)

lemma decrypt_encrypt_blocks:
  assumes "valid c" "16 dvd length data"
  shows "bind_res (bc_encrypt_blocks B c data) (bc_decrypt_blocks B c) = Ok data"
proof -
  let ?cs = "chunks 16 data"
  have len: "\<forall>b \<in> set (map (E c) ?cs). length b = 16"
    using E_blocks_length assms by blast
  then have "16 dvd length (concat (map (E c) ?cs))"
    by (subst length_concat_blocks) auto
  moreover have "chunks 16 (concat (map (E c) ?cs)) = map (E c) ?cs"
    using len by (intro chunks_concat) auto
  moreover have "map (D c \<circ> E c) ?cs = ?cs"
    using assms chunks_blocks [of 16 data] by (intro map_idI) (simp add: D_E)
  ultimately show ?thesis
    using assms by (simp add: encrypt_blocks decrypt_blocks concat_chunks)
qed

end

section \<open>The ciphers of the crates\<close>

text \<open>
  \<open>AesCipher\<close>, \<open>SerpentCipher\<close>, \<open>CamelliaCipher\<close> and \<open>KuznyechikCipher\<close> have the
  same body around different crates: \<open>crate_new\<close> is their constructor,
  \<open>crate_block\<close> a single-block method and \<open>crate_blocks\<close> a batch method, which
  reinterprets the first \<open>n = len / 16\<close> blocks and leaves a remainder alone.
\<close>

definition crate_new :: "string \<Rightarrow> block_lib \<Rightarrow> bytes \<Rightarrow> bytes cres" where
  "crate_new label bl key =
     (if length key \<noteq> 32 then Err (InvalidKeySize 32 (length key))
      else case bl_new bl key of
             Some e \<Rightarrow> Err (CipherInitFailed (label @ '': '' @ e))
           | None \<Rightarrow> Ok key)"

definition crate_block :: "(block \<Rightarrow> block) \<Rightarrow> bytes \<Rightarrow> bytes cres" where
  "crate_block op b =
     (if length b \<noteq> 16 then Err (InvalidBlockSize 16 (length b)) else Ok (op b))"

definition crate_blocks :: "(block list \<Rightarrow> block list) \<Rightarrow> bytes \<Rightarrow> bytes cres" where
  "crate_blocks op data =
     (let n = length data div 16
      in Ok (concat (op (chunks 16 (take (n * 16) data))) @ drop (n * 16) data))"

definition crate_ops :: "string \<Rightarrow> block_lib \<Rightarrow> bytes block_cipher_ops" where
  "crate_ops nm bl = \<lparr> bc_block_size = 16, bc_key_size = 32, bc_name = (\<lambda>_. nm),
     bc_encrypt_block = (\<lambda>k. crate_block (bl_enc bl k)),
     bc_decrypt_block = (\<lambda>k. crate_block (bl_dec bl k)),
     bc_encrypt_blocks = (\<lambda>k. crate_blocks (bl_enc_blocks bl k)),
     bc_decrypt_blocks = (\<lambda>k. crate_blocks (bl_dec_blocks bl k)) \<rparr>"

definition aes_new :: "crypto_lib \<Rightarrow> bytes \<Rightarrow> bytes cres" where
  "aes_new L = crate_new ''AES'' (lib_aes L)"

definition AesCipher :: "crypto_lib \<Rightarrow> bytes block_cipher_ops" where
  "AesCipher L = crate_ops ''AES-256'' (lib_aes L)"

definition serpent_new :: "crypto_lib \<Rightarrow> bytes \<Rightarrow> bytes cres" where
  "serpent_new L = crate_new ''Serpent'' (lib_serpent L)"

definition SerpentCipher :: "crypto_lib \<Rightarrow> bytes block_cipher_ops" where
  "SerpentCipher L = crate_ops ''Serpent'' (lib_serpent L)"

definition camellia_new :: "crypto_lib \<Rightarrow> bytes \<Rightarrow> bytes cres" where
  "camellia_new L = crate_new ''Camellia'' (lib_camellia L)"

definition CamelliaCipher :: "crypto_lib \<Rightarrow> bytes block_cipher_ops" where
  "CamelliaCipher L = crate_ops ''Camellia-256'' (lib_camellia L)"

definition kuznyechik_new :: "crypto_lib \<Rightarrow> bytes \<Rightarrow> bytes cres" where
  "kuznyechik_new L = crate_new ''Kuznyechik'' (lib_kuznyechik L)"

definition KuznyechikCipher :: "crypto_lib \<Rightarrow> bytes block_cipher_ops" where
  "KuznyechikCipher L = crate_ops ''Kuznyechik'' (lib_kuznyechik L)"

section \<open>Twofish\<close>

definition twofish_new :: "bytes \<Rightarrow> Twofish cres" where
  "twofish_new key =
     (if length key \<noteq> 32 then Err (InvalidKeySize 32 (length key)) else Ok (new256 key))"

definition twofish_encrypt_block :: "Twofish \<Rightarrow> bytes \<Rightarrow> bytes cres" where
  "twofish_encrypt_block c b =
     (if length b \<noteq> 16 then Err (InvalidBlockSize 16 (length b)) else Ok (twofish_encrypt c b))"

definition twofish_decrypt_block :: "Twofish \<Rightarrow> bytes \<Rightarrow> bytes cres" where
  "twofish_decrypt_block c b =
     (if length b \<noteq> 16 then Err (InvalidBlockSize 16 (length b)) else Ok (twofish_decrypt c b))"

text \<open>\<open>TwofishCipher\<close> keeps the default batch methods of the trait.\<close>

definition TwofishCipher :: "Twofish block_cipher_ops" where
  "TwofishCipher = \<lparr> bc_block_size = 16, bc_key_size = 32, bc_name = (\<lambda>_. ''Twofish''),
     bc_encrypt_block = twofish_encrypt_block,
     bc_decrypt_block = twofish_decrypt_block,
     bc_encrypt_blocks = (\<lambda>c. default_blocks 16 (twofish_encrypt_block c)),
     bc_decrypt_blocks = (\<lambda>c. default_blocks 16 (twofish_decrypt_block c)) \<rparr>"

section \<open>The single ciphers meet the contract\<close>

lemma default_blocks_Ok:
  assumes "16 dvd length data" "\<And>b. length b = 16 \<Longrightarrow> f b = Ok (h b)"
  shows "default_blocks 16 f data = Ok (concat (map h (chunks 16 data)))"
proof -
  have "mapM_res f (chunks 16 data) = Ok (map h (chunks 16 data))"
    using assms chunks_blocks [of 16 data] by (intro mapM_res_Ok) auto
  then show ?thesis
    by (simp add: default_blocks_def)
qed

interpretation twofish: block_cipher TwofishCipher "\<lambda>_. True" twofish_encrypt twofish_decrypt
  by unfold_locales
    (simp_all add: TwofishCipher_def twofish_encrypt_block_def twofish_decrypt_block_def
      twofish_dec_enc twofish_enc_dec default_blocks_Ok)

lemma crate_blocks_Ok:
  assumes "16 dvd length data" "\<And>bs. \<forall>b \<in> set bs. length b = 16 \<Longrightarrow> op bs = map h bs"
  shows "crate_blocks op data = Ok (concat (map h (chunks 16 data)))"
proof -
  have "op (chunks 16 data) = map h (chunks 16 data)"
    using assms chunks_blocks [of 16 data] by auto
  then show ?thesis
    using assms(1) by (simp add: crate_blocks_def)
qed

lemma crate_block_cipher:
  assumes "block_lib_ok bl"
  shows "block_cipher (crate_ops nm bl) (\<lambda>k. length k = 32) (bl_enc bl) (bl_dec bl)"
  using assms
  by unfold_locales
    (auto simp: crate_ops_def crate_block_def block_lib_ok_def intro!: crate_blocks_Ok)

lemma crate_block_ciphers:
  assumes "lib_ok L"
  shows "block_cipher (AesCipher L) (\<lambda>k. length k = 32) (bl_enc (lib_aes L)) (bl_dec (lib_aes L))"
    and "block_cipher (SerpentCipher L) (\<lambda>k. length k = 32) (bl_enc (lib_serpent L)) (bl_dec (lib_serpent L))"
    and "block_cipher (CamelliaCipher L) (\<lambda>k. length k = 32) (bl_enc (lib_camellia L)) (bl_dec (lib_camellia L))"
    and "block_cipher (KuznyechikCipher L) (\<lambda>k. length k = 32) (bl_enc (lib_kuznyechik L)) (bl_dec (lib_kuznyechik L))"
  using lib_ok_blocks [OF assms]
  by (simp_all add: AesCipher_def SerpentCipher_def CamelliaCipher_def KuznyechikCipher_def crate_block_cipher)

lemma crate_new_Ok_iff:
  "block_lib_ok bl \<Longrightarrow> crate_new label bl key = Ok c \<longleftrightarrow> length key = 32 \<and> c = key"
  by (auto simp: crate_new_def block_lib_ok_def)

lemma twofish_new_Ok_iff:
  "twofish_new key = Ok c \<longleftrightarrow> length key = 32 \<and> c = new256 key"
  by (auto simp: twofish_new_def)

end
