(* ===== verification/Xts.thy ===== *)
theory Xts
  imports Ciphers
begin

text \<open>
  The XTS mode of \<open>vcrypt-core/src/xts/mod.rs\<close>, generic in the block cipher: the
  heap-allocating batch path, the stack path for 512-byte sectors and the path
  with a caller-provided tweak buffer. The abstract specification is the
  textbook definition of XEX on blocks, \<open>xts_ref\<close>, with the tweak doubled in
  the field with \<open>2^128\<close> elements; every path refines it, and decryption
  inverts encryption.
\<close>

section \<open>Operations\<close>

record 'c XtsMode =
  cipher1 :: 'c
  cipher2 :: 'c

definition xts_new :: "'c block_cipher_ops \<Rightarrow> (bytes \<Rightarrow> 'c cres) \<Rightarrow> bytes \<Rightarrow> 'c XtsMode cres" where
  "xts_new B cipher_new key =
     (let key_size = bc_key_size B in
      if length key \<noteq> key_size * 2 then Err (InvalidKeySize (key_size * 2) (length key))
      else bind_res (cipher_new (take key_size key)) (\<lambda>c1.
           bind_res (cipher_new (drop key_size key)) (\<lambda>c2.
           Ok \<lparr> cipher1 = c1, cipher2 = c2 \<rparr>)))"

definition validate_data_length :: "'c block_cipher_ops \<Rightarrow> bytes \<Rightarrow> unit cres" where
  "validate_data_length B data =
     (if length data < bc_block_size B then
        Err (InvalidBlockSize (bc_block_size B) (length data))
      else if length data mod bc_block_size B \<noteq> 0 then
        Err (InvalidDataLength (''XTS requires data length to be a multiple of '' @
          show_nat (bc_block_size B) @ '' (got '' @ show_nat (length data) @ '')''))
      else Ok ())"

definition compute_tweak :: "'c block_cipher_ops \<Rightarrow> 'c XtsMode \<Rightarrow> u64 \<Rightarrow> bytes cres" where
  "compute_tweak B xts sector_index =
     bc_encrypt_block B (cipher2 xts) (blit (replicate 16 0) 0 (le_bytes 8 sector_index))"

text \<open>The two \<open>u64\<close> halves are read in the byte order of the (little-endian) target.\<close>

definition multiply_tweak :: "bytes \<Rightarrow> bytes" where
  "multiply_tweak tweak =
     (let low = from_le (sub tweak 0 8) :: u64;
          high = from_le (sub tweak 8 16) :: u64;
          t = blit tweak 0 (le_bytes 8 (push_bit 1 low) @
                le_bytes 8 (push_bit 1 high OR drop_bit 63 low))
      in if drop_bit 63 high AND 1 \<noteq> 0 then t[0 := t ! 0 XOR 0x87] else t)"

definition precompute_tweaks_into ::
  "'c block_cipher_ops \<Rightarrow> 'c XtsMode \<Rightarrow> u64 \<Rightarrow> nat \<Rightarrow> bytes \<Rightarrow> bytes cres" where
  "precompute_tweaks_into B xts sector_index n_blocks tweaks =
     bind_res (compute_tweak B xts sector_index) (\<lambda>t.
     bind_res (fold_res (\<lambda>i (tweaks, t).
         if (i + 1) * 16 \<le> length tweaks
         then Ok (blit tweaks (i * 16) t, multiply_tweak t) else Panic)
       [0..<n_blocks] (tweaks, t)) (\<lambda>(tweaks, t).
     Ok tweaks))"

definition precompute_tweaks ::
  "'c block_cipher_ops \<Rightarrow> 'c XtsMode \<Rightarrow> u64 \<Rightarrow> nat \<Rightarrow> bytes cres" where
  "precompute_tweaks B xts sector_index n_blocks =
     precompute_tweaks_into B xts sector_index n_blocks (replicate (n_blocks * 16) 0)"

text \<open>
  The loop reads and writes through raw pointers; an access outside one of
  the two buffers, undefined behaviour in Rust, is \<open>Panic\<close> here.
\<close>

definition batch_xor_blocks :: "bytes \<Rightarrow> bytes \<Rightarrow> nat \<Rightarrow> bytes cres" where
  "batch_xor_blocks data tweaks n_blocks =
     fold_res (\<lambda>i data.
       let off = i * 16 in
       if off + 16 \<le> length data \<and> off + 16 \<le> length tweaks then
         let d_val = from_le (sub data off (off + 16)) :: u128;
             t_val = from_le (sub tweaks off (off + 16)) :: u128
         in Ok (blit data off (le_bytes 16 (d_val XOR t_val)))
       else Panic)
     [0..<n_blocks] data"

definition xts_encrypt :: "'c block_cipher_ops \<Rightarrow> 'c XtsMode \<Rightarrow> u64 \<Rightarrow> bytes \<Rightarrow> bytes cres" where
  "xts_encrypt B xts sector_index data =
     bind_res (validate_data_length B data) (\<lambda>_.
     let n_blocks = length data div bc_block_size B in
     bind_res (precompute_tweaks B xts sector_index n_blocks) (\<lambda>tweaks.
     bind_res (batch_xor_blocks data tweaks n_blocks) (\<lambda>data.
     bind_res (bc_encrypt_blocks B (cipher1 xts) data) (\<lambda>data.
     batch_xor_blocks data tweaks n_blocks))))"

definition xts_decrypt :: "'c block_cipher_ops \<Rightarrow> 'c XtsMode \<Rightarrow> u64 \<Rightarrow> bytes \<Rightarrow> bytes cres" where
  "xts_decrypt B xts sector_index data =
     bind_res (validate_data_length B data) (\<lambda>_.
     let n_blocks = length data div bc_block_size B in
     bind_res (precompute_tweaks B xts sector_index n_blocks) (\<lambda>tweaks.
     bind_res (batch_xor_blocks data tweaks n_blocks) (\<lambda>data.
     bind_res (bc_decrypt_blocks B (cipher1 xts) data) (\<lambda>data.
     batch_xor_blocks data tweaks n_blocks))))"

text \<open>\<open>process_sector\<close> as compiled for release, where the \<open>debug_assert\<close> on the length is gone.\<close>

definition process_sector ::
  "'c block_cipher_ops \<Rightarrow> 'c XtsMode \<Rightarrow> u64 \<Rightarrow> bytes \<Rightarrow> bool \<Rightarrow> bytes cres" where
  "process_sector B xts sector_index data encrypt =
     bind_res (validate_data_length B data) (\<lambda>_.
     let n_blocks = 32 in
     bind_res (precompute_tweaks_into B xts sector_index n_blocks (replicate 512 0)) (\<lambda>tweaks.
     bind_res (batch_xor_blocks data tweaks n_blocks) (\<lambda>data.
     bind_res (if encrypt then bc_encrypt_blocks B (cipher1 xts) data
               else bc_decrypt_blocks B (cipher1 xts) data) (\<lambda>data.
     batch_xor_blocks data tweaks n_blocks))))"

definition process_arbitrary ::
  "'c block_cipher_ops \<Rightarrow> 'c XtsMode \<Rightarrow> u64 \<Rightarrow> bytes \<Rightarrow> bool \<Rightarrow> bytes \<Rightarrow> bytes cres" where
  "process_arbitrary B xts sector_index data encrypt tweak_buf =
     bind_res (validate_data_length B data) (\<lambda>_.
     let n_blocks = length data div bc_block_size B;
         needed = n_blocks * bc_block_size B in
     if length tweak_buf < needed then
       Err (InvalidDataLength (''tweak buffer too small: need '' @ show_nat needed @
         '', got '' @ show_nat (length tweak_buf)))
     else
     bind_res (precompute_tweaks_into B xts sector_index n_blocks tweak_buf) (\<lambda>tweak_buf.
     bind_res (batch_xor_blocks data tweak_buf n_blocks) (\<lambda>data.
     bind_res (if encrypt then bc_encrypt_blocks B (cipher1 xts) data
               else bc_decrypt_blocks B (cipher1 xts) data) (\<lambda>data.
     batch_xor_blocks data tweak_buf n_blocks))))"

section \<open>Specification\<close>

text \<open>
  \<open>gf_double\<close> is multiplication by \<open>x\<close> modulo \<open>x^128 + x^7 + x^2 + x + 1\<close>, a
  block read as a little-endian number; \<open>tweak_list\<close> the tweaks of a data unit
  and \<open>xts_ref\<close> the mode itself, block by block.
\<close>

definition gf_double :: "u128 \<Rightarrow> u128" where
  "gf_double w = push_bit 1 w XOR (if bit w 127 then 0x87 else 0)"

definition tweak_list :: "block \<Rightarrow> nat \<Rightarrow> block list" where
  "tweak_list t n = map (\<lambda>i. le_bytes 16 ((gf_double ^^ i) (from_le t))) [0..<n]"

definition xts_ref :: "(block \<Rightarrow> block) \<Rightarrow> block \<Rightarrow> bytes \<Rightarrow> bytes" where
  "xts_ref F t data =
     concat (map2 (\<lambda>p tw. xor_bytes (F (xor_bytes p tw)) tw)
       (chunks 16 data) (tweak_list t (length data div 16)))"

section \<open>Doubling the tweak\<close>

lemma from_le_append:
  "from_le (xs @ ys) = (from_le xs OR push_bit (8 * length xs) (from_le ys) :: 'a::len word)"
  by (induction xs) (simp_all add: push_bit_or ac_simps push_bit_push_bit)

lemma ucast_from_le:
  assumes "8 * length bs \<le> LENGTH('a::len)" "LENGTH('a) \<le> LENGTH('b::len)"
  shows "ucast (from_le bs :: 'a word) = (from_le bs :: 'b word)"
  by (rule bit_word_eqI) (use assms in \<open>auto simp: bit_simps bit_from_le\<close>)

lemma from_le_xor_hd:
  "bs \<noteq> [] \<Longrightarrow> from_le (bs[0 := bs ! 0 XOR v]) = (from_le bs XOR ucast v :: 'a::len word)"
proof (cases bs)
  case (Cons b bs')
  have "ucast (b XOR v) OR push_bit 8 w = (ucast b OR push_bit 8 w) XOR ucast v" for w :: "'a word"
    by (rule bit_word_eqI) (auto simp: bit_simps dest: bit_imp_le_length)
  then show ?thesis
    using Cons by simp
qed simp

lemma length_multiply_tweak [simp]: "length t = 16 \<Longrightarrow> length (multiply_tweak t) = 16"
  by (simp add: multiply_tweak_def Let_def)

lemma gf_double_halves:
  fixes low high :: u64
  shows "ucast (push_bit 1 low) OR push_bit 64 (ucast (push_bit 1 high OR drop_bit 63 low)) =
    (push_bit 1 (ucast low OR push_bit 64 (ucast high)) :: u128)"
proof (rule bit_word_eqI)
  fix n assume "n < LENGTH(128)"
  consider "n = 0" | "0 < n" "n < 64" | "n = 64" | "64 < n"
    by linarith
  then show "bit (ucast (push_bit 1 low) OR push_bit 64 (ucast (push_bit 1 high OR drop_bit 63 low)) :: u128) n
    = bit (push_bit 1 (ucast low OR push_bit 64 (ucast high)) :: u128) n"
    using \<open>n < LENGTH(128)\<close>
    by cases (auto simp: bit_simps simp del: push_bit_Suc dest: bit_imp_le_length)
qed

lemma multiply_tweak_gf:
  assumes "length t = 16"
  shows "from_le (multiply_tweak t) = gf_double (from_le t)"
proof -
  let ?low = "from_le (sub t 0 8) :: u64" and ?high = "from_le (sub t 8 16) :: u64"
  let ?lo = "push_bit 1 ?low" and ?hi = "push_bit 1 ?high OR drop_bit 63 ?low"
  have t: "t = sub t 0 8 @ sub t 8 16"
    using assms by (simp add: sub_def)
  have ft: "from_le t = (ucast ?low OR push_bit 64 (ucast ?high) :: u128)"
    by (subst t, subst from_le_append) (use assms in \<open>simp add: ucast_from_le\<close>)
  have new: "blit t 0 (le_bytes 8 ?lo @ le_bytes 8 ?hi) = le_bytes 8 ?lo @ le_bytes 8 ?hi"
    using assms by (simp add: blit_def)
  have fb: "from_le (le_bytes 8 w) = (ucast w :: u128)" for w :: u64
    using ucast_from_le [of "le_bytes 8 w", where 'a = 64 and 'b = 128] by simp
  have fn: "from_le (le_bytes 8 ?lo @ le_bytes 8 ?hi) = (push_bit 1 (from_le t) :: u128)"
    by (simp only: from_le_append fb ft length_le_bytes) (use gf_double_halves in simp)
  have msb: "drop_bit 63 ?high AND 1 \<noteq> 0 \<longleftrightarrow> bit (from_le t :: u128) 127"
  proof -
    have "drop_bit 63 ?high AND 1 \<noteq> 0 \<longleftrightarrow> bit ?high 63"
      by (simp only: and_one_eq bit_iff_odd_drop_bit even_iff_mod_2_eq_zero)
    also have "\<dots> \<longleftrightarrow> bit (from_le t :: u128) 127"
      by (auto simp: ft bit_simps dest: bit_imp_le_length)
    finally show ?thesis .
  qed
  have mt: "multiply_tweak t = (if bit (from_le t :: u128) 127
      then (le_bytes 8 ?lo @ le_bytes 8 ?hi)[0 := (le_bytes 8 ?lo @ le_bytes 8 ?hi) ! 0 XOR 0x87]
      else le_bytes 8 ?lo @ le_bytes 8 ?hi)"
    unfolding multiply_tweak_def Let_def new msb ..
  have ne: "le_bytes 8 v @ le_bytes 8 w \<noteq> []" for v w :: u64
    by (simp add: le_bytes_def)
  have u: "ucast (0x87 :: u8) = (0x87 :: u128)"
    by simp
  show ?thesis
    by (cases "bit (from_le t :: u128) 127")
      (simp_all only: mt gf_double_def if_True if_False from_le_xor_hd [OF ne] fn u xor.right_neutral)
qed

lemma multiply_tweak_eq:
  assumes "length t = 16"
  shows "multiply_tweak t = le_bytes 16 (gf_double (from_le t))"
proof -
  have "le_bytes 16 (from_le (multiply_tweak t) :: u128) = multiply_tweak t"
    by (rule le_bytes_from_le) (simp_all add: assms)
  then show ?thesis
    by (simp add: multiply_tweak_gf [OF assms])
qed

section \<open>The tweak buffer and the exclusive or\<close>

lemma length_tweak_list [simp]: "length (tweak_list t n) = n"
  by (simp add: tweak_list_def)

lemma tweak_list_blocks: "tw \<in> set (tweak_list t n) \<Longrightarrow> length tw = 16"
  by (auto simp: tweak_list_def)

lemma length_concat_tweaks [simp]: "length (concat (tweak_list t n)) = n * 16"
  using length_concat_blocks [of "tweak_list t n" 16] tweak_list_blocks by auto

lemma tweak_list_Suc:
  "tweak_list t (Suc n) = tweak_list t n @ [le_bytes 16 ((gf_double ^^ n) (from_le t))]"
  by (simp add: tweak_list_def)

lemma tweak_loop:
  assumes "length t = 16" "n * 16 \<le> length tweaks"
  shows "fold_res (\<lambda>i (tweaks, t).
           if (i + 1) * 16 \<le> length tweaks
           then Ok (blit tweaks (i * 16) t, multiply_tweak t) else Panic)
         [0..<n] (tweaks, t) =
       (Ok (concat (tweak_list t n) @ drop (n * 16) tweaks,
            le_bytes 16 ((gf_double ^^ n) (from_le t))) :: (bytes \<times> bytes) cres)"
  using assms(2)
proof (induction n)
  case 0
  then show ?case
    using assms(1) by (simp add: tweak_list_def)
next
  case (Suc n)
  then show ?case
    by (simp add: fold_res_upt_Suc tweak_list_Suc blit_def multiply_tweak_eq add.commute del: upt_Suc)
qed

lemma xor_loop:
  assumes "n * 16 \<le> length data" "n * 16 \<le> length tweaks"
  shows "batch_xor_blocks data tweaks n =
    Ok (xor_bytes (take (n * 16) data) (take (n * 16) tweaks) @ drop (n * 16) data)"
  using assms
proof (induction n)
  case 0
  then show ?case
    by (simp add: batch_xor_blocks_def xor_bytes_def)
next
  case (Suc n)
  let ?x = "xor_bytes (take (n * 16) data) (take (n * 16) tweaks)"
  let ?d = "?x @ drop (n * 16) data"
  have lx: "length ?x = n * 16"
    using Suc.prems by simp
  have sd: "sub ?d (n * 16) (n * 16 + 16) = take 16 (drop (n * 16) data)"
    using Suc.prems by (simp add: sub_def)
  have xo: "le_bytes 16 ((from_le (take 16 (drop (n * 16) data)) :: u128) XOR
      from_le (sub tweaks (n * 16) (n * 16 + 16)))
    = xor_bytes (take 16 (drop (n * 16) data)) (take 16 (drop (n * 16) tweaks))"
    using Suc.prems by (subst le_bytes_xor_from_le) (simp_all add: sub_def)
  have sp: "blit ?d (n * 16) (xor_bytes (take 16 (drop (n * 16) data)) (take 16 (drop (n * 16) tweaks)))
    = xor_bytes (take (Suc n * 16) data) (take (Suc n * 16) tweaks) @ drop (Suc n * 16) data"
  proof -
    have S: "Suc n * 16 = n * 16 + 16" by simp
    show ?thesis
      unfolding S take_add blit_def
      using Suc.prems lx by (simp add: xor_bytes_append add.commute)
  qed
  have "batch_xor_blocks data tweaks (Suc n) = bind_res (batch_xor_blocks data tweaks n)
    (\<lambda>data. if n * 16 + 16 \<le> length data \<and> n * 16 + 16 \<le> length tweaks
       then Ok (blit data (n * 16) (le_bytes 16 ((from_le (sub data (n * 16) (n * 16 + 16)) :: u128) XOR
              from_le (sub tweaks (n * 16) (n * 16 + 16))))) else Panic)"
    unfolding batch_xor_blocks_def fold_res_upt_Suc Let_def ..
  also have "\<dots> = Ok (blit ?d (n * 16) (xor_bytes (take 16 (drop (n * 16) data)) (take 16 (drop (n * 16) tweaks))))"
    using Suc.prems by (simp add: Suc.IH sd xo [simplified])
  finally show ?case
    by (simp only: sp)
qed

lemma batch_xor_blocks_Ok:
  assumes "length data = n * 16" "n * 16 \<le> length tweaks"
  shows "batch_xor_blocks data tweaks n = Ok (xor_bytes data (take (n * 16) tweaks))"
  using xor_loop [of n data tweaks] assms by simp

text \<open>The exclusive or of whole buffers is the exclusive or of their blocks.\<close>

lemma xor_concat:
  assumes "length bs = length ts" "\<forall>b \<in> set bs. length b = k" "\<forall>t \<in> set ts. length t = k"
  shows "xor_bytes (concat bs) (concat ts) = concat (map2 xor_bytes bs ts)"
  using assms
proof (induction bs ts rule: list_induct2)
  case Nil
  then show ?case by (simp add: xor_bytes_def)
next
  case (Cons b bs t ts)
  then show ?case by (simp add: xor_bytes_append)
qed

section \<open>The reference mode\<close>

text \<open>A block function that keeps the block length, as encryption and decryption under one key do.\<close>

definition block_fun :: "(block \<Rightarrow> block) \<Rightarrow> bool" where
  "block_fun F \<longleftrightarrow> (\<forall>b. length b = 16 \<longrightarrow> length (F b) = 16)"

definition xts_blocks :: "(block \<Rightarrow> block) \<Rightarrow> block list \<Rightarrow> block list \<Rightarrow> block list" where
  "xts_blocks F bs ts = map2 (\<lambda>p tw. xor_bytes (F (xor_bytes p tw)) tw) bs ts"

lemma zip_lengths:
  assumes "(p, tw) \<in> set (zip bs ts)" "\<forall>b \<in> set bs. length b = n" "\<forall>t \<in> set ts. length t = n"
  shows "length p = n \<and> length tw = n"
  using assms set_zip_leftD set_zip_rightD by metis

lemma xts_blocks_lengths:
  assumes "block_fun F" "\<forall>b \<in> set bs. length b = 16" "\<forall>t \<in> set ts. length t = 16"
  shows "\<forall>b \<in> set (xts_blocks F bs ts). length b = 16"
  using zip_lengths [OF _ assms(2,3)] assms(1) by (auto simp: xts_blocks_def block_fun_def)

lemma xts_blocks_inverse:
  assumes "length bs = length ts" "block_fun F"
    and "\<And>b. length b = 16 \<Longrightarrow> G (F b) = b"
    and "\<forall>b \<in> set bs. length b = 16" "\<forall>t \<in> set ts. length t = 16"
  shows "xts_blocks G (xts_blocks F bs ts) ts = bs"
  using assms
  by (induction bs ts rule: list_induct2) (auto simp: xts_blocks_def block_fun_def)

lemma xts_blocks_decompose:
  "length bs = length ts \<Longrightarrow>
   map2 xor_bytes (map F (map2 xor_bytes bs ts)) ts = xts_blocks F bs ts"
  by (induction bs ts rule: list_induct2) (auto simp: xts_blocks_def)

lemma xts_ref_blocks:
  "xts_ref F t data = concat (xts_blocks F (chunks 16 data) (tweak_list t (length data div 16)))"
  by (simp add: xts_ref_def xts_blocks_def)

lemma chunks16:
  assumes "16 dvd length data"
  shows "\<forall>b \<in> set (chunks 16 data). length b = 16"
    and "length (chunks 16 data) = length (tweak_list t (length data div 16))"
    and "\<forall>tw \<in> set (tweak_list t (length data div 16)). length tw = 16"
  using assms chunks_blocks [of 16 data] length_chunks [of 16 data] tweak_list_blocks by auto

lemma length_xts_ref:
  assumes "block_fun F" "16 dvd length data"
  shows "length (xts_ref F t data) = length data"
proof -
  note c = chunks16(1) [OF assms(2)] chunks16(2,3) [OF assms(2), where t = t]
  have "\<forall>b \<in> set (xts_blocks F (chunks 16 data) (tweak_list t (length data div 16))). length b = 16"
    by (rule xts_blocks_lengths [OF assms(1) c(1,3)])
  then have "length (xts_ref F t data) =
      length (xts_blocks F (chunks 16 data) (tweak_list t (length data div 16))) * 16"
    unfolding xts_ref_blocks by (rule length_concat_blocks)
  also have "\<dots> = length data"
    using c(2) assms(2) by (simp add: xts_blocks_def)
  finally show ?thesis .
qed

lemma xts_ref_inverse:
  assumes "block_fun F" "\<And>b. length b = 16 \<Longrightarrow> G (F b) = b" "16 dvd length data"
  shows "xts_ref G t (xts_ref F t data) = data"
proof -
  let ?ts = "tweak_list t (length data div 16)"
  note c = chunks16(1) [OF assms(3)] chunks16(2,3) [OF assms(3), where t = t]
  have "chunks 16 (xts_ref F t data) = xts_blocks F (chunks 16 data) ?ts"
    unfolding xts_ref_blocks by (rule chunks_concat [OF _ xts_blocks_lengths [OF assms(1) c(1,3)]]) simp
  then have "xts_ref G t (xts_ref F t data) = concat (xts_blocks G (xts_blocks F (chunks 16 data) ?ts) ?ts)"
    unfolding xts_ref_blocks [of G] by (simp add: length_xts_ref [OF assms(1,3)])
  also have "\<dots> = data"
    using xts_blocks_inverse [OF c(2) assms(1,2) c(1,3)] by (simp add: concat_chunks)
  finally show ?thesis .
qed

text \<open>Whitening a buffer, applying a batch operation and whitening again is the reference mode.\<close>

lemma xts_core:
  assumes "16 dvd length data" "n = length data div 16" "block_fun F"
    and op: "\<And>d. 16 dvd length d \<Longrightarrow> op d = Ok (concat (map F (chunks 16 d)))"
    and tw: "take (n * 16) tweaks = concat (tweak_list t n)" "n * 16 \<le> length tweaks"
  shows "bind_res (batch_xor_blocks data tweaks n) (\<lambda>d.
         bind_res (op d) (\<lambda>d. batch_xor_blocks d tweaks n)) = Ok (xts_ref F t data)"
proof -
  let ?bs = "chunks 16 data" and ?ts = "tweak_list t n"
  let ?xs = "map2 xor_bytes ?bs ?ts"
  note c = chunks16(1) [OF assms(1)] chunks16(2,3) [OF assms(1), where t = t, folded assms(2)]
  have n: "length data = n * 16"
    using assms(1,2) by simp
  have xs: "\<forall>b \<in> set ?xs. length b = 16"
    using zip_lengths [OF _ c(1,3)] by auto
  have fxs: "\<forall>b \<in> set (map F ?xs). length b = 16"
    using xs assms(3) by (auto simp: block_fun_def)
  have lx: "length ?xs = n"
    using c(2) by simp
  have 1: "batch_xor_blocks data tweaks n = Ok (concat ?xs)"
    using batch_xor_blocks_Ok [OF n tw(2)] xor_concat [OF c(2,1,3)]
    by (simp add: tw(1) concat_chunks)
  have "16 dvd length (concat ?xs)"
    using length_concat_blocks [OF xs] by simp
  then have 2: "op (concat ?xs) = Ok (concat (map F ?xs))"
    using op [of "concat ?xs"] chunks_concat [OF _ xs] by simp
  have "length (concat (map F ?xs)) = n * 16"
    using length_concat_blocks [OF fxs] lx by simp
  then have 3: "batch_xor_blocks (concat (map F ?xs)) tweaks n = Ok (concat (map2 xor_bytes (map F ?xs) ?ts))"
    using batch_xor_blocks_Ok [OF _ tw(2)] xor_concat [OF _ fxs c(3)] lx by (simp add: tw(1))
  show ?thesis
    unfolding 1 bind_res.simps 2 3 xts_blocks_decompose [OF c(2)] xts_ref_blocks assms(2) [symmetric] ..
qed

section \<open>Every path computes the reference mode\<close>

definition tweak_input :: "u64 \<Rightarrow> block" where
  "tweak_input sector_index = le_bytes 8 sector_index @ replicate 8 0"

lemma length_tweak_input [simp]: "length (tweak_input i) = 16"
  by (simp add: tweak_input_def)

context block_cipher
begin

lemma compute_tweak_E:
  "valid (cipher2 x) \<Longrightarrow> compute_tweak B x i = Ok (E (cipher2 x) (tweak_input i))"
  by (simp add: compute_tweak_def tweak_input_def blit_def encrypt_block)

lemma precompute_tweaks_into_E:
  assumes "valid (cipher2 x)" "n * 16 \<le> length buf"
  shows "precompute_tweaks_into B x i n buf =
    Ok (concat (tweak_list (E (cipher2 x) (tweak_input i)) n) @ drop (n * 16) buf)"
  using assms tweak_loop [OF E_length [OF assms(1) length_tweak_input] assms(2)]
  by (simp add: precompute_tweaks_into_def compute_tweak_E)

lemma validate_ok: "validate_data_length B data = Ok () \<longleftrightarrow> 16 dvd length data \<and> data \<noteq> []"
  by (auto simp: validate_data_length_def block_size mod_eq_0_iff_dvd dest: dvd_imp_le)

lemma block_funs:
  assumes "valid c"
  shows "block_fun (E c)" "block_fun (D c)"
  using assms by (auto simp: block_fun_def E_length D_length)

lemma precompute_tweaks_E:
  assumes "valid (cipher2 x)"
  shows "precompute_tweaks B x i n = Ok (concat (tweak_list (E (cipher2 x) (tweak_input i)) n))"
  using precompute_tweaks_into_E [OF assms, of n "replicate (n * 16) 0"]
  by (simp add: precompute_tweaks_def)

lemma xts_encrypt_E:
  assumes "valid (cipher1 x)" "valid (cipher2 x)" "16 dvd length data" "data \<noteq> []"
  shows "xts_encrypt B x i data = Ok (xts_ref (E (cipher1 x)) (E (cipher2 x) (tweak_input i)) data)"
proof -
  have v: "validate_data_length B data = Ok ()"
    using validate_ok assms by blast
  show ?thesis
    unfolding xts_encrypt_def Let_def v bind_res.simps block_size precompute_tweaks_E [OF assms(2)]
    by (rule xts_core [OF assms(3) refl block_funs(1) [OF assms(1)]])
      (simp_all add: encrypt_blocks assms)
qed

lemma xts_decrypt_D:
  assumes "valid (cipher1 x)" "valid (cipher2 x)" "16 dvd length data" "data \<noteq> []"
  shows "xts_decrypt B x i data = Ok (xts_ref (D (cipher1 x)) (E (cipher2 x) (tweak_input i)) data)"
proof -
  have v: "validate_data_length B data = Ok ()"
    using validate_ok assms by blast
  show ?thesis
    unfolding xts_decrypt_def Let_def v bind_res.simps block_size precompute_tweaks_E [OF assms(2)]
    by (rule xts_core [OF assms(3) refl block_funs(2) [OF assms(1)]])
      (simp_all add: decrypt_blocks assms)
qed

lemma xts_decrypt_encrypt:
  assumes "valid (cipher1 x)" "valid (cipher2 x)" "16 dvd length data" "data \<noteq> []"
  shows "bind_res (xts_encrypt B x i data) (xts_decrypt B x i) = Ok data"
proof -
  let ?t = "E (cipher2 x) (tweak_input i)"
  have len: "length (xts_ref (E (cipher1 x)) ?t data) = length data"
    by (rule length_xts_ref) (use assms block_funs in auto)
  then have ne: "xts_ref (E (cipher1 x)) ?t data \<noteq> []"
    using assms(4) by force
  have "xts_ref (D (cipher1 x)) ?t (xts_ref (E (cipher1 x)) ?t data) = data"
    by (rule xts_ref_inverse) (use assms block_funs D_E in auto)
  then show ?thesis
    using xts_decrypt_D [of x "xts_ref (E (cipher1 x)) ?t data" i] len ne assms
    by (simp add: xts_encrypt_E)
qed

lemma process_arbitrary_E:
  assumes "valid (cipher1 x)" "valid (cipher2 x)" "16 dvd length data" "data \<noteq> []"
    "length data \<le> length buf"
  shows "process_arbitrary B x i data encrypt buf =
    (if encrypt then xts_encrypt B x i data else xts_decrypt B x i data)"
proof -
  have v: "validate_data_length B data = Ok ()"
    using validate_ok assms by blast
  have n: "length data div 16 * 16 = length data"
    using assms(3) by simp
  have b: "length data div 16 * 16 \<le> length buf"
    using assms(5) n by simp
  have nl: "\<not> length buf < length data div 16 * 16"
    using b by simp
  have "bind_res (batch_xor_blocks data (concat (tweak_list t (length data div 16)) @ drop (length data div 16 * 16) buf) (length data div 16))
     (\<lambda>d. bind_res (op d) (\<lambda>d. batch_xor_blocks d (concat (tweak_list t (length data div 16)) @ drop (length data div 16 * 16) buf) (length data div 16)))
     = Ok (xts_ref F t data)"
    if "block_fun F" "\<And>d. 16 dvd length d \<Longrightarrow> op d = Ok (concat (map F (chunks 16 d)))" for F op t
    by (rule xts_core [OF assms(3) refl that]) simp_all
  note core = this
  show ?thesis
    unfolding process_arbitrary_def Let_def v bind_res.simps block_size
      precompute_tweaks_into_E [OF assms(2) b] if_not_P [OF nl]
    using core [OF block_funs(1) [OF assms(1)] encrypt_blocks [OF assms(1)]]
      core [OF block_funs(2) [OF assms(1)] decrypt_blocks [OF assms(1)]]
    by (cases encrypt) (simp_all only: if_True if_False xts_encrypt_E [OF assms(1-4)] xts_decrypt_D [OF assms(1-4)])
qed

lemma process_sector_E:
  assumes "valid (cipher1 x)" "valid (cipher2 x)" "length data = 512"
  shows "process_sector B x i data encrypt =
    (if encrypt then xts_encrypt B x i data else xts_decrypt B x i data)"
proof -
  have ne: "data \<noteq> []" "16 dvd length data"
    using assms(3) by auto
  have "process_sector B x i data encrypt = process_arbitrary B x i data encrypt (replicate 512 0)"
    using assms(3) by (simp add: process_sector_def process_arbitrary_def Let_def block_size)
  then show ?thesis
    using process_arbitrary_E [OF assms(1,2) ne(2,1), of "replicate 512 0"] assms(3) by simp
qed

end

section \<open>Properties\<close>

text \<open>
  C2: The batch XTS path is the textbook mode: with a block cipher that meets
  its contract, encryption and decryption of a non-empty block-aligned buffer
  return, block by block, \<open>F (P xor T_j) xor T_j\<close>, where \<open>T_0\<close> is the encrypted
  sector number and each next tweak is doubled in the field with \<open>2^128\<close> elements.
\<close>

theorem xts_refines_reference:
  assumes "block_cipher B valid E D" "valid (cipher1 x)" "valid (cipher2 x)"
    "16 dvd length data" "data \<noteq> []"
  shows "xts_encrypt B x i data = Ok (xts_ref (E (cipher1 x)) (E (cipher2 x) (tweak_input i)) data)
    \<and> xts_decrypt B x i data = Ok (xts_ref (D (cipher1 x)) (E (cipher2 x) (tweak_input i)) data)"
  using block_cipher.xts_encrypt_E [OF assms] block_cipher.xts_decrypt_D [OF assms] by blast

theorem xts_refines_reference_witness:
  "xts_encrypt TwofishCipher \<lparr> cipher1 = new256 (replicate 32 1), cipher2 = new256 (replicate 32 2) \<rparr> 5 (replicate 32 0) =
   Ok (xts_ref (twofish_encrypt (new256 (replicate 32 1))) (twofish_encrypt (new256 (replicate 32 2)) (tweak_input 5)) (replicate 32 0))"
  using xts_refines_reference [OF twofish.block_cipher_axioms,
      where x = "\<lparr> cipher1 = new256 (replicate 32 1), cipher2 = new256 (replicate 32 2) \<rparr>"
        and data = "replicate 32 0" and i = 5]
  by simp

text \<open>
  C1: XTS decryption with the same sector number inverts XTS encryption, for
  every buffer the mode accepts.
\<close>

theorem xts_roundtrip:
  assumes "block_cipher B valid E D" "valid (cipher1 x)" "valid (cipher2 x)"
    "16 dvd length data" "data \<noteq> []"
  shows "bind_res (xts_encrypt B x i data) (xts_decrypt B x i) = Ok data"
  using block_cipher.xts_decrypt_encrypt [OF assms] .

theorem xts_roundtrip_witness:
  "bind_res (xts_encrypt TwofishCipher \<lparr> cipher1 = new256 (replicate 32 1), cipher2 = new256 (replicate 32 2) \<rparr> 5 (replicate 48 9))
     (xts_decrypt TwofishCipher \<lparr> cipher1 = new256 (replicate 32 1), cipher2 = new256 (replicate 32 2) \<rparr> 5)
   = Ok (replicate 48 9)"
  by (rule xts_roundtrip [OF twofish.block_cipher_axioms]) simp_all

text \<open>
  C8: The allocation-free paths compute the same function: \<open>process_arbitrary\<close>
  with any tweak buffer that is long enough, whatever it holds, and
  \<open>process_sector\<close> on a 512-byte sector equal the batch path.
\<close>

theorem xts_paths_agree:
  assumes "block_cipher B valid E D" "valid (cipher1 x)" "valid (cipher2 x)"
    "16 dvd length data" "data \<noteq> []" "length data \<le> length buf"
  shows "process_arbitrary B x i data encrypt buf = (if encrypt then xts_encrypt B x i data else xts_decrypt B x i data)
    \<and> (length data = 512 \<longrightarrow>
       process_sector B x i data encrypt = (if encrypt then xts_encrypt B x i data else xts_decrypt B x i data))"
  using block_cipher.process_arbitrary_E [OF assms] block_cipher.process_sector_E [OF assms(1-3)] by blast

theorem xts_paths_agree_witness:
  "process_sector TwofishCipher \<lparr> cipher1 = new256 [], cipher2 = new256 [] \<rparr> 7 (replicate 512 1) True =
   xts_encrypt TwofishCipher \<lparr> cipher1 = new256 [], cipher2 = new256 [] \<rparr> 7 (replicate 512 1)"
  using xts_paths_agree [OF twofish.block_cipher_axioms, where x = "\<lparr> cipher1 = new256 [], cipher2 = new256 [] \<rparr>"
      and data = "replicate 512 1" and buf = "replicate 512 0" and i = 7 and encrypt = True]
  by simp

text \<open>
  The tweak update on two 64-bit halves is multiplication by \<open>x\<close> in the
  field with \<open>2^128\<close> elements on the little-endian value of the tweak, and
  keeps its length.
\<close>

theorem multiply_tweak_doubles:
  assumes "length t = 16"
  shows "from_le (multiply_tweak t) = gf_double (from_le t) \<and> length (multiply_tweak t) = 16"
  using assms by (simp add: multiply_tweak_gf)

theorem multiply_tweak_doubles_witness:
  "from_le (multiply_tweak (replicate 15 0 @ [0x80])) = gf_double (from_le (replicate 15 0 @ [0x80]))"
  using multiply_tweak_doubles [of "replicate 15 0 @ [0x80]"] by simp

text \<open>
  A buffer shorter than a block, or whose length is not a multiple of the
  block size, is refused by all three paths with the error the code documents,
  before any byte is processed; no path panics on it.
\<close>

theorem xts_rejects_bad_length:
  assumes "block_cipher B valid E D" "\<not> 16 dvd length data \<or> data = []"
  defines "e \<equiv> (if length data < 16 then InvalidBlockSize 16 (length data)
      else InvalidDataLength (''XTS requires data length to be a multiple of '' @ show_nat 16 @
             '' (got '' @ show_nat (length data) @ '')''))"
  shows "xts_encrypt B x i data = Err e \<and> xts_decrypt B x i data = Err e
    \<and> process_sector B x i data encrypt = Err e \<and> process_arbitrary B x i data encrypt buf = Err e"
proof -
  have "validate_data_length B data = Err e"
    using assms(2) block_cipher.block_size [OF assms(1)]
    by (auto simp: validate_data_length_def e_def mod_eq_0_iff_dvd)
  then show ?thesis
    by (simp add: xts_encrypt_def xts_decrypt_def process_sector_def process_arbitrary_def)
qed

theorem xts_rejects_bad_length_witness:
  "xts_encrypt TwofishCipher \<lparr> cipher1 = new256 [], cipher2 = new256 [] \<rparr> 0 (replicate 15 0) = Err (InvalidBlockSize 16 15)"
  using xts_rejects_bad_length [OF twofish.block_cipher_axioms, where data = "replicate 15 0"] by simp

end
