(* ===== verification/Cascade.thy ===== *)
theory Cascade
  imports Ciphers
begin

text \<open>
  Cipher cascades (\<open>vcrypt-core/src/ciphers/cascade.rs\<close>): the cascade modes and
  their tables, the block-level \<open>CascadeCipher\<close> that chains single ciphers, and
  the order and key offsets in which the XTS layers chain them. The cascade
  meets the block-cipher contract of theory \<open>Ciphers\<close>.
\<close>

section \<open>Modes\<close>

datatype CascadeMode =
    CmAesTwofish | CmAesTwofishSerpent | CmSerpentAes | CmSerpentTwofishAes | CmTwofishSerpent
  | CmCamelliaKuznyechik | CmCamelliaSerpent | CmKuznyechikAes | CmKuznyechikSerpentCamellia
  | CmKuznyechikTwofish

definition cm_cipher_count :: "CascadeMode \<Rightarrow> nat" where
  "cm_cipher_count m =
     (if m \<in> {CmAesTwofish, CmSerpentAes, CmTwofishSerpent, CmCamelliaKuznyechik,
              CmCamelliaSerpent, CmKuznyechikAes, CmKuznyechikTwofish} then 2 else 3)"

definition cm_key_size :: "CascadeMode \<Rightarrow> nat" where
  "cm_key_size m = cm_cipher_count m * 32"

fun cm_name :: "CascadeMode \<Rightarrow> string" where
  "cm_name CmAesTwofish = ''AES-Twofish''"
| "cm_name CmAesTwofishSerpent = ''AES-Twofish-Serpent''"
| "cm_name CmSerpentAes = ''Serpent-AES''"
| "cm_name CmSerpentTwofishAes = ''Serpent-Twofish-AES''"
| "cm_name CmTwofishSerpent = ''Twofish-Serpent''"
| "cm_name CmCamelliaKuznyechik = ''Camellia-Kuznyechik''"
| "cm_name CmCamelliaSerpent = ''Camellia-Serpent''"
| "cm_name CmKuznyechikAes = ''Kuznyechik-AES''"
| "cm_name CmKuznyechikSerpentCamellia = ''Kuznyechik-Serpent-Camellia''"
| "cm_name CmKuznyechikTwofish = ''Kuznyechik-Twofish''"

fun veracrypt_order :: "CascadeMode \<Rightarrow> (CipherType \<times> nat) list" where
  "veracrypt_order CmAesTwofish = [(Twofish, 0), (Aes, 32)]"
| "veracrypt_order CmAesTwofishSerpent = [(Serpent, 0), (Twofish, 32), (Aes, 64)]"
| "veracrypt_order CmSerpentAes = [(Aes, 0), (Serpent, 32)]"
| "veracrypt_order CmSerpentTwofishAes = [(Aes, 0), (Twofish, 32), (Serpent, 64)]"
| "veracrypt_order CmTwofishSerpent = [(Serpent, 0), (Twofish, 32)]"
| "veracrypt_order CmCamelliaKuznyechik = [(Kuznyechik, 0), (Camellia, 32)]"
| "veracrypt_order CmCamelliaSerpent = [(Serpent, 0), (Camellia, 32)]"
| "veracrypt_order CmKuznyechikAes = [(Aes, 0), (Kuznyechik, 32)]"
| "veracrypt_order CmKuznyechikSerpentCamellia = [(Camellia, 0), (Serpent, 32), (Kuznyechik, 64)]"
| "veracrypt_order CmKuznyechikTwofish = [(Twofish, 0), (Kuznyechik, 32)]"

section \<open>The cascade cipher\<close>

text \<open>An instance of a crate cipher is represented by its key, as in theory \<open>Ciphers\<close>.\<close>

datatype CipherInstance =
    InstAes bytes
  | InstSerpent bytes
  | InstTwofish Twofish
  | InstCamellia bytes
  | InstKuznyechik bytes

fun inst_encrypt_block :: "crypto_lib \<Rightarrow> CipherInstance \<Rightarrow> bytes \<Rightarrow> bytes cres" where
  "inst_encrypt_block L (InstAes c) b = bc_encrypt_block (AesCipher L) c b"
| "inst_encrypt_block L (InstSerpent c) b = bc_encrypt_block (SerpentCipher L) c b"
| "inst_encrypt_block L (InstTwofish c) b = bc_encrypt_block TwofishCipher c b"
| "inst_encrypt_block L (InstCamellia c) b = bc_encrypt_block (CamelliaCipher L) c b"
| "inst_encrypt_block L (InstKuznyechik c) b = bc_encrypt_block (KuznyechikCipher L) c b"

fun inst_decrypt_block :: "crypto_lib \<Rightarrow> CipherInstance \<Rightarrow> bytes \<Rightarrow> bytes cres" where
  "inst_decrypt_block L (InstAes c) b = bc_decrypt_block (AesCipher L) c b"
| "inst_decrypt_block L (InstSerpent c) b = bc_decrypt_block (SerpentCipher L) c b"
| "inst_decrypt_block L (InstTwofish c) b = bc_decrypt_block TwofishCipher c b"
| "inst_decrypt_block L (InstCamellia c) b = bc_decrypt_block (CamelliaCipher L) c b"
| "inst_decrypt_block L (InstKuznyechik c) b = bc_decrypt_block (KuznyechikCipher L) c b"

record CascadeCipher =
  cc_mode :: CascadeMode
  cc_ciphers :: "CipherInstance list"

definition push_aes :: "crypto_lib \<Rightarrow> bytes \<Rightarrow> CipherInstance cres" where
  "push_aes L k = bind_res (aes_new L k) (\<lambda>c. Ok (InstAes c))"

definition push_serpent :: "crypto_lib \<Rightarrow> bytes \<Rightarrow> CipherInstance cres" where
  "push_serpent L k = bind_res (serpent_new L k) (\<lambda>c. Ok (InstSerpent c))"

definition push_twofish :: "bytes \<Rightarrow> CipherInstance cres" where
  "push_twofish k = bind_res (twofish_new k) (\<lambda>c. Ok (InstTwofish c))"

definition push_camellia :: "crypto_lib \<Rightarrow> bytes \<Rightarrow> CipherInstance cres" where
  "push_camellia L k = bind_res (camellia_new L k) (\<lambda>c. Ok (InstCamellia c))"

definition push_kuznyechik :: "crypto_lib \<Rightarrow> bytes \<Rightarrow> CipherInstance cres" where
  "push_kuznyechik L k = bind_res (kuznyechik_new L k) (\<lambda>c. Ok (InstKuznyechik c))"

text \<open>
  The pushes of one arm of \<open>create_ciphers\<close>: each takes the next 32 key bytes,
  with the bounds check of the slice.
\<close>

fun push_chain :: "bytes \<Rightarrow> nat \<Rightarrow> (bytes \<Rightarrow> CipherInstance cres) list \<Rightarrow> CipherInstance list cres" where
  "push_chain key offset [] = Ok []"
| "push_chain key offset (p # ps) =
     bind_res (slice key offset (offset + 32)) (\<lambda>k.
     bind_res (p k) (\<lambda>c.
     bind_res (push_chain key (offset + 32) ps) (\<lambda>cs. Ok (c # cs))))"

fun cascade_pushes :: "crypto_lib \<Rightarrow> CascadeMode \<Rightarrow> (bytes \<Rightarrow> CipherInstance cres) list" where
  "cascade_pushes L CmAesTwofish = [push_aes L, push_twofish]"
| "cascade_pushes L CmAesTwofishSerpent = [push_aes L, push_twofish, push_serpent L]"
| "cascade_pushes L CmSerpentAes = [push_serpent L, push_aes L]"
| "cascade_pushes L CmSerpentTwofishAes = [push_serpent L, push_twofish, push_aes L]"
| "cascade_pushes L CmTwofishSerpent = [push_twofish, push_serpent L]"
| "cascade_pushes L CmCamelliaKuznyechik = [push_camellia L, push_kuznyechik L]"
| "cascade_pushes L CmCamelliaSerpent = [push_camellia L, push_serpent L]"
| "cascade_pushes L CmKuznyechikAes = [push_kuznyechik L, push_aes L]"
| "cascade_pushes L CmKuznyechikSerpentCamellia = [push_kuznyechik L, push_serpent L, push_camellia L]"
| "cascade_pushes L CmKuznyechikTwofish = [push_kuznyechik L, push_twofish]"

definition create_ciphers :: "crypto_lib \<Rightarrow> CascadeMode \<Rightarrow> bytes \<Rightarrow> CipherInstance list cres" where
  "create_ciphers L mode key = push_chain key 0 (cascade_pushes L mode)"

definition cascade_new :: "crypto_lib \<Rightarrow> CascadeMode \<Rightarrow> bytes \<Rightarrow> CascadeCipher cres" where
  "cascade_new L mode key =
     (let required_size = cm_key_size mode in
      if length key \<noteq> required_size then Err (InvalidKeySize required_size (length key))
      else bind_res (create_ciphers L mode key) (\<lambda>cs. Ok \<lparr> cc_mode = mode, cc_ciphers = cs \<rparr>))"

definition cascade_encrypt_block :: "crypto_lib \<Rightarrow> CascadeCipher \<Rightarrow> bytes \<Rightarrow> bytes cres" where
  "cascade_encrypt_block L c b =
     (if length b \<noteq> 16 then Err (InvalidBlockSize 16 (length b))
      else fold_res (inst_encrypt_block L) (cc_ciphers c) b)"

definition cascade_decrypt_block :: "crypto_lib \<Rightarrow> CascadeCipher \<Rightarrow> bytes \<Rightarrow> bytes cres" where
  "cascade_decrypt_block L c b =
     (if length b \<noteq> 16 then Err (InvalidBlockSize 16 (length b))
      else fold_res (inst_decrypt_block L) (rev (cc_ciphers c)) b)"

definition CascadeOps :: "crypto_lib \<Rightarrow> CascadeCipher block_cipher_ops" where
  "CascadeOps L = \<lparr> bc_block_size = 16, bc_key_size = 64, bc_name = (\<lambda>c. cm_name (cc_mode c)),
     bc_encrypt_block = cascade_encrypt_block L,
     bc_decrypt_block = cascade_decrypt_block L,
     bc_encrypt_blocks = (\<lambda>c. default_blocks 16 (cascade_encrypt_block L c)),
     bc_decrypt_blocks = (\<lambda>c. default_blocks 16 (cascade_decrypt_block L c)) \<rparr>"

section \<open>The cascade as a composition of permutations\<close>

fun inst_valid :: "CipherInstance \<Rightarrow> bool" where
  "inst_valid (InstAes k) = (length k = 32)"
| "inst_valid (InstSerpent k) = (length k = 32)"
| "inst_valid (InstTwofish c) = True"
| "inst_valid (InstCamellia k) = (length k = 32)"
| "inst_valid (InstKuznyechik k) = (length k = 32)"

fun inst_E :: "crypto_lib \<Rightarrow> CipherInstance \<Rightarrow> block \<Rightarrow> block" where
  "inst_E L (InstAes k) = bl_enc (lib_aes L) k"
| "inst_E L (InstSerpent k) = bl_enc (lib_serpent L) k"
| "inst_E L (InstTwofish c) = twofish_encrypt c"
| "inst_E L (InstCamellia k) = bl_enc (lib_camellia L) k"
| "inst_E L (InstKuznyechik k) = bl_enc (lib_kuznyechik L) k"

fun inst_D :: "crypto_lib \<Rightarrow> CipherInstance \<Rightarrow> block \<Rightarrow> block" where
  "inst_D L (InstAes k) = bl_dec (lib_aes L) k"
| "inst_D L (InstSerpent k) = bl_dec (lib_serpent L) k"
| "inst_D L (InstTwofish c) = twofish_decrypt c"
| "inst_D L (InstCamellia k) = bl_dec (lib_camellia L) k"
| "inst_D L (InstKuznyechik k) = bl_dec (lib_kuznyechik L) k"

definition cascade_valid :: "CascadeCipher \<Rightarrow> bool" where
  "cascade_valid c \<longleftrightarrow> (\<forall>i \<in> set (cc_ciphers c). inst_valid i)"

definition cascade_E :: "crypto_lib \<Rightarrow> CascadeCipher \<Rightarrow> block \<Rightarrow> block" where
  "cascade_E L c = fold (inst_E L) (cc_ciphers c)"

definition cascade_D :: "crypto_lib \<Rightarrow> CascadeCipher \<Rightarrow> block \<Rightarrow> block" where
  "cascade_D L c = fold (inst_D L) (rev (cc_ciphers c))"

lemma inst_contract:
  assumes "lib_ok L" "inst_valid i" "length b = 16"
  shows "inst_encrypt_block L i b = Ok (inst_E L i b)"
    and "inst_decrypt_block L i b = Ok (inst_D L i b)"
    and "length (inst_E L i b) = 16" and "length (inst_D L i b) = 16"
    and "inst_D L i (inst_E L i b) = b" and "inst_E L i (inst_D L i b) = b"
proof -
  note [simp] = crate_block_ciphers [OF assms(1), THEN block_cipher.encrypt_block]
    crate_block_ciphers [OF assms(1), THEN block_cipher.decrypt_block]
    crate_block_ciphers [OF assms(1), THEN block_cipher.E_length]
    crate_block_ciphers [OF assms(1), THEN block_cipher.D_length]
    crate_block_ciphers [OF assms(1), THEN block_cipher.D_E]
    crate_block_ciphers [OF assms(1), THEN block_cipher.E_D]
    twofish.encrypt_block twofish.decrypt_block twofish_dec_enc twofish_enc_dec
  show "inst_encrypt_block L i b = Ok (inst_E L i b)"
    "inst_decrypt_block L i b = Ok (inst_D L i b)"
    "length (inst_E L i b) = 16" "length (inst_D L i b) = 16"
    "inst_D L i (inst_E L i b) = b" "inst_E L i (inst_D L i b) = b"
    using assms(2,3) by (cases i; simp)+
qed

lemma fold_inst:
  assumes "lib_ok L" "\<forall>i \<in> set is. inst_valid i" "length b = 16"
  shows "fold_res (inst_encrypt_block L) is b = Ok (fold (inst_E L) is b)
      \<and> length (fold (inst_E L) is b) = 16"
    and "fold_res (inst_decrypt_block L) is b = Ok (fold (inst_D L) is b)
      \<and> length (fold (inst_D L) is b) = 16"
  using assms by (auto intro!: fold_res_Ok inst_contract)

lemma fold_inst_inverse:
  assumes "lib_ok L" "\<forall>i \<in> set is. inst_valid i" "length b = 16"
  shows "fold (inst_D L) (rev is) (fold (inst_E L) is b) = b"
    and "fold (inst_E L) is (fold (inst_D L) (rev is) b) = b"
  using assms
proof (induction "is" arbitrary: b)
  case (Cons i "is")
  { case 1
    then show ?case
      using Cons(1) [of "inst_E L i b"] by (simp add: inst_contract)
  next
    case 2
    have "length (fold (inst_D L) (rev is) b) = 16"
      using fold_inst(2) [of L "rev is" b] 2 by simp
    then show ?case
      using Cons(2) [of b] 2 by (simp add: inst_contract)
  }
qed simp_all

lemma cascade_block_cipher:
  assumes "lib_ok L"
  shows "block_cipher (CascadeOps L) cascade_valid (cascade_E L) (cascade_D L)"
  using assms
  by unfold_locales
    (simp_all add: CascadeOps_def cascade_valid_def cascade_E_def cascade_D_def
      cascade_encrypt_block_def cascade_decrypt_block_def fold_inst fold_inst_inverse default_blocks_Ok)

section \<open>Construction\<close>

lemma push_Ok:
  assumes "lib_ok L" "length k = 32"
  shows "push_aes L k = Ok (InstAes k)" "push_serpent L k = Ok (InstSerpent k)"
    "push_twofish k = Ok (InstTwofish (new256 k))"
    "push_camellia L k = Ok (InstCamellia k)" "push_kuznyechik L k = Ok (InstKuznyechik k)"
  using assms crate_new_Ok_iff [OF lib_ok_blocks(1) [OF assms(1)]] crate_new_Ok_iff [OF lib_ok_blocks(2) [OF assms(1)]]
    crate_new_Ok_iff [OF lib_ok_blocks(3) [OF assms(1)]] crate_new_Ok_iff [OF lib_ok_blocks(4) [OF assms(1)]]
  by (auto simp: push_aes_def push_serpent_def push_twofish_def push_camellia_def push_kuznyechik_def
      aes_new_def serpent_new_def camellia_new_def kuznyechik_new_def twofish_new_def)

lemma cm_counts:
  "cm_key_size m = 32 * length (veracrypt_order m)"
  "length (cascade_pushes L m) = length (veracrypt_order m)"
  "cm_cipher_count m = length (veracrypt_order m)"
  by (cases m; simp add: cm_key_size_def cm_cipher_count_def)+

lemma cascade_new_valid:
  assumes "lib_ok L" "length key = cm_key_size m"
  shows "\<exists>c. cascade_new L m key = Ok c \<and> cascade_valid c \<and> cc_mode c = m
    \<and> length (cc_ciphers c) = cm_cipher_count m"
  using assms(2) push_Ok [OF assms(1)]
  by (cases m)
    (simp_all add: cascade_new_def create_ciphers_def cm_key_size_def cm_cipher_count_def cascade_valid_def)

section \<open>Properties\<close>

text \<open>
  With crates that meet their contract and a key of the size the mode
  requires, \<open>CascadeCipher::new\<close> succeeds with one cipher per 32 key bytes, and
  decryption of a block, the ciphers in reverse order, inverts encryption.
  Every other key length is refused.
\<close>

theorem cascade_roundtrip:
  assumes "lib_ok L"
  shows "(length key = cm_key_size m \<longrightarrow> (\<exists>c. cascade_new L m key = Ok c
      \<and> length (cc_ciphers c) = cm_cipher_count m
      \<and> (\<forall>b. length b = 16 \<longrightarrow> bind_res (cascade_encrypt_block L c b) (cascade_decrypt_block L c) = Ok b)))
    \<and> (length key \<noteq> cm_key_size m \<longrightarrow> cascade_new L m key = Err (InvalidKeySize (cm_key_size m) (length key)))"
proof -
  have rt: "bind_res (cascade_encrypt_block L c b) (cascade_decrypt_block L c) = Ok b"
    if "cascade_valid c" "length b = 16" for c b
    using that fold_inst(1) [OF assms] fold_inst(2) [OF assms] fold_inst_inverse(1) [OF assms]
    by (simp add: cascade_encrypt_block_def cascade_decrypt_block_def cascade_valid_def)
  show ?thesis
  proof (intro conjI impI)
    assume "length key = cm_key_size m"
    then obtain c where "cascade_new L m key = Ok c" "cascade_valid c" "length (cc_ciphers c) = cm_cipher_count m"
      using cascade_new_valid [OF assms] by blast
    then show "\<exists>c. cascade_new L m key = Ok c \<and> length (cc_ciphers c) = cm_cipher_count m \<and>
        (\<forall>b. length b = 16 \<longrightarrow> bind_res (cascade_encrypt_block L c b) (cascade_decrypt_block L c) = Ok b)"
      using rt by blast
  qed (simp add: cascade_new_def)
qed

theorem cascade_roundtrip_witness:
  "\<exists>c. cascade_new toy_lib CmAesTwofish (replicate 64 5) = Ok c
     \<and> bind_res (cascade_encrypt_block toy_lib c (replicate 16 1)) (cascade_decrypt_block toy_lib c) = Ok (replicate 16 1)"
proof -
  have "length (replicate 64 (5 :: u8)) = cm_key_size CmAesTwofish"
    by (simp add: cm_key_size_def cm_cipher_count_def)
  then show ?thesis
    using cascade_roundtrip [OF toy_lib_ok, of "replicate 64 5" CmAesTwofish] length_replicate [of 16 "1 :: u8"] by blast
qed

end
