(* ===== verification/SectorSpec.thy ===== *)
theory SectorSpec
  imports Xts Cascade
begin

text \<open>
  The abstract specification of sector encryption, which the kernel
  dispatcher, the user-mode sector cipher and the header encryption all
  implement: a volume cipher with its key is a list of XTS passes, one per
  single cipher, each with its own 64-byte key cut out of the data half and
  the tweak half of the volume key. The interface of a sector cipher that its
  clients use is the locale \<open>sector_cipher\<close>.
\<close>

section \<open>Passes\<close>

fun single_E :: "crypto_lib \<Rightarrow> CipherType \<Rightarrow> bytes \<Rightarrow> block \<Rightarrow> block" where
  "single_E L Aes k = bl_enc (lib_aes L) k"
| "single_E L Serpent k = bl_enc (lib_serpent L) k"
| "single_E L Twofish k = twofish_encrypt (new256 k)"
| "single_E L Camellia k = bl_enc (lib_camellia L) k"
| "single_E L Kuznyechik k = bl_enc (lib_kuznyechik L) k"
| "single_E L _ k = id"

fun single_D :: "crypto_lib \<Rightarrow> CipherType \<Rightarrow> bytes \<Rightarrow> block \<Rightarrow> block" where
  "single_D L Aes k = bl_dec (lib_aes L) k"
| "single_D L Serpent k = bl_dec (lib_serpent L) k"
| "single_D L Twofish k = twofish_decrypt (new256 k)"
| "single_D L Camellia k = bl_dec (lib_camellia L) k"
| "single_D L Kuznyechik k = bl_dec (lib_kuznyechik L) k"
| "single_D L _ k = id"

definition pass_E :: "crypto_lib \<Rightarrow> CipherType \<times> bytes \<Rightarrow> u64 \<Rightarrow> bytes \<Rightarrow> bytes" where
  "pass_E L = (\<lambda>(ct, k) i. xts_ref (single_E L ct (take 32 k)) (single_E L ct (drop 32 k) (tweak_input i)))"

definition pass_D :: "crypto_lib \<Rightarrow> CipherType \<times> bytes \<Rightarrow> u64 \<Rightarrow> bytes \<Rightarrow> bytes" where
  "pass_D L = (\<lambda>(ct, k) i. xts_ref (single_D L ct (take 32 k)) (single_E L ct (drop 32 k) (tweak_input i)))"

definition cascade_passes :: "CascadeMode \<Rightarrow> bytes \<Rightarrow> (CipherType \<times> bytes) list" where
  "cascade_passes m key =
     map (\<lambda>(ct, off). (ct, sub (take (cm_key_size m) key) off (off + 32) @
                           sub (drop (cm_key_size m) key) off (off + 32))) (veracrypt_order m)"

fun mode_of :: "CipherType \<Rightarrow> CascadeMode option" where
  "mode_of AesTwofish = Some CmAesTwofish"
| "mode_of AesTwofishSerpent = Some CmAesTwofishSerpent"
| "mode_of SerpentAes = Some CmSerpentAes"
| "mode_of SerpentTwofishAes = Some CmSerpentTwofishAes"
| "mode_of TwofishSerpent = Some CmTwofishSerpent"
| "mode_of CamelliaKuznyechik = Some CmCamelliaKuznyechik"
| "mode_of CamelliaSerpent = Some CmCamelliaSerpent"
| "mode_of KuznyechikAes = Some CmKuznyechikAes"
| "mode_of KuznyechikSerpentCamellia = Some CmKuznyechikSerpentCamellia"
| "mode_of KuznyechikTwofish = Some CmKuznyechikTwofish"
| "mode_of _ = None"

definition sector_passes :: "CipherType \<Rightarrow> bytes \<Rightarrow> (CipherType \<times> bytes) list" where
  "sector_passes ct key =
     (case mode_of ct of None \<Rightarrow> [(ct, key)] | Some m \<Rightarrow> cascade_passes m key)"

definition sector_E :: "crypto_lib \<Rightarrow> CipherType \<Rightarrow> bytes \<Rightarrow> u64 \<Rightarrow> bytes \<Rightarrow> bytes" where
  "sector_E L ct key i data = fold (\<lambda>p. pass_E L p i) (sector_passes ct key) data"

definition sector_D :: "crypto_lib \<Rightarrow> CipherType \<Rightarrow> bytes \<Rightarrow> u64 \<Rightarrow> bytes \<Rightarrow> bytes" where
  "sector_D L ct key i data = fold (\<lambda>p. pass_D L p i) (rev (sector_passes ct key)) data"

section \<open>Passes invert each other\<close>

definition pass_ok :: "CipherType \<times> bytes \<Rightarrow> bool" where
  "pass_ok = (\<lambda>(ct, k). mode_of ct = None \<and> length k = 64)"

lemma single_contract:
  assumes "lib_ok L" "length k = 32"
  shows "block_fun (single_E L ct k)" "block_fun (single_D L ct k)"
    and "length b = 16 \<Longrightarrow> single_D L ct k (single_E L ct k b) = b"
    and "length b = 16 \<Longrightarrow> single_E L ct k (single_D L ct k b) = b"
  using lib_ok_blocks [OF assms(1)] assms(2)
  by (cases ct; auto simp: block_fun_def block_lib_ok_def twofish_dec_enc twofish_enc_dec)+

lemma pass_length:
  assumes "lib_ok L" "pass_ok p" "16 dvd length data"
  shows "length (pass_E L p i data) = length data" "length (pass_D L p i data) = length data"
  using assms single_contract(1,2) [OF assms(1)]
  by (auto simp: pass_E_def pass_D_def pass_ok_def length_xts_ref split: prod.splits)

lemma pass_inverse:
  assumes "lib_ok L" "pass_ok p" "16 dvd length data"
  shows "pass_D L p i (pass_E L p i data) = data" "pass_E L p i (pass_D L p i data) = data"
  using assms single_contract [OF assms(1)]
  by (auto simp: pass_E_def pass_D_def pass_ok_def split: prod.splits intro!: xts_ref_inverse)

lemma passes_length:
  assumes "lib_ok L" "\<forall>p \<in> set ps. pass_ok p" "16 dvd length data"
  shows "length (fold (\<lambda>p. pass_E L p i) ps data) = length data"
    and "length (fold (\<lambda>p. pass_D L p i) ps data) = length data"
  using assms by (induction ps arbitrary: data) (simp_all add: pass_length)

lemma passes_inverse:
  assumes "lib_ok L" "\<forall>p \<in> set ps. pass_ok p" "16 dvd length data"
  shows "fold (\<lambda>p. pass_D L p i) (rev ps) (fold (\<lambda>p. pass_E L p i) ps data) = data"
    and "fold (\<lambda>p. pass_E L p i) ps (fold (\<lambda>p. pass_D L p i) (rev ps) data) = data"
  using assms
proof (induction ps arbitrary: data)
  case (Cons p ps)
  { case 1
    then show ?case
      using Cons(1) [of "pass_E L p i data"] by (simp add: pass_length pass_inverse)
  next
    case 2
    have "length (fold (\<lambda>p. pass_D L p i) (rev ps) data) = length data"
      using passes_length(2) [of L "rev ps" data] 2 by simp
    then show ?case
      using Cons(2) [of data] 2 by (simp add: pass_inverse)
  }
qed simp_all

lemma order_ok:
  "(ct, off) \<in> set (veracrypt_order m) \<Longrightarrow> mode_of ct = None \<and> off + 32 \<le> cm_key_size m"
  by (cases m) (auto simp: cm_key_size_def cm_cipher_count_def)

lemma mode_key_size: "mode_of ct = Some m \<Longrightarrow> ct_key_size ct = cm_key_size m"
  by (cases ct) (auto simp: cm_key_size_def cm_cipher_count_def)

lemma single_key_size: "mode_of ct = None \<Longrightarrow> ct_key_size ct = 32"
  by (cases ct) auto

lemma cascade_passes_ok:
  assumes "length key = 2 * cm_key_size m"
  shows "\<forall>p \<in> set (cascade_passes m key). pass_ok p"
proof
  fix p assume "p \<in> set (cascade_passes m key)"
  then obtain ct off where p: "(ct, off) \<in> set (veracrypt_order m)"
    "p = (ct, sub (take (cm_key_size m) key) off (off + 32) @ sub (drop (cm_key_size m) key) off (off + 32))"
    by (auto simp: cascade_passes_def)
  then show "pass_ok p"
    using order_ok [OF p(1)] assms by (auto simp: pass_ok_def)
qed

lemma sector_passes_ok:
  assumes "length key = 2 * ct_key_size ct"
  shows "\<forall>p \<in> set (sector_passes ct key). pass_ok p"
proof (cases "mode_of ct")
  case None
  then show ?thesis
    using assms by (simp add: sector_passes_def pass_ok_def single_key_size)
next
  case (Some m)
  then show ?thesis
    using cascade_passes_ok [of key m] assms mode_key_size [OF Some] by (simp add: sector_passes_def)
qed

lemma sector_length:
  assumes "lib_ok L" "length key = 2 * ct_key_size ct" "16 dvd length data"
  shows "length (sector_E L ct key i data) = length data" "length (sector_D L ct key i data) = length data"
  using assms sector_passes_ok [OF assms(2)] by (simp_all add: sector_E_def sector_D_def passes_length)

lemma sector_inverse:
  assumes "lib_ok L" "length key = 2 * ct_key_size ct" "16 dvd length data"
  shows "sector_D L ct key i (sector_E L ct key i data) = data"
    and "sector_E L ct key i (sector_D L ct key i data) = data"
  using assms sector_passes_ok [OF assms(2)] by (simp_all add: sector_E_def sector_D_def passes_inverse)

section \<open>XTS instances of the five single ciphers\<close>

definition mk_xts :: "(bytes \<Rightarrow> 'c) \<Rightarrow> bytes \<Rightarrow> 'c XtsMode" where
  "mk_xts st key = \<lparr> cipher1 = st (take 32 key), cipher2 = st (drop 32 key) \<rparr>"

lemma xts_new_Ok:
  assumes "bc_key_size B = 32" "\<And>k. length k = 32 \<Longrightarrow> ctor k = Ok (st k)" "length key = 64"
  shows "xts_new B ctor key = Ok (mk_xts st key)"
  using assms by (simp add: xts_new_def mk_xts_def Let_def)

lemma xts_new_Err:
  "bc_key_size B = 32 \<Longrightarrow> length key \<noteq> 64 \<Longrightarrow> xts_new B ctor key = Err (InvalidKeySize 64 (length key))"
  by (simp add: xts_new_def Let_def)

lemma key_sizes [simp]:
  "bc_key_size (AesCipher L) = 32" "bc_key_size (SerpentCipher L) = 32" "bc_key_size TwofishCipher = 32"
  "bc_key_size (CamelliaCipher L) = 32" "bc_key_size (KuznyechikCipher L) = 32"
  by (simp_all add: AesCipher_def SerpentCipher_def TwofishCipher_def CamelliaCipher_def
      KuznyechikCipher_def crate_ops_def)

lemma ctor_Ok:
  assumes "lib_ok L" "length k = 32"
  shows "aes_new L k = Ok (id k)" "serpent_new L k = Ok (id k)" "twofish_new k = Ok (new256 k)"
    "camellia_new L k = Ok (id k)" "kuznyechik_new L k = Ok (id k)"
  using assms crate_new_Ok_iff [OF lib_ok_blocks(1) [OF assms(1)]] crate_new_Ok_iff [OF lib_ok_blocks(2) [OF assms(1)]]
    crate_new_Ok_iff [OF lib_ok_blocks(3) [OF assms(1)]] crate_new_Ok_iff [OF lib_ok_blocks(4) [OF assms(1)]]
  by (auto simp: aes_new_def serpent_new_def camellia_new_def kuznyechik_new_def twofish_new_def)

lemmas single_xts_new =
  xts_new_Ok [OF key_sizes(1) ctor_Ok(1)] xts_new_Ok [OF key_sizes(2) ctor_Ok(2)]
  xts_new_Ok [OF key_sizes(3) ctor_Ok(3)] xts_new_Ok [OF key_sizes(4) ctor_Ok(4)]
  xts_new_Ok [OF key_sizes(5) ctor_Ok(5)]

lemma single_xts_encrypt:
  assumes "lib_ok L" "length key = 64" "16 dvd length data" "data \<noteq> []"
  shows "xts_encrypt (AesCipher L) (mk_xts id key) i data = Ok (pass_E L (Aes, key) i data)"
    and "xts_encrypt (SerpentCipher L) (mk_xts id key) i data = Ok (pass_E L (Serpent, key) i data)"
    and "xts_encrypt TwofishCipher (mk_xts new256 key) i data = Ok (pass_E L (Twofish, key) i data)"
    and "xts_encrypt (CamelliaCipher L) (mk_xts id key) i data = Ok (pass_E L (Camellia, key) i data)"
    and "xts_encrypt (KuznyechikCipher L) (mk_xts id key) i data = Ok (pass_E L (Kuznyechik, key) i data)"
  using assms(2-4) crate_block_ciphers [OF assms(1), THEN block_cipher.xts_encrypt_E] twofish.xts_encrypt_E
  by (simp_all add: mk_xts_def pass_E_def)

lemma single_xts_decrypt:
  assumes "lib_ok L" "length key = 64" "16 dvd length data" "data \<noteq> []"
  shows "xts_decrypt (AesCipher L) (mk_xts id key) i data = Ok (pass_D L (Aes, key) i data)"
    and "xts_decrypt (SerpentCipher L) (mk_xts id key) i data = Ok (pass_D L (Serpent, key) i data)"
    and "xts_decrypt TwofishCipher (mk_xts new256 key) i data = Ok (pass_D L (Twofish, key) i data)"
    and "xts_decrypt (CamelliaCipher L) (mk_xts id key) i data = Ok (pass_D L (Camellia, key) i data)"
    and "xts_decrypt (KuznyechikCipher L) (mk_xts id key) i data = Ok (pass_D L (Kuznyechik, key) i data)"
  using assms(2-4) crate_block_ciphers [OF assms(1), THEN block_cipher.xts_decrypt_D] twofish.xts_decrypt_D
  by (simp_all add: mk_xts_def pass_D_def)

lemma single_process_sector:
  assumes "lib_ok L" "length key = 64" "length data = 512"
  shows "process_sector (AesCipher L) (mk_xts id key) i data e =
      Ok (if e then pass_E L (Aes, key) i data else pass_D L (Aes, key) i data)"
    and "process_sector (SerpentCipher L) (mk_xts id key) i data e =
      Ok (if e then pass_E L (Serpent, key) i data else pass_D L (Serpent, key) i data)"
    and "process_sector TwofishCipher (mk_xts new256 key) i data e =
      Ok (if e then pass_E L (Twofish, key) i data else pass_D L (Twofish, key) i data)"
    and "process_sector (CamelliaCipher L) (mk_xts id key) i data e =
      Ok (if e then pass_E L (Camellia, key) i data else pass_D L (Camellia, key) i data)"
    and "process_sector (KuznyechikCipher L) (mk_xts id key) i data e =
      Ok (if e then pass_E L (Kuznyechik, key) i data else pass_D L (Kuznyechik, key) i data)"
proof -
  have d: "16 dvd length data" "data \<noteq> []"
    using assms(3) by auto
  note ps = crate_block_ciphers [OF assms(1), THEN block_cipher.process_sector_E] twofish.process_sector_E
  show "process_sector (AesCipher L) (mk_xts id key) i data e =
      Ok (if e then pass_E L (Aes, key) i data else pass_D L (Aes, key) i data)"
    "process_sector (SerpentCipher L) (mk_xts id key) i data e =
      Ok (if e then pass_E L (Serpent, key) i data else pass_D L (Serpent, key) i data)"
    "process_sector TwofishCipher (mk_xts new256 key) i data e =
      Ok (if e then pass_E L (Twofish, key) i data else pass_D L (Twofish, key) i data)"
    "process_sector (CamelliaCipher L) (mk_xts id key) i data e =
      Ok (if e then pass_E L (Camellia, key) i data else pass_D L (Camellia, key) i data)"
    "process_sector (KuznyechikCipher L) (mk_xts id key) i data e =
      Ok (if e then pass_E L (Kuznyechik, key) i data else pass_D L (Kuznyechik, key) i data)"
    using single_xts_encrypt [OF assms(1,2) d] single_xts_decrypt [OF assms(1,2) d] assms(2,3)
    by (simp_all add: ps mk_xts_def)
qed

section \<open>The interface of a sector cipher\<close>

text \<open>
  What the clients rely on: on data of an admissible length both directions
  succeed, keep the length, and decryption inverts encryption for the same
  sector number.
\<close>

locale sector_cipher =
  fixes enc :: "u64 \<Rightarrow> bytes \<Rightarrow> ('e, bytes) res"
    and dec :: "u64 \<Rightarrow> bytes \<Rightarrow> ('e, bytes) res"
    and adm :: "nat \<Rightarrow> bool"
  assumes enc_ok: "adm (length d) \<Longrightarrow> \<exists>c. enc i d = Ok c \<and> length c = length d \<and> dec i c = Ok d"
    and dec_ok: "adm (length d) \<Longrightarrow> \<exists>p. dec i d = Ok p \<and> length p = length d \<and> enc i p = Ok d"
begin

lemma dec_enc: "adm (length d) \<Longrightarrow> bind_res (enc i d) (dec i) = Ok d"
  using enc_ok [of d i] by auto

lemma enc_inj:
  assumes "adm (length d)" "adm (length d')" "enc i d = enc i d'"
  shows "d = d'"
  using enc_ok [OF assms(1), of i] enc_ok [OF assms(2), of i] assms(3) by auto

lemma enc_surj: "adm (length c) \<Longrightarrow> \<exists>d. length d = length c \<and> enc i d = Ok c"
  using dec_ok [of c i] by auto

end

section \<open>Properties\<close>

text \<open>
  The tables agree: a cipher type is a cascade exactly when it has a
  cascade mode; name, key size and cipher count of the two tables coincide;
  the passes use distinct single ciphers whose key offsets tile the key half
  in steps of 32 bytes; and every key fits the 256-byte key area and the
  192-byte derived header key.
\<close>

theorem cipher_tables_consistent:
  "(case mode_of ct of
      None \<Rightarrow> \<not> is_cascade ct \<and> ct_key_size ct = 32 \<and> ct_cipher_count ct = 1
    | Some m \<Rightarrow> is_cascade ct \<and> ct_key_size ct = cm_key_size m \<and> ct_name ct = cm_name m
        \<and> ct_cipher_count ct = cm_cipher_count m
        \<and> map snd (veracrypt_order m) = map (\<lambda>i. 32 * i) [0..<cm_cipher_count m]
        \<and> distinct (map fst (veracrypt_order m)) \<and> list_all (\<lambda>(c, off). mode_of c = None) (veracrypt_order m))
   \<and> 2 * ct_key_size ct \<le> 192"
  by (cases ct) (simp_all add: is_cascade_def ct_cipher_count_def cm_key_size_def cm_cipher_count_def upt_rec)

end
