(* ===== verification/KernelCipher.thy ===== *)
theory KernelCipher
  imports SectorSpec
begin

text \<open>
  The kernel-mode sector cipher dispatcher
  (\<open>vcrypt-core/src/kernel.rs\<close>): the enum of XTS instances and cascades, its
  constructor and the two sector operations, and their refinement of the
  specification in theory \<open>SectorSpec\<close>.
\<close>

section \<open>The dispatcher\<close>

datatype KernelSectorCipher =
    KAes "bytes XtsMode"
  | KSerpent "bytes XtsMode"
  | KTwofish "Twofish XtsMode"
  | KCamellia "bytes XtsMode"
  | KKuznyechik "bytes XtsMode"
  | Cascade2 KernelSectorCipher KernelSectorCipher
  | Cascade3 KernelSectorCipher KernelSectorCipher KernelSectorCipher

definition to_cascade :: "KernelSectorCipher list \<Rightarrow> KernelSectorCipher cres" where
  "to_cascade xs = (case xs of
      [a, b] \<Rightarrow> Ok (Cascade2 a b)
    | [a, b, c] \<Rightarrow> Ok (Cascade3 a b c)
    | _ \<Rightarrow> Err (UnsupportedCipher (''unexpected cascade length: '' @ show_nat (length xs))))"

function (sequential) kernel_new :: "crypto_lib \<Rightarrow> CipherType \<Rightarrow> bytes \<Rightarrow> KernelSectorCipher cres"
  and build_cascade :: "crypto_lib \<Rightarrow> CascadeMode \<Rightarrow> bytes \<Rightarrow> KernelSectorCipher cres" where
  "kernel_new L Aes key = bind_res (xts_new (AesCipher L) (aes_new L) key) (\<lambda>x. Ok (KAes x))"
| "kernel_new L Serpent key = bind_res (xts_new (SerpentCipher L) (serpent_new L) key) (\<lambda>x. Ok (KSerpent x))"
| "kernel_new L Twofish key = bind_res (xts_new TwofishCipher twofish_new key) (\<lambda>x. Ok (KTwofish x))"
| "kernel_new L Camellia key = bind_res (xts_new (CamelliaCipher L) (camellia_new L) key) (\<lambda>x. Ok (KCamellia x))"
| "kernel_new L Kuznyechik key = bind_res (xts_new (KuznyechikCipher L) (kuznyechik_new L) key) (\<lambda>x. Ok (KKuznyechik x))"
| "kernel_new L ct key =
     (case mode_of ct of
        Some mode \<Rightarrow> build_cascade L mode key
      | None \<Rightarrow> Err (UnsupportedCipher (''unknown cipher type: '' @ ct_name ct)))"
| "build_cascade L mode key =
     (let single_key_len = cm_key_size mode;
          total_expected = single_key_len * 2 in
      if length key \<noteq> total_expected then Err (InvalidKeySize total_expected (length key))
      else
        let data_half = take single_key_len key; tweak_half = drop single_key_len key in
        bind_res (mapM_res (\<lambda>(ct, offset).
            bind_res (slice data_half offset (offset + 32)) (\<lambda>d.
            bind_res (slice tweak_half offset (offset + 32)) (\<lambda>t.
            kernel_new L ct (d @ t)))) (veracrypt_order mode))
          to_cascade)"
  by pat_completeness auto
termination
proof (relation "measure (\<lambda>s. case s of
    Inl (L, ct, key) \<Rightarrow> if mode_of ct = None then 0 else 2 | Inr _ \<Rightarrow> Suc 0)", goal_cases)
  case (12 L mode key)
  then show ?case
    using order_ok by fastforce
qed (auto split: option.splits)

fun kernel_encrypt_sector :: "crypto_lib \<Rightarrow> KernelSectorCipher \<Rightarrow> u64 \<Rightarrow> bytes \<Rightarrow> bytes cres" where
  "kernel_encrypt_sector L (KAes xts) i data = process_sector (AesCipher L) xts i data True"
| "kernel_encrypt_sector L (KSerpent xts) i data = process_sector (SerpentCipher L) xts i data True"
| "kernel_encrypt_sector L (KTwofish xts) i data = process_sector TwofishCipher xts i data True"
| "kernel_encrypt_sector L (KCamellia xts) i data = process_sector (CamelliaCipher L) xts i data True"
| "kernel_encrypt_sector L (KKuznyechik xts) i data = process_sector (KuznyechikCipher L) xts i data True"
| "kernel_encrypt_sector L (Cascade2 first second) i data =
     bind_res (kernel_encrypt_sector L first i data) (kernel_encrypt_sector L second i)"
| "kernel_encrypt_sector L (Cascade3 first second third) i data =
     bind_res (kernel_encrypt_sector L first i data) (\<lambda>data.
     bind_res (kernel_encrypt_sector L second i data) (kernel_encrypt_sector L third i))"

fun kernel_decrypt_sector :: "crypto_lib \<Rightarrow> KernelSectorCipher \<Rightarrow> u64 \<Rightarrow> bytes \<Rightarrow> bytes cres" where
  "kernel_decrypt_sector L (KAes xts) i data = process_sector (AesCipher L) xts i data False"
| "kernel_decrypt_sector L (KSerpent xts) i data = process_sector (SerpentCipher L) xts i data False"
| "kernel_decrypt_sector L (KTwofish xts) i data = process_sector TwofishCipher xts i data False"
| "kernel_decrypt_sector L (KCamellia xts) i data = process_sector (CamelliaCipher L) xts i data False"
| "kernel_decrypt_sector L (KKuznyechik xts) i data = process_sector (KuznyechikCipher L) xts i data False"
| "kernel_decrypt_sector L (Cascade2 first second) i data =
     bind_res (kernel_decrypt_sector L second i data) (kernel_decrypt_sector L first i)"
| "kernel_decrypt_sector L (Cascade3 first second third) i data =
     bind_res (kernel_decrypt_sector L third i data) (\<lambda>data.
     bind_res (kernel_decrypt_sector L second i data) (kernel_decrypt_sector L first i))"

section \<open>Refinement of the specification\<close>

definition kernel_single :: "CipherType \<times> bytes \<Rightarrow> KernelSectorCipher" where
  "kernel_single = (\<lambda>(ct, k). case ct of
      Serpent \<Rightarrow> KSerpent (mk_xts id k)
    | Twofish \<Rightarrow> KTwofish (mk_xts new256 k)
    | Camellia \<Rightarrow> KCamellia (mk_xts id k)
    | Kuznyechik \<Rightarrow> KKuznyechik (mk_xts id k)
    | _ \<Rightarrow> KAes (mk_xts id k))"

lemma kernel_new_single:
  assumes "lib_ok L" "pass_ok (ct, k)"
  shows "kernel_new L ct k = Ok (kernel_single (ct, k))"
  using assms by (cases ct) (simp_all add: pass_ok_def kernel_single_def single_xts_new [OF assms(1)] id_def)

lemma kernel_single_sector:
  assumes "lib_ok L" "pass_ok p" "length data = 512"
  shows "kernel_encrypt_sector L (kernel_single p) i data = Ok (pass_E L p i data)"
    and "kernel_decrypt_sector L (kernel_single p) i data = Ok (pass_D L p i data)"
proof -
  obtain ct k where p: "p = (ct, k)" by force
  have k: "mode_of ct = None" "length k = 64"
    using assms(2) by (simp_all add: p pass_ok_def)
  note ps = single_process_sector [OF assms(1) k(2) assms(3)]
  show "kernel_encrypt_sector L (kernel_single p) i data = Ok (pass_E L p i data)"
    "kernel_decrypt_sector L (kernel_single p) i data = Ok (pass_D L p i data)"
    using k(1) by (cases ct; simp add: p kernel_single_def ps)+
qed

definition kernel_refines :: "crypto_lib \<Rightarrow> KernelSectorCipher \<Rightarrow> (CipherType \<times> bytes) list \<Rightarrow> bool" where
  "kernel_refines L c ps \<longleftrightarrow> (\<forall>i data. length data = 512 \<longrightarrow>
     kernel_encrypt_sector L c i data = Ok (fold (\<lambda>p. pass_E L p i) ps data) \<and>
     kernel_decrypt_sector L c i data = Ok (fold (\<lambda>p. pass_D L p i) (rev ps) data))"

lemma to_cascade_refines:
  assumes "lib_ok L" "\<forall>p \<in> set ps. pass_ok p" "length ps = 2 \<or> length ps = 3"
  shows "\<exists>c. to_cascade (map kernel_single ps) = Ok c \<and> kernel_refines L c ps"
proof -
  consider p q where "ps = [p, q]" | p q r where "ps = [p, q, r]"
    using assms(3) by (auto simp: length_Suc_conv numeral_eq_Suc)
  then show ?thesis
    by cases (use assms(1,2) in \<open>simp_all add: to_cascade_def kernel_refines_def kernel_single_sector pass_length\<close>)
qed

lemma build_cascade_refines:
  assumes "lib_ok L" "length key = 2 * cm_key_size m"
  shows "\<exists>c. build_cascade L m key = Ok c \<and> kernel_refines L c (cascade_passes m key)"
proof -
  let ?pass = "\<lambda>(ct, offset). bind_res (slice (take (cm_key_size m) key) offset (offset + 32)) (\<lambda>d.
    bind_res (slice (drop (cm_key_size m) key) offset (offset + 32)) (\<lambda>t. kernel_new L ct (d @ t)))"
  have "?pass (ct, off) = Ok (kernel_single (ct, sub (take (cm_key_size m) key) off (off + 32) @
      sub (drop (cm_key_size m) key) off (off + 32)))" if "(ct, off) \<in> set (veracrypt_order m)" for ct off
  proof -
    have "pass_ok (ct, sub (take (cm_key_size m) key) off (off + 32) @ sub (drop (cm_key_size m) key) off (off + 32))"
      using order_ok [OF that] assms by (auto simp: pass_ok_def)
    then show ?thesis
      using order_ok [OF that] assms kernel_new_single [OF assms(1)] by simp
  qed
  then have "mapM_res ?pass (veracrypt_order m) = Ok (map kernel_single (cascade_passes m key))"
    unfolding cascade_passes_def map_map by (intro mapM_res_Ok) auto
  moreover have "length (cascade_passes m key) = 2 \<or> length (cascade_passes m key) = 3"
    by (cases m) (simp_all add: cascade_passes_def)
  ultimately show ?thesis
    using to_cascade_refines [OF assms(1) cascade_passes_ok [OF assms(2)]] assms(2)
    by (simp add: Let_def)
qed

lemma kernel_new_cascade: "mode_of ct = Some m \<Longrightarrow> kernel_new L ct key = build_cascade L m key"
  by (cases ct) (auto simp del: build_cascade.simps)

lemma kernel_new_refines:
  assumes "lib_ok L" "length key = 2 * ct_key_size ct"
  shows "\<exists>c. kernel_new L ct key = Ok c \<and> kernel_refines L c (sector_passes ct key)"
proof (cases "mode_of ct")
  case None
  then have "pass_ok (ct, key)"
    using assms(2) single_key_size by (simp add: pass_ok_def)
  then show ?thesis
    using None assms(1) by (simp add: kernel_new_single sector_passes_def kernel_refines_def kernel_single_sector)
next
  case (Some m)
  then show ?thesis
    using build_cascade_refines [of L key m] assms mode_key_size
    by (simp add: kernel_new_cascade sector_passes_def del: build_cascade.simps)
qed

lemma kernel_new_bad_key:
  assumes "length key \<noteq> 2 * ct_key_size ct"
  shows "kernel_new L ct key = Err (InvalidKeySize (2 * ct_key_size ct) (length key))"
proof (cases "mode_of ct")
  case None
  then show ?thesis
    using assms by (cases ct) (simp_all add: xts_new_Err)
next
  case (Some m)
  then show ?thesis
    using assms mode_key_size [OF Some] by (simp add: kernel_new_cascade Let_def mult.commute)
qed

lemma kernel_sector_cipher:
  assumes "lib_ok L" "length key = 2 * ct_key_size ct" "kernel_new L ct key = Ok c"
  shows "sector_cipher (kernel_encrypt_sector L c) (kernel_decrypt_sector L c) (\<lambda>n. n = 512)"
proof -
  have r: "kernel_encrypt_sector L c i data = Ok (sector_E L ct key i data)"
      "kernel_decrypt_sector L c i data = Ok (sector_D L ct key i data)" if "length data = 512" for i data
    using kernel_new_refines [OF assms(1,2)] assms(3) that
    by (auto simp: kernel_refines_def sector_E_def sector_D_def)
  show ?thesis
    by unfold_locales (auto simp: r sector_length [OF assms(1,2)] sector_inverse [OF assms(1,2)])
qed

text \<open>A Twofish dispatcher depends on no crate, so its interface laws hold outright.\<close>

interpretation kernel_twofish: sector_cipher
  "kernel_encrypt_sector L (KTwofish x)" "kernel_decrypt_sector L (KTwofish x)" "\<lambda>n. n = 512"
  for L x
proof
  fix d :: bytes and i
  assume d: "length d = 512"
  then have a: "16 dvd length d" "d \<noteq> []" by auto
  let ?t = "twofish_encrypt (cipher2 x) (tweak_input i)"
  note [simp] = twofish.process_sector_E twofish.xts_encrypt_E twofish.xts_decrypt_D
  have bf: "block_fun (twofish_encrypt c)" "block_fun (twofish_decrypt c)" for c
    by (simp_all add: block_fun_def)
  have len: "length (xts_ref (twofish_encrypt (cipher1 x)) ?t d) = length d"
    "length (xts_ref (twofish_decrypt (cipher1 x)) ?t d) = length d"
    using length_xts_ref bf a by blast+
  have ne: "xts_ref F t e \<noteq> []" if "length (xts_ref F t e) = length d" for F t e
    using that a by force
  have inv: "xts_ref (twofish_decrypt (cipher1 x)) ?t (xts_ref (twofish_encrypt (cipher1 x)) ?t d) = d"
    "xts_ref (twofish_encrypt (cipher1 x)) ?t (xts_ref (twofish_decrypt (cipher1 x)) ?t d) = d"
    using xts_ref_inverse bf a twofish_dec_enc twofish_enc_dec by blast+
  show "\<exists>c. kernel_encrypt_sector L (KTwofish x) i d = Ok c \<and> length c = length d \<and>
      kernel_decrypt_sector L (KTwofish x) i c = Ok d"
    using d a len(1) ne [OF len(1)] inv(1) by simp
  show "\<exists>p. kernel_decrypt_sector L (KTwofish x) i d = Ok p \<and> length p = length d \<and>
      kernel_encrypt_sector L (KTwofish x) i p = Ok d"
    using d a len(2) ne [OF len(2)] inv(2) by simp
qed

section \<open>Properties\<close>

text \<open>
  C4: \<open>KernelSectorCipher::new\<close> succeeds exactly on keys of twice the cipher's
  key size; the cipher it returns encrypts and decrypts a 512-byte sector as
  the specification says, pass after pass for cascades, in reverse order for
  decryption. Any other key length gives the key-size error.
\<close>

theorem kernel_cipher_refines:
  assumes "lib_ok L"
  shows "(length key = 2 * ct_key_size ct \<longrightarrow> (\<exists>c. kernel_new L ct key = Ok c \<and>
       (\<forall>i data. length data = 512 \<longrightarrow>
          kernel_encrypt_sector L c i data = Ok (sector_E L ct key i data) \<and>
          kernel_decrypt_sector L c i data = Ok (sector_D L ct key i data))))
    \<and> (length key \<noteq> 2 * ct_key_size ct \<longrightarrow>
       kernel_new L ct key = Err (InvalidKeySize (2 * ct_key_size ct) (length key)))"
  using kernel_new_refines [OF assms] kernel_new_bad_key
  by (auto simp: kernel_refines_def sector_E_def sector_D_def)

theorem kernel_cipher_refines_witness:
  "\<exists>c. kernel_new toy_lib SerpentTwofishAes (replicate 192 1) = Ok c \<and>
     kernel_encrypt_sector toy_lib c 3 (replicate 512 0) = Ok (sector_E toy_lib SerpentTwofishAes (replicate 192 1) 3 (replicate 512 0))"
  using kernel_cipher_refines [OF toy_lib_ok, of "replicate 192 1" SerpentTwofishAes] by auto

text \<open>
  For every cipher the dispatcher can build, decrypting an encrypted
  512-byte sector with the same sector number returns the sector.
\<close>

theorem kernel_sector_roundtrip:
  assumes "lib_ok L" "kernel_new L ct key = Ok c" "length data = 512"
  shows "bind_res (kernel_encrypt_sector L c i data) (kernel_decrypt_sector L c i) = Ok data"
proof -
  have "length key = 2 * ct_key_size ct"
    using assms(2) kernel_new_bad_key [of key ct L] by fastforce
  then show ?thesis
    using sector_cipher.dec_enc [OF kernel_sector_cipher [OF assms(1) _ assms(2)]] assms(3) by blast
qed

theorem kernel_sector_roundtrip_witness:
  "\<exists>c. kernel_new toy_lib Twofish (replicate 64 1) = Ok c \<and>
     bind_res (kernel_encrypt_sector toy_lib c 3 (replicate 512 0)) (kernel_decrypt_sector toy_lib c 3) = Ok (replicate 512 0)"
proof -
  obtain c where c: "kernel_new toy_lib Twofish (replicate 64 1) = Ok c"
    using kernel_new_refines [OF toy_lib_ok, of "replicate 64 1" Twofish] by auto
  have "length (replicate 512 (0 :: u8)) = 512"
    by simp
  then show ?thesis
    using kernel_sector_roundtrip [OF toy_lib_ok c] c by blast
qed

end
