(* ===== verification/VolumeErrors.thy ===== *)
theory VolumeErrors
  imports CryptoLib
begin

text \<open>
  The error types of the upper crates: \<open>FormatError\<close>
  (\<open>vcrypt-format/src/error.rs\<close>) with the text it displays, and \<open>VolumeError\<close>
  (\<open>vcrypt-volume/src/error.rs\<close>). An I/O error of the operating system is
  represented by its text.
\<close>

datatype FormatError =
    InvalidMagic u32 u32
  | InvalidCrc u32 u32
  | UnsupportedVersion u16
  | InvalidHeaderSize nat nat
  | DecryptionFailed string
  | EncryptionFailed string
  | FmtIoError string
  | FmtCryptoError string

fun display_format_error :: "FormatError \<Rightarrow> string" where
  "display_format_error (InvalidMagic e a) =
     ''Invalid magic number: expected '' @ show_hex8 e @ '', got '' @ show_hex8 a"
| "display_format_error (InvalidCrc e a) =
     ''Invalid header CRC32: expected '' @ show_hex8 e @ '', got '' @ show_hex8 a"
| "display_format_error (UnsupportedVersion v) = ''Unsupported volume version: '' @ show_nat (unat v)"
| "display_format_error (InvalidHeaderSize e a) =
     ''Invalid header size: expected '' @ show_nat e @ '', got '' @ show_nat a"
| "display_format_error (DecryptionFailed m) = ''Header decryption failed: '' @ m"
| "display_format_error (EncryptionFailed m) = ''Header encryption failed: '' @ m"
| "display_format_error (FmtIoError m) = ''I/O error: '' @ m"
| "display_format_error (FmtCryptoError m) = ''Crypto error: '' @ m"

type_synonym 'a fres = "(FormatError, 'a) res"

datatype VolumeError =
    OpenError string
  | InvalidFormat string
  | AuthFailed string
  | ReadError u64 string
  | WriteError u64 string
  | AlreadyMounted
  | NotMounted
  | HiddenVolumeProtection
  | Unsupported string
  | VolIoError string
  | VolCryptoError string
  | VolFormatError string

fun display_volume_error :: "VolumeError \<Rightarrow> string" where
  "display_volume_error (OpenError m) = ''Cannot open volume: '' @ m"
| "display_volume_error (InvalidFormat m) = ''Invalid volume format: '' @ m"
| "display_volume_error (AuthFailed m) = ''Authentication failed: '' @ m"
| "display_volume_error (ReadError s m) = ''Read error at sector '' @ show_nat (unat s) @ '': '' @ m"
| "display_volume_error (WriteError s m) = ''Write error at sector '' @ show_nat (unat s) @ '': '' @ m"
| "display_volume_error AlreadyMounted = ''Volume is already mounted''"
| "display_volume_error NotMounted = ''Volume is not mounted''"
| "display_volume_error HiddenVolumeProtection = ''Hidden volume protection triggered''"
| "display_volume_error (Unsupported m) = ''Unsupported operation: '' @ m"
| "display_volume_error (VolIoError m) = ''I/O error: '' @ m"
| "display_volume_error (VolCryptoError m) = ''Crypto error: '' @ m"
| "display_volume_error (VolFormatError m) = ''Format error: '' @ m"

type_synonym 'a vres = "(VolumeError, 'a) res"

end
