(* ===== verification/Header.thy ===== *)
theory Header
  imports VolumeErrors
begin

text \<open>
  The volume header and its on-disk form (\<open>vcrypt-format/src/header.rs\<close>,
  \<open>ser.rs\<close>, \<open>deser.rs\<close>): 64 bytes of salt and a 448-byte area with big-endian
  fields, two CRC-32 sums and the master key area. The CRC is a parameter; the
  round trips do not depend on which function it is.
\<close>

section \<open>The header\<close>

definition VOLUME_HEADER_SIZE :: nat where "VOLUME_HEADER_SIZE = 65536"
definition VOLUME_HEADER_EFFECTIVE_SIZE :: nat where "VOLUME_HEADER_EFFECTIVE_SIZE = 512"
definition PKCS5_SALT_SIZE :: nat where "PKCS5_SALT_SIZE = 64"
definition ENCRYPTED_HEADER_SIZE :: nat where
  "ENCRYPTED_HEADER_SIZE = VOLUME_HEADER_EFFECTIVE_SIZE - PKCS5_SALT_SIZE"
definition MASTER_KEYDATA_SIZE :: nat where "MASTER_KEYDATA_SIZE = 256"
definition VOLUME_MAGIC :: u32 where "VOLUME_MAGIC = 0x56455241"
definition HEADER_VERSION :: u16 where "HEADER_VERSION = 5"

text \<open>Offsets within the encrypted area that the code names.\<close>

definition KEY_AREA_CRC :: nat where "KEY_AREA_CRC = 8"
definition HEADER_CRC :: nat where "HEADER_CRC = 188"
definition MASTER_KEYDATA :: nat where "MASTER_KEYDATA = 192"

lemmas header_consts = VOLUME_HEADER_SIZE_def VOLUME_HEADER_EFFECTIVE_SIZE_def PKCS5_SALT_SIZE_def
  ENCRYPTED_HEADER_SIZE_def MASTER_KEYDATA_SIZE_def KEY_AREA_CRC_def HEADER_CRC_def MASTER_KEYDATA_def

record VolumeHeader =
  vh_salt :: bytes
  vh_magic :: u32
  vh_header_version :: u16
  vh_required_version :: u16
  vh_key_area_crc :: u32
  vh_volume_creation_time :: u64
  vh_modification_time :: u64
  vh_hidden_volume_size :: u64
  vh_volume_size :: u64
  vh_encrypted_area_start :: u64
  vh_encrypted_area_length :: u64
  vh_flags :: u32
  vh_sector_size :: u32
  vh_master_keydata :: bytes
  vh_header_crc :: u32

definition header_new :: VolumeHeader where
  "header_new = \<lparr> vh_salt = replicate PKCS5_SALT_SIZE 0, vh_magic = VOLUME_MAGIC,
     vh_header_version = HEADER_VERSION, vh_required_version = 0x010b, vh_key_area_crc = 0,
     vh_volume_creation_time = 0, vh_modification_time = 0, vh_hidden_volume_size = 0,
     vh_volume_size = 0, vh_encrypted_area_start = 0, vh_encrypted_area_length = 0,
     vh_flags = 0, vh_sector_size = 512,
     vh_master_keydata = replicate MASTER_KEYDATA_SIZE 0, vh_header_crc = 0 \<rparr>"

definition verify_magic :: "VolumeHeader \<Rightarrow> bool" where
  "verify_magic h \<longleftrightarrow> vh_magic h = VOLUME_MAGIC"

section \<open>Serialization\<close>

text \<open>\<open>pad_to n\<close> is the loop that pushes zero bytes while the vector is shorter than \<open>n\<close>.\<close>

definition pad_to :: "nat \<Rightarrow> bytes \<Rightarrow> bytes" where
  "pad_to n xs = xs @ replicate (n - length xs) 0"

text \<open>Writing to a vector cannot fail, so the \<open>?\<close> after each \<open>write_all\<close> leaves no error branch.\<close>

definition serialize_header :: "crypto_lib \<Rightarrow> VolumeHeader \<Rightarrow> bytes fres" where
  "serialize_header L h =
     (let buf = vh_salt h;
          enc = be_bytes 4 (vh_magic h) @ be_bytes 2 (vh_header_version h) @
                be_bytes 2 (vh_required_version h) @ be_bytes 4 (0 :: u32) @
                be_bytes 8 (vh_volume_creation_time h) @ be_bytes 8 (vh_modification_time h) @
                be_bytes 8 (vh_hidden_volume_size h) @ be_bytes 8 (vh_volume_size h) @
                be_bytes 8 (vh_encrypted_area_start h) @ be_bytes 8 (vh_encrypted_area_length h) @
                be_bytes 4 (vh_flags h) @ be_bytes 4 (vh_sector_size h);
          enc = pad_to HEADER_CRC enc;
          crc_pos = length enc;
          enc = enc @ be_bytes 4 (0 :: u32);
          enc = pad_to MASTER_KEYDATA enc;
          kd_start = length enc;
          write_len = min (length (vh_master_keydata h)) MASTER_KEYDATA_SIZE;
          enc = enc @ take write_len (vh_master_keydata h);
          enc = pad_to (kd_start + MASTER_KEYDATA_SIZE) enc;
          enc = resize ENCRYPTED_HEADER_SIZE 0 enc;
          key_crc = lib_crc32 L (drop kd_start enc);
          enc = blit enc KEY_AREA_CRC (be_bytes 4 key_crc);
          header_crc = lib_crc32 L (take crc_pos enc);
          enc = blit enc crc_pos (be_bytes 4 header_crc)
      in Ok (buf @ enc))"

text \<open>\<open>copy_from_slice\<close> panics when the lengths differ.\<close>

definition serialize_header_full :: "crypto_lib \<Rightarrow> VolumeHeader \<Rightarrow> bytes fres" where
  "serialize_header_full L h =
     bind_res (serialize_header L h) (\<lambda>effective.
     if length effective = VOLUME_HEADER_EFFECTIVE_SIZE
     then Ok (blit (replicate VOLUME_HEADER_SIZE 0) 0 effective) else Panic)"

section \<open>Deserialization\<close>

text \<open>A cursor is the unread rest of its buffer.\<close>

definition read_exact :: "nat \<Rightarrow> bytes \<Rightarrow> (bytes \<times> bytes) fres" where
  "read_exact n r =
     (if n \<le> length r then Ok (take n r, drop n r) else Err (FmtIoError ''failed to fill whole buffer''))"

definition read_u16 :: "bytes \<Rightarrow> (u16 \<times> bytes) fres" where
  "read_u16 r = bind_res (read_exact 2 r) (\<lambda>(b, r). Ok (from_be b, r))"

definition read_u32 :: "bytes \<Rightarrow> (u32 \<times> bytes) fres" where
  "read_u32 r = bind_res (read_exact 4 r) (\<lambda>(b, r). Ok (from_be b, r))"

definition read_u64 :: "bytes \<Rightarrow> (u64 \<times> bytes) fres" where
  "read_u64 r = bind_res (read_exact 8 r) (\<lambda>(b, r). Ok (from_be b, r))"

definition deserialize_header :: "crypto_lib \<Rightarrow> bytes \<Rightarrow> VolumeHeader fres" where
  "deserialize_header L data =
     (if length data < VOLUME_HEADER_EFFECTIVE_SIZE then
        Err (InvalidHeaderSize VOLUME_HEADER_EFFECTIVE_SIZE (length data))
      else
      bind_res (read_exact PKCS5_SALT_SIZE data) (\<lambda>(salt, r).
      bind_res (read_exact ENCRYPTED_HEADER_SIZE r) (\<lambda>(enc, r).
      bind_res (read_u32 enc) (\<lambda>(magic, cr).
      if magic \<noteq> VOLUME_MAGIC then Err (InvalidMagic VOLUME_MAGIC magic)
      else
      bind_res (read_u16 cr) (\<lambda>(header_version, cr).
      bind_res (read_u16 cr) (\<lambda>(required_version, cr).
      bind_res (read_u32 cr) (\<lambda>(key_area_crc, cr).
      bind_res (read_u64 cr) (\<lambda>(volume_creation_time, cr).
      bind_res (read_u64 cr) (\<lambda>(modification_time, cr).
      bind_res (read_u64 cr) (\<lambda>(hidden_volume_size, cr).
      bind_res (read_u64 cr) (\<lambda>(volume_size, cr).
      bind_res (read_u64 cr) (\<lambda>(encrypted_area_start, cr).
      bind_res (read_u64 cr) (\<lambda>(encrypted_area_length, cr).
      bind_res (read_u32 cr) (\<lambda>(flags, cr).
      bind_res (read_u32 cr) (\<lambda>(sector_size, cr).
      if sector_size < 512 \<or> sector_size > 4096 \<or> sector_size mod 512 \<noteq> 0 then
        Err (InvalidHeaderSize 512 (unat sector_size))
      else
      bind_res (read_u32 (drop HEADER_CRC enc)) (\<lambda>(stored_crc, cr).
      let computed_crc = lib_crc32 L (take HEADER_CRC enc) in
      if stored_crc \<noteq> computed_crc then Err (InvalidCrc computed_crc stored_crc)
      else
      let kd_off = MASTER_KEYDATA;
          master_keydata = sub enc kd_off (kd_off + MASTER_KEYDATA_SIZE);
          computed_key_crc = lib_crc32 L (drop kd_off enc) in
      if key_area_crc \<noteq> computed_key_crc then Err (InvalidCrc computed_key_crc key_area_crc)
      else
      Ok \<lparr> vh_salt = salt, vh_magic = VOLUME_MAGIC, vh_header_version = header_version,
           vh_required_version = required_version, vh_key_area_crc = key_area_crc,
           vh_volume_creation_time = volume_creation_time, vh_modification_time = modification_time,
           vh_hidden_volume_size = hidden_volume_size, vh_volume_size = volume_size,
           vh_encrypted_area_start = encrypted_area_start, vh_encrypted_area_length = encrypted_area_length,
           vh_flags = flags, vh_sector_size = sector_size, vh_master_keydata = master_keydata,
           vh_header_crc = stored_crc \<rparr>))))))))))))))))"

section \<open>The layout of a serialized header\<close>

definition sector_size_ok :: "u32 \<Rightarrow> bool" where
  "sector_size_ok s \<longleftrightarrow> \<not> (s < 512 \<or> s > 4096 \<or> s mod 512 \<noteq> 0)"

text \<open>The 68 bytes of fields, the key area and the two sums.\<close>

definition field_bytes :: "VolumeHeader \<Rightarrow> u32 \<Rightarrow> bytes" where
  "field_bytes h kc = be_bytes 4 (vh_magic h) @ be_bytes 2 (vh_header_version h) @
     be_bytes 2 (vh_required_version h) @ be_bytes 4 kc @
     be_bytes 8 (vh_volume_creation_time h) @ be_bytes 8 (vh_modification_time h) @
     be_bytes 8 (vh_hidden_volume_size h) @ be_bytes 8 (vh_volume_size h) @
     be_bytes 8 (vh_encrypted_area_start h) @ be_bytes 8 (vh_encrypted_area_length h) @
     be_bytes 4 (vh_flags h) @ be_bytes 4 (vh_sector_size h)"

definition key_area :: "VolumeHeader \<Rightarrow> bytes" where
  "key_area h = resize 256 0 (vh_master_keydata h)"

definition key_crc :: "crypto_lib \<Rightarrow> VolumeHeader \<Rightarrow> u32" where
  "key_crc L h = lib_crc32 L (key_area h)"

definition header_crc :: "crypto_lib \<Rightarrow> VolumeHeader \<Rightarrow> u32" where
  "header_crc L h = lib_crc32 L (field_bytes h (key_crc L h) @ replicate 120 0)"

lemma length_field_bytes [simp]: "length (field_bytes h kc) = 68"
  by (simp add: field_bytes_def)

lemma length_key_area [simp]: "length (key_area h) = 256"
  by (simp add: key_area_def)

lemma blit_key_crc:
  "blit (field_bytes h 0 @ rest) 8 (be_bytes 4 kc) = field_bytes h kc @ rest"
  by (simp add: blit_def field_bytes_def)

lemma blit_append: "length xs = n \<Longrightarrow> length zs = length ys \<Longrightarrow> blit (xs @ ys @ rest) n zs = xs @ zs @ rest"
  by (simp add: blit_def)

lemma pad_fields: "pad_to HEADER_CRC (field_bytes h 0) = field_bytes h 0 @ replicate 120 0"
  by (simp add: pad_to_def HEADER_CRC_def)

lemma pad_keys:
  assumes "length xs = 192"
  shows "resize ENCRYPTED_HEADER_SIZE 0 (pad_to (192 + MASTER_KEYDATA_SIZE)
    (xs @ take (min (length (vh_master_keydata h)) MASTER_KEYDATA_SIZE) (vh_master_keydata h))) = xs @ key_area h"
  using assms by (simp add: pad_to_def resize_def key_area_def header_consts min_def)

lemma serialize_layout:
  "serialize_header L h = Ok (vh_salt h @ field_bytes h (key_crc L h) @ replicate 120 0 @
     be_bytes 4 (header_crc L h) @ key_area h)"
proof -
  let ?X = "(field_bytes h 0 @ replicate 120 0) @ be_bytes 4 (0 :: u32)"
  have p: "pad_to MASTER_KEYDATA ?X = ?X"
    by (simp add: pad_to_def MASTER_KEYDATA_def)
  have l: "length ?X = 192" "length (field_bytes h 0 @ replicate 120 0) = 188"
    by simp_all
  have b1: "blit (?X @ key_area h) KEY_AREA_CRC (be_bytes 4 c) =
      (field_bytes h c @ replicate 120 0) @ be_bytes 4 (0 :: u32) @ key_area h" for c
    unfolding KEY_AREA_CRC_def append_assoc blit_key_crc ..
  have b2: "blit ((field_bytes h c @ replicate 120 0) @ be_bytes 4 (0 :: u32) @ key_area h) 188 (be_bytes 4 d) =
      (field_bytes h c @ replicate 120 0) @ be_bytes 4 d @ key_area h" for c d
    by (rule blit_append) simp_all
  have t: "take 188 ((field_bytes h c @ replicate 120 0) @ rest) = field_bytes h c @ replicate 120 0" for c rest
    by (subst take_append) simp
  have d: "drop 192 (?X @ key_area h) = key_area h"
    using l(1) by (subst drop_append) simp
  show ?thesis
    unfolding serialize_header_def field_bytes_def [of h 0, symmetric] Let_def pad_fields p l
      pad_keys [OF l(1)] d b1 t b2 key_crc_def header_crc_def
    by simp
qed

section \<open>What deserialization returns\<close>

lemma read_exact_append [simp]: "length xs = n \<Longrightarrow> read_exact n (xs @ ys) = Ok (xs, ys)"
  by (simp add: read_exact_def)

lemma read_ints [simp]:
  "read_u16 (be_bytes 2 w16 @ r) = Ok (w16, r)"
  "read_u32 (be_bytes 4 w32 @ r) = Ok (w32, r)"
  "read_u64 (be_bytes 8 w64 @ r) = Ok (w64, r)"
  by (simp_all add: read_u16_def read_u32_def read_u64_def)

lemma deserialize_layout:
  assumes "length salt = 64" "length res = 120" "length ka = 256"
  shows "deserialize_header L (salt @ (field_bytes h kc @ res @ be_bytes 4 hc @ ka) @ rest) =
    (if vh_magic h \<noteq> VOLUME_MAGIC then Err (InvalidMagic VOLUME_MAGIC (vh_magic h))
     else if \<not> sector_size_ok (vh_sector_size h) then Err (InvalidHeaderSize 512 (unat (vh_sector_size h)))
     else if hc \<noteq> lib_crc32 L (field_bytes h kc @ res)
       then Err (InvalidCrc (lib_crc32 L (field_bytes h kc @ res)) hc)
     else if kc \<noteq> lib_crc32 L ka then Err (InvalidCrc (lib_crc32 L ka) kc)
     else Ok (h \<lparr> vh_salt := salt, vh_key_area_crc := kc, vh_master_keydata := ka, vh_header_crc := hc \<rparr>))"
proof -
  let ?E = "field_bytes h kc @ res @ be_bytes 4 hc @ ka"
  have l: "length ?E = 448"
    using assms by simp
  have r0: "read_exact PKCS5_SALT_SIZE (salt @ ?E @ rest) = Ok (salt, ?E @ rest)"
    "read_exact ENCRYPTED_HEADER_SIZE (?E @ rest) = Ok (?E, rest)"
    using assms l by (simp_all only: read_exact_append header_consts)
  have big: "\<not> length (salt @ ?E @ rest) < VOLUME_HEADER_EFFECTIVE_SIZE"
    using assms by (simp add: header_consts)
  have r1: "read_u32 ?E = Ok (vh_magic h, be_bytes 2 (vh_header_version h) @
     be_bytes 2 (vh_required_version h) @ be_bytes 4 kc @
     be_bytes 8 (vh_volume_creation_time h) @ be_bytes 8 (vh_modification_time h) @
     be_bytes 8 (vh_hidden_volume_size h) @ be_bytes 8 (vh_volume_size h) @
     be_bytes 8 (vh_encrypted_area_start h) @ be_bytes 8 (vh_encrypted_area_length h) @
     be_bytes 4 (vh_flags h) @ be_bytes 4 (vh_sector_size h) @ res @ be_bytes 4 hc @ ka)"
    by (simp add: field_bytes_def)
  have r2: "take HEADER_CRC ?E = field_bytes h kc @ res"
    "read_u32 (drop HEADER_CRC ?E) = Ok (hc, ka)" "drop MASTER_KEYDATA ?E = ka"
    "sub ?E MASTER_KEYDATA (MASTER_KEYDATA + MASTER_KEYDATA_SIZE) = ka"
    using assms by (simp_all add: header_consts sub_def)
  have "h \<lparr> vh_salt := salt, vh_key_area_crc := kc, vh_master_keydata := ka, vh_header_crc := hc \<rparr> =
      \<lparr> vh_salt = salt, vh_magic = vh_magic h, vh_header_version = vh_header_version h,
           vh_required_version = vh_required_version h, vh_key_area_crc = kc,
           vh_volume_creation_time = vh_volume_creation_time h, vh_modification_time = vh_modification_time h,
           vh_hidden_volume_size = vh_hidden_volume_size h, vh_volume_size = vh_volume_size h,
           vh_encrypted_area_start = vh_encrypted_area_start h, vh_encrypted_area_length = vh_encrypted_area_length h,
           vh_flags = vh_flags h, vh_sector_size = vh_sector_size h, vh_master_keydata = ka,
           vh_header_crc = hc \<rparr>"
    by simp
  then show ?thesis
    unfolding deserialize_header_def if_not_P [OF big] r0 bind_res.simps prod.case r1 read_ints r2 Let_def
    by (simp add: sector_size_ok_def)
qed

text \<open>Every buffer of at least 512 bytes has that shape.\<close>

definition decode_fields :: "bytes \<Rightarrow> VolumeHeader" where
  "decode_fields e = header_new \<lparr> vh_magic := from_be (sub e 0 4),
     vh_header_version := from_be (sub e 4 6), vh_required_version := from_be (sub e 6 8),
     vh_volume_creation_time := from_be (sub e 12 20), vh_modification_time := from_be (sub e 20 28),
     vh_hidden_volume_size := from_be (sub e 28 36), vh_volume_size := from_be (sub e 36 44),
     vh_encrypted_area_start := from_be (sub e 44 52), vh_encrypted_area_length := from_be (sub e 52 60),
     vh_flags := from_be (sub e 60 64), vh_sector_size := from_be (sub e 64 68) \<rparr>"

lemma sub_join: "a \<le> b \<Longrightarrow> b \<le> c \<Longrightarrow> sub xs a b @ sub xs b c = sub xs a c"
  by (simp add: sub_def) (metis (no_types, lifting) Nat.add_diff_assoc2 drop_drop le_add_diff_inverse le_add_diff_inverse2 take_add)

lemma sub_join_append: "a \<le> b \<Longrightarrow> b \<le> c \<Longrightarrow> sub xs a b @ sub xs b c @ ys = sub xs a c @ ys"
  using sub_join [of a b c xs] by (simp flip: append_assoc)

lemma field_bytes_decode:
  assumes "length e = 448"
  shows "field_bytes (decode_fields e) (from_be (sub e 8 12)) = sub e 0 68"
  using assms by (simp add: field_bytes_def decode_fields_def sub_join sub_join_append)

lemma layout_split:
  assumes "512 \<le> length data"
  shows "data = take 64 data @ (field_bytes (decode_fields (sub data 64 512)) (from_be (sub data 72 76)) @
      sub data 132 252 @ be_bytes 4 (from_be (sub data 252 256) :: u32) @ sub data 256 512) @ drop 512 data"
    "field_bytes (decode_fields (sub data 64 512)) (from_be (sub data 72 76)) = sub data 64 132"
proof -
  let ?e = "sub data 64 512"
  have l: "length ?e = 448"
    using assms by simp
  have s: "sub ?e 8 12 = sub data 72 76" "sub ?e 0 68 = sub data 64 132" "sub ?e 68 188 = sub data 132 252"
    "sub ?e 188 192 = sub data 252 256" "sub ?e 192 448 = sub data 256 512"
    by (simp_all add: sub_sub)
  show f: "field_bytes (decode_fields ?e) (from_be (sub data 72 76)) = sub data 64 132"
    using field_bytes_decode [OF l] by (simp only: s)
  have e: "?e = sub data 64 132 @ sub data 132 252 @ be_bytes 4 (from_be (sub data 252 256) :: u32) @ sub data 256 512"
    using assms by (simp add: sub_join_append sub_join)
  have "drop 64 data = ?e @ drop 512 data"
    using append_take_drop_id [of 448 "drop 64 data"] by (simp add: sub_def)
  then have d: "data = take 64 data @ ?e @ drop 512 data"
    using append_take_drop_id [of 64 data] by simp
  show "data = take 64 data @ (field_bytes (decode_fields ?e) (from_be (sub data 72 76)) @
      sub data 132 252 @ be_bytes 4 (from_be (sub data 252 256) :: u32) @ sub data 256 512) @ drop 512 data"
    unfolding f using d by (simp only: e [symmetric])
qed

text \<open>So what deserialization does on a long enough buffer is a formula over its bytes.\<close>

lemma deserialize_eq:
  assumes "512 \<le> length data"
  shows "deserialize_header L data =
    (let magic = from_be (sub data 64 68); sector_size = from_be (sub data 128 132); stored = from_be (sub data 252 256);
         computed = lib_crc32 L (sub data 64 252); key_stored = from_be (sub data 72 76);
         key_computed = lib_crc32 L (sub data 256 512) in
     if magic \<noteq> VOLUME_MAGIC then Err (InvalidMagic VOLUME_MAGIC magic)
     else if \<not> sector_size_ok sector_size then Err (InvalidHeaderSize 512 (unat sector_size))
     else if stored \<noteq> computed then Err (InvalidCrc computed stored)
     else if key_stored \<noteq> key_computed then Err (InvalidCrc key_computed key_stored)
     else Ok ((decode_fields (sub data 64 512)) \<lparr> vh_salt := take 64 data, vh_key_area_crc := key_stored,
       vh_master_keydata := sub data 256 512, vh_header_crc := stored \<rparr>))"
proof -
  have l: "length (take 64 data) = 64" "length (sub data 132 252) = 120" "length (sub data 256 512) = 256"
    using assms by simp_all
  have m: "vh_magic (decode_fields (sub data 64 512)) = from_be (sub data 64 68)"
    "vh_sector_size (decode_fields (sub data 64 512)) = from_be (sub data 128 132)"
    by (simp_all add: decode_fields_def sub_sub)
  have j: "sub data 64 132 @ sub data 132 252 = sub data 64 252"
    by (simp add: sub_join)
  note dl = deserialize_layout [OF l, of L "decode_fields (sub data 64 512)" "from_be (sub data 72 76)"
      "from_be (sub data 252 256)" "drop 512 data", folded layout_split(1) [OF assms]]
  show ?thesis
    unfolding dl layout_split(2) [OF assms] j m by (simp only: Let_def)
qed

section \<open>Round trips\<close>

text \<open>A header as \<open>deserialize_header\<close> returns it, with the computed sums and the padded key area.\<close>

definition stored_form :: "crypto_lib \<Rightarrow> VolumeHeader \<Rightarrow> VolumeHeader" where
  "stored_form L h = h \<lparr> vh_key_area_crc := key_crc L h, vh_master_keydata := key_area h,
     vh_header_crc := header_crc L h \<rparr>"

definition header_ok :: "VolumeHeader \<Rightarrow> bool" where
  "header_ok h \<longleftrightarrow> length (vh_salt h) = 64 \<and> vh_magic h = VOLUME_MAGIC \<and> sector_size_ok (vh_sector_size h)"

lemma deserialize_serialize:
  assumes "header_ok h" "serialize_header L h = Ok buf"
  shows "length buf = 512" and "deserialize_header L (buf @ rest) = Ok (stored_form L h)"
proof -
  have b: "buf = vh_salt h @ field_bytes h (key_crc L h) @ replicate 120 0 @ be_bytes 4 (header_crc L h) @ key_area h"
    using assms(2) by (simp add: serialize_layout)
  show "length buf = 512"
    using assms(1) by (simp add: b header_ok_def)
  have "deserialize_header L (vh_salt h @ (field_bytes h (key_crc L h) @ replicate 120 0 @
      be_bytes 4 (header_crc L h) @ key_area h) @ rest) = Ok (stored_form L h)"
    using assms(1)
    by (subst deserialize_layout)
      (simp_all add: header_ok_def stored_form_def header_crc_def key_crc_def)
  then show "deserialize_header L (buf @ rest) = Ok (stored_form L h)"
    by (simp add: b)
qed

lemma deserialize_short: "length data < 512 \<Longrightarrow> deserialize_header L data = Err (InvalidHeaderSize 512 (length data))"
  by (simp add: deserialize_header_def header_consts)

text \<open>The reserved bytes are covered by the CRC and otherwise not looked at.\<close>

lemma deserialize_accepts_iff:
  "(\<exists>h. deserialize_header L data = Ok h) \<longleftrightarrow> 512 \<le> length data \<and> from_be (sub data 64 68) = VOLUME_MAGIC
    \<and> sector_size_ok (from_be (sub data 128 132)) \<and> from_be (sub data 252 256) = lib_crc32 L (sub data 64 252)
    \<and> from_be (sub data 72 76) = lib_crc32 L (sub data 256 512)"
proof (cases "512 \<le> length data")
  case True
  then show ?thesis
    by (simp add: deserialize_eq Let_def)
qed (simp add: deserialize_short)

lemma deserialize_sound:
  assumes "deserialize_header L data = Ok h"
  shows "512 \<le> length data" "header_ok h" "vh_salt h = take 64 data"
    and "length (vh_master_keydata h) = 256"
    and "vh_key_area_crc h = lib_crc32 L (vh_master_keydata h)"
    and "vh_master_keydata h = sub data 256 512"
    and "serialize_header L h = Ok (take 132 data @ replicate 120 0 @
      be_bytes 4 (lib_crc32 L (sub data 64 132 @ replicate 120 0)) @ sub data 256 512)"
proof -
  let ?g = "decode_fields (sub data 64 512)" and ?kc = "from_be (sub data 72 76) :: u32"
  show big: "512 \<le> length data"
    using assms deserialize_accepts_iff by blast
  have h: "h = ?g \<lparr> vh_salt := take 64 data, vh_key_area_crc := ?kc, vh_master_keydata := sub data 256 512,
      vh_header_crc := from_be (sub data 252 256) \<rparr>"
    and ok: "from_be (sub data 64 68) = VOLUME_MAGIC" "sector_size_ok (from_be (sub data 128 132))"
    "?kc = lib_crc32 L (sub data 256 512)"
    using assms unfolding deserialize_eq [OF big] Let_def by (simp_all split: if_splits)
  show "header_ok h" "vh_salt h = take 64 data" "length (vh_master_keydata h) = 256"
    "vh_key_area_crc h = lib_crc32 L (vh_master_keydata h)" "vh_master_keydata h = sub data 256 512"
    using ok big by (simp_all add: h header_ok_def decode_fields_def sub_sub)
  have ka: "key_area h = sub data 256 512"
    using big by (simp add: key_area_def h resize_def)
  have f: "field_bytes h ?kc = sub data 64 132"
    using layout_split(2) [OF big] by (simp add: field_bytes_def h)
  have k: "key_crc L h = ?kc"
    using ok(3) by (simp add: key_crc_def ka)
  have "take 64 data @ sub data 64 132 = take 132 data"
    using sub_join [of 0 64 132 data] by (simp add: sub_def)
  then show "serialize_header L h = Ok (take 132 data @ replicate 120 0 @
      be_bytes 4 (lib_crc32 L (sub data 64 132 @ replicate 120 0)) @ sub data 256 512)"
    unfolding serialize_layout header_crc_def k f ka by (simp add: h)
qed

text \<open>
  Any reserved bytes are accepted when the sum fits them, although the format
  (\<open>header.rs\<close>, \<open>ser.rs\<close>) says they must be zero; writing the header drops them.
\<close>

lemma reserved_bytes_accepted:
  fixes L :: crypto_lib
  assumes "header_ok h" "length (vh_master_keydata h) = 256" "length res = 120"
  defines "data \<equiv> vh_salt h @ field_bytes h (key_crc L h) @ res @
      be_bytes 4 (lib_crc32 L (field_bytes h (key_crc L h) @ res)) @ key_area h"
  shows "deserialize_header L data = Ok (h \<lparr> vh_key_area_crc := key_crc L h,
      vh_header_crc := lib_crc32 L (field_bytes h (key_crc L h) @ res) \<rparr>)"
    "sub data 132 252 = res"
proof -
  have k: "key_area h = vh_master_keydata h"
    using assms(2) by (simp add: key_area_def resize_def)
  have "length (vh_salt h) = 64"
    using assms(1) by (simp add: header_ok_def)
  from deserialize_layout [OF this assms(3) length_key_area [of h], of L h "key_crc L h"
      "lib_crc32 L (field_bytes h (key_crc L h) @ res)" "[]"]
  show "deserialize_header L data = Ok (h \<lparr> vh_key_area_crc := key_crc L h,
      vh_header_crc := lib_crc32 L (field_bytes h (key_crc L h) @ res) \<rparr>)"
    using assms(1) by (simp add: data_def header_ok_def k key_crc_def)
  show "sub data 132 252 = res"
    using assms(1,3) by (simp add: data_def header_ok_def sub_def)
qed

section \<open>Properties\<close>

text \<open>
  C3: Serialization followed by deserialization, with anything appended, is the
  identity on headers with a 64-byte salt, the magic number and a valid
  sector size, up to the two computed CRC fields and the zero padding (or
  truncation) of the key area to 256 bytes; the serialized form has 512 bytes
  and the full form 65536.
\<close>

theorem header_roundtrip:
  assumes "header_ok h"
  shows "\<exists>buf. serialize_header L h = Ok buf \<and> length buf = 512
    \<and> deserialize_header L (buf @ rest) = Ok (stored_form L h)
    \<and> serialize_header_full L h = Ok (buf @ replicate 65024 0)"
proof -
  obtain buf where b: "serialize_header L h = Ok buf"
    by (simp add: serialize_layout)
  then show ?thesis
    using deserialize_serialize [OF assms b]
    by (simp add: serialize_header_full_def header_consts blit_def)
qed

theorem header_roundtrip_witness:
  "\<exists>buf. serialize_header toy_lib (header_new \<lparr> vh_volume_size := 7 \<rparr>) = Ok buf
     \<and> deserialize_header toy_lib buf = Ok (stored_form toy_lib (header_new \<lparr> vh_volume_size := 7 \<rparr>))"
proof -
  have "header_ok (header_new \<lparr> vh_volume_size := 7 \<rparr>)"
    by (simp add: header_ok_def header_new_def header_consts sector_size_ok_def)
  then show ?thesis
    using header_roundtrip [of "header_new \<lparr> vh_volume_size := 7 \<rparr>" toy_lib "[]"] by auto
qed

text \<open>
  C6: Deserialization accepts a buffer exactly when it has 512 bytes or more, the
  magic number, a valid sector size, and the two sums of its header bytes and
  its key area. The header it returns has the salt and the key area of the
  buffer and serializes to the bytes that were read, with zeros in place of the
  120 reserved bytes and the sum that goes with them; so it gives back the very
  bytes that were read exactly when the reserved bytes were zero. That they are
  is not checked.
\<close>

theorem header_accepts_exactly:
  "((\<exists>h. deserialize_header L data = Ok h) \<longleftrightarrow> 512 \<le> length data \<and> from_be (sub data 64 68) = VOLUME_MAGIC
      \<and> sector_size_ok (from_be (sub data 128 132)) \<and> from_be (sub data 252 256) = lib_crc32 L (sub data 64 252)
      \<and> from_be (sub data 72 76) = lib_crc32 L (sub data 256 512))
   \<and> (\<forall>h. deserialize_header L data = Ok h \<longrightarrow> header_ok h \<and> vh_salt h = take 64 data
      \<and> vh_master_keydata h = sub data 256 512 \<and> vh_key_area_crc h = lib_crc32 L (vh_master_keydata h)
      \<and> serialize_header L h = Ok (take 132 data @ replicate 120 0 @
          be_bytes 4 (lib_crc32 L (sub data 64 132 @ replicate 120 0)) @ sub data 256 512)
      \<and> (serialize_header L h = Ok (take 512 data) \<longleftrightarrow> sub data 132 252 = replicate 120 0))"
proof -
  have "serialize_header L h = Ok (take 512 data) \<longleftrightarrow> sub data 132 252 = replicate 120 0"
    if d: "deserialize_header L data = Ok h" for h
  proof -
    note s = deserialize_sound [OF d]
    have "take 512 data = take 132 data @ sub data 132 252 @ sub data 252 256 @ sub data 256 512"
    proof -
      have "take n data = sub data 0 n" for n
        by (simp add: sub_def)
      then show ?thesis
        by (simp add: sub_join_append sub_join)
    qed
    moreover have "sub data 252 256 = be_bytes 4 (lib_crc32 L (sub data 64 252))"
    proof -
      have "be_bytes 4 (from_be (sub data 252 256) :: u32) = sub data 252 256"
        using s(1) by simp
      then show ?thesis
        using d deserialize_accepts_iff [of L data] by (metis (no_types))
    qed
    moreover have "sub data 64 252 = sub data 64 132 @ sub data 132 252"
      by (simp add: sub_join)
    ultimately have t: "take 512 data = take 132 data @ sub data 132 252 @
        be_bytes 4 (lib_crc32 L (sub data 64 132 @ sub data 132 252)) @ sub data 256 512"
      by simp
    have "length (replicate 120 (0 :: u8)) = length (sub data 132 252)"
      using s(1) by simp
    then show ?thesis
      unfolding s(7) t by (auto simp del: length_sub)
  qed
  then show ?thesis
    using deserialize_accepts_iff [of L data] deserialize_sound [of L data] by auto
qed

theorem header_accepts_exactly_witness:
  "\<exists>data h. deserialize_header toy_lib data = Ok h \<and> header_ok h \<and> sub data 132 252 = replicate 120 7
     \<and> serialize_header toy_lib h \<noteq> Ok (take 512 data)"
proof -
  let ?h = "header_new \<lparr> vh_master_keydata := replicate 256 0 \<rparr>"
  have h: "header_ok ?h" "length (vh_master_keydata ?h) = 256"
    by (simp_all add: header_ok_def header_new_def header_consts sector_size_ok_def)
  obtain data g where d: "deserialize_header toy_lib data = Ok g" "sub data 132 252 = replicate 120 7"
    using reserved_bytes_accepted [OF h, of "replicate 120 7" toy_lib] by auto
  have "replicate 120 (7 :: u8) \<noteq> replicate 120 0"
    by simp
  then have "header_ok g" "serialize_header toy_lib g \<noteq> Ok (take 512 data)"
    using header_accepts_exactly [of toy_lib data] d by auto
  then show ?thesis
    using d by blast
qed

lemma deserialize_cases:
  obtains "length data < 512" "deserialize_header L data = Err (InvalidHeaderSize 512 (length data))"
  | h where "512 \<le> length data" "deserialize_header L data = Ok h"
  | e where "512 \<le> length data" "deserialize_header L data = Err e"
    "(\<exists>m. e = InvalidMagic VOLUME_MAGIC m \<and> m \<noteq> VOLUME_MAGIC)
      \<or> (\<exists>s. e = InvalidHeaderSize 512 (unat s) \<and> \<not> sector_size_ok s)
      \<or> (\<exists>c s. e = InvalidCrc c s \<and> c \<noteq> s)"
proof (cases "length data < 512")
  case True
  then show ?thesis
    using that(1) by (simp add: deserialize_short)
next
  case False
  then have big: "512 \<le> length data" by simp
  note eq = deserialize_eq [OF big, of L]
  show ?thesis
  proof (cases "deserialize_header L data")
    case (Err e)
    then have "(\<exists>m. e = InvalidMagic VOLUME_MAGIC m \<and> m \<noteq> VOLUME_MAGIC)
      \<or> (\<exists>s. e = InvalidHeaderSize 512 (unat s) \<and> \<not> sector_size_ok s)
      \<or> (\<exists>c s. e = InvalidCrc c s \<and> c \<noteq> s)"
      unfolding eq Let_def by (auto split: if_splits)
    then show ?thesis
      using that(3) big Err by blast
  next
    case Panic
    then show ?thesis
      unfolding eq Let_def by (simp split: if_splits)
  qed (use that(2) big in blast)
qed

lemma deserialize_no_panic: "deserialize_header L data \<noteq> Panic"
  by (cases L data rule: deserialize_cases) auto

text \<open>
  Deserialization never panics, and its errors are the ones the checks
  name: too short a buffer gives the header-size error, and on a buffer of 512
  bytes or more only a wrong magic number, a bad sector size or a CRC mismatch
  can be reported.
\<close>

theorem header_errors:
  "deserialize_header L data \<noteq> Panic
   \<and> (deserialize_header L data = Err e \<longrightarrow>
        (if length data < 512 then e = InvalidHeaderSize 512 (length data)
         else (\<exists>m. e = InvalidMagic VOLUME_MAGIC m \<and> m \<noteq> VOLUME_MAGIC)
            \<or> (\<exists>s. e = InvalidHeaderSize 512 (unat s) \<and> \<not> sector_size_ok s)
            \<or> (\<exists>c s. e = InvalidCrc c s \<and> c \<noteq> s)))"
  by (cases L data rule: deserialize_cases) auto

theorem header_errors_witness:
  "deserialize_header toy_lib (replicate 511 0) = Err (InvalidHeaderSize 512 511)"
proof -
  have "\<exists>e. deserialize_header toy_lib (replicate 511 0) = Err e"
    by (simp add: deserialize_header_def header_consts)
  then show ?thesis
    using header_errors [of toy_lib "replicate 511 0"] by auto
qed

end
