(* ===== verification/Hashes.thy ===== *)
theory Hashes
  imports CryptoLib
begin

text \<open>
  The hash functions (\<open>vcrypt-core/src/hash\<close>): six implementations of the
  \<open>HashFunction\<close> trait around the digest crates, and the table
  \<open>HashAlgorithm\<close>. The state of a hasher is the sequence of chunks it was
  given.
\<close>

section \<open>The trait and its implementations\<close>

type_synonym hasher = "bytes list"

record hash_ops =
  h_output_size :: nat
  h_name :: string
  h_default :: hasher
  h_update :: "hasher \<Rightarrow> bytes \<Rightarrow> hasher"
  h_finalize :: "hasher \<Rightarrow> bytes"

text \<open>All six implementations create, feed and finish the digest of a crate.\<close>

definition digest_ops :: "nat \<Rightarrow> string \<Rightarrow> digest_lib \<Rightarrow> hash_ops" where
  "digest_ops n nm d = \<lparr> h_output_size = n, h_name = nm, h_default = [],
     h_update = (\<lambda>st data. st @ [data]), h_finalize = d \<rparr>"

definition hash_oneshot :: "hash_ops \<Rightarrow> bytes \<Rightarrow> bytes" where
  "hash_oneshot H data = h_finalize H (h_update H (h_default H) data)"

definition Sha256Hash :: "crypto_lib \<Rightarrow> hash_ops" where
  "Sha256Hash L = digest_ops 32 ''SHA-256'' (lib_sha256 L)"

definition Sha512Hash :: "crypto_lib \<Rightarrow> hash_ops" where
  "Sha512Hash L = digest_ops 64 ''SHA-512'' (lib_sha512 L)"

definition Blake2sHash :: "crypto_lib \<Rightarrow> hash_ops" where
  "Blake2sHash L = digest_ops 32 ''BLAKE2s-256'' (lib_blake2s L)"

definition WhirlpoolHash :: "crypto_lib \<Rightarrow> hash_ops" where
  "WhirlpoolHash L = digest_ops 64 ''Whirlpool'' (lib_whirlpool L)"

definition StreebogHash :: "crypto_lib \<Rightarrow> hash_ops" where
  "StreebogHash L = digest_ops 64 ''Streebog-512'' (lib_streebog512 L)"

definition Streebog256Hash :: "crypto_lib \<Rightarrow> hash_ops" where
  "Streebog256Hash L = digest_ops 32 ''Streebog-256'' (lib_streebog256 L)"

datatype HashAlgorithm = HaSha256 | HaSha512 | HaBlake2s256 | HaWhirlpool | HaStreebog

fun ha_output_size :: "HashAlgorithm \<Rightarrow> nat" where
  "ha_output_size HaSha256 = 32"
| "ha_output_size HaSha512 = 64"
| "ha_output_size HaBlake2s256 = 32"
| "ha_output_size HaWhirlpool = 64"
| "ha_output_size HaStreebog = 64"

fun ha_name :: "HashAlgorithm \<Rightarrow> string" where
  "ha_name HaSha256 = ''SHA-256''"
| "ha_name HaSha512 = ''SHA-512''"
| "ha_name HaBlake2s256 = ''BLAKE2s-256''"
| "ha_name HaWhirlpool = ''Whirlpool''"
| "ha_name HaStreebog = ''Streebog''"

text \<open>The implementation that belongs to an entry of the table.\<close>

fun ha_impl :: "crypto_lib \<Rightarrow> HashAlgorithm \<Rightarrow> hash_ops" where
  "ha_impl L HaSha256 = Sha256Hash L"
| "ha_impl L HaSha512 = Sha512Hash L"
| "ha_impl L HaBlake2s256 = Blake2sHash L"
| "ha_impl L HaWhirlpool = WhirlpoolHash L"
| "ha_impl L HaStreebog = StreebogHash L"

section \<open>Incremental hashing\<close>

lemma digest_ops_updates:
  "fold (\<lambda>c st. h_update (digest_ops n nm d) st c) cs st = st @ cs"
  by (induction cs arbitrary: st) (simp_all add: digest_ops_def)

lemma digest_ops_incremental:
  assumes "digest_ok n d"
  shows "h_finalize (digest_ops n nm d) (fold (\<lambda>c st. h_update (digest_ops n nm d) st c) cs
      (h_default (digest_ops n nm d))) = hash_oneshot (digest_ops n nm d) (concat cs)"
    and "length (hash_oneshot (digest_ops n nm d) data) = h_output_size (digest_ops n nm d)"
proof -
  have "d cs = d [concat cs]" "length (d [data]) = n"
    using assms unfolding digest_ok_def by blast+
  then show "h_finalize (digest_ops n nm d) (fold (\<lambda>c st. h_update (digest_ops n nm d) st c) cs
      (h_default (digest_ops n nm d))) = hash_oneshot (digest_ops n nm d) (concat cs)"
    "length (hash_oneshot (digest_ops n nm d) data) = h_output_size (digest_ops n nm d)"
    by (simp_all only: digest_ops_updates) (simp_all add: digest_ops_def hash_oneshot_def)
qed

lemma lib_ok_digests:
  assumes "lib_ok L"
  shows "digest_ok 32 (lib_sha256 L)" "digest_ok 64 (lib_sha512 L)" "digest_ok 32 (lib_blake2s L)"
    "digest_ok 64 (lib_whirlpool L)" "digest_ok 32 (lib_streebog256 L)" "digest_ok 64 (lib_streebog512 L)"
  using assms by (simp_all add: lib_ok_def)

lemma ha_impl_incremental:
  assumes "lib_ok L"
  shows "h_finalize (ha_impl L a) (fold (\<lambda>c st. h_update (ha_impl L a) st c) cs (h_default (ha_impl L a)))
      = hash_oneshot (ha_impl L a) (concat cs)"
    and "length (hash_oneshot (ha_impl L a) data) = ha_output_size a"
  using digest_ops_incremental lib_ok_digests [OF assms]
  by (cases a; simp add: Sha256Hash_def Sha512Hash_def Blake2sHash_def WhirlpoolHash_def StreebogHash_def
      digest_ops_incremental; simp add: digest_ops_def)+

end
