(* ===== verification/Kdf.thy ===== *)
theory Kdf
  imports Hashes
begin

text \<open>
  Key derivation (\<open>vcrypt-core/src/kdf\<close>): the algorithm table, the PIM formulas
  for iteration counts and Argon2id parameters on 32-bit words, the thin
  wrappers around the \<open>pbkdf2\<close> and \<open>argon2\<close> crates, and the hand-written
  HMAC-BLAKE2s and PBKDF2, which are proved equal to RFC 2104 and RFC 2898.
\<close>

section \<open>Algorithms and parameters\<close>

datatype KdfAlgorithm =
    Pbkdf2Sha256 | Pbkdf2Sha512 | Pbkdf2Blake2s | Pbkdf2Whirlpool | Pbkdf2Streebog | Argon2id

fun kdf_name :: "KdfAlgorithm \<Rightarrow> string" where
  "kdf_name Pbkdf2Sha256 = ''PBKDF2-HMAC-SHA-256''"
| "kdf_name Pbkdf2Sha512 = ''PBKDF2-HMAC-SHA-512''"
| "kdf_name Pbkdf2Blake2s = ''PBKDF2-HMAC-BLAKE2s''"
| "kdf_name Pbkdf2Whirlpool = ''PBKDF2-HMAC-Whirlpool''"
| "kdf_name Pbkdf2Streebog = ''PBKDF2-HMAC-Streebog''"
| "kdf_name Argon2id = ''Argon2id''"

fun default_iterations :: "KdfAlgorithm \<Rightarrow> u32" where
  "default_iterations Argon2id = 10"
| "default_iterations _ = 500000"

text \<open>The PIM is an \<open>i32\<close>, an integer here; the arithmetic is on \<open>u32\<close> and wraps.\<close>

definition default_get_iteration_count :: "int \<Rightarrow> u32" where
  "default_get_iteration_count pim = (if pim > 0 then 15000 + of_int pim * 1000 else 500000)"

definition saturating_add :: "u32 \<Rightarrow> u32 \<Rightarrow> u32" where
  "saturating_add a b = (if unat a + unat b < 2 ^ 32 then a + b else - 1)"

definition params_for_pim :: "int \<Rightarrow> u32 \<times> u32" where
  "params_for_pim pim =
     (let effective_pim = max pim 0;
          effective_pim = (if effective_pim = 0 then 12 else effective_pim);
          effective_pim = (of_int effective_pim :: u32);
          memory_cost_mib = min (saturating_add 64 ((effective_pim - 1) * 32)) 1024;
          time_cost = (if effective_pim \<le> 31 then 3 + (effective_pim - 1) div 3
                       else 13 + (effective_pim - 31))
      in (memory_cost_mib * 1024, time_cost))"

section \<open>HMAC and PBKDF2 with BLAKE2s\<close>

definition hmac_blake2s :: "crypto_lib \<Rightarrow> bytes \<Rightarrow> bytes \<Rightarrow> bytes" where
  "hmac_blake2s L key data =
     (let k = (if length key > 64 then lib_blake2s L [key] else key);
          k = resize 64 0 k;
          k_ipad = map (\<lambda>b. b XOR 0x36) k;
          k_opad = map (\<lambda>b. b XOR 0x5C) k;
          inner_hash = lib_blake2s L [k_ipad, data]
      in lib_blake2s L [k_opad, inner_hash])"

text \<open>One step of the inner loop: the next \<open>u\<close>, and \<open>t_block\<close> with it added.\<close>

definition pbkdf2_step :: "crypto_lib \<Rightarrow> bytes \<Rightarrow> bytes \<times> bytes \<Rightarrow> bytes \<times> bytes" where
  "pbkdf2_step L password = (\<lambda>(u, t_block). let u = hmac_blake2s L password u in (u, xor_bytes t_block u))"

definition pbkdf2_block :: "crypto_lib \<Rightarrow> bytes \<Rightarrow> bytes \<Rightarrow> u32 \<Rightarrow> u32 \<Rightarrow> bytes" where
  "pbkdf2_block L password salt iterations block_num =
     (let u = hmac_blake2s L password (salt @ be_bytes 4 block_num)
      in snd ((pbkdf2_step L password ^^ (unat iterations - 1)) (u, u)))"

definition pbkdf2_blake2s :: "crypto_lib \<Rightarrow> bytes \<Rightarrow> bytes \<Rightarrow> u32 \<Rightarrow> bytes \<Rightarrow> bytes cres" where
  "pbkdf2_blake2s L password salt iterations output =
     (let hlen = 32;
          n_blocks = (length output + hlen - 1) div hlen
      in fold_res (\<lambda>block_num output.
           let t_block = pbkdf2_block L password salt iterations (of_nat block_num);
               start = (block_num - 1) * hlen;
               stop = min (start + hlen) (length output)
           in if start \<le> stop \<and> stop - start \<le> length t_block
              then Ok (blit output start (take (stop - start) t_block)) else Panic)
         [1..<unat (of_nat n_blocks :: u32) + 1] output)"

section \<open>The implementations of the trait\<close>

datatype KeyDerivation =
    KdSha256 | KdSha512 | KdBlake2s | KdWhirlpool | KdStreebog
  | KdArgon2id u32 u32 u32  \<comment> \<open>memory cost, time cost, parallelism\<close>

fun get_iteration_count :: "KeyDerivation \<Rightarrow> int \<Rightarrow> u32" where
  "get_iteration_count (KdArgon2id m t p) pim = snd (params_for_pim pim)"
| "get_iteration_count _ pim = default_get_iteration_count pim"

definition argon2_default :: KeyDerivation where
  "argon2_default = KdArgon2id 65536 3 1"

definition argon2_derive ::
  "crypto_lib \<Rightarrow> u32 \<Rightarrow> u32 \<Rightarrow> u32 \<Rightarrow> bytes \<Rightarrow> bytes \<Rightarrow> u32 \<Rightarrow> bytes \<Rightarrow> bytes cres" where
  "argon2_derive L m t p password salt iterations output =
     (let (memory_cost, time_cost) = (if iterations = 0 then (m, t) else (m, iterations)) in
      case lib_argon2_params L memory_cost time_cost p (length output) of
        Some e \<Rightarrow> Err (KeyDerivationFailed (''Argon2id params: '' @ e))
      | None \<Rightarrow> (case lib_argon2id L memory_cost time_cost p (length output) password salt of
            Inl e \<Rightarrow> Err (KeyDerivationFailed (''Argon2id: '' @ e))
          | Inr out \<Rightarrow> Ok out))"

text \<open>\<open>derive\<close> returns the contents of the output buffer, whose old contents only matter for its length.\<close>

fun derive :: "crypto_lib \<Rightarrow> KeyDerivation \<Rightarrow> bytes \<Rightarrow> bytes \<Rightarrow> u32 \<Rightarrow> bytes \<Rightarrow> bytes cres" where
  "derive L KdSha256 password salt iterations output =
     Ok (lib_pbkdf2_sha256 L password salt iterations (length output))"
| "derive L KdSha512 password salt iterations output =
     Ok (lib_pbkdf2_sha512 L password salt iterations (length output))"
| "derive L KdBlake2s password salt iterations output = pbkdf2_blake2s L password salt iterations output"
| "derive L KdWhirlpool password salt iterations output =
     Ok (lib_pbkdf2_whirlpool L password salt iterations (length output))"
| "derive L KdStreebog password salt iterations output =
     Ok (lib_pbkdf2_streebog L password salt iterations (length output))"
| "derive L (KdArgon2id m t p) password salt iterations output =
     argon2_derive L m t p password salt iterations output"

section \<open>The standards\<close>

text \<open>RFC 2104 over a hash function of whole messages, with a 64-byte block.\<close>

definition hmac_rfc2104 :: "(bytes \<Rightarrow> bytes) \<Rightarrow> bytes \<Rightarrow> bytes \<Rightarrow> bytes" where
  "hmac_rfc2104 H K text =
     (let K0 = (if length K > 64 then H K else K) @ replicate (64 - length (if length K > 64 then H K else K)) 0
      in H (map (\<lambda>b. b XOR 0x5C) K0 @ H (map (\<lambda>b. b XOR 0x36) K0 @ text)))"

text \<open>RFC 2898, section 5.2: block \<open>i\<close> is the exclusive or of \<open>c\<close> iterates of the PRF.\<close>

fun rfc2898_U :: "(bytes \<Rightarrow> bytes \<Rightarrow> bytes) \<Rightarrow> bytes \<Rightarrow> bytes \<Rightarrow> u32 \<Rightarrow> nat \<Rightarrow> bytes" where
  "rfc2898_U prf P S i 0 = prf P (S @ be_bytes 4 i)"
| "rfc2898_U prf P S i (Suc j) = prf P (rfc2898_U prf P S i j)"

fun rfc2898_F :: "(bytes \<Rightarrow> bytes \<Rightarrow> bytes) \<Rightarrow> bytes \<Rightarrow> bytes \<Rightarrow> u32 \<Rightarrow> nat \<Rightarrow> bytes" where
  "rfc2898_F prf P S i 0 = rfc2898_U prf P S i 0"
| "rfc2898_F prf P S i (Suc j) = xor_bytes (rfc2898_F prf P S i j) (rfc2898_U prf P S i (Suc j))"

definition pbkdf2_rfc2898 :: "(bytes \<Rightarrow> bytes \<Rightarrow> bytes) \<Rightarrow> bytes \<Rightarrow> bytes \<Rightarrow> nat \<Rightarrow> nat \<Rightarrow> bytes" where
  "pbkdf2_rfc2898 prf P S c dkLen =
     take dkLen (concat (map (\<lambda>i. rfc2898_F prf P S (of_nat i) (c - 1)) [1..<(dkLen + 31) div 32 + 1]))"

section \<open>HMAC-BLAKE2s and PBKDF2 agree with the standards\<close>

lemma digest_okD: "digest_ok n d \<Longrightarrow> d cs = d [concat cs] \<and> length (d cs) = n"
  unfolding digest_ok_def by blast

lemma hmac_blake2s_rfc2104:
  assumes "digest_ok 32 (lib_blake2s L)"
  shows "hmac_blake2s L key data = hmac_rfc2104 (\<lambda>m. lib_blake2s L [m]) key data"
proof -
  have d2: "lib_blake2s L [a, b] = lib_blake2s L [a @ b]" for a b
    using digest_okD [OF assms, of "[a, b]"] by simp
  have len: "length (lib_blake2s L [key]) = 32"
    using digest_okD [OF assms] by blast
  show ?thesis
    by (cases "length key > 64") (simp_all add: hmac_blake2s_def hmac_rfc2104_def Let_def d2 resize_def len)
qed

lemma length_hmac_blake2s:
  "digest_ok 32 (lib_blake2s L) \<Longrightarrow> length (hmac_blake2s L key data) = 32"
  using digest_okD by (simp add: hmac_blake2s_def Let_def)

lemma pbkdf2_steps:
  "(pbkdf2_step L P ^^ n) (rfc2898_U (hmac_blake2s L) P S i 0, rfc2898_U (hmac_blake2s L) P S i 0) =
   (rfc2898_U (hmac_blake2s L) P S i n, rfc2898_F (hmac_blake2s L) P S i n)"
  by (induction n) (simp_all add: pbkdf2_step_def Let_def)

lemma pbkdf2_block_F:
  "pbkdf2_block L P S it i = rfc2898_F (hmac_blake2s L) P S i (unat it - 1)"
  using pbkdf2_steps [where n = "unat it - 1" and S = S and i = i and P = P and L = L] by (simp add: pbkdf2_block_def Let_def)

lemma length_rfc2898_F:
  assumes "\<And>d. length (prf P d) = 32"
  shows "length (rfc2898_F prf P S i n) = 32"
proof -
  have "length (rfc2898_U prf P S i m) = 32" for m
    by (cases m) (simp_all add: assms)
  then show ?thesis
    by (induction n) (simp_all del: rfc2898_U.simps)
qed

lemma pbkdf2_loop:
  assumes T: "\<And>i. length (T i) = 32" and "m * 32 < length out + 32"
  shows "fold_res (\<lambda>block_num output.
           let t_block = T block_num; start = (block_num - 1) * 32; stop = min (start + 32) (length output)
           in if start \<le> stop \<and> stop - start \<le> length t_block
              then Ok (blit output start (take (stop - start) t_block)) else Panic)
         [1..<m + 1] out =
    (Ok (take (length out) (concat (map T [1..<m + 1])) @ drop (m * 32) out) :: bytes cres)"
  using assms(2)
proof (induction m)
  case (Suc m)
  let ?C = "concat (map T [1..<m + 1])" and ?n = "length out"
  have lenC: "length ?C = m * 32"
    using length_concat_blocks [of "map T [1..<m + 1]" 32] T by simp
  have m: "m * 32 < ?n"
    using Suc.prems by simp
  have tC: "take ?n ?C = ?C"
    using lenC m by simp
  let ?X = "?C @ drop (m * 32) out"
  have lenX: "length ?X = ?n"
    using lenC m by simp
  have upt: "[1..<Suc m + 1] = [1..<m + 1] @ [Suc m]"
    by simp
  have step: "blit ?X (m * 32) (take (min (m * 32 + 32) ?n - m * 32) (T (Suc m))) =
      take ?n (concat (map T ([1..<m + 1] @ [Suc m]))) @ drop (Suc m * 32) out"
  proof (cases "m * 32 + 32 \<le> ?n")
    case True
    then show ?thesis
      using lenC m T [of "Suc m"] by (simp add: blit_def add.commute del: upt_Suc)
  next
    case False
    then show ?thesis
      using lenC m T [of "Suc m"] by (simp add: blit_def min_def del: upt_Suc)
  qed
  show ?case
    unfolding upt fold_res_append
    using Suc m lenX step T [of "Suc m"] lenC by (simp add: Let_def tC del: upt_Suc)
qed simp

lemma pbkdf2_blake2s_rfc:
  assumes "digest_ok 32 (lib_blake2s L)" "(length output + 31) div 32 < 2 ^ 32"
  shows "pbkdf2_blake2s L P S it output =
    Ok (pbkdf2_rfc2898 (hmac_rfc2104 (\<lambda>m. lib_blake2s L [m])) P S (unat it) (length output))"
proof -
  have hm: "hmac_blake2s L = hmac_rfc2104 (\<lambda>m. lib_blake2s L [m])"
    using hmac_blake2s_rfc2104 [OF assms(1)] by (intro ext)
  let ?T = "\<lambda>i. pbkdf2_block L P S it (of_nat i)" and ?n = "(length output + 31) div 32"
  have T: "length (?T i) = 32" for i
    using length_rfc2898_F [of "hmac_blake2s L" P] length_hmac_blake2s [OF assms(1)] by (simp add: pbkdf2_block_F)
  have n: "unat (of_nat ?n :: u32) = ?n"
    using assms(2) by (simp add: unat_of_nat)
  have n': "unat (of_nat ((31 + length output) div 32) :: u32) = ?n"
    using n by (simp add: add.commute)
  have "?n * 32 < length output + 32" "length output \<le> ?n * 32"
    by linarith+
  then show ?thesis
    using pbkdf2_loop [where T = ?T and m = ?n and out = "output", OF T]
    by (simp add: pbkdf2_blake2s_def pbkdf2_rfc2898_def n' pbkdf2_block_F hm del: upt_Suc)
qed

section \<open>Lengths of derived keys\<close>

lemma length_pbkdf2_rfc2898:
  assumes "\<And>d. length (prf P d) = 32"
  shows "length (pbkdf2_rfc2898 prf P S c n) = n"
proof -
  have "length (concat (map (\<lambda>i. rfc2898_F prf P S (of_nat i) (c - 1)) [1..<(n + 31) div 32 + 1])) = (n + 31) div 32 * 32"
    by (subst length_concat_blocks [where k = 32]) (auto simp: length_rfc2898_F assms)
  moreover have "n \<le> (n + 31) div 32 * 32"
    by linarith
  ultimately show ?thesis
    by (simp add: pbkdf2_rfc2898_def del: upt_Suc)
qed

lemma derive_length:
  assumes "lib_ok L" "derive L k P S it output = Ok key" "length output < 2 ^ 32"
  shows "length key = length output"
proof (cases k)
  case KdBlake2s
  have d: "digest_ok 32 (lib_blake2s L)"
    using lib_ok_digests [OF assms(1)] by simp
  have "(length output + 31) div 32 < 2 ^ 32"
    using assms(3) by simp
  then show ?thesis
    using KdBlake2s assms(2) length_hmac_blake2s [OF d] hmac_blake2s_rfc2104 [OF d]
    by (auto simp: pbkdf2_blake2s_rfc [OF d] length_pbkdf2_rfc2898)
qed (use assms in \<open>auto simp: lib_ok_def pbkdf2_ok_def argon2_ok_def argon2_derive_def Let_def
      split: option.splits sum.splits if_splits\<close>)

text \<open>Every derivation but Argon2id always succeeds.\<close>

lemma derive_pbkdf2_Ok:
  assumes "lib_ok L" "\<And>m t p. k \<noteq> KdArgon2id m t p" "length output < 2 ^ 32"
  shows "\<exists>key. derive L k P S it output = Ok key \<and> length key = length output"
proof -
  have d: "digest_ok 32 (lib_blake2s L)"
    using lib_ok_digests [OF assms(1)] by simp
  have "\<exists>key. derive L k P S it output = Ok key"
    using assms(2,3) by (cases k) (auto simp: pbkdf2_blake2s_rfc [OF d])
  then show ?thesis
    using derive_length [OF assms(1) _ assms(3)] by blast
qed

section \<open>Iteration counts and Argon2id parameters\<close>

lemma unat_of_int_pim:
  assumes "0 \<le> pim" "pim < 2 ^ 31"
  shows "unat (of_int pim :: u32) = nat pim"
  using assms by (simp add: unsigned_of_int take_bit_int_eq_self)


text \<open>
  The PIM formula on mathematical integers; the code agrees with it as long
  as the 32-bit arithmetic does not wrap.
\<close>

lemma iteration_count_formula:
  assumes "pim \<le> 4294952"
  shows "unat (default_get_iteration_count pim) = (if pim > 0 then 15000 + nat pim * 1000 else 500000)"
proof (cases "pim > 0")
  case True
  have "default_get_iteration_count pim = of_nat (15000 + nat pim * 1000)"
    using True by (simp add: default_get_iteration_count_def)
  moreover have "15000 + nat pim * 1000 < 2 ^ 32"
    using assms True by simp
  ultimately show ?thesis
    using True by (simp only: unat_of_nat if_True) simp
qed (simp add: default_get_iteration_count_def)

lemma unat_min: "unat (min a b :: 'a::len word) = min (unat a) (unat b)"
  by (simp add: min_def word_le_nat_alt)

lemma unat_saturating_add: "unat (saturating_add a b) = min (unat a + unat b) (2 ^ 32 - 1)"
proof (cases "unat a + unat b < 2 ^ 32")
  case True
  then have "unat (a + b) = unat a + unat b"
    by (simp add: unat_word_ariths)
  then show ?thesis
    using True by (simp add: saturating_add_def)
next
  case False
  then show ?thesis
    by (simp add: saturating_add_def unsigned_minus_1_eq_mask mask_eq_exp_minus_1)
qed

definition effective_pim :: "int \<Rightarrow> nat" where
  "effective_pim pim = (if pim \<le> 0 then 12 else nat pim)"

lemma params_for_pim_formula:
  assumes "pim \<le> 2 ^ 27"
  defines "e \<equiv> effective_pim pim"
  shows "unat (fst (params_for_pim pim)) = min (64 + (e - 1) * 32) 1024 * 1024"
    and "unat (snd (params_for_pim pim)) = (if e \<le> 31 then 3 + (e - 1) div 3 else 13 + (e - 31))"
proof -
  let ?w = "of_nat e :: u32"
  have e: "0 < e" "e \<le> 2 ^ 27"
    using assms(1) by (auto simp: e_def effective_pim_def)
  have w: "of_int (if max pim 0 = 0 then 12 else max pim 0) = ?w"
    by (auto simp: e_def effective_pim_def max_def)
  have u: "unat ?w = e"
    using e by (simp add: unat_of_nat)
  have w0: "?w \<noteq> 0"
    using e u by (metis unat_0 less_numeral_extra(3))
  have u1: "unat (?w - 1) = e - 1"
    using w0 u by (simp add: unat_minus_one)
  have u32: "unat ((?w - 1) * 32) = (e - 1) * 32"
    by (subst unat_word_ariths(2)) (use e in \<open>simp add: u1\<close>)
  have mem: "unat (min (saturating_add 64 ((?w - 1) * 32)) 1024) = min (64 + (e - 1) * 32) 1024"
    unfolding unat_min unat_saturating_add u32 by simp
  have "unat (min (saturating_add 64 ((?w - 1) * 32)) 1024 * 1024) = min (64 + (e - 1) * 32) 1024 * 1024"
    by (simp only: unat_word_ariths mem) simp
  then show "unat (fst (params_for_pim pim)) = min (64 + (e - 1) * 32) 1024 * 1024"
    unfolding params_for_pim_def Let_def w fst_conv .
  have le: "?w \<le> 31 \<longleftrightarrow> e \<le> 31"
    by (simp add: word_le_nat_alt u)
  have t1: "unat (3 + (?w - 1) div 3) = 3 + (e - 1) div 3" if "e \<le> 31"
    using that by (simp add: unat_word_ariths unat_div u1)
  have t2: "unat (13 + (?w - 31)) = 13 + (e - 31)" if "\<not> e \<le> 31"
    using that e by (simp add: unat_word_ariths unat_sub word_le_nat_alt u)
  show "unat (snd (params_for_pim pim)) = (if e \<le> 31 then 3 + (e - 1) div 3 else 13 + (e - 31))"
    unfolding params_for_pim_def Let_def w snd_conv using le t1 t2 by simp
qed

section \<open>Properties\<close>

text \<open>
  C7: The hand-written PBKDF2-HMAC-BLAKE2s is RFC 2898 over RFC 2104: for every
  password, salt, iteration count and output length of up to \<open>2^32 - 1\<close> blocks it
  fills the whole buffer with the standard's derived key, and an iteration
  count of zero acts as one. It never indexes out of range.
\<close>

theorem pbkdf2_blake2s_is_rfc2898:
  assumes "digest_ok 32 (lib_blake2s L)" "(length output + 31) div 32 < 2 ^ 32"
  shows "pbkdf2_blake2s L password salt iterations output =
      Ok (pbkdf2_rfc2898 (hmac_rfc2104 (\<lambda>m. lib_blake2s L [m])) password salt (unat iterations) (length output))
    \<and> length (pbkdf2_rfc2898 (hmac_rfc2104 (\<lambda>m. lib_blake2s L [m])) password salt (unat iterations) (length output))
      = length output"
  using pbkdf2_blake2s_rfc [OF assms] length_hmac_blake2s [OF assms(1)] hmac_blake2s_rfc2104 [OF assms(1)]
  by (simp add: length_pbkdf2_rfc2898)

theorem pbkdf2_blake2s_is_rfc2898_witness:
  "pbkdf2_blake2s toy_lib [1, 2] [3] 2 (replicate 40 0) =
     Ok (pbkdf2_rfc2898 (hmac_rfc2104 (\<lambda>m. lib_blake2s toy_lib [m])) [1, 2] [3] 2 40)"
  using pbkdf2_blake2s_is_rfc2898 [of toy_lib "replicate 40 0" "[1, 2]" "[3]" 2] lib_ok_digests(3) [OF toy_lib_ok]
  by simp

text \<open>
  For every PIM up to \<open>2^27\<close> the Argon2id parameters are VeraCrypt's: with
  PIM 12 as the default for non-positive values, \<open>64 + 32 (pim - 1)\<close> MiB capped at
  1024 MiB (in KiB) and \<open>3 + (pim - 1) / 3\<close> passes up to PIM 31, then one more per
  PIM. Beyond \<open>2^27\<close> the 32-bit product wraps.
\<close>

theorem argon2_params_for_pim:
  assumes "pim \<le> 2 ^ 27"
  shows "unat (fst (params_for_pim pim)) = min (64 + (effective_pim pim - 1) * 32) 1024 * 1024
    \<and> unat (snd (params_for_pim pim)) =
        (if effective_pim pim \<le> 31 then 3 + (effective_pim pim - 1) div 3 else 13 + (effective_pim pim - 31))
    \<and> 65536 \<le> unat (fst (params_for_pim pim)) \<and> unat (fst (params_for_pim pim)) \<le> 1048576
    \<and> 3 \<le> unat (snd (params_for_pim pim))"
  using params_for_pim_formula [OF assms] by auto

theorem argon2_params_for_pim_witness:
  "unat (fst (params_for_pim 485)) = 1048576 \<and> unat (snd (params_for_pim 485)) = 467"
  using argon2_params_for_pim [of 485] by (simp add: effective_pim_def)

text \<open>
  The product that the Argon2id memory cost is computed from wraps for the
  PIM \<open>2^27 + 1\<close>: the memory cost falls back to the minimum of 64 MiB although the
  sum is written to saturate.
\<close>

theorem argon2_memory_cost_wraps: "params_for_pim (2 ^ 27 + 1) = (65536, 134217711)"
  by (simp add: params_for_pim_def Let_def saturating_add_def)

text \<open>
  The PBKDF2 iteration count is \<open>15000 + 1000 pim\<close> for a positive PIM and 500000
  otherwise, for every PIM for which that number fits 32 bits.
\<close>

theorem pbkdf2_iteration_count:
  assumes "pim \<le> 4294952" "\<And>m t p. k \<noteq> KdArgon2id m t p"
  shows "unat (get_iteration_count k pim) = (if pim > 0 then 15000 + nat pim * 1000 else 500000)"
  using iteration_count_formula [OF assms(1)] assms(2) by (cases k) auto

theorem pbkdf2_iteration_count_witness: "unat (get_iteration_count KdSha512 485) = 500000"
  using pbkdf2_iteration_count [of 485 KdSha512] by simp

end
