(* ===== verification/HeaderCrypt.thy ===== *)
theory HeaderCrypt
  imports SectorSpec Header Kdf
begin

text \<open>
  Header encryption (\<open>vcrypt-format/src/encrypt.rs\<close>): header key derivation and
  the XTS passes over bytes 64 to 511, data unit 0. The area is encrypted as
  the specification of theory \<open>SectorSpec\<close> says, and nothing else of the buffer
  changes.
\<close>

section \<open>Operations\<close>

definition derive_header_key ::
  "crypto_lib \<Rightarrow> KeyDerivation \<Rightarrow> bytes \<Rightarrow> bytes \<Rightarrow> u32 \<Rightarrow> CipherType \<Rightarrow> bytes fres" where
  "derive_header_key L kdf password salt iterations cipher =
     map_err (\<lambda>e. FmtCryptoError (''KDF: '' @ display_crypto_error e))
       (derive L kdf password salt iterations (replicate (ct_key_size cipher * 2) 0))"

definition apply_xts_single ::
  "'c block_cipher_ops \<Rightarrow> (bytes \<Rightarrow> 'c cres) \<Rightarrow> bytes \<Rightarrow> bytes \<Rightarrow> bool \<Rightarrow> bytes fres" where
  "apply_xts_single B ctor key area encrypt =
     bind_res (map_err (\<lambda>e. FmtCryptoError (''XTS: '' @ display_crypto_error e)) (xts_new B ctor key)) (\<lambda>xts.
     if encrypt then map_err (\<lambda>e. EncryptionFailed (display_crypto_error e)) (xts_encrypt B xts 0 area)
     else map_err (\<lambda>e. DecryptionFailed (display_crypto_error e)) (xts_decrypt B xts 0 area))"

definition apply_xts_pass :: "crypto_lib \<Rightarrow> CipherType \<Rightarrow> bytes \<Rightarrow> bytes \<Rightarrow> bool \<Rightarrow> bytes fres" where
  "apply_xts_pass L ct key data encrypt = (case ct of
      Aes \<Rightarrow> apply_xts_single (AesCipher L) (aes_new L) key data encrypt
    | Serpent \<Rightarrow> apply_xts_single (SerpentCipher L) (serpent_new L) key data encrypt
    | Twofish \<Rightarrow> apply_xts_single TwofishCipher twofish_new key data encrypt
    | Camellia \<Rightarrow> apply_xts_single (CamelliaCipher L) (camellia_new L) key data encrypt
    | Kuznyechik \<Rightarrow> apply_xts_single (KuznyechikCipher L) (kuznyechik_new L) key data encrypt
    | _ \<Rightarrow> Err (FmtCryptoError (''Cascade component must be a single cipher: '' @ ct_name ct)))"

definition apply_xts_cascade :: "crypto_lib \<Rightarrow> CascadeMode \<Rightarrow> bytes \<Rightarrow> bytes \<Rightarrow> bool \<Rightarrow> bytes fres" where
  "apply_xts_cascade L mode key area encrypt =
     (let single_key_len = cm_key_size mode in
      if length key \<noteq> single_key_len * 2 then
        Err (FmtCryptoError (''Bad key size for '' @ cm_name mode @ '': expected '' @
          show_nat (single_key_len * 2) @ '', got '' @ show_nat (length key)))
      else
        let data_half = take single_key_len key; tweak_half = drop single_key_len key;
            order = veracrypt_order mode in
        fold_res (\<lambda>(ct, offset) area.
          bind_res (slice data_half offset (offset + 32)) (\<lambda>d.
          bind_res (slice tweak_half offset (offset + 32)) (\<lambda>t.
          apply_xts_pass L ct (d @ t) area encrypt)))
        (if encrypt then order else rev order) area)"

definition apply_xts :: "crypto_lib \<Rightarrow> CipherType \<Rightarrow> bytes \<Rightarrow> bytes \<Rightarrow> bool \<Rightarrow> bytes fres" where
  "apply_xts L cipher key area encrypt =
     (let expected_key_len = ct_key_size cipher * 2 in
      if length key \<noteq> expected_key_len then
        Err (FmtCryptoError (''Bad key size for '' @ ct_name cipher @ '': expected '' @
          show_nat expected_key_len @ '', got '' @ show_nat (length key)))
      else case cipher of
        Aes \<Rightarrow> apply_xts_single (AesCipher L) (aes_new L) key area encrypt
      | Serpent \<Rightarrow> apply_xts_single (SerpentCipher L) (serpent_new L) key area encrypt
      | Twofish \<Rightarrow> apply_xts_single TwofishCipher twofish_new key area encrypt
      | Camellia \<Rightarrow> apply_xts_single (CamelliaCipher L) (camellia_new L) key area encrypt
      | Kuznyechik \<Rightarrow> apply_xts_single (KuznyechikCipher L) (kuznyechik_new L) key area encrypt
      | AesTwofish \<Rightarrow> apply_xts_cascade L CmAesTwofish key area encrypt
      | AesTwofishSerpent \<Rightarrow> apply_xts_cascade L CmAesTwofishSerpent key area encrypt
      | SerpentAes \<Rightarrow> apply_xts_cascade L CmSerpentAes key area encrypt
      | SerpentTwofishAes \<Rightarrow> apply_xts_cascade L CmSerpentTwofishAes key area encrypt
      | TwofishSerpent \<Rightarrow> apply_xts_cascade L CmTwofishSerpent key area encrypt
      | CamelliaKuznyechik \<Rightarrow> apply_xts_cascade L CmCamelliaKuznyechik key area encrypt
      | CamelliaSerpent \<Rightarrow> apply_xts_cascade L CmCamelliaSerpent key area encrypt
      | KuznyechikAes \<Rightarrow> apply_xts_cascade L CmKuznyechikAes key area encrypt
      | KuznyechikSerpentCamellia \<Rightarrow> apply_xts_cascade L CmKuznyechikSerpentCamellia key area encrypt
      | KuznyechikTwofish \<Rightarrow> apply_xts_cascade L CmKuznyechikTwofish key area encrypt)"

definition header_area ::
  "crypto_lib \<Rightarrow> bytes \<Rightarrow> bytes \<Rightarrow> CipherType \<Rightarrow> bool \<Rightarrow> bytes fres" where
  "header_area L data key cipher encrypt =
     (if length data < VOLUME_HEADER_EFFECTIVE_SIZE then
        Err (InvalidHeaderSize VOLUME_HEADER_EFFECTIVE_SIZE (length data))
      else bind_res (apply_xts L cipher key (sub data PKCS5_SALT_SIZE VOLUME_HEADER_EFFECTIVE_SIZE) encrypt)
        (\<lambda>area. Ok (blit data PKCS5_SALT_SIZE area)))"

definition decrypt_header_area :: "crypto_lib \<Rightarrow> bytes \<Rightarrow> bytes \<Rightarrow> CipherType \<Rightarrow> bytes fres" where
  "decrypt_header_area L data key cipher = header_area L data key cipher False"

definition encrypt_header_area :: "crypto_lib \<Rightarrow> bytes \<Rightarrow> bytes \<Rightarrow> CipherType \<Rightarrow> bytes fres" where
  "encrypt_header_area L data key cipher = header_area L data key cipher True"

section \<open>Refinement of the specification\<close>

lemma apply_xts_pass_Ok:
  assumes "lib_ok L" "pass_ok (ct, k)" "16 dvd length data" "data \<noteq> []"
  shows "apply_xts_pass L ct k data e = Ok (if e then pass_E L (ct, k) 0 data else pass_D L (ct, k) 0 data)"
proof -
  have k: "length k = 64" "mode_of ct = None"
    using assms(2) by (simp_all add: pass_ok_def)
  note x = single_xts_encrypt [OF assms(1) k(1) assms(3,4)] single_xts_decrypt [OF assms(1) k(1) assms(3,4)]
    single_xts_new [OF assms(1)]
  show ?thesis
    using k by (cases ct; cases e) (simp_all add: apply_xts_pass_def apply_xts_single_def x id_def [symmetric])
qed

lemma fold_passes:
  assumes "lib_ok L" "\<forall>(ct, off) \<in> set xs. pass_ok (ct, h off)" "16 dvd length data" "data \<noteq> []"
    "\<And>ct off d. (ct, off) \<in> set xs \<Longrightarrow> step (ct, off) d = apply_xts_pass L ct (h off) d e"
  shows "fold_res step xs data =
    Ok (fold (\<lambda>p. if e then pass_E L p 0 else pass_D L p 0) (map (\<lambda>(ct, off). (ct, h off)) xs) data)"
  using assms(2-)
proof (induction xs arbitrary: data)
  case (Cons x xs)
  obtain ct off where x: "x = (ct, off)" by force
  let ?d = "if e then pass_E L (ct, h off) 0 data else pass_D L (ct, h off) 0 data"
  have p: "pass_ok (ct, h off)"
    using Cons.prems(1) x by simp
  have l: "length ?d = length data"
    using pass_length [OF assms(1) p Cons.prems(2)] by simp
  then have ne: "?d \<noteq> []"
    using Cons.prems(3) by force
  show ?case
    using Cons.IH [of ?d] Cons.prems l ne apply_xts_pass_Ok [OF assms(1) p Cons.prems(2,3)] x
    by (cases e) simp_all
qed simp

lemma apply_xts_cascade_Ok:
  assumes "lib_ok L" "length key = 2 * cm_key_size m" "16 dvd length data" "data \<noteq> []"
  shows "apply_xts_cascade L m key data e =
    Ok (if e then fold (\<lambda>p. pass_E L p 0) (cascade_passes m key) data
        else fold (\<lambda>p. pass_D L p 0) (rev (cascade_passes m key)) data)"
proof -
  let ?h = "\<lambda>off. sub (take (cm_key_size m) key) off (off + 32) @ sub (drop (cm_key_size m) key) off (off + 32)"
  let ?step = "\<lambda>(ct, offset) area. bind_res (slice (take (cm_key_size m) key) offset (offset + 32)) (\<lambda>d.
    bind_res (slice (drop (cm_key_size m) key) offset (offset + 32)) (\<lambda>t. apply_xts_pass L ct (d @ t) area e))"
  have ok: "pass_ok (ct, ?h off)" "?step (ct, off) d = apply_xts_pass L ct (?h off) d e"
    if "(ct, off) \<in> set (veracrypt_order m)" for ct off d
    using order_ok [OF that] assms(2) by (auto simp: pass_ok_def)
  have xs: "set (if e then veracrypt_order m else rev (veracrypt_order m)) = set (veracrypt_order m)"
    by simp
  have "fold_res ?step (if e then veracrypt_order m else rev (veracrypt_order m)) data =
    Ok (fold (\<lambda>p. if e then pass_E L p 0 else pass_D L p 0)
      (map (\<lambda>(ct, off). (ct, ?h off)) (if e then veracrypt_order m else rev (veracrypt_order m))) data)"
    by (rule fold_passes [OF assms(1) _ assms(3,4)]) (unfold xs, use ok in auto)
  then show ?thesis
    using assms(2) by (cases e) (simp_all add: apply_xts_cascade_def cascade_passes_def Let_def rev_map)
qed

lemma apply_xts_alt:
  assumes "length key = 2 * ct_key_size ct"
  shows "apply_xts L ct key area e = (case mode_of ct of
      None \<Rightarrow> apply_xts_pass L ct key area e | Some m \<Rightarrow> apply_xts_cascade L m key area e)"
  using assms by (cases ct) (simp_all add: apply_xts_def apply_xts_pass_def Let_def)

lemma apply_xts_Ok:
  assumes "lib_ok L" "length key = 2 * ct_key_size ct" "16 dvd length data" "data \<noteq> []"
  shows "apply_xts L ct key data e =
    Ok (if e then sector_E L ct key 0 data else sector_D L ct key 0 data)"
proof (cases "mode_of ct")
  case None
  then have "pass_ok (ct, key)"
    using assms(2) by (simp add: pass_ok_def single_key_size)
  then show ?thesis
    using None assms by (simp add: apply_xts_alt apply_xts_pass_Ok sector_E_def sector_D_def sector_passes_def)
next
  case (Some m)
  then show ?thesis
    using assms mode_key_size [OF Some]
    by (simp add: apply_xts_alt apply_xts_cascade_Ok sector_E_def sector_D_def sector_passes_def)
qed

lemma header_area_Ok:
  assumes "lib_ok L" "length key = 2 * ct_key_size ct" "512 \<le> length data"
  shows "header_area L data key ct e = Ok (blit data 64
    (if e then sector_E L ct key 0 (sub data 64 512) else sector_D L ct key 0 (sub data 64 512)))"
proof -
  have "16 dvd length (sub data 64 512)" "sub data 64 512 \<noteq> []"
    using assms(3) by (simp_all add: sub_def)
  then show ?thesis
    using assms by (simp add: header_area_def header_consts apply_xts_Ok)
qed

text \<open>Encrypting and decrypting the area of a header invert each other and keep the rest.\<close>

lemma header_parts: "take 64 data @ sub data 64 512 @ drop 512 data = data"
  using append_take_drop_id [of 448 "drop 64 data"] append_take_drop_id [of 64 data]
  by (simp add: sub_def)

lemma header_area_sub:
  assumes "lib_ok L" "length key = 2 * ct_key_size ct" "512 \<le> length data"
    "header_area L data key ct e = Ok data'"
  shows "length data' = length data" "take 64 data' = take 64 data" "drop 512 data' = drop 512 data"
    "sub data' 64 512 = (if e then sector_E L ct key 0 (sub data 64 512) else sector_D L ct key 0 (sub data 64 512))"
proof -
  let ?a = "if e then sector_E L ct key 0 (sub data 64 512) else sector_D L ct key 0 (sub data 64 512)"
  have la: "length ?a = 448"
    using sector_length [OF assms(1,2), of "sub data 64 512"] assms(3) by simp
  have d: "data' = blit data 64 ?a"
    using assms(4) header_area_Ok [OF assms(1-3), of e] by simp
  show "length data' = length data" "take 64 data' = take 64 data" "drop 512 data' = drop 512 data"
    "sub data' 64 512 = ?a"
    unfolding d using la assms(3) by (simp_all add: blit_def sub_def)
qed

lemma header_area_inverse:
  assumes "lib_ok L" "length key = 2 * ct_key_size ct" "512 \<le> length data"
    "header_area L data key ct e = Ok data'"
  shows "header_area L data' key ct (\<not> e) = Ok data"
proof -
  note s = header_area_sub [OF assms]
  have a: "16 dvd length (sub data 64 512)"
    using assms(3) by simp
  have big: "512 \<le> length data'"
    using s(1) assms(3) by simp
  obtain data'' where d: "header_area L data' key ct (\<not> e) = Ok data''"
    using header_area_Ok [OF assms(1,2) big] by blast
  note s' = header_area_sub [OF assms(1,2) big d]
  have eq: "sub data'' 64 512 = sub data 64 512"
    using s'(4) s(4) sector_inverse [OF assms(1,2) a] by simp
  have "data'' = take 64 data'' @ sub data'' 64 512 @ drop 512 data''"
    by (simp only: header_parts)
  also have "\<dots> = take 64 data @ sub data 64 512 @ drop 512 data"
    by (simp only: eq s(2,3) s'(2,3))
  also have "\<dots> = data"
    by (rule header_parts)
  finally have "data'' = data" .
  then show ?thesis
    using d by simp
qed

end
