(* ===== verification/Keyfile.thy ===== *)
theory Keyfile
  imports CryptoLib
begin

text \<open>
  Random bytes (\<open>vcrypt-core/src/rng.rs\<close>) and keyfile mixing
  (\<open>vcrypt-format/src/keyfile.rs\<close>). The random source of the operating system
  is the sequence of bytes it will deliver, consumed by each call; when it
  runs dry the call reports the error the source carries. Keyfiles are read
  through a function from paths to contents or an error text.
\<close>

section \<open>Random bytes\<close>

record rng =
  rng_bytes :: bytes
  rng_error :: string

definition fill_random :: "nat \<Rightarrow> rng \<Rightarrow> (bytes \<times> rng) cres" where
  "fill_random n r =
     (if n \<le> length (rng_bytes r)
      then Ok (take n (rng_bytes r), r \<lparr> rng_bytes := drop n (rng_bytes r) \<rparr>)
      else Err (InvalidDataLength (''RNG: '' @ rng_error r)))"

definition random_salt :: "rng \<Rightarrow> (bytes \<times> rng) cres" where
  "random_salt r = fill_random 64 r"

definition random_bytes :: "nat \<Rightarrow> rng \<Rightarrow> (bytes \<times> rng) cres" where
  "random_bytes len r = fill_random len r"

lemma fill_random_OkD:
  "fill_random n r = Ok (bs, r') \<Longrightarrow> length bs = n \<and> rng_bytes r = bs @ rng_bytes r' \<and> rng_error r' = rng_error r"
  by (auto simp: fill_random_def split: if_splits)

section \<open>Keyfiles\<close>

type_synonym filesystem = "string \<Rightarrow> string + bytes"

definition POOL_SIZE :: nat where "POOL_SIZE = 128"
definition MAX_READ :: nat where "MAX_READ = 1048576"

definition pool_add :: "bytes \<Rightarrow> nat \<Rightarrow> u8 \<Rightarrow> bytes" where
  "pool_add pool i b = pool[i mod POOL_SIZE := pool ! (i mod POOL_SIZE) + b]"

text \<open>One byte of a keyfile: the running CRC and its four bytes added to the pool.\<close>

definition mix_byte :: "crypto_lib \<Rightarrow> u8 \<Rightarrow> u32 \<times> nat \<times> bytes \<Rightarrow> u32 \<times> nat \<times> bytes" where
  "mix_byte L b = (\<lambda>(crc, i, pool).
     let crc = lib_crc32_from L crc [b];
         pool = pool_add pool i (ucast (drop_bit 24 crc));
         pool = pool_add pool (i + 1) (ucast (drop_bit 16 crc));
         pool = pool_add pool (i + 2) (ucast (drop_bit 8 crc));
         pool = pool_add pool (i + 3) (ucast crc)
     in (crc, i + 4, pool))"

definition mix_file :: "crypto_lib \<Rightarrow> bytes \<Rightarrow> bytes \<Rightarrow> bytes" where
  "mix_file L data pool = (case fold (mix_byte L) data (0, 0, pool) of (crc, i, pool) \<Rightarrow> pool)"

fun mix_files :: "crypto_lib \<Rightarrow> filesystem \<Rightarrow> string list \<Rightarrow> bytes \<Rightarrow> nat \<Rightarrow> (string, bytes) res" where
  "mix_files L fs [] pool tot = Ok pool"
| "mix_files L fs (path # paths) pool tot =
     (case fs path of
        Inl e \<Rightarrow> Err e
      | Inr data \<Rightarrow>
          let n = min (length data) (MAX_READ - tot) in
          if n = 0 then Ok pool
          else mix_files L fs paths (mix_file L (take n data) pool) (tot + n))"

definition apply_keyfiles :: "crypto_lib \<Rightarrow> filesystem \<Rightarrow> bytes \<Rightarrow> string list \<Rightarrow> (string, bytes) res" where
  "apply_keyfiles L fs password paths =
     (if paths = [] then Ok password
      else bind_res (mix_files L fs paths (replicate POOL_SIZE 0) 0) (\<lambda>pool.
        let password = (if length password < POOL_SIZE then resize POOL_SIZE 0 password else password)
        in Ok (fold (\<lambda>i pw. pw[i := pw ! i + pool ! i]) [0..<POOL_SIZE] password)))"

section \<open>The mixed password\<close>

lemma length_pool_add [simp]: "length (pool_add pool i b) = length pool"
  by (simp add: pool_add_def)

lemma length_mix_file [simp]: "length (mix_file L data pool) = length pool"
proof -
  have "length (snd (snd (fold (mix_byte L) data s))) = length (snd (snd s))" for s
    by (induction data arbitrary: s) (auto simp: mix_byte_def Let_def split: prod.splits)
  from this [of "(0, 0, pool)"] show ?thesis
    by (auto simp: mix_file_def split: prod.splits)
qed

lemma mix_files_length: "mix_files L fs paths pool tot = Ok pool' \<Longrightarrow> length pool' = length pool"
  by (induction L fs paths pool tot rule: mix_files.induct) (auto simp: Let_def split: sum.splits if_splits)

lemma fold_add:
  assumes "n \<le> length pw" "n \<le> length pool"
  shows "fold (\<lambda>i pw. pw[i := pw ! i + pool ! i]) [0..<n] pw =
    map2 (+) (take n pw) (take n pool) @ drop n (pw :: bytes)"
  using assms
proof (induction n)
  case (Suc n)
  then show ?case
    by (simp add: nth_append take_Suc_conv_app_nth list_update_append Cons_nth_drop_Suc [symmetric])
qed simp

lemma mix_files_total:
  assumes "\<forall>p \<in> set paths. \<exists>d. fs p = Inr d"
  shows "\<exists>pool'. mix_files L fs paths pool tot = Ok pool'"
  using assms by (induction L fs paths pool tot rule: mix_files.induct) (auto simp: Let_def)

lemma apply_keyfiles_shape:
  assumes "apply_keyfiles L fs pw paths = Ok pw'" "paths \<noteq> []"
  shows "\<exists>pool. length pool = 128 \<and> mix_files L fs paths (replicate 128 0) 0 = Ok pool
    \<and> pw' = map2 (+) (resize 128 0 pw) pool @ drop 128 pw"
proof -
  obtain pool where p: "mix_files L fs paths (replicate 128 0) 0 = Ok pool"
    and pw': "pw' = fold (\<lambda>i q. q[i := q ! i + pool ! i]) [0..<128]
      (if length pw < 128 then resize 128 0 pw else pw)"
    using assms by (auto simp: apply_keyfiles_def POOL_SIZE_def Let_def)
  have lp: "length pool = 128"
    using mix_files_length [OF p] by simp
  then have "pw' = map2 (+) (resize 128 0 pw) pool @ drop 128 pw"
    unfolding pw' by (subst fold_add) (auto simp: resize_def)
  then show ?thesis
    using p lp by blast
qed

section \<open>Properties\<close>

text \<open>
  Mixing keyfiles never fails when the files can be read; with none the
  password is unchanged, otherwise the result has at least 128 bytes, its
  first 128 bytes are the zero-padded password plus a 128-byte pool that
  depends on the keyfiles only, byte by byte modulo 256, and the bytes after
  them are untouched.
\<close>

theorem keyfiles_mix_password:
  assumes "\<forall>p \<in> set paths. \<exists>d. fs p = Inr d"
  shows "apply_keyfiles L fs pw [] = Ok pw \<and>
    (paths \<noteq> [] \<longrightarrow> (\<exists>pool. length pool = 128 \<and> (\<forall>q. \<exists>q'. apply_keyfiles L fs q paths = Ok q'
       \<and> length q' = max 128 (length q) \<and> drop 128 q' = drop 128 q
       \<and> (\<forall>i < 128. q' ! i = (if i < length q then q ! i else 0) + pool ! i))))"
proof -
  obtain pool where p: "mix_files L fs paths (replicate 128 0) 0 = Ok pool"
    using mix_files_total [OF assms] by blast
  have "\<exists>q'. apply_keyfiles L fs q paths = Ok q' \<and> length q' = max 128 (length q) \<and> drop 128 q' = drop 128 q
       \<and> (\<forall>i < 128. q' ! i = (if i < length q then q ! i else 0) + pool ! i)" if "paths \<noteq> []" for q
  proof -
    have "\<exists>q'. apply_keyfiles L fs q paths = Ok q'"
      using that p by (simp add: apply_keyfiles_def POOL_SIZE_def Let_def)
    then obtain q' where q': "apply_keyfiles L fs q paths = Ok q'"
      by blast
    then have "q' = map2 (+) (resize 128 0 q) pool @ drop 128 q" and l: "length pool = 128"
      using apply_keyfiles_shape [OF q' that] p by auto
    then show ?thesis
      using q' by (auto simp: nth_append resize_def)
  qed
  moreover have "length pool = 128"
    using mix_files_length [OF p] by simp
  moreover have "apply_keyfiles L fs pw [] = Ok pw"
    by (simp add: apply_keyfiles_def)
  ultimately show ?thesis
    by blast
qed

theorem keyfiles_mix_password_witness:
  "\<exists>q'. apply_keyfiles toy_lib (\<lambda>p. Inr [1, 2, 3]) [7] [''k''] = Ok q' \<and> length q' = 128"
proof -
  have "\<forall>p \<in> set [''k'']. \<exists>d. (\<lambda>p :: string. (Inr [1, 2, 3] :: string + bytes)) p = Inr d"
    by simp
  from keyfiles_mix_password [OF this, of toy_lib] have
    "\<exists>pool :: bytes. length pool = 128 \<and> (\<forall>q. \<exists>q'. apply_keyfiles toy_lib (\<lambda>p. Inr [1, 2, 3]) q [''k''] = Ok q'
       \<and> length q' = max 128 (length q) \<and> drop 128 q' = drop 128 q
       \<and> (\<forall>i < 128. q' ! i = (if i < length q then q ! i else 0) + pool ! i))"
    by blast
  then obtain q' where "apply_keyfiles toy_lib (\<lambda>p. Inr [1, 2, 3]) [7] [''k''] = Ok q'" "length q' = max 128 (length [7 :: u8])"
    by blast
  then show ?thesis
    by auto
qed

text \<open>
  An empty keyfile ends the mixing: every keyfile listed after it is
  silently ignored, so a password with keyfiles \<open>[empty, secret]\<close> is the same as
  with \<open>[empty]\<close> alone.
\<close>

theorem empty_keyfile_stops_mixing:
  assumes "fs path = Inr []"
  shows "apply_keyfiles L fs pw (path # paths) = apply_keyfiles L fs pw [path]"
  using assms by (simp add: apply_keyfiles_def)

theorem empty_keyfile_stops_mixing_witness:
  "apply_keyfiles toy_lib (\<lambda>p. if p = ''e'' then Inr [] else Inr [9]) [1] [''e'', ''secret''] =
   apply_keyfiles toy_lib (\<lambda>p. if p = ''e'' then Inr [] else Inr [9]) [1] [''e'']"
  by (rule empty_keyfile_stops_mixing) simp

end
