(* ===== verification/OpenVol.thy ===== *)
theory OpenVol
  imports HeaderCrypt Keyfile
begin

text \<open>
  Volume layouts, configuration and opening
  (\<open>vcrypt-volume/src/layout.rs\<close>, \<open>config.rs\<close>, \<open>open.rs\<close>): the candidate header
  positions, the candidate key derivation functions, and the search over both
  and over the ciphers that ends with the first header that decrypts to a
  valid one.
\<close>

section \<open>Layouts and configuration\<close>

datatype VolumeType = NormalVolume | HiddenVolume

record HeaderLayout =
  hl_header_offset :: nat
  hl_backup_offset :: "nat option"
  hl_read_size :: nat
  hl_name :: string
  hl_volume_type :: VolumeType

text \<open>Saturating subtraction of \<open>u64\<close> is subtraction of natural numbers.\<close>

definition v2_normal :: "nat \<Rightarrow> HeaderLayout" where
  "v2_normal file_size = \<lparr> hl_header_offset = 0,
     hl_backup_offset = Some (file_size - 2 * VOLUME_HEADER_SIZE),
     hl_read_size = VOLUME_HEADER_SIZE, hl_name = ''V2 Normal'', hl_volume_type = NormalVolume \<rparr>"

definition v1_legacy :: HeaderLayout where
  "v1_legacy = \<lparr> hl_header_offset = 0, hl_backup_offset = None, hl_read_size = 512,
     hl_name = ''V1 Legacy'', hl_volume_type = NormalVolume \<rparr>"

definition v2_hidden :: "nat \<Rightarrow> HeaderLayout" where
  "v2_hidden file_size = \<lparr> hl_header_offset = VOLUME_HEADER_SIZE,
     hl_backup_offset = Some (file_size - VOLUME_HEADER_SIZE),
     hl_read_size = VOLUME_HEADER_SIZE, hl_name = ''V2 Hidden'', hl_volume_type = HiddenVolume \<rparr>"

definition layout_candidates :: "nat \<Rightarrow> HeaderLayout list" where
  "layout_candidates file_size = [v2_normal file_size, v1_legacy, v2_hidden file_size]"

record VolumeConfig =
  cfg_cipher :: CipherType
  cfg_hash :: HashAlgorithm
  cfg_kdf :: KdfAlgorithm
  cfg_iterations :: u32
  cfg_pim :: "u32 option"
  cfg_sector_size :: u32
  cfg_use_backup_header :: bool

definition config_default :: VolumeConfig where
  "config_default = \<lparr> cfg_cipher = Aes, cfg_hash = HaSha512, cfg_kdf = Pbkdf2Sha512,
     cfg_iterations = 500000, cfg_pim = None, cfg_sector_size = 512, cfg_use_backup_header = False \<rparr>"

definition with_cipher :: "CipherType \<Rightarrow> VolumeConfig \<Rightarrow> VolumeConfig" where
  "with_cipher c cfg = cfg \<lparr> cfg_cipher := c \<rparr>"

definition with_hash :: "HashAlgorithm \<Rightarrow> VolumeConfig \<Rightarrow> VolumeConfig" where
  "with_hash h cfg = cfg \<lparr> cfg_hash := h \<rparr>"

definition with_kdf :: "KdfAlgorithm \<Rightarrow> VolumeConfig \<Rightarrow> VolumeConfig" where
  "with_kdf k cfg = cfg \<lparr> cfg_kdf := k \<rparr>"

definition with_iterations :: "u32 \<Rightarrow> VolumeConfig \<Rightarrow> VolumeConfig" where
  "with_iterations n cfg = cfg \<lparr> cfg_iterations := n \<rparr>"

section \<open>Key derivation candidates\<close>

record KdfCandidate =
  kc_algorithm :: KdfAlgorithm
  kc_implementation :: KeyDerivation
  kc_pim :: int
  kc_iterations :: u32
  kc_memory_cost_kib :: "u32 option"

fun kdf_impl :: "KdfAlgorithm \<Rightarrow> KeyDerivation" where
  "kdf_impl Pbkdf2Sha512 = KdSha512"
| "kdf_impl Pbkdf2Whirlpool = KdWhirlpool"
| "kdf_impl Pbkdf2Sha256 = KdSha256"
| "kdf_impl Pbkdf2Blake2s = KdBlake2s"
| "kdf_impl Pbkdf2Streebog = KdStreebog"
| "kdf_impl Argon2id = (let (memory_cost, time_cost) = params_for_pim 0 in KdArgon2id memory_cost time_cost 1)"

definition make_kdf_candidate :: "KdfAlgorithm \<Rightarrow> int \<Rightarrow> KdfCandidate" where
  "make_kdf_candidate kdf pim =
     (let (implementation, iterations, memory_cost_kib) =
        (case kdf of
           Argon2id \<Rightarrow> (let (memory_cost_kib, time_cost) = params_for_pim pim
                         in (KdArgon2id memory_cost_kib time_cost 1, time_cost, Some memory_cost_kib))
         | _ \<Rightarrow> (let implementation = kdf_impl kdf
                  in (implementation, get_iteration_count implementation pim, None)))
      in \<lparr> kc_algorithm = kdf, kc_implementation = implementation, kc_pim = pim,
           kc_iterations = iterations, kc_memory_cost_kib = memory_cost_kib \<rparr>)"

definition pim_for_algorithm :: "KdfAlgorithm \<Rightarrow> int option \<Rightarrow> int" where
  "pim_for_algorithm alg pim = (case pim of Some p \<Rightarrow> p | None \<Rightarrow> 0)"

definition auto_kdf_candidates :: "int option \<Rightarrow> KdfCandidate list" where
  "auto_kdf_candidates pim =
     map (\<lambda>alg. make_kdf_candidate alg (pim_for_algorithm alg pim))
       [Pbkdf2Sha512, Pbkdf2Sha256, Pbkdf2Blake2s, Pbkdf2Whirlpool, Pbkdf2Streebog, Argon2id]"

section \<open>Trying one header\<close>

record OpenResult =
  or_header_cipher :: CipherType
  or_data_cipher :: CipherType
  or_kdf :: KdfAlgorithm
  or_pim :: int
  or_iterations :: u32
  or_memory_cost_kib :: "u32 option"
  or_master_key :: bytes
  or_data_offset :: u64
  or_data_length :: u64
  or_salt :: bytes
  or_header :: VolumeHeader
  or_used_backup_header :: bool
  or_volume_type :: VolumeType

definition infer_data_cipher :: "CipherType \<Rightarrow> bytes \<Rightarrow> CipherType vres" where
  "infer_data_cipher header_cipher master_keydata = Ok header_cipher"

definition try_decrypt ::
  "crypto_lib \<Rightarrow> bytes \<Rightarrow> CipherType \<Rightarrow> bytes \<Rightarrow> KdfCandidate \<Rightarrow> bool \<Rightarrow> OpenResult vres" where
  "try_decrypt L data header_cipher header_key kdf is_backup =
     bind_res (slice data 0 VOLUME_HEADER_EFFECTIVE_SIZE) (\<lambda>decrypted.
     bind_res (map_err (\<lambda>_. AuthFailed ''header decrypt'') (decrypt_header_area L decrypted header_key header_cipher)) (\<lambda>decrypted.
     bind_res (map_err (\<lambda>_. AuthFailed ''header parse'') (deserialize_header L decrypted)) (\<lambda>header.
     bind_res (slice data 0 PKCS5_SALT_SIZE) (\<lambda>salt.
     bind_res (infer_data_cipher header_cipher (vh_master_keydata header)) (\<lambda>data_cipher.
     let expected_key_bytes = ct_key_size data_cipher * 2 in
     if length (vh_master_keydata header) < expected_key_bytes then
       Err (InvalidFormat (''Master key area too small for '' @ ct_name data_cipher))
     else
       Ok \<lparr> or_header_cipher = header_cipher, or_data_cipher = data_cipher,
            or_kdf = kc_algorithm kdf, or_pim = kc_pim kdf, or_iterations = kc_iterations kdf,
            or_memory_cost_kib = kc_memory_cost_kib kdf,
            or_master_key = take expected_key_bytes (vh_master_keydata header),
            or_data_offset = vh_encrypted_area_start header,
            or_data_length = (if vh_encrypted_area_length header > 0
                              then vh_encrypted_area_length header else vh_volume_size header),
            or_salt = salt, or_header = header, or_used_backup_header = is_backup,
            or_volume_type = (if vh_hidden_volume_size header \<noteq> 0 then HiddenVolume else NormalVolume) \<rparr>)))))"

definition MAX_HEADER_KEY_SIZE :: nat where "MAX_HEADER_KEY_SIZE = 192"

definition supported_volume_algorithms :: "CipherType list" where
  "supported_volume_algorithms = all_supported"

text \<open>The inner loop over the ciphers: the first success is returned, an error means the next cipher.\<close>

fun try_ciphers ::
  "crypto_lib \<Rightarrow> bytes \<Rightarrow> bytes \<Rightarrow> KdfCandidate \<Rightarrow> bool \<Rightarrow> CipherType list \<Rightarrow> (VolumeError, OpenResult option) res" where
  "try_ciphers L header key kdf is_backup [] = Ok None"
| "try_ciphers L header key kdf is_backup (cipher # rest) =
     bind_res (slice key 0 (ct_key_size cipher * 2)) (\<lambda>k.
     case try_decrypt L header cipher k kdf is_backup of
       Ok result \<Rightarrow> Ok (Some result)
     | Err e \<Rightarrow> try_ciphers L header key kdf is_backup rest
     | Panic \<Rightarrow> Panic)"

fun try_candidates ::
  "crypto_lib \<Rightarrow> bytes \<Rightarrow> bytes \<Rightarrow> bytes \<Rightarrow> bool \<Rightarrow> KdfCandidate list \<Rightarrow> OpenResult vres" where
  "try_candidates L header password salt is_backup [] =
     Err (AuthFailed ''Password incorrect or volume corrupted'')"
| "try_candidates L header password salt is_backup (kdf # rest) =
     (case derive L (kc_implementation kdf) password salt (kc_iterations kdf) (replicate MAX_HEADER_KEY_SIZE 0) of
        Err e \<Rightarrow> try_candidates L header password salt is_backup rest
      | Panic \<Rightarrow> Panic
      | Ok key \<Rightarrow>
          bind_res (try_ciphers L header key kdf is_backup supported_volume_algorithms) (\<lambda>r.
          case r of Some result \<Rightarrow> Ok result
                  | None \<Rightarrow> try_candidates L header password salt is_backup rest))"

definition try_open :: "crypto_lib \<Rightarrow> bytes \<Rightarrow> bytes \<Rightarrow> KdfCandidate list \<Rightarrow> bool \<Rightarrow> OpenResult vres" where
  "try_open L header password candidates is_backup =
     (if length header < VOLUME_HEADER_EFFECTIVE_SIZE then Err (InvalidFormat ''Header too small'')
      else bind_res (slice header 0 PKCS5_SALT_SIZE) (\<lambda>salt.
        try_candidates L header password salt is_backup candidates))"

definition open_volume_auto :: "crypto_lib \<Rightarrow> bytes \<Rightarrow> bytes \<Rightarrow> int option \<Rightarrow> bool \<Rightarrow> OpenResult vres" where
  "open_volume_auto L header password pim is_backup =
     try_open L header password (auto_kdf_candidates pim) is_backup"

definition open_volume_single_kdf ::
  "crypto_lib \<Rightarrow> bytes \<Rightarrow> bytes \<Rightarrow> KdfAlgorithm \<Rightarrow> int \<Rightarrow> bool \<Rightarrow> OpenResult vres" where
  "open_volume_single_kdf L header password kdf pim is_backup =
     try_open L header password [make_kdf_candidate kdf pim] is_backup"

definition open_volume_with_pim :: "crypto_lib \<Rightarrow> bytes \<Rightarrow> bytes \<Rightarrow> int \<Rightarrow> OpenResult vres" where
  "open_volume_with_pim L header password pim = open_volume_auto L header password (Some pim) False"

definition open_volume_with_iters :: "crypto_lib \<Rightarrow> bytes \<Rightarrow> bytes \<Rightarrow> u32 \<Rightarrow> OpenResult vres" where
  "open_volume_with_iters L header password iterations =
     try_open L header password
       [\<lparr> kc_algorithm = Pbkdf2Sha256, kc_implementation = kdf_impl Pbkdf2Sha256, kc_pim = 0,
          kc_iterations = iterations, kc_memory_cost_kib = None \<rparr>] False"

section \<open>Trying the headers of a file\<close>

definition candidate_offsets :: "HeaderLayout \<Rightarrow> nat \<Rightarrow> nat list" where
  "candidate_offsets layout file_size =
     (let offsets = [hl_header_offset layout] in
      case hl_backup_offset layout of
        Some backup \<Rightarrow> if backup < file_size \<and> backup \<notin> set offsets then offsets @ [backup] else offsets
      | None \<Rightarrow> offsets)"

definition header_positions :: "nat \<Rightarrow> (HeaderLayout \<times> nat) list" where
  "header_positions file_size =
     concat (map (\<lambda>layout. map (\<lambda>offset. (layout, offset)) (candidate_offsets layout file_size))
       (layout_candidates file_size))"

text \<open>
  The two nested loops: a position with too few bytes is skipped, an
  authentication failure moves on, any other error ends the search.
\<close>

fun try_positions :: "bytes \<Rightarrow> (bytes \<Rightarrow> bool \<Rightarrow> OpenResult vres) \<Rightarrow> (HeaderLayout \<times> nat) list \<Rightarrow> OpenResult vres" where
  "try_positions data attempt [] = Err (AuthFailed ''Password incorrect or volume corrupted'')"
| "try_positions data attempt ((layout, offset) # rest) =
     (let read_size = min (hl_read_size layout) (length data - offset) in
      if read_size < VOLUME_HEADER_EFFECTIVE_SIZE then try_positions data attempt rest
      else
        let is_backup = (hl_backup_offset layout = Some offset) in
        bind_res (slice data offset (offset + read_size)) (\<lambda>header.
        case attempt header is_backup of
          Ok r \<Rightarrow> Ok r
        | Err (AuthFailed m) \<Rightarrow> try_positions data attempt rest
        | Err e \<Rightarrow> Err e
        | Panic \<Rightarrow> Panic))"

definition mix_password :: "crypto_lib \<Rightarrow> filesystem \<Rightarrow> bytes \<Rightarrow> string list \<Rightarrow> bytes vres" where
  "mix_password L fs password keyfiles =
     (if keyfiles \<noteq> []
      then map_err (\<lambda>e. VolCryptoError (''keyfile: '' @ e)) (apply_keyfiles L fs password keyfiles)
      else Ok password)"

definition read_volume :: "filesystem \<Rightarrow> string \<Rightarrow> bytes vres" where
  "read_volume fs path = (case fs path of Inl e \<Rightarrow> Err (OpenError (''read: '' @ e)) | Inr data \<Rightarrow> Ok data)"

definition open_volume_file_with_kdf ::
  "crypto_lib \<Rightarrow> filesystem \<Rightarrow> string \<Rightarrow> bytes \<Rightarrow> string list \<Rightarrow> KdfAlgorithm \<Rightarrow> int \<Rightarrow> OpenResult vres" where
  "open_volume_file_with_kdf L fs path password keyfiles kdf pim =
     bind_res (read_volume fs path) (\<lambda>data.
     bind_res (mix_password L fs password keyfiles) (\<lambda>pw.
     try_positions data (\<lambda>header is_backup. open_volume_single_kdf L header pw kdf pim is_backup)
       (header_positions (length data))))"

definition open_volume_file ::
  "crypto_lib \<Rightarrow> filesystem \<Rightarrow> string \<Rightarrow> bytes \<Rightarrow> string list \<Rightarrow> int option \<Rightarrow> OpenResult vres" where
  "open_volume_file L fs path password keyfiles pim =
     bind_res (read_volume fs path) (\<lambda>data.
     bind_res (mix_password L fs password keyfiles) (\<lambda>pw.
     try_positions data (\<lambda>header is_backup. open_volume_auto L header pw pim is_backup)
       (header_positions (length data))))"

section \<open>When a header opens\<close>

text \<open>
  \<open>header_opens L data ct k h\<close>: under the cipher and the header key, the first 512
  bytes decrypt to a valid header \<open>h\<close>. \<open>open_result\<close> is what the code builds from it.
\<close>

definition header_opens :: "crypto_lib \<Rightarrow> bytes \<Rightarrow> CipherType \<Rightarrow> bytes \<Rightarrow> VolumeHeader \<Rightarrow> bool" where
  "header_opens L data ct k h \<longleftrightarrow>
     (\<exists>d. decrypt_header_area L (take 512 data) k ct = Ok d \<and> deserialize_header L d = Ok h)"

definition open_result ::
  "CipherType \<Rightarrow> VolumeHeader \<Rightarrow> bytes \<Rightarrow> KdfCandidate \<Rightarrow> bool \<Rightarrow> OpenResult" where
  "open_result ct h salt kdf is_backup =
     \<lparr> or_header_cipher = ct, or_data_cipher = ct, or_kdf = kc_algorithm kdf, or_pim = kc_pim kdf,
       or_iterations = kc_iterations kdf, or_memory_cost_kib = kc_memory_cost_kib kdf,
       or_master_key = take (ct_key_size ct * 2) (vh_master_keydata h),
       or_data_offset = vh_encrypted_area_start h,
       or_data_length = (if vh_encrypted_area_length h > 0 then vh_encrypted_area_length h else vh_volume_size h),
       or_salt = salt, or_header = h, or_used_backup_header = is_backup,
       or_volume_type = (if vh_hidden_volume_size h \<noteq> 0 then HiddenVolume else NormalVolume) \<rparr>"

lemma header_opens_unique: "header_opens L data ct k h \<Longrightarrow> header_opens L data ct k h' \<Longrightarrow> h = h'"
  by (auto simp: header_opens_def)

lemma ct_key_size_le: "ct_key_size ct * 2 \<le> 192"
  by (cases ct) auto

lemma decrypt_no_panic:
  assumes "lib_ok L" "512 \<le> length data" "length k = 2 * ct_key_size ct"
  shows "\<exists>d. decrypt_header_area L (take 512 data) k ct = Ok d"
proof -
  have "512 \<le> length (take 512 data)"
    using assms(2) by simp
  then show ?thesis
    using header_area_Ok [OF assms(1,3), of "take 512 data" False] by (simp add: decrypt_header_area_def)
qed

lemma try_decrypt_cases:
  assumes "lib_ok L" "512 \<le> length data" "length k = 2 * ct_key_size ct"
  obtains h where "header_opens L data ct k h"
    "try_decrypt L data ct k kdf b = Ok (open_result ct h (take 64 data) kdf b)"
  | "\<nexists>h. header_opens L data ct k h" "try_decrypt L data ct k kdf b = Err (AuthFailed ''header parse'')"
proof -
  obtain d where d: "decrypt_header_area L (take 512 data) k ct = Ok d"
    using decrypt_no_panic [OF assms] by blast
  have s: "slice data 0 512 = (Ok (take 512 data) :: bytes vres)" "slice data 0 64 = (Ok (take 64 data) :: bytes vres)"
    using assms(2) by (simp_all add: sub_def)
  show ?thesis
  proof (cases "deserialize_header L d")
    case (Ok h)
    then have "header_opens L data ct k h"
      using d by (auto simp: header_opens_def)
    moreover have "\<not> length (vh_master_keydata h) < ct_key_size ct * 2"
      using deserialize_sound(4) [OF Ok] ct_key_size_le [of ct] by linarith
    ultimately show ?thesis
      using that(1) [of h] Ok d
      by (simp add: try_decrypt_def header_consts s infer_data_cipher_def open_result_def Let_def)
  next
    case (Err e)
    then have "\<nexists>h. header_opens L data ct k h"
      using d by (auto simp: header_opens_def)
    then show ?thesis
      using that(2) Err d by (simp add: try_decrypt_def header_consts s)
  next
    case Panic
    then show ?thesis
      using deserialize_no_panic [of L d] by simp
  qed
qed

section \<open>The search\<close>

text \<open>
  \<open>kdf_opens\<close>: the password and salt derive, with this candidate, a key under
  which some cipher opens the header.
\<close>

definition derived_key :: "crypto_lib \<Rightarrow> KdfCandidate \<Rightarrow> bytes \<Rightarrow> bytes \<Rightarrow> bytes option" where
  "derived_key L kdf password salt =
     ok_of (derive L (kc_implementation kdf) password salt (kc_iterations kdf) (replicate MAX_HEADER_KEY_SIZE 0))"

definition kdf_opens :: "crypto_lib \<Rightarrow> bytes \<Rightarrow> bytes \<Rightarrow> KdfCandidate \<Rightarrow> CipherType \<Rightarrow> VolumeHeader \<Rightarrow> bool" where
  "kdf_opens L header password kdf ct h \<longleftrightarrow>
     (\<exists>key. derived_key L kdf password (take 64 header) = Some key \<and>
        header_opens L header ct (take (ct_key_size ct * 2) key) h)"

lemma derive_not_panic:
  assumes "lib_ok L" "length out < 2 ^ 32"
  shows "derive L k P S it out \<noteq> Panic"
proof (cases "\<exists>m t p. k = KdArgon2id m t p")
  case True
  then show ?thesis
    by (auto simp: argon2_derive_def Let_def split: option.splits sum.splits if_splits)
next
  case False
  then show ?thesis
    using derive_pbkdf2_Ok [OF assms(1) _ assms(2), of k P S it] by fastforce
qed

lemma derived_key_length:
  "lib_ok L \<Longrightarrow> derived_key L kdf pw salt = Some key \<Longrightarrow> length key = 192"
  using derive_length [of L "kc_implementation kdf" pw salt "kc_iterations kdf" "replicate 192 0" key]
  by (simp add: derived_key_def MAX_HEADER_KEY_SIZE_def)

lemma try_ciphers_spec:
  assumes "lib_ok L" "512 \<le> length header" "length key = 192"
  obtains pre c post h where "cs = pre @ c # post"
    "\<forall>c' \<in> set pre. \<nexists>h. header_opens L header c' (take (ct_key_size c' * 2) key) h"
    "header_opens L header c (take (ct_key_size c * 2) key) h"
    "try_ciphers L header key kdf b cs = Ok (Some (open_result c h (take 64 header) kdf b))"
  | "\<forall>c' \<in> set cs. \<nexists>h. header_opens L header c' (take (ct_key_size c' * 2) key) h"
    "try_ciphers L header key kdf b cs = Ok None"
proof -
  have "(\<exists>pre c post h. cs = pre @ c # post
      \<and> (\<forall>c' \<in> set pre. \<nexists>h. header_opens L header c' (take (ct_key_size c' * 2) key) h)
      \<and> header_opens L header c (take (ct_key_size c * 2) key) h
      \<and> try_ciphers L header key kdf b cs = Ok (Some (open_result c h (take 64 header) kdf b)))
    \<or> ((\<forall>c' \<in> set cs. \<nexists>h. header_opens L header c' (take (ct_key_size c' * 2) key) h)
      \<and> try_ciphers L header key kdf b cs = Ok None)" (is "?A cs \<or> ?B cs")
  proof (induction cs)
    case (Cons c cs)
    have sl: "slice key 0 (ct_key_size c * 2) = (Ok (take (ct_key_size c * 2) key) :: bytes vres)"
      using assms(3) ct_key_size_le [of c] by (simp add: sub_def)
    have lk: "length (take (ct_key_size c * 2) key) = 2 * ct_key_size c"
      using assms(3) ct_key_size_le [of c] by simp
    show ?case
    proof (cases rule: try_decrypt_cases [OF assms(1,2) lk, of kdf b])
      case (1 h)
      have "?A (c # cs)"
        using 1 sl by (intro exI [of _ "[]"] exI [of _ c] exI [of _ cs] exI [of _ h]) simp
      then show ?thesis ..
    next
      case 2
      then have tc: "try_ciphers L header key kdf b (c # cs) = try_ciphers L header key kdf b cs"
        using sl by simp
      show ?thesis
        using Cons
      proof
        assume "?A cs"
        then obtain pre d post h where "cs = pre @ d # post"
          "\<forall>c' \<in> set pre. \<nexists>h. header_opens L header c' (take (ct_key_size c' * 2) key) h"
          "header_opens L header d (take (ct_key_size d * 2) key) h"
          "try_ciphers L header key kdf b cs = Ok (Some (open_result d h (take 64 header) kdf b))"
          by blast
        then have "?A (c # cs)"
          using 2(1) tc by (intro exI [of _ "c # pre"] exI [of _ d] exI [of _ post] exI [of _ h]) simp
        then show ?thesis ..
      qed (use 2(1) tc in auto)
    qed
  qed simp
  then show ?thesis
    using that by blast
qed

lemma try_candidates_spec:
  assumes "lib_ok L" "512 \<le> length header"
  obtains pre kdf post c h where "cands = pre @ kdf # post"
    "\<forall>k \<in> set pre. \<nexists>c h. kdf_opens L header pw k c h" "kdf_opens L header pw kdf c h"
    "\<forall>c' \<in> set (takeWhile (\<lambda>x. x \<noteq> c) all_supported). \<nexists>h. kdf_opens L header pw kdf c' h"
    "try_candidates L header pw (take 64 header) b cands = Ok (open_result c h (take 64 header) kdf b)"
  | "\<forall>k \<in> set cands. \<nexists>c h. kdf_opens L header pw k c h"
    "try_candidates L header pw (take 64 header) b cands = Err (AuthFailed ''Password incorrect or volume corrupted'')"
proof -
  have "(\<exists>pre kdf post c h. cands = pre @ kdf # post
      \<and> (\<forall>k \<in> set pre. \<nexists>c h. kdf_opens L header pw k c h) \<and> kdf_opens L header pw kdf c h
      \<and> (\<forall>c' \<in> set (takeWhile (\<lambda>x. x \<noteq> c) all_supported). \<nexists>h. kdf_opens L header pw kdf c' h)
      \<and> try_candidates L header pw (take 64 header) b cands = Ok (open_result c h (take 64 header) kdf b))
    \<or> ((\<forall>k \<in> set cands. \<nexists>c h. kdf_opens L header pw k c h)
      \<and> try_candidates L header pw (take 64 header) b cands =
          Err (AuthFailed ''Password incorrect or volume corrupted''))" (is "?A cands \<or> ?B cands")
  proof (induction cands)
    case (Cons kdf cands)
    let ?d = "derive L (kc_implementation kdf) pw (take 64 header) (kc_iterations kdf) (replicate MAX_HEADER_KEY_SIZE 0)"
    have skip: "?A (kdf # cands) \<or> ?B (kdf # cands)"
      if no: "\<nexists>c h. kdf_opens L header pw kdf c h"
        and eq: "try_candidates L header pw (take 64 header) b (kdf # cands) =
          try_candidates L header pw (take 64 header) b cands"
      using Cons
    proof
      assume "?A cands"
      then obtain pre k post c h where "cands = pre @ k # post"
        "\<forall>k \<in> set pre. \<nexists>c h. kdf_opens L header pw k c h" "kdf_opens L header pw k c h"
        "\<forall>c' \<in> set (takeWhile (\<lambda>x. x \<noteq> c) all_supported). \<nexists>h. kdf_opens L header pw k c' h"
        "try_candidates L header pw (take 64 header) b cands = Ok (open_result c h (take 64 header) k b)"
        by blast
      then have "?A (kdf # cands)"
        using no eq
        by (intro exI [of _ "kdf # pre"] exI [of _ k] exI [of _ post] exI [of _ c] exI [of _ h]) simp
      then show ?thesis ..
    qed (use no eq in auto)
    show ?case
    proof (cases ?d)
      case (Ok key)
      then have dk: "derived_key L kdf pw (take 64 header) = Some key"
        by (simp add: derived_key_def)
      have ko: "kdf_opens L header pw kdf c h \<longleftrightarrow> header_opens L header c (take (ct_key_size c * 2) key) h" for c h
        using dk by (simp add: kdf_opens_def)
      show ?thesis
      proof (cases rule: try_ciphers_spec [OF assms derived_key_length [OF assms(1) dk], of all_supported kdf b])
        case (1 pre c post h)
        have "c \<notin> set pre"
          using all_supported_complete unfolding 1(1) by simp
        then have "takeWhile (\<lambda>x. x \<noteq> c) all_supported = pre"
          unfolding 1(1) by (subst takeWhile_append2) auto
        then have "?A (kdf # cands)"
          using 1 Ok
          by (intro exI [of _ "[]"] exI [of _ kdf] exI [of _ cands] exI [of _ c] exI [of _ h])
            (simp add: ko supported_volume_algorithms_def)
        then show ?thesis ..
      next
        case 2
        show ?thesis
          by (rule skip) (use 2 Ok all_supported_complete in \<open>auto simp: ko supported_volume_algorithms_def\<close>)
      qed
    next
      case (Err e)
      then show ?thesis
        by (intro skip) (auto simp: kdf_opens_def derived_key_def)
    next
      case Panic
      then show ?thesis
        using derive_not_panic [OF assms(1)] by (simp add: MAX_HEADER_KEY_SIZE_def)
    qed
  qed simp
  then show ?thesis
    using that by blast
qed

section \<open>Opening a file\<close>

text \<open>\<open>opens_at\<close>: the bytes at an offset of the file open with one of the candidates.\<close>

definition opens_at ::
  "crypto_lib \<Rightarrow> bytes \<Rightarrow> bytes \<Rightarrow> KdfCandidate list \<Rightarrow> nat \<Rightarrow> KdfCandidate \<Rightarrow> CipherType \<Rightarrow> VolumeHeader \<Rightarrow> bool" where
  "opens_at L data pw cands off kdf ct h \<longleftrightarrow>
     off + 512 \<le> length data \<and> kdf \<in> set cands \<and> kdf_opens L (drop off data) pw kdf ct h"

lemma kdf_opens_take:
  assumes "take 512 a = take 512 b"
  shows "kdf_opens L a pw kdf ct h = kdf_opens L b pw kdf ct h"
proof -
  have "take 64 a = take 64 b"
    using arg_cong [OF assms, of "take 64"] by simp
  then show ?thesis
    using assms by (simp add: kdf_opens_def header_opens_def)
qed

lemma try_open_spec:
  assumes "lib_ok L" "512 \<le> length header"
  obtains kdf c h where "kdf \<in> set cands" "kdf_opens L header pw kdf c h"
    "try_open L header pw cands b = Ok (open_result c h (take 64 header) kdf b)"
  | "\<forall>k \<in> set cands. \<nexists>c h. kdf_opens L header pw k c h"
    "try_open L header pw cands b = Err (AuthFailed ''Password incorrect or volume corrupted'')"
proof -
  have "try_open L header pw cands b = try_candidates L header pw (take 64 header) b cands"
    using assms(2) by (simp add: try_open_def header_consts sub_def)
  then show ?thesis
    using try_candidates_spec [OF assms, of cands pw b] that by (metis in_set_conv_decomp)
qed

lemma try_positions_spec:
  assumes "lib_ok L" "\<forall>(layout, off) \<in> set ps. 512 \<le> hl_read_size layout"
  shows "(\<exists>pre layout off post kdf c h. ps = pre @ (layout, off) # post
      \<and> (\<forall>(l, o') \<in> set pre. \<nexists>kdf c h. opens_at L data pw cands o' kdf c h)
      \<and> opens_at L data pw cands off kdf c h
      \<and> try_positions data (\<lambda>header b. try_open L header pw cands b) ps =
          Ok (open_result c h (sub data off (off + 64)) kdf (hl_backup_offset layout = Some off)))
    \<or> ((\<forall>(l, o') \<in> set ps. \<nexists>kdf c h. opens_at L data pw cands o' kdf c h)
      \<and> try_positions data (\<lambda>header b. try_open L header pw cands b) ps =
          Err (AuthFailed ''Password incorrect or volume corrupted''))" (is "?A ps \<or> ?B ps")
  using assms(2)
proof (induction ps)
  case (Cons p ps)
  obtain layout off where p: "p = (layout, off)" by force
  let ?rs = "min (hl_read_size layout) (length data - off)"
  let ?hdr = "sub data off (off + ?rs)"
  have r: "512 \<le> hl_read_size layout"
    using Cons.prems p by simp
  have skip: "?A (p # ps) \<or> ?B (p # ps)"
    if no: "\<nexists>kdf c h. opens_at L data pw cands off kdf c h"
      and eq: "try_positions data (\<lambda>header b. try_open L header pw cands b) (p # ps) =
        try_positions data (\<lambda>header b. try_open L header pw cands b) ps"
  proof -
    have "?A ps \<or> ?B ps"
      using Cons by simp
    then show ?thesis
    proof
      assume "?A ps"
      then obtain pre l o' post kdf c h where a: "ps = pre @ (l, o') # post"
        "\<forall>(l, o') \<in> set pre. \<nexists>kdf c h. opens_at L data pw cands o' kdf c h"
        "opens_at L data pw cands o' kdf c h"
        "try_positions data (\<lambda>header b. try_open L header pw cands b) ps =
          Ok (open_result c h (sub data o' (o' + 64)) kdf (hl_backup_offset l = Some o'))"
        by blast
      have "?A (p # ps)"
        using a no eq p
        by (intro exI [of _ "p # pre"] exI [of _ l] exI [of _ o'] exI [of _ post] exI [of _ kdf] exI [of _ c] exI [of _ h])
          simp
      then show ?thesis ..
    qed (use no eq p in auto)
  qed
  show ?case
  proof (cases "off + 512 \<le> length data")
    case False
    show ?thesis
      by (rule skip) (use False p in \<open>auto simp: opens_at_def header_consts Let_def\<close>)
  next
    case True
    have big: "\<not> ?rs < 512"
      using True r by simp
    have len: "512 \<le> length ?hdr" and t512: "take 512 ?hdr = take 512 (drop off data)"
      and t64: "take 64 ?hdr = sub data off (off + 64)"
      using True r by (auto simp: sub_def min_def)
    have sl: "slice data off (off + ?rs) = (Ok ?hdr :: bytes vres)"
      using True by (auto intro!: slice_Ok)
    have oa: "opens_at L data pw cands off kdf c h \<longleftrightarrow> kdf \<in> set cands \<and> kdf_opens L ?hdr pw kdf c h" for kdf c h
      using True kdf_opens_take [OF t512] by (auto simp: opens_at_def)
    show ?thesis
    proof (cases rule: try_open_spec [OF assms(1) len, of cands pw "hl_backup_offset layout = Some off"])
      case (1 kdf c h)
      then have "?A (p # ps)"
        using sl big t64 p
        by (intro exI [of _ "[]"] exI [of _ layout] exI [of _ off] exI [of _ ps] exI [of _ kdf] exI [of _ c] exI [of _ h])
          (simp add: oa header_consts Let_def)
      then show ?thesis ..
    next
      case 2
      show ?thesis
        by (rule skip) (use 2 sl big p oa in \<open>auto simp: header_consts Let_def\<close>)
    qed
  qed
qed simp

lemma try_positions_cases:
  assumes "lib_ok L" "\<forall>(layout, off) \<in> set ps. 512 \<le> hl_read_size layout"
  obtains pre layout off post kdf c h where "ps = pre @ (layout, off) # post"
      "\<forall>(l, o') \<in> set pre. \<nexists>kdf c h. opens_at L data pw cands o' kdf c h"
      "opens_at L data pw cands off kdf c h"
      "try_positions data (\<lambda>header b. try_open L header pw cands b) ps =
          Ok (open_result c h (sub data off (off + 64)) kdf (hl_backup_offset layout = Some off))"
    | "\<forall>(l, o') \<in> set ps. \<nexists>kdf c h. opens_at L data pw cands o' kdf c h"
      "try_positions data (\<lambda>header b. try_open L header pw cands b) ps =
          Err (AuthFailed ''Password incorrect or volume corrupted'')"
  using try_positions_spec [OF assms, of data pw cands] by blast

lemma header_positions_read_size: "\<forall>(layout, off) \<in> set (header_positions n). 512 \<le> hl_read_size layout"
  by (auto simp: header_positions_def layout_candidates_def v2_normal_def v1_legacy_def v2_hidden_def header_consts)

text \<open>The positions of a file that holds the four header slots, in the order they are tried.\<close>

lemma header_positions_large:
  assumes "262144 \<le> n"
  shows "header_positions n = [(v2_normal n, 0), (v2_normal n, n - 131072), (v1_legacy, 0),
    (v2_hidden n, 65536), (v2_hidden n, n - 65536)]"
proof -
  have "n - 131072 < n" "n - 131072 \<noteq> 0" "n - 65536 < n" "n - 65536 \<noteq> 65536"
    using assms by linarith+
  then show ?thesis
    by (simp add: header_positions_def layout_candidates_def candidate_offsets_def Let_def
        v2_normal_def v1_legacy_def v2_hidden_def header_consts)
qed

lemma header_position_offsets:
  "snd ` set (header_positions n) = {0, 65536} \<union> {o'. (o' = n - 131072 \<or> o' = n - 65536) \<and> o' < n}"
  by (auto simp: header_positions_def layout_candidates_def candidate_offsets_def Let_def
      v2_normal_def v1_legacy_def v2_hidden_def header_consts image_iff split: if_splits)

text \<open>Both file openers are the search with their list of candidates.\<close>

lemma open_file_alt:
  assumes "fs path = Inr data" "mix_password L fs password keyfiles = Ok pw"
  shows "open_volume_file_with_kdf L fs path password keyfiles kdf pim =
      try_positions data (\<lambda>header b. try_open L header pw [make_kdf_candidate kdf pim] b) (header_positions (length data))"
    and "open_volume_file L fs path password keyfiles opim =
      try_positions data (\<lambda>header b. try_open L header pw (auto_kdf_candidates opim) b) (header_positions (length data))"
  using assms
  by (simp_all add: open_volume_file_with_kdf_def open_volume_file_def read_volume_def
      open_volume_single_kdf_def open_volume_auto_def)

section \<open>Which header is returned\<close>

text \<open>
  \<open>opens_first\<close>: the header opens under the cipher, and under no cipher that is
  tried before it.
\<close>

definition opens_first :: "crypto_lib \<Rightarrow> bytes \<Rightarrow> bytes \<Rightarrow> KdfCandidate \<Rightarrow> CipherType \<Rightarrow> VolumeHeader \<Rightarrow> bool" where
  "opens_first L header pw kdf ct h \<longleftrightarrow> kdf_opens L header pw kdf ct h
     \<and> (\<forall>c \<in> set (takeWhile (\<lambda>x. x \<noteq> ct) all_supported). \<nexists>h. kdf_opens L header pw kdf c h)"

lemma before_or_after:
  assumes "distinct xs" "a \<in> set xs" "b \<in> set xs" "a \<noteq> b"
  shows "a \<in> set (takeWhile (\<lambda>x. x \<noteq> b) xs) \<or> b \<in> set (takeWhile (\<lambda>x. x \<noteq> a) xs)"
  using assms by (induction xs) auto

lemma kdf_opens_unique: "kdf_opens L header pw kdf ct h \<Longrightarrow> kdf_opens L header pw kdf ct h' \<Longrightarrow> h = h'"
  by (auto simp: kdf_opens_def intro: header_opens_unique)

lemma opens_first_unique:
  assumes "opens_first L header pw kdf c h" "opens_first L header pw kdf c' h'"
  shows "c = c' \<and> h = h'"
proof -
  have "c = c'"
    using assms before_or_after [of all_supported c c'] all_supported_complete
    unfolding opens_first_def by blast
  then show ?thesis
    using assms kdf_opens_unique by (auto simp: opens_first_def)
qed

lemma try_open_first:
  assumes "lib_ok L" "512 \<le> length header" "opens_first L header pw kdf ct h"
  shows "try_open L header pw [kdf] b = Ok (open_result ct h (take 64 header) kdf b)"
proof -
  have eq: "try_open L header pw [kdf] b = try_candidates L header pw (take 64 header) b [kdf]"
    using assms(2) by (simp add: try_open_def header_consts sub_def)
  show ?thesis
  proof (cases rule: try_candidates_spec [OF assms(1,2), of "[kdf]" pw b])
    case (1 pre kdf' post c h')
    then have "kdf' = kdf"
      by (auto simp: Cons_eq_append_conv)
    then have "opens_first L header pw kdf c h'"
      using 1(3,4) by (simp add: opens_first_def)
    then show ?thesis
      using opens_first_unique [OF assms(3)] 1(5) \<open>kdf' = kdf\<close> eq by metis
  next
    case 2
    then show ?thesis
      using assms(3) by (auto simp: opens_first_def)
  qed
qed

lemma opens_first_take:
  "take 512 a = take 512 b \<Longrightarrow> opens_first L a pw kdf ct h = opens_first L b pw kdf ct h"
  unfolding opens_first_def by (simp add: kdf_opens_take [of a b])

lemma try_positions_first:
  assumes "lib_ok L" "off + 512 \<le> length data" "512 \<le> hl_read_size layout"
    "opens_first L (drop off data) pw kdf ct h"
  shows "try_positions data (\<lambda>header b. try_open L header pw [kdf] b) ((layout, off) # ps) =
    Ok (open_result ct h (sub data off (off + 64)) kdf (hl_backup_offset layout = Some off))"
proof -
  let ?rs = "min (hl_read_size layout) (length data - off)"
  let ?hdr = "sub data off (off + ?rs)"
  have len: "512 \<le> length ?hdr" and t: "take 512 ?hdr = take 512 (drop off data)"
    "take 64 ?hdr = sub data off (off + 64)"
    using assms(2,3) by (auto simp: sub_def min_def)
  have sl: "slice data off (off + ?rs) = (Ok ?hdr :: bytes vres)"
    using assms(2) by (auto intro!: slice_Ok)
  have "try_open L ?hdr pw [kdf] b = Ok (open_result ct h (sub data off (off + 64)) kdf b)" for b
    using try_open_first [OF assms(1) len] assms(4) opens_first_take [OF t(1)] t(2) by metis
  moreover have "\<not> ?rs < 512"
    using assms(2,3) by simp
  ultimately show ?thesis
    using sl by (simp add: header_consts Let_def)
qed

lemma try_positions_skip:
  assumes "lib_ok L" "512 \<le> hl_read_size layout" "\<nexists>kdf c h. opens_at L data pw cands off kdf c h"
  shows "try_positions data (\<lambda>header b. try_open L header pw cands b) ((layout, off) # ps) =
    try_positions data (\<lambda>header b. try_open L header pw cands b) ps"
proof (cases "off + 512 \<le> length data")
  case False
  then show ?thesis
    by (auto simp: header_consts Let_def)
next
  case True
  let ?rs = "min (hl_read_size layout) (length data - off)"
  let ?hdr = "sub data off (off + ?rs)"
  have len: "512 \<le> length ?hdr" and t: "take 512 ?hdr = take 512 (drop off data)"
    using True assms(2) by (auto simp: sub_def min_def)
  have sl: "slice data off (off + ?rs) = (Ok ?hdr :: bytes vres)"
    using True by (auto intro!: slice_Ok)
  have "\<nexists>kdf c h. kdf \<in> set cands \<and> kdf_opens L ?hdr pw kdf c h"
    using assms(3) True kdf_opens_take [OF t] by (auto simp: opens_at_def)
  then have "try_open L ?hdr pw cands b = Err (AuthFailed ''Password incorrect or volume corrupted'')" for b
    using try_open_spec [OF assms(1) len, of cands pw b] by metis
  moreover have "\<not> ?rs < 512"
    using True assms(2) by simp
  ultimately show ?thesis
    using sl by (simp add: header_consts Let_def)
qed

text \<open>A file with all header slots: the primary header wins, the backup is the fallback.\<close>

lemma open_primary:
  assumes "lib_ok L" "fs path = Inr data" "mix_password L fs password keyfiles = Ok pw" "262144 \<le> length data"
    "opens_first L data pw (make_kdf_candidate kdf pim) ct h"
  shows "open_volume_file_with_kdf L fs path password keyfiles kdf pim =
    Ok (open_result ct h (take 64 data) (make_kdf_candidate kdf pim) False)"
  using try_positions_first [of L 0 data "v2_normal (length data)" pw "make_kdf_candidate kdf pim" ct h] assms
  by (simp add: open_file_alt(1) [OF assms(2,3)] header_positions_large v2_normal_def header_consts sub_def)

lemma open_backup:
  assumes "lib_ok L" "fs path = Inr data" "mix_password L fs password keyfiles = Ok pw" "262144 \<le> length data"
    "\<nexists>k c h. opens_at L data pw [make_kdf_candidate kdf pim] 0 k c h"
    "opens_first L (drop (length data - 131072) data) pw (make_kdf_candidate kdf pim) ct h"
  shows "open_volume_file_with_kdf L fs path password keyfiles kdf pim =
    Ok (open_result ct h (sub data (length data - 131072) (length data - 131072 + 64)) (make_kdf_candidate kdf pim) True)"
proof -
  let ?l = "v2_normal (length data)" and ?k = "make_kdf_candidate kdf pim" and ?o = "length data - 131072"
  have rs: "512 \<le> hl_read_size ?l" and b: "hl_backup_offset ?l = Some ?o"
    by (simp_all add: v2_normal_def header_consts)
  have "try_positions data (\<lambda>header b. try_open L header pw [?k] b) ((?l, ?o) # ps) =
      Ok (open_result ct h (sub data ?o (?o + 64)) ?k True)" for ps
    using try_positions_first [OF assms(1) _ rs assms(6)] assms(4) b by simp
  then show ?thesis
    unfolding open_file_alt(1) [OF assms(2,3)] header_positions_large [OF assms(4)]
    by (simp only: try_positions_skip [OF assms(1) rs assms(5)])
qed

lemma open_hidden:
  assumes "lib_ok L" "fs path = Inr data" "mix_password L fs password keyfiles = Ok pw" "262144 \<le> length data"
    "\<nexists>k c h. opens_at L data pw [make_kdf_candidate kdf pim] 0 k c h"
    "\<nexists>k c h. opens_at L data pw [make_kdf_candidate kdf pim] (length data - 131072) k c h"
    "opens_first L (drop 65536 data) pw (make_kdf_candidate kdf pim) ct h"
  shows "open_volume_file_with_kdf L fs path password keyfiles kdf pim =
    Ok (open_result ct h (sub data 65536 65600) (make_kdf_candidate kdf pim) False)"
proof -
  let ?l = "v2_normal (length data)" and ?h = "v2_hidden (length data)" and ?k = "make_kdf_candidate kdf pim"
  have rs: "512 \<le> hl_read_size ?l" "512 \<le> hl_read_size v1_legacy" "512 \<le> hl_read_size ?h"
    by (simp_all add: v2_normal_def v1_legacy_def v2_hidden_def header_consts)
  have "hl_backup_offset ?h \<noteq> Some 65536"
    using assms(4) by (simp add: v2_hidden_def header_consts)
  then have "try_positions data (\<lambda>header b. try_open L header pw [?k] b) ((?h, 65536) # ps) =
      Ok (open_result ct h (sub data 65536 65600) ?k False)" for ps
    using try_positions_first [OF assms(1) _ rs(3) assms(7)] assms(4) by simp
  then show ?thesis
    unfolding open_file_alt(1) [OF assms(2,3)] header_positions_large [OF assms(4)]
    by (simp only: try_positions_skip [OF assms(1) rs(1) assms(5)] try_positions_skip [OF assms(1) rs(1) assms(6)]
        try_positions_skip [OF assms(1) rs(2) assms(5)])
qed

lemma opens_header:
  assumes "kdf_opens L header pw kdf ct h"
  shows "header_ok h" "length (vh_master_keydata h) = 256"
proof -
  obtain d where d: "deserialize_header L d = Ok h"
    using assms by (auto simp: kdf_opens_def header_opens_def)
  show "header_ok h" "length (vh_master_keydata h) = 256"
    using deserialize_sound [OF d] by simp_all
qed

text \<open>What an opener returns comes from a header that opened.\<close>

lemma opened_result:
  assumes "lib_ok L" "open_volume_file_with_kdf L fs path password keyfiles kdf pim = Ok r"
  obtains data pw off c h b where "fs path = Inr data" "mix_password L fs password keyfiles = Ok pw"
    "opens_at L data pw [make_kdf_candidate kdf pim] off (make_kdf_candidate kdf pim) c h"
    "r = open_result c h (sub data off (off + 64)) (make_kdf_candidate kdf pim) b"
proof -
  obtain data pw where d: "fs path = Inr data" "mix_password L fs password keyfiles = Ok pw"
    using assms(2) by (auto simp: open_volume_file_with_kdf_def read_volume_def split: sum.splits)
  show ?thesis
  proof (cases rule: try_positions_cases [OF assms(1) header_positions_read_size, of "length data" data pw
        "[make_kdf_candidate kdf pim]"])
    case (1 pre layout off post k c h)
    then have k: "k = make_kdf_candidate kdf pim"
      by (simp add: opens_at_def)
    have "r = open_result c h (sub data off (off + 64)) k (hl_backup_offset layout = Some off)"
      using 1(4) assms(2) open_file_alt(1) [OF d, of kdf pim] by simp
    then show ?thesis
      using that [OF d] 1(3) k by blast
  next
    case 2
    then show ?thesis
      using assms(2) open_file_alt(1) [OF d] by simp
  qed
qed

section \<open>Properties\<close>

text \<open>
  C13: Opening a volume file with a given key derivation function succeeds
  exactly when, at one of the header positions of the layouts, some supported
  cipher decrypts the header to a valid one; what it returns is then the
  content of such a header with the parameters it was opened with and the
  backup flag of its position. Otherwise it fails with the authentication
  error; it never panics.
\<close>

theorem open_file_sound_complete:
  fixes kdf :: KdfAlgorithm and pim :: int
  assumes "lib_ok L" "fs path = Inr data" "mix_password L fs password keyfiles = Ok pw"
  defines "cands \<equiv> [make_kdf_candidate kdf pim]"
    and "r \<equiv> open_volume_file_with_kdf L fs path password keyfiles kdf pim"
  shows "(\<exists>layout off k c h. (layout, off) \<in> set (header_positions (length data))
        \<and> opens_at L data pw cands off k c h
        \<and> r = Ok (open_result c h (sub data off (off + 64)) k (hl_backup_offset layout = Some off)))
    \<or> ((\<forall>off \<in> snd ` set (header_positions (length data)). \<nexists>k c h. opens_at L data pw cands off k c h)
        \<and> r = Err (AuthFailed ''Password incorrect or volume corrupted''))"
proof (cases rule: try_positions_cases [OF assms(1) header_positions_read_size, of "length data" data pw cands])
  case (1 pre layout off post k c h)
  have "(layout, off) \<in> set (header_positions (length data))"
    by (simp add: 1(1))
  then show ?thesis
    using 1(3,4) unfolding r_def open_file_alt(1) [OF assms(2,3)] cands_def by blast
next
  case 2
  then show ?thesis
    unfolding r_def open_file_alt(1) [OF assms(2,3)] cands_def by auto
qed

theorem open_file_sound_complete_witness:
  "open_volume_file_with_kdf toy_lib (\<lambda>p. Inr []) ''v'' [1] [] Pbkdf2Sha256 0 =
   Err (AuthFailed ''Password incorrect or volume corrupted'')"
proof -
  have "mix_password toy_lib (\<lambda>p. Inr []) [1] [] = Ok [1]"
    by (simp add: mix_password_def)
  then show ?thesis
    using open_file_sound_complete [OF toy_lib_ok, of "\<lambda>p. Inr []" "''v''" "[]" "[1]" "[]" "[1]" Pbkdf2Sha256 0]
    by (auto simp: opens_at_def)
qed

end
