(* ===== verification/FileIO.thy ===== *)
theory FileIO
  imports Prelude
begin

text \<open>
  Files as the volume code uses them through \<open>Read\<close>, \<open>Write\<close> and \<open>Seek\<close>, and the
  state-and-error monad in which the code that works on a file is written.
  A file carries its contents, its cursor and a failure plan: the number of
  operations that succeed before one fails (\<open>None\<close>: all succeed) and how many
  bytes the failing write still puts on disk. An operation that fails leaves
  the file in the state the failure left it in, so that the theorems can speak
  about what is on disk after an error or a crash.
\<close>

section \<open>State with errors\<close>

type_synonym ('s, 'e, 'a) sm = "'s \<Rightarrow> ('e, 'a) res \<times> 's"

definition ret :: "'a \<Rightarrow> ('s, 'e, 'a) sm" where
  "ret x = (\<lambda>s. (Ok x, s))"

definition bindS :: "('s, 'e, 'a) sm \<Rightarrow> ('a \<Rightarrow> ('s, 'e, 'b) sm) \<Rightarrow> ('s, 'e, 'b) sm" where
  "bindS m f = (\<lambda>s. case m s of
      (Ok x, s') \<Rightarrow> f x s'
    | (Err e, s') \<Rightarrow> (Err e, s')
    | (Panic, s') \<Rightarrow> (Panic, s'))"

definition liftR :: "('e, 'a) res \<Rightarrow> ('s, 'e, 'a) sm" where
  "liftR r = (\<lambda>s. (r, s))"

definition map_errS :: "('e \<Rightarrow> 'f) \<Rightarrow> ('s, 'e, 'a) sm \<Rightarrow> ('s, 'f, 'a) sm" where
  "map_errS g m = (\<lambda>s. case m s of (r, s') \<Rightarrow> (map_err g r, s'))"

lemma sm_simps [simp]:
  "ret x s = (Ok x, s)" "liftR r s = (r, s)"
  "m s = (Ok x, s') \<Longrightarrow> bindS m f s = f x s'"
  "m s = (Err e, s') \<Longrightarrow> bindS m f s = (Err e, s')"
  "m s = (Panic, s') \<Longrightarrow> bindS m f s = (Panic, s')"
  "m s = (r, s') \<Longrightarrow> map_errS g m s = (map_err g r, s')"
  by (simp_all add: ret_def liftR_def bindS_def map_errS_def)

lemma bindS_OkE:
  assumes "bindS m f s = (Ok y, s'')"
  obtains x s' where "m s = (Ok x, s')" "f x s' = (Ok y, s'')"
  using assms by (auto simp: bindS_def split: prod.splits res.splits)

lemma map_errS_Ok_iff [simp]: "map_errS g m s = (Ok x, s') \<longleftrightarrow> m s = (Ok x, s')"
  by (auto simp: map_errS_def split: prod.splits)

lemma liftR_Ok_iff: "liftR r s = (Ok x, s') \<longleftrightarrow> r = Ok x \<and> s' = s"
  by (auto simp: liftR_def)

text \<open>The final state of a sequence is the state where it stopped.\<close>

lemma bindS_state:
  "snd (bindS m f s) = (case fst (m s) of Ok x \<Rightarrow> snd (f x (snd (m s))) | _ \<Rightarrow> snd (m s))"
  by (auto simp: bindS_def split: prod.splits res.splits)

lemma map_errS_state [simp]: "snd (map_errS g m s) = snd (m s)"
  by (auto simp: map_errS_def split: prod.splits)

section \<open>Files\<close>

record vfile =
  f_bytes :: bytes
  f_pos :: nat
  f_budget :: "nat option"
  f_short :: nat
  f_err :: string

text \<open>The contents after writing \<open>bs\<close> at \<open>pos\<close>: a gap beyond the end is filled with zeros.\<close>

definition write_at :: "bytes \<Rightarrow> nat \<Rightarrow> bytes \<Rightarrow> bytes" where
  "write_at data pos bs = (if bs = [] then data
     else take pos (data @ replicate (pos - length data) 0) @ bs @ drop (pos + length bs) data)"

definition io_guard :: "(vfile, string, unit) sm" where
  "io_guard f = (case f_budget f of
      None \<Rightarrow> (Ok (), f)
    | Some 0 \<Rightarrow> (Err (f_err f), f)
    | Some (Suc n) \<Rightarrow> (Ok (), f \<lparr> f_budget := Some n \<rparr>))"

definition seek_start :: "nat \<Rightarrow> (vfile, string, nat) sm" where
  "seek_start p = bindS io_guard (\<lambda>_ f. (Ok p, f \<lparr> f_pos := p \<rparr>))"

definition seek_end :: "(vfile, string, nat) sm" where
  "seek_end = bindS io_guard (\<lambda>_ f. (Ok (length (f_bytes f)), f \<lparr> f_pos := length (f_bytes f) \<rparr>))"

definition seek_current :: "(vfile, string, nat) sm" where
  "seek_current = bindS io_guard (\<lambda>_ f. (Ok (f_pos f), f))"

definition file_read_exact :: "nat \<Rightarrow> (vfile, string, bytes) sm" where
  "file_read_exact n = bindS io_guard (\<lambda>_ f.
     if f_pos f + n \<le> length (f_bytes f)
     then (Ok (sub (f_bytes f) (f_pos f) (f_pos f + n)), f \<lparr> f_pos := f_pos f + n \<rparr>)
     else (Err ''failed to fill whole buffer'', f \<lparr> f_pos := max (f_pos f) (length (f_bytes f)) \<rparr>))"

definition write_all :: "bytes \<Rightarrow> (vfile, string, unit) sm" where
  "write_all bs f = (case io_guard f of
      (Err e, f') \<Rightarrow> (Err e, f' \<lparr> f_bytes := write_at (f_bytes f') (f_pos f') (take (f_short f') bs),
                              f_pos := f_pos f' + length (take (f_short f') bs) \<rparr>)
    | (r, f') \<Rightarrow> (r, f' \<lparr> f_bytes := write_at (f_bytes f') (f_pos f') bs, f_pos := f_pos f' + length bs \<rparr>))"

definition flush :: "(vfile, string, unit) sm" where
  "flush = io_guard"

text \<open>A read of at most \<open>n\<close> bytes at the cursor; at the end of the file it returns nothing.\<close>

definition file_read :: "nat \<Rightarrow> (vfile, string, bytes) sm" where
  "file_read n = bindS io_guard (\<lambda>_ f.
     let b = sub (f_bytes f) (f_pos f) (f_pos f + n)
     in (Ok b, f \<lparr> f_pos := f_pos f + length b \<rparr>))"

section \<open>A file that never fails\<close>

definition reliable :: "vfile \<Rightarrow> bool" where
  "reliable f \<longleftrightarrow> f_budget f = None"

lemma reliable_ops:
  assumes "reliable f"
  shows "seek_start p f = (Ok p, f \<lparr> f_pos := p \<rparr>)"
    and "seek_end f = (Ok (length (f_bytes f)), f \<lparr> f_pos := length (f_bytes f) \<rparr>)"
    and "seek_current f = (Ok (f_pos f), f)"
    and "write_all bs f = (Ok (), f \<lparr> f_bytes := write_at (f_bytes f) (f_pos f) bs, f_pos := f_pos f + length bs \<rparr>)"
    and "flush f = (Ok (), f)"
    and "f_pos f + n \<le> length (f_bytes f) \<Longrightarrow>
      file_read_exact n f = (Ok (sub (f_bytes f) (f_pos f) (f_pos f + n)), f \<lparr> f_pos := f_pos f + n \<rparr>)"
  using assms
  by (simp_all add: reliable_def seek_start_def seek_end_def seek_current_def write_all_def flush_def
      file_read_exact_def bindS_def io_guard_def)

lemma reliable_update [simp]:
  "reliable (f \<lparr> f_pos := p \<rparr>) = reliable f" "reliable (f \<lparr> f_bytes := d \<rparr>) = reliable f"
  by (simp_all add: reliable_def)

lemma length_write_at [simp]:
  "pos + length bs \<le> length data \<Longrightarrow> length (write_at data pos bs) = length data"
  by (simp add: write_at_def)

lemma write_at_blit:
  "pos + length bs \<le> length data \<Longrightarrow> write_at data pos bs = blit data pos bs"
  by (auto simp: write_at_def blit_def)

lemma sub_write_at_same:
  "pos + length bs \<le> length data \<Longrightarrow> sub (write_at data pos bs) pos (pos + length bs) = bs"
  by (simp add: write_at_blit sub_blit_same)

lemma sub_write_at_other:
  assumes "b \<le> pos \<or> pos + length bs \<le> a" "pos + length bs \<le> length data"
  shows "sub (write_at data pos bs) a b = sub data a b"
  using assms by (auto simp: write_at_blit sub_blit_before sub_blit_after)

section \<open>What a failing operation may have changed\<close>

lemma io_guard_frame: "f_bytes (snd (io_guard f)) = f_bytes f" "f_pos (snd (io_guard f)) = f_pos f"
  "f_short (snd (io_guard f)) = f_short f"
  by (auto simp: io_guard_def split: option.splits nat.splits)

lemma io_guard_cases:
  obtains f' where "io_guard f = (Ok (), f')" "f_bytes f' = f_bytes f" "f_pos f' = f_pos f" "f_short f' = f_short f"
  | "io_guard f = (Err (f_err f), f)"
proof (cases "f_budget f")
  case None
  then show ?thesis
    using that(1) [of f] by (simp add: io_guard_def)
next
  case (Some n)
  then show ?thesis
    using that(1) [of "f \<lparr> f_budget := Some (n - 1) \<rparr>"] that(2) by (cases n) (simp_all add: io_guard_def)
qed

lemma seek_frame:
  "f_bytes (snd (seek_start p f)) = f_bytes f" "f_bytes (snd (seek_end f)) = f_bytes f"
  "f_bytes (snd (seek_current f)) = f_bytes f" "f_bytes (snd (flush f)) = f_bytes f"
  "f_bytes (snd (file_read_exact n f)) = f_bytes f"
  by (cases f rule: io_guard_cases;
      simp add: seek_start_def seek_end_def seek_current_def flush_def file_read_exact_def bindS_def)+

lemma write_all_frame:
  "\<exists>n. f_bytes (snd (write_all bs f)) = write_at (f_bytes f) (f_pos f) (take n bs)
    \<and> (fst (write_all bs f) = Ok () \<longrightarrow> length bs \<le> n)"
proof (cases f rule: io_guard_cases)
  case (1 f')
  then show ?thesis
    by (intro exI [of _ "length bs"]) (simp add: write_all_def)
next
  case 2
  then show ?thesis
    by (intro exI [of _ "f_short f"]) (simp add: write_all_def)
qed

lemma seek_start_Ok: "seek_start p f = (Ok q, f') \<Longrightarrow> q = p \<and> f_pos f' = p \<and> f_bytes f' = f_bytes f"
  by (cases f rule: io_guard_cases) (auto simp: seek_start_def bindS_def)

lemma seek_end_Ok: "seek_end f = (Ok q, f') \<Longrightarrow> q = length (f_bytes f) \<and> f_bytes f' = f_bytes f"
  by (cases f rule: io_guard_cases) (auto simp: seek_end_def bindS_def)

lemma write_all_Ok:
  "write_all bs f = (Ok u, f') \<Longrightarrow> f_bytes f' = write_at (f_bytes f) (f_pos f) bs \<and> f_pos f' = f_pos f + length bs"
  by (cases f rule: io_guard_cases) (auto simp: write_all_def)

lemma flush_Ok: "flush f = (Ok u, f') \<Longrightarrow> f_bytes f' = f_bytes f \<and> f_pos f' = f_pos f"
  by (cases f rule: io_guard_cases) (auto simp: flush_def)

section \<open>Weakest preconditions\<close>

text \<open>
  \<open>wpS m Q E s\<close>: running \<open>m\<close> from \<open>s\<close> either returns a value and a state that
  satisfy \<open>Q\<close>, or stops early, by an error or a panic, in a state that
  satisfies \<open>E\<close>. The rules follow the code backwards, so a claim about the disk
  after any failure is proved by one pass over the code.
\<close>

definition wpS :: "('s, 'e, 'a) sm \<Rightarrow> ('a \<Rightarrow> 's \<Rightarrow> bool) \<Rightarrow> ('s \<Rightarrow> bool) \<Rightarrow> 's \<Rightarrow> bool" where
  "wpS m Q E s = (case m s of (Ok x, s') \<Rightarrow> Q x s' | (Err e, s') \<Rightarrow> E s' | (Panic, s') \<Rightarrow> E s')"

named_theorems wp_rules \<open>backwards rules of the file operations\<close>

lemma wp_bindS [wp_rules]: "wpS m (\<lambda>x. wpS (f x) Q E) E s \<Longrightarrow> wpS (bindS m f) Q E s"
  by (auto simp: wpS_def bindS_def split: prod.splits res.splits)

lemma wp_map_errS [wp_rules]: "wpS m Q E s \<Longrightarrow> wpS (map_errS g m) Q E s"
  unfolding wpS_def map_errS_def by (cases "m s"; cases "fst (m s)") auto

lemma wp_ret [wp_rules]: "Q x s \<Longrightarrow> wpS (ret x) Q E s"
  by (simp add: wpS_def)

lemma wp_liftR [wp_rules]: "E s \<Longrightarrow> (\<And>x. r = Ok x \<Longrightarrow> Q x s) \<Longrightarrow> wpS (liftR r) Q E s"
  by (cases r) (simp_all add: wpS_def)

lemma wp_seek_start [wp_rules]:
  "E f \<Longrightarrow> (\<And>f'. f_bytes f' = f_bytes f \<Longrightarrow> f_pos f' = p \<Longrightarrow> Q p f') \<Longrightarrow> wpS (seek_start p) Q E f"
  by (cases f rule: io_guard_cases) (auto simp: wpS_def seek_start_def bindS_def)

lemma wp_seek_end [wp_rules]:
  "E f \<Longrightarrow> (\<And>f'. f_bytes f' = f_bytes f \<Longrightarrow> Q (length (f_bytes f)) f') \<Longrightarrow> wpS seek_end Q E f"
  by (cases f rule: io_guard_cases) (auto simp: wpS_def seek_end_def bindS_def)

lemma wp_flush [wp_rules]:
  "E f \<Longrightarrow> (\<And>f'. f_bytes f' = f_bytes f \<Longrightarrow> f_pos f' = f_pos f \<Longrightarrow> Q () f') \<Longrightarrow> wpS flush Q E f"
  by (cases f rule: io_guard_cases) (auto simp: wpS_def flush_def)

lemma wp_read_exact [wp_rules]:
  assumes "\<And>f'. f_bytes f' = f_bytes f \<Longrightarrow> E f'"
    "\<And>f'. f_bytes f' = f_bytes f \<Longrightarrow> f_pos f + n \<le> length (f_bytes f) \<Longrightarrow>
      Q (sub (f_bytes f) (f_pos f) (f_pos f + n)) f'"
  shows "wpS (file_read_exact n) Q E f"
  using assms by (cases f rule: io_guard_cases) (auto simp: wpS_def file_read_exact_def bindS_def)

lemma wp_write_all [wp_rules]:
  assumes "\<And>f' k. f_bytes f' = write_at (f_bytes f) (f_pos f) (take k bs) \<Longrightarrow> E f'"
    "\<And>f'. f_bytes f' = write_at (f_bytes f) (f_pos f) bs \<Longrightarrow> f_pos f' = f_pos f + length bs \<Longrightarrow> Q () f'"
  shows "wpS (write_all bs) Q E f"
  using assms by (cases f rule: io_guard_cases) (auto simp: wpS_def write_all_def)

end
