(* ===== verification/CreateVol.thy ===== *)
theory CreateVol
  imports OpenVol FileIO
begin

text \<open>
  Volume creation (\<open>vcrypt-volume/src/create.rs\<close>): normal volumes with their
  decoy hidden headers, and hidden volumes. The functions run in a world that
  holds the file, the random source and the messages given to the progress
  callback. Parameters the code ignores (\<open>_kdf_type\<close>, \<open>_memory_cost_kib\<close>) are left
  out; \<open>progress\<close> says whether a callback was passed.
\<close>

section \<open>The world of a creation\<close>

record world =
  w_file :: vfile
  w_rng :: rng
  w_log :: "string list"

definition fileS :: "(vfile, 'e, 'a) sm \<Rightarrow> (world, 'e, 'a) sm" where
  "fileS m = (\<lambda>w. case m (w_file w) of (r, f) \<Rightarrow> (r, w \<lparr> w_file := f \<rparr>))"

definition rngS :: "(rng \<Rightarrow> ('a \<times> rng) cres) \<Rightarrow> (world, CryptoError, 'a) sm" where
  "rngS m = (\<lambda>w. case m (w_rng w) of
      Ok (x, r) \<Rightarrow> (Ok x, w \<lparr> w_rng := r \<rparr>) | Err e \<Rightarrow> (Err e, w) | Panic \<Rightarrow> (Panic, w))"

definition report :: "bool \<Rightarrow> string \<Rightarrow> (world, 'e, unit) sm" where
  "report progress msg = (\<lambda>w. (Ok (), w \<lparr> w_log := w_log w @ (if progress then [msg] else []) \<rparr>))"

definition crypto_err :: "string \<Rightarrow> CryptoError \<Rightarrow> VolumeError" where
  "crypto_err label e = VolCryptoError (label @ '': '' @ display_crypto_error e)"

definition format_err :: "string \<Rightarrow> FormatError \<Rightarrow> VolumeError" where
  "format_err label e = VolFormatError (label @ '': '' @ display_format_error e)"

definition write_err :: "string \<Rightarrow> string \<Rightarrow> VolumeError" where
  "write_err label e = WriteError 0 (label @ '': '' @ e)"

section \<open>Shared steps\<close>

text \<open>
  The header bytes of the code: the serialized header in a 64 KiB buffer whose
  first 512 bytes are then encrypted in place.
\<close>

definition header_bytes :: "crypto_lib \<Rightarrow> VolumeHeader \<Rightarrow> string \<Rightarrow> bytes vres" where
  "header_bytes L h label = map_err (format_err label) (serialize_header_full L h)"

definition encrypt_header_bytes :: "crypto_lib \<Rightarrow> bytes \<Rightarrow> bytes \<Rightarrow> CipherType \<Rightarrow> string \<Rightarrow> bytes vres" where
  "encrypt_header_bytes L hdr key cipher label =
     bind_res (slice hdr 0 VOLUME_HEADER_EFFECTIVE_SIZE) (\<lambda>eff.
     bind_res (map_err (format_err label) (encrypt_header_area L eff key cipher)) (\<lambda>eff.
     Ok (blit hdr 0 eff)))"

text \<open>\<open>vec![0; 256]\<close> with the key copied to its start.\<close>

definition master_area :: "bytes \<Rightarrow> bytes vres" where
  "master_area key = (if length key \<le> MASTER_KEYDATA_SIZE
     then Ok (blit (replicate MASTER_KEYDATA_SIZE 0) 0 key) else Panic)"

section \<open>Decoy headers\<close>

definition write_decoy_header :: "crypto_lib \<Rightarrow> CipherType \<Rightarrow> bool \<Rightarrow> (world, VolumeError, unit) sm" where
  "write_decoy_header L cipher progress =
     bindS (report progress ''Writing anti-forensic decoy headers...'') (\<lambda>_.
     bindS (map_errS (crypto_err ''decoy salt'') (rngS random_salt)) (\<lambda>decoy_salt.
     let key_bytes = ct_key_size cipher * 2 in
     bindS (map_errS (crypto_err ''decoy key'') (rngS (random_bytes key_bytes))) (\<lambda>decoy_key.
     bindS (liftR (master_area decoy_key)) (\<lambda>area.
     let decoy = header_new \<lparr> vh_salt := decoy_salt, vh_hidden_volume_size := 0xDEADBEEFDEADBEEF,
                              vh_master_keydata := area \<rparr> in
     bindS (liftR (header_bytes L decoy ''decoy ser'')) (\<lambda>decoy_bytes.
     bindS (map_errS (crypto_err ''decoy hdr key'') (rngS (random_bytes (ct_key_size cipher * 2)))) (\<lambda>decoy_header_key.
     bindS (liftR (encrypt_header_bytes L decoy_bytes decoy_header_key cipher ''decoy enc'')) (\<lambda>decoy_bytes.
     bindS (map_errS (write_err ''decoy seek'') (fileS (seek_start VOLUME_HEADER_SIZE))) (\<lambda>_.
     bindS (map_errS (write_err ''decoy write'') (fileS (write_all decoy_bytes))) (\<lambda>_.
     bindS (map_errS (write_err ''decoy seek'') (fileS seek_end)) (\<lambda>file_end.
     let decoy_backup = file_end - VOLUME_HEADER_SIZE in
     bindS (map_errS (write_err ''decoy seek'') (fileS (seek_start decoy_backup))) (\<lambda>_.
     bindS (map_errS (write_err ''decoy write'') (fileS (write_all decoy_bytes))) (\<lambda>_.
     ret ()))))))))))))"

section \<open>Normal volumes\<close>

definition create_volume_full ::
  "crypto_lib \<Rightarrow> u64 \<Rightarrow> bytes \<Rightarrow> CipherType \<Rightarrow> KeyDerivation \<Rightarrow> u32 \<Rightarrow> bool \<Rightarrow> (world, VolumeError, unit) sm" where
  "create_volume_full L volume_size password cipher kdf iterations progress =
     bindS (report progress ''Generating salt...'') (\<lambda>_.
     bindS (map_errS (crypto_err ''salt'') (rngS random_salt)) (\<lambda>salt.
     let key_bytes = ct_key_size cipher * 2 in
     bindS (report progress ''Generating master key...'') (\<lambda>_.
     bindS (map_errS (crypto_err ''key'') (rngS (random_bytes key_bytes))) (\<lambda>master_key.
     bindS (liftR (master_area master_key)) (\<lambda>area.
     let header = header_new \<lparr> vh_salt := salt, vh_volume_size := volume_size,
                    vh_encrypted_area_start := of_nat (VOLUME_HEADER_SIZE * 4),
                    vh_encrypted_area_length := volume_size, vh_master_keydata := area \<rparr> in
     bindS (liftR (header_bytes L header ''ser'')) (\<lambda>hdr_bytes.
     bindS (report progress (''Deriving header key ('' @ show_nat (unat iterations) @ '' iterations)...'')) (\<lambda>_.
     bindS (liftR (map_err (crypto_err ''KDF'')
       (derive L kdf password salt iterations (replicate MAX_HEADER_KEY_SIZE 0)))) (\<lambda>max_key.
     bindS (liftR (slice max_key 0 (ct_key_size cipher * 2))) (\<lambda>header_key.
     bindS (report progress ''Encrypting header...'') (\<lambda>_.
     bindS (liftR (encrypt_header_bytes L hdr_bytes header_key cipher ''enc'')) (\<lambda>hdr_bytes.
     bindS (report progress ''Writing primary header...'') (\<lambda>_.
     bindS (map_errS (write_err ''write'') (fileS (write_all hdr_bytes))) (\<lambda>_.
     bindS (report progress ''Writing backup header...'') (\<lambda>_.
     bindS (map_errS (write_err ''seek'') (fileS seek_end)) (\<lambda>pos.
     let backup_offset = pos - 2 * VOLUME_HEADER_SIZE in
     bindS (map_errS (write_err ''seek'') (fileS (seek_start backup_offset))) (\<lambda>_.
     bindS (map_errS (write_err ''write'') (fileS (write_all hdr_bytes))) (\<lambda>_.
     bindS (report progress ''Volume created successfully.'') (\<lambda>_.
     write_decoy_header L cipher progress))))))))))))))))))"

definition create_volume ::
  "crypto_lib \<Rightarrow> u64 \<Rightarrow> bytes \<Rightarrow> KeyDerivation \<Rightarrow> u32 \<Rightarrow> (world, VolumeError, unit) sm" where
  "create_volume L volume_size password kdf iterations =
     create_volume_full L volume_size password Aes kdf iterations False"

section \<open>Hidden volumes\<close>

text \<open>Sizes and offsets are \<open>u64\<close> here, with the wrap-around of a release build.\<close>

definition create_hidden_volume ::
  "crypto_lib \<Rightarrow> u64 \<Rightarrow> bytes \<Rightarrow> CipherType \<Rightarrow> KeyDerivation \<Rightarrow> u32 \<Rightarrow> bool \<Rightarrow> (world, VolumeError, unit) sm" where
  "create_hidden_volume L hidden_size password cipher kdf iterations progress =
     bindS (map_errS (write_err ''seek'') (fileS seek_end)) (\<lambda>end_pos.
     let file_end = of_nat end_pos :: u64;
         header_area = of_nat (2 * VOLUME_HEADER_SIZE) :: u64 in
     if file_end < header_area + hidden_size then
       liftR (Err (InvalidFormat (''File too small: need at least '' @
         show_nat (unat (header_area + hidden_size)) @ '' bytes for '' @ show_nat (unat hidden_size) @
         '' byte hidden volume'')))
     else
     bindS (report progress ''Generating salt...'') (\<lambda>_.
     bindS (map_errS (crypto_err ''salt'') (rngS random_salt)) (\<lambda>salt.
     let key_bytes = ct_key_size cipher * 2 in
     bindS (report progress ''Generating master key...'') (\<lambda>_.
     bindS (map_errS (crypto_err ''key'') (rngS (random_bytes key_bytes))) (\<lambda>master_key.
     let data_start = file_end - header_area - hidden_size in
     bindS (liftR (master_area master_key)) (\<lambda>area.
     let header = header_new \<lparr> vh_salt := salt, vh_volume_size := hidden_size,
                    vh_hidden_volume_size := hidden_size, vh_encrypted_area_start := data_start,
                    vh_encrypted_area_length := hidden_size, vh_master_keydata := area \<rparr> in
     bindS (liftR (header_bytes L header ''ser'')) (\<lambda>hdr_bytes.
     bindS (report progress (''Deriving header key ('' @ show_nat (unat iterations) @ '' iterations)...'')) (\<lambda>_.
     bindS (liftR (map_err (crypto_err ''KDF'')
       (derive L kdf password salt iterations (replicate MAX_HEADER_KEY_SIZE 0)))) (\<lambda>max_key.
     bindS (liftR (slice max_key 0 (ct_key_size cipher * 2))) (\<lambda>header_key.
     bindS (report progress ''Encrypting header...'') (\<lambda>_.
     bindS (liftR (encrypt_header_bytes L hdr_bytes header_key cipher ''enc'')) (\<lambda>hdr_bytes.
     bindS (report progress ''Writing hidden header...'') (\<lambda>_.
     bindS (map_errS (write_err ''write'') (fileS (seek_start VOLUME_HEADER_SIZE))) (\<lambda>_.
     bindS (map_errS (write_err ''write'') (fileS (write_all hdr_bytes))) (\<lambda>_.
     bindS (report progress ''Writing backup hidden header...'') (\<lambda>_.
     let backup_offset = file_end - of_nat VOLUME_HEADER_SIZE in
     bindS (map_errS (write_err ''write'') (fileS (seek_start (unat backup_offset)))) (\<lambda>_.
     bindS (map_errS (write_err ''write'') (fileS (write_all hdr_bytes))) (\<lambda>_.
     report progress ''Hidden volume created successfully.''))))))))))))))))))"

section \<open>Encrypted header bytes open again\<close>

lemma encrypted_header_opens:
  assumes "lib_ok L" "header_ok h" "length key = 2 * ct_key_size ct"
  shows "\<exists>hdr. bind_res (header_bytes L h l1) (\<lambda>b. encrypt_header_bytes L b key ct l2) = Ok hdr
    \<and> length hdr = 65536 \<and> take 64 hdr = vh_salt h \<and> header_opens L (hdr @ rest) ct key (stored_form L h)"
proof -
  obtain buf where b: "serialize_header L h = Ok buf"
    by (simp add: serialize_layout)
  note ds = deserialize_serialize [OF assms(2) b]
  have full: "serialize_header_full L h = Ok (buf @ replicate 65024 0)"
    using ds(1) b by (simp add: serialize_header_full_def header_consts blit_def)
  obtain e where e: "header_area L buf key ct True = Ok e"
    using header_area_Ok [OF assms(1,3)] ds(1) by simp
  have big: "512 \<le> length buf"
    using ds(1) by simp
  note hs = header_area_sub [OF assms(1,3) big e]
  have le: "length e = 512"
    using hs(1) ds(1) by simp
  have dec: "decrypt_header_area L e key ct = Ok buf"
    using header_area_inverse [OF assms(1,3) big e] by (simp add: decrypt_header_area_def)
  have salt: "take 64 buf = vh_salt h"
    using b assms(2) by (auto simp: serialize_layout header_ok_def)
  have "bind_res (header_bytes L h l1) (\<lambda>b. encrypt_header_bytes L b key ct l2) = Ok (e @ replicate 65024 0)"
    using full e ds(1) le
    by (simp add: header_bytes_def encrypt_header_bytes_def encrypt_header_area_def header_consts blit_def sub_def)
  moreover have "take 64 (e @ replicate 65024 0) = vh_salt h"
    using hs(2) salt le by simp
  moreover have "header_opens L ((e @ replicate 65024 0) @ rest) ct key (stored_form L h)"
    using dec le ds(2) [of "[]"] by (auto simp: header_opens_def)
  ultimately show ?thesis
    using le by auto
qed

section \<open>Creation on a file that does not fail\<close>

lemma random_Ok:
  "rng_bytes r = s @ rest \<Longrightarrow> length s = n \<Longrightarrow> fill_random n r = Ok (s, r \<lparr> rng_bytes := rest \<rparr>)"
  by (simp add: fill_random_def)

lemma master_area_Ok: "length key \<le> 256 \<Longrightarrow> master_area key = Ok (key @ replicate (256 - length key) 0)"
  by (simp add: master_area_def header_consts blit_def)

lemmas run_simps = bindS_def map_errS_def fileS_def rngS_def report_def ret_def liftR_def
  random_salt_def random_bytes_def Let_def

lemma header_bytes_run:
  assumes "bind_res (header_bytes L h l1) (\<lambda>b. encrypt_header_bytes L b key ct l2) = Ok hdr"
  obtains b where "header_bytes L h l1 = Ok b" "encrypt_header_bytes L b key ct l2 = Ok hdr"
  using assms by auto

lemma decoy_run:
  assumes "lib_ok L" "reliable (w_file w)" "131072 \<le> length (f_bytes (w_file w))"
    "rng_bytes (w_rng w) = s @ k @ hk @ rest" "length s = 64"
    "length k = 2 * ct_key_size ct" "length hk = 2 * ct_key_size ct"
  shows "\<exists>d w'. write_decoy_header L ct progress w = (Ok (), w') \<and> length d = 65536
    \<and> f_bytes (w_file w') = write_at (write_at (f_bytes (w_file w)) 65536 d) (length (f_bytes (w_file w)) - 65536) d
    \<and> rng_bytes (w_rng w') = rest"
proof -
  let ?h = "header_new \<lparr> vh_salt := s, vh_hidden_volume_size := 0xDEADBEEFDEADBEEF,
    vh_master_keydata := k @ replicate (256 - length k) 0 \<rparr>"
  have "header_ok ?h"
    using assms(5) by (simp add: header_ok_def header_new_def sector_size_ok_def)
  then obtain d where d: "bind_res (header_bytes L ?h ''decoy ser'') (\<lambda>b. encrypt_header_bytes L b hk ct ''decoy enc'') = Ok d"
    "length d = 65536"
    using encrypted_header_opens [OF assms(1) _ assms(7)] by metis
  obtain b where b: "header_bytes L ?h ''decoy ser'' = Ok b" "encrypt_header_bytes L b hk ct ''decoy enc'' = Ok d"
    using header_bytes_run [OF d(1)] .
  have k: "length k \<le> 256"
    using assms(6) ct_key_size_le [of ct] by simp
  have kk: "length k = ct_key_size ct * 2" "length hk = ct_key_size ct * 2"
    using assms(6,7) by simp_all
  show ?thesis
    using assms(2-5) k kk b d(2)
    by (intro exI [of _ d])
      (simp add: write_decoy_header_def run_simps random_Ok master_area_Ok reliable_ops VOLUME_HEADER_SIZE_def)
qed

text \<open>The header \<open>create_volume_full\<close> stores, for the salt and master key it drew.\<close>

definition created_header :: "u64 \<Rightarrow> bytes \<Rightarrow> bytes \<Rightarrow> VolumeHeader" where
  "created_header volume_size salt master_key =
     header_new \<lparr> vh_salt := salt, vh_volume_size := volume_size, vh_encrypted_area_start := 262144,
       vh_encrypted_area_length := volume_size,
       vh_master_keydata := master_key @ replicate (256 - length master_key) 0 \<rparr>"

lemma created_header_ok: "length salt = 64 \<Longrightarrow> header_ok (created_header volume_size salt master_key)"
  by (simp add: created_header_def header_ok_def header_new_def sector_size_ok_def)

definition rng_for_creation :: "CipherType \<Rightarrow> rng \<Rightarrow> bytes \<Rightarrow> bytes \<Rightarrow> bool" where
  "rng_for_creation ct r salt key \<longleftrightarrow>
     length salt = 64 \<and> length key = 2 * ct_key_size ct \<and>
     take 64 (rng_bytes r) = salt \<and> sub (rng_bytes r) 64 (64 + 2 * ct_key_size ct) = key \<and>
     128 + 6 * ct_key_size ct \<le> length (rng_bytes r)"

lemma rng_split:
  assumes "rng_for_creation ct r salt key"
  obtains s2 k2 k3 rest where "rng_bytes r = salt @ key @ s2 @ k2 @ k3 @ rest" "length s2 = 64"
    "length k2 = 2 * ct_key_size ct" "length k3 = 2 * ct_key_size ct"
proof -
  let ?n = "2 * ct_key_size ct" and ?b = "rng_bytes r"
  have d: "drop m ?b = take l (drop m ?b) @ drop (m + l) ?b" for m l
    by (metis append_take_drop_id drop_drop add.commute)
  have p: "?b = take 64 ?b @ take ?n (drop 64 ?b) @ take 64 (drop (64 + ?n) ?b) @
      take ?n (drop (128 + ?n) ?b) @ take ?n (drop (128 + ?n + ?n) ?b) @ drop (128 + ?n + ?n + ?n) ?b"
    using d [of 0 64] d [of 64 ?n] d [of "64 + ?n" 64] d [of "128 + ?n" ?n] d [of "128 + ?n + ?n" ?n]
    by (simp add: add.commute add.left_commute)
  show ?thesis
    by (rule that [of "take 64 (drop (64 + ?n) ?b)" "take ?n (drop (128 + ?n) ?b)"
          "take ?n (drop (128 + ?n + ?n) ?b)" "drop (128 + ?n + ?n + ?n) ?b"])
      (use p assms in \<open>auto simp: rng_for_creation_def sub_def\<close>)
qed

lemma create_run:
  assumes "lib_ok L" "reliable (w_file w)" "f_pos (w_file w) = 0" "262144 \<le> length (f_bytes (w_file w))"
    "rng_for_creation ct (w_rng w) salt key"
    "derive L kdf password salt iterations (replicate 192 0) = Ok max_key"
  defines "n \<equiv> length (f_bytes (w_file w))"
    and "hk \<equiv> take (2 * ct_key_size ct) max_key"
  shows "\<exists>hdr d w'. create_volume_full L volume_size password ct kdf iterations progress w = (Ok (), w')
    \<and> length hdr = 65536 \<and> length d = 65536 \<and> take 64 hdr = salt
    \<and> (\<forall>rest. header_opens L (hdr @ rest) ct hk (stored_form L (created_header volume_size salt key)))
    \<and> f_bytes (w_file w') = write_at (write_at (write_at (write_at (f_bytes (w_file w)) 0 hdr) (n - 131072) hdr) 65536 d) (n - 65536) d"
proof -
  obtain s2 k2 k3 rest where r: "rng_bytes (w_rng w) = salt @ key @ s2 @ k2 @ k3 @ rest" "length s2 = 64"
    "length k2 = 2 * ct_key_size ct" "length k3 = 2 * ct_key_size ct"
    using rng_split [OF assms(5)] .
  have sk: "length salt = 64" "length key = ct_key_size ct * 2"
    using assms(5) by (auto simp: rng_for_creation_def)
  have k: "length key \<le> 256"
    using sk ct_key_size_le [of ct] by simp
  have lm: "length max_key = 192"
    using derive_length [OF assms(1,6)] by simp
  have hk: "length hk = 2 * ct_key_size ct"
    using lm ct_key_size_le [of ct] by (simp add: hk_def)
  let ?h = "created_header volume_size salt key"
  obtain hdr where h: "bind_res (header_bytes L ?h ''ser'') (\<lambda>b. encrypt_header_bytes L b hk ct ''enc'') = Ok hdr"
    and hl: "length hdr = 65536" "take 64 hdr = salt"
    and ho: "\<forall>rest. header_opens L (hdr @ rest) ct hk (stored_form L ?h)"
  proof -
    note e = encrypted_header_opens [OF assms(1) created_header_ok [OF sk(1), of volume_size key] hk]
    obtain hdr where "bind_res (header_bytes L ?h ''ser'') (\<lambda>b. encrypt_header_bytes L b hk ct ''enc'') = Ok hdr"
      using e by blast
    then show ?thesis
      using that [of hdr] e [of "''ser''" "''enc''"] by (fastforce simp: created_header_def)
  qed
  obtain b where b: "header_bytes L ?h ''ser'' = Ok b" "encrypt_header_bytes L b hk ct ''enc'' = Ok hdr"
    using header_bytes_run [OF h] .
  have nn: "length (write_at (f_bytes (w_file w)) 0 hdr) = n"
    using assms(4) hl(1) by (simp add: n_def)
  have sl: "slice max_key 0 (ct_key_size ct * 2) = (Ok hk :: bytes vres)"
    using lm ct_key_size_le [of ct] by (simp add: sub_def hk_def mult.commute)
  let ?f1 = "(w_file w) \<lparr> f_bytes := write_at (write_at (f_bytes (w_file w)) 0 hdr) (n - 131072) hdr,
      f_pos := n - 131072 + 65536 \<rparr>"
  obtain w1 where w1: "create_volume_full L volume_size password ct kdf iterations progress w =
      write_decoy_header L ct progress w1" "w_file w1 = ?f1" "rng_bytes (w_rng w1) = s2 @ k2 @ k3 @ rest"
  proof (rule that)
    show "create_volume_full L volume_size password ct kdf iterations progress w = write_decoy_header L ct progress
      (w \<lparr> w_rng := (w_rng w) \<lparr> rng_bytes := s2 @ k2 @ k3 @ rest \<rparr>, w_file := ?f1,
         w_log := foldl (\<lambda>l m. l @ (if progress then [m] else [])) (w_log w)
           [''Generating salt...'', ''Generating master key...'',
            ''Deriving header key ('' @ show_nat (unat iterations) @ '' iterations)...'', ''Encrypting header...'',
            ''Writing primary header...'', ''Writing backup header...'', ''Volume created successfully.''] \<rparr>)"
      using assms(2,3,6) r(1) sk k b hl(1) nn sl
      by (simp add: create_volume_full_def run_simps random_Ok master_area_Ok reliable_ops VOLUME_HEADER_SIZE_def
          MAX_HEADER_KEY_SIZE_def created_header_def split del: if_split)
  qed simp_all
  have l1: "length (f_bytes (w_file w1)) = n"
    using nn hl(1) assms(4) w1(2) by (simp add: n_def)
  have "\<exists>d w'. write_decoy_header L ct progress w1 = (Ok (), w') \<and> length d = 65536
    \<and> f_bytes (w_file w') = write_at (write_at (f_bytes (w_file w1)) 65536 d) (length (f_bytes (w_file w1)) - 65536) d
    \<and> rng_bytes (w_rng w') = rest"
    by (rule decoy_run [OF assms(1), of w1 s2 k2 k3]) (use assms(2,4) r l1 n_def w1 in simp_all)
  then obtain d w' where "write_decoy_header L ct progress w1 = (Ok (), w')" "length d = 65536"
    "f_bytes (w_file w') = write_at (write_at (f_bytes (w_file w1)) 65536 d) (length (f_bytes (w_file w1)) - 65536) d"
    by blast
  then show ?thesis
    unfolding w1(1) l1 using hl ho w1(2) by (intro exI [of _ hdr] exI [of _ d] exI [of _ w']) simp
qed

text \<open>The header \<open>create_hidden_volume\<close> stores.\<close>

definition hidden_header :: "u64 \<Rightarrow> u64 \<Rightarrow> bytes \<Rightarrow> bytes \<Rightarrow> VolumeHeader" where
  "hidden_header hidden_size data_start salt master_key =
     header_new \<lparr> vh_salt := salt, vh_volume_size := hidden_size, vh_hidden_volume_size := hidden_size,
       vh_encrypted_area_start := data_start, vh_encrypted_area_length := hidden_size,
       vh_master_keydata := master_key @ replicate (256 - length master_key) 0 \<rparr>"

lemma hidden_run:
  assumes "lib_ok L" "reliable (w_file w)" "131072 + unat hidden_size \<le> length (f_bytes (w_file w))"
    "length (f_bytes (w_file w)) < 2 ^ 64"
    "rng_bytes (w_rng w) = salt @ key @ rest" "length salt = 64" "length key = 2 * ct_key_size ct"
    "derive L kdf password salt iterations (replicate 192 0) = Ok max_key"
  defines "n \<equiv> length (f_bytes (w_file w))"
    and "hk \<equiv> take (2 * ct_key_size ct) max_key"
  shows "\<exists>hdr w'. create_hidden_volume L hidden_size password ct kdf iterations progress w = (Ok (), w')
    \<and> length hdr = 65536 \<and> take 64 hdr = salt
    \<and> header_opens L (hdr @ []) ct hk (stored_form L (hidden_header hidden_size (of_nat (n - 131072 - unat hidden_size)) salt key))
    \<and> f_bytes (w_file w') = write_at (write_at (f_bytes (w_file w)) 65536 hdr) (n - 65536) hdr"
proof -
  have kl: "length key = ct_key_size ct * 2" "length key \<le> 256"
    using assms(7) ct_key_size_le [of ct] by simp_all
  have lm: "length max_key = 192"
    using derive_length [OF assms(1,8)] by simp
  have hk: "length hk = 2 * ct_key_size ct"
    using lm ct_key_size_le [of ct] by (simp add: hk_def)
  have sl: "slice max_key 0 (ct_key_size ct * 2) = (Ok hk :: bytes vres)"
    using lm ct_key_size_le [of ct] by (simp add: sub_def hk_def mult.commute)
  have nw: "(of_nat n :: u64) - 131072 - hidden_size = of_nat (n - 131072 - unat hidden_size)"
    using assms(3) unfolding n_def by (simp add: of_nat_diff)
  have un: "unat (of_nat n - 65536 :: u64) = n - 65536"
  proof -
    have "(of_nat n - 65536 :: u64) = of_nat (n - 65536)"
      using assms(3) unfolding n_def by (simp add: of_nat_diff)
    then show ?thesis
      using assms(4) by (simp add: n_def unat_of_nat)
  qed
  have big: "\<not> (of_nat n :: u64) < 131072 + hidden_size"
  proof -
    have "unat (131072 + hidden_size) = 131072 + unat hidden_size"
      using unat_plus64 [of 131072 hidden_size] assms(3,4) by simp
    then show ?thesis
      using assms(3,4) by (simp add: n_def word_less_nat_alt unat_of_nat64)
  qed
  let ?h = "hidden_header hidden_size (of_nat n - 131072 - hidden_size) salt key"
  have "header_ok ?h"
    using assms(6) by (simp add: hidden_header_def header_ok_def header_new_def sector_size_ok_def)
  from encrypted_header_opens [OF assms(1) this hk, of "''ser''" "''enc''" "[]"]
  obtain hdr where h: "bind_res (header_bytes L ?h ''ser'') (\<lambda>b. encrypt_header_bytes L b hk ct ''enc'') = Ok hdr"
    and hl: "length hdr = 65536" "take 64 hdr = vh_salt ?h" and ho: "header_opens L (hdr @ []) ct hk (stored_form L ?h)"
    by blast
  obtain b where b: "header_bytes L ?h ''ser'' = Ok b" "encrypt_header_bytes L b hk ct ''enc'' = Ok hdr"
    using header_bytes_run [OF h] .
  have "\<exists>w'. create_hidden_volume L hidden_size password ct kdf iterations progress w = (Ok (), w')
    \<and> f_bytes (w_file w') = write_at (write_at (f_bytes (w_file w)) 65536 hdr) (n - 65536) hdr"
    using assms(2,5,6,8) kl b hl(1) sl big un [unfolded n_def]
    by (simp add: create_hidden_volume_def run_simps random_Ok master_area_Ok reliable_ops VOLUME_HEADER_SIZE_def
        MAX_HEADER_KEY_SIZE_def hidden_header_def n_def split del: if_split)
  then show ?thesis
    using hl ho nw by (auto simp: hidden_header_def)
qed

section \<open>What is on disk after a creation\<close>

lemma four_slots:
  assumes "length hdr = 65536" "length d = 65536" "262144 \<le> n" "length data = n"
  defines "data' \<equiv> write_at (write_at (write_at (write_at data 0 hdr) (n - 131072) hdr) 65536 d) (n - 65536) d"
  shows "length data' = n" "sub data' 0 65536 = hdr" "sub data' (n - 131072) (n - 65536) = hdr"
    "sub data' 65536 131072 = d" "sub data' (n - 65536) n = d"
    "sub data' 131072 (n - 131072) = sub data 131072 (n - 131072)"
proof -
  have h: "sub (write_at x p hdr) p (p + 65536) = hdr" "sub (write_at x p d) p (p + 65536) = d"
    if "p + 65536 \<le> length x" for x p
    using sub_write_at_same [of p hdr x] sub_write_at_same [of p d x] that assms(1,2) by simp_all
  have e: "n - 131072 + 65536 = n - 65536" "n - 65536 + 65536 = n" "131072 \<le> n - 131072"
    using assms(3) by simp_all
  show "length data' = n"
    using assms by simp
  show "sub data' 0 65536 = hdr" "sub data' 65536 131072 = d"
    "sub data' 131072 (n - 131072) = sub data 131072 (n - 131072)"
    unfolding data'_def using assms(1-4) h(1) [of 0] h(2) [of 65536] by (simp_all add: sub_write_at_other)
  show "sub data' (n - 131072) (n - 65536) = hdr"
    unfolding data'_def using assms(1-4) e h(1) [of "n - 131072"] by (simp add: sub_write_at_other)
  show "sub data' (n - 65536) n = d"
    unfolding data'_def using assms(1-4) e h(2) [of "n - 65536"] by simp
qed

lemma kdf_opens_stored:
  assumes "derive L (kc_implementation kc) pw (take 64 hdr) (kc_iterations kc) (replicate 192 0) = Ok max_key"
    "header_opens L (hdr @ []) ct (take (2 * ct_key_size ct) max_key) h"
    "take 512 header = take 512 hdr"
  shows "kdf_opens L header pw kc ct h"
proof -
  have "kdf_opens L hdr pw kc ct h"
    using assms(1,2) by (auto simp: kdf_opens_def derived_key_def MAX_HEADER_KEY_SIZE_def mult.commute)
  then show ?thesis
    using kdf_opens_take [OF assms(3)] by simp
qed

lemma take_512_slot: "sub data a (a + 65536) = hdr \<Longrightarrow> take 512 (drop a data) = take 512 hdr"
  by (auto simp: sub_def)

lemma create_opens:
  assumes "lib_ok L" "reliable (w_file w)" "f_pos (w_file w) = 0" "262144 \<le> length (f_bytes (w_file w))"
    "rng_for_creation ct (w_rng w) salt key"
    "derive L (kc_implementation kc) password salt (kc_iterations kc) (replicate 192 0) = Ok max_key"
  defines "n \<equiv> length (f_bytes (w_file w))"
  obtains w' where
    "create_volume_full L volume_size password ct (kc_implementation kc) (kc_iterations kc) progress w = (Ok (), w')"
    "length (f_bytes (w_file w')) = n"
    "sub (f_bytes (w_file w')) 131072 (n - 131072) = sub (f_bytes (w_file w)) 131072 (n - 131072)"
    "\<And>off. off \<in> {0, n - 131072} \<Longrightarrow>
      sub (f_bytes (w_file w')) off (off + 64) = salt \<and>
      opens_at L (f_bytes (w_file w')) password [kc] off kc ct (stored_form L (created_header volume_size salt key))"
proof -
  obtain hdr d w' where w': "create_volume_full L volume_size password ct (kc_implementation kc) (kc_iterations kc) progress w = (Ok (), w')"
    and l: "length hdr = 65536" "length d = 65536" and salt: "take 64 hdr = salt"
    and ho: "\<forall>rest. header_opens L (hdr @ rest) ct (take (2 * ct_key_size ct) max_key) (stored_form L (created_header volume_size salt key))"
    and fb: "f_bytes (w_file w') = write_at (write_at (write_at (write_at (f_bytes (w_file w)) 0 hdr) (n - 131072) hdr) 65536 d) (n - 65536) d"
    using create_run [OF assms(1-6)] unfolding n_def by blast
  note s = four_slots [OF l assms(4) refl, folded n_def fb [unfolded n_def]]
  have slot: "sub (f_bytes (w_file w')) off (off + 65536) = hdr" if "off \<in> {0, n - 131072}" for off
    using that s(2,3) assms(4) by (auto simp: n_def)
  have t: "take 512 (drop off (f_bytes (w_file w'))) = take 512 hdr" if "off \<in> {0, n - 131072}" for off
    using take_512_slot [OF slot [OF that]] .
  have t64: "sub (f_bytes (w_file w')) off (off + 64) = salt" if "off \<in> {0, n - 131072}" for off
    using arg_cong [OF t [OF that], of "take 64"] salt by (simp add: sub_def)
  have k: "kdf_opens L (drop off (f_bytes (w_file w'))) password kc ct (stored_form L (created_header volume_size salt key))"
    if "off \<in> {0, n - 131072}" for off
    using kdf_opens_stored [OF _ ho [rule_format, of "[]"] t [OF that]] assms(6) salt by simp
  show ?thesis
    by (rule that [OF w']) (use s(1,6) k t64 assms(4) in \<open>auto simp: opens_at_def n_def\<close>)
qed

text \<open>\<open>no_earlier_cipher\<close>: no cipher tried before \<open>ct\<close> makes sense of the header.\<close>

definition no_earlier_cipher :: "crypto_lib \<Rightarrow> bytes \<Rightarrow> bytes \<Rightarrow> KdfCandidate \<Rightarrow> CipherType \<Rightarrow> bool" where
  "no_earlier_cipher L header pw kc ct \<longleftrightarrow>
     (\<forall>c \<in> set (takeWhile (\<lambda>x. x \<noteq> ct) all_supported). \<nexists>h. kdf_opens L header pw kc c h)"

text \<open>\<open>is_new_volume r\<close>: the opened volume is the one the creation drew the key and the salt for.\<close>

definition is_new_volume :: "CipherType \<Rightarrow> bytes \<Rightarrow> bytes \<Rightarrow> u64 \<Rightarrow> OpenResult \<Rightarrow> bool" where
  "is_new_volume ct salt key volume_size r \<longleftrightarrow>
     or_header_cipher r = ct \<and> or_data_cipher r = ct \<and> or_master_key r = key \<and> or_salt r = salt \<and>
     or_data_offset r = 262144 \<and> or_data_length r = volume_size \<and> or_volume_type r = NormalVolume"

lemma created_result:
  assumes "length key = 2 * ct_key_size ct"
  shows "is_new_volume ct salt key volume_size
    (open_result ct (stored_form L (created_header volume_size salt key)) salt kc b)"
proof -
  have "length key \<le> 256"
    using assms ct_key_size_le [of ct] by simp
  then show ?thesis
    using assms
    by (simp add: is_new_volume_def open_result_def stored_form_def created_header_def header_new_def key_area_def
        resize_def header_consts mult.commute word_gt_0)
qed

lemma hidden_result:
  assumes "length key = 2 * ct_key_size ct"
  shows "or_master_key (open_result ct (stored_form L (hidden_header hidden_size start salt key)) salt kc b) = key"
    "or_data_cipher (open_result ct (stored_form L (hidden_header hidden_size start salt key)) salt kc b) = ct"
    "or_data_length (open_result ct (stored_form L (hidden_header hidden_size start salt key)) salt kc b) = hidden_size"
    "or_data_offset (open_result ct (stored_form L (hidden_header hidden_size start salt key)) salt kc b) = start"
    "or_volume_type (open_result ct (stored_form L (hidden_header hidden_size start salt key)) salt kc b) =
      (if hidden_size = 0 then NormalVolume else HiddenVolume)"
proof -
  have "length key \<le> 256"
    using assms ct_key_size_le [of ct] by simp
  then show "or_master_key (open_result ct (stored_form L (hidden_header hidden_size start salt key)) salt kc b) = key"
    using assms by (simp add: open_result_def stored_form_def hidden_header_def key_area_def resize_def mult.commute)
qed (simp_all add: open_result_def stored_form_def hidden_header_def header_new_def word_gt_0)

section \<open>Properties\<close>

text \<open>
  C10: Creating a volume succeeds on a file with room for the four header slots,
  leaves the file size and everything between the slots as it was, and the
  volume opens again with the same password, key derivation function and PIM:
  both the primary and the backup header decrypt to the header that was
  stored, and opening the file gives back the master key, the cipher, the
  salt and the data area of the creation, from the primary header. The only
  proviso is that no cipher tried earlier accepts the header by accident.
\<close>

theorem create_then_open:
  assumes "lib_ok L" "reliable (w_file w)" "f_pos (w_file w) = 0" "262144 \<le> length (f_bytes (w_file w))"
    "rng_for_creation ct (w_rng w) salt key"
    "derive L (kc_implementation (make_kdf_candidate alg pim)) password salt
       (kc_iterations (make_kdf_candidate alg pim)) (replicate 192 0) = Ok max_key"
  defines "n \<equiv> length (f_bytes (w_file w))" and "kc \<equiv> make_kdf_candidate alg pim"
  shows "\<exists>w'. create_volume_full L volume_size password ct (kc_implementation kc) (kc_iterations kc) progress w = (Ok (), w')
    \<and> length (f_bytes (w_file w')) = n
    \<and> sub (f_bytes (w_file w')) 131072 (n - 131072) = sub (f_bytes (w_file w)) 131072 (n - 131072)
    \<and> (\<forall>off \<in> {0, n - 131072}. opens_at L (f_bytes (w_file w')) password [kc] off kc ct
          (stored_form L (created_header volume_size salt key)))
    \<and> (no_earlier_cipher L (f_bytes (w_file w')) password kc ct \<longrightarrow>
        (\<exists>r. open_volume_file_with_kdf L (\<lambda>p. Inr (f_bytes (w_file w'))) path password [] alg pim = Ok r
          \<and> is_new_volume ct salt key volume_size r \<and> \<not> or_used_backup_header r))"
proof -
  obtain w' where
    c: "create_volume_full L volume_size password ct (kc_implementation kc) (kc_iterations kc) progress w = (Ok (), w')"
    and l: "length (f_bytes (w_file w')) = n"
    and mid: "sub (f_bytes (w_file w')) 131072 (n - 131072) = sub (f_bytes (w_file w)) 131072 (n - 131072)"
    and o: "\<And>off. off \<in> {0, n - 131072} \<Longrightarrow> sub (f_bytes (w_file w')) off (off + 64) = salt \<and>
      opens_at L (f_bytes (w_file w')) password [kc] off kc ct (stored_form L (created_header volume_size salt key))"
    using create_opens [OF assms(1-6), where volume_size = volume_size and progress = progress]
    unfolding n_def kc_def by metis
  let ?data = "f_bytes (w_file w')" and ?h = "stored_form L (created_header volume_size salt key)"
  have "open_volume_file_with_kdf L (\<lambda>p. Inr ?data) path password [] alg pim = Ok (open_result ct ?h salt kc False)"
    if "no_earlier_cipher L ?data password kc ct"
  proof -
    have "opens_first L ?data password kc ct ?h"
      using o [of 0] that by (auto simp: opens_first_def no_earlier_cipher_def opens_at_def)
    moreover have "take 64 ?data = salt"
      using o [of 0] by (simp add: sub_def)
    ultimately show ?thesis
      using open_primary [OF assms(1), of "\<lambda>p. Inr ?data" path ?data password "[]" password alg pim ct ?h] l assms(4)
      by (simp add: mix_password_def n_def kc_def)
  qed
  moreover have "is_new_volume ct salt key volume_size (open_result ct ?h salt kc False)"
    using assms(5) by (simp add: created_result rng_for_creation_def)
  ultimately show ?thesis
    using c l mid o by (intro exI [of _ w']) (auto simp: open_result_def)
qed

definition toy_world :: "nat \<Rightarrow> world" where
  "toy_world n = \<lparr> w_file = \<lparr> f_bytes = replicate n 0, f_pos = 0, f_budget = None, f_short = 0, f_err = [] \<rparr>,
     w_rng = \<lparr> rng_bytes = replicate 704 7, rng_error = [] \<rparr>, w_log = [] \<rparr>"

lemma toy_world_ok:
  "reliable (w_file (toy_world n))" "f_pos (w_file (toy_world n)) = 0" "f_bytes (w_file (toy_world n)) = replicate n 0"
  "rng_for_creation ct (w_rng (toy_world n)) (replicate 64 7) (replicate (2 * ct_key_size ct) 7)"
  using ct_key_size_le [of ct]
  by (simp_all add: toy_world_def reliable_def rng_for_creation_def sub_def)

lemma toy_derive:
  "\<exists>key. derive toy_lib (kc_implementation (make_kdf_candidate Pbkdf2Sha256 0)) pw salt
     (kc_iterations (make_kdf_candidate Pbkdf2Sha256 0)) (replicate 192 0) = Ok key"
  using derive_pbkdf2_Ok [OF toy_lib_ok, of KdSha256 "replicate 192 0"]
  by (auto simp: make_kdf_candidate_def)

theorem create_then_open_witness:
  "\<exists>w' r. create_volume_full toy_lib 512 [1] Aes (kc_implementation (make_kdf_candidate Pbkdf2Sha256 0))
      (kc_iterations (make_kdf_candidate Pbkdf2Sha256 0)) False (toy_world 262656) = (Ok (), w')
    \<and> open_volume_file_with_kdf toy_lib (\<lambda>p. Inr (f_bytes (w_file w'))) ''v'' [1] [] Pbkdf2Sha256 0 = Ok r
    \<and> is_new_volume Aes (replicate 64 7) (replicate 64 7) 512 r"
proof -
  obtain max_key where d: "derive toy_lib (kc_implementation (make_kdf_candidate Pbkdf2Sha256 0)) [1] (replicate 64 7)
     (kc_iterations (make_kdf_candidate Pbkdf2Sha256 0)) (replicate 192 0) = Ok max_key"
    using toy_derive by blast
  have b: "262144 \<le> length (f_bytes (w_file (toy_world 262656)))"
    unfolding toy_world_ok(3) by simp
  have k: "rng_for_creation Aes (w_rng (toy_world 262656)) (replicate 64 7) (replicate 64 7)"
    using toy_world_ok(4) [of Aes] by simp
  have "no_earlier_cipher toy_lib x [1] (make_kdf_candidate Pbkdf2Sha256 0) Aes" for x
    by (simp add: no_earlier_cipher_def all_supported_def)
  then show ?thesis
    using create_then_open [OF toy_lib_ok toy_world_ok(1,2) b k d,
      where volume_size = 512 and progress = False and path = "''v''"] by blast
qed

text \<open>
  C14: The backup header of a created volume is enough to open it. Take any file
  of the same size that still holds the 512 header bytes of the backup slot
  and whose primary slot opens with no cipher: opening it returns the volume
  of the creation, and reports that the backup header was used.
\<close>

theorem backup_header_recovers:
  assumes "lib_ok L" "reliable (w_file w)" "f_pos (w_file w) = 0" "262144 \<le> length (f_bytes (w_file w))"
    "rng_for_creation ct (w_rng w) salt key"
    "derive L (kc_implementation (make_kdf_candidate alg pim)) password salt
       (kc_iterations (make_kdf_candidate alg pim)) (replicate 192 0) = Ok max_key"
  defines "backup \<equiv> length (f_bytes (w_file w)) - 131072" and "kc \<equiv> make_kdf_candidate alg pim"
  shows "\<exists>w'. create_volume_full L volume_size password ct (kc_implementation kc) (kc_iterations kc) progress w = (Ok (), w')
    \<and> (\<forall>data. length data = length (f_bytes (w_file w))
        \<and> sub data backup (backup + 512) = sub (f_bytes (w_file w')) backup (backup + 512)
        \<and> (\<nexists>k c h. opens_at L data password [kc] 0 k c h)
        \<and> no_earlier_cipher L (drop backup data) password kc ct \<longrightarrow>
        (\<exists>r. open_volume_file_with_kdf L (\<lambda>p. Inr data) path password [] alg pim = Ok r
          \<and> is_new_volume ct salt key volume_size r \<and> or_used_backup_header r))"
proof -
  obtain w' where
    c: "create_volume_full L volume_size password ct (kc_implementation kc) (kc_iterations kc) progress w = (Ok (), w')"
    and o: "sub (f_bytes (w_file w')) backup (backup + 64) = salt"
      "opens_at L (f_bytes (w_file w')) password [kc] backup kc ct (stored_form L (created_header volume_size salt key))"
    using create_opens [OF assms(1-6), where volume_size = volume_size and progress = progress]
    unfolding backup_def kc_def by blast
  let ?h = "stored_form L (created_header volume_size salt key)"
  have "open_volume_file_with_kdf L (\<lambda>p. Inr data) path password [] alg pim = Ok (open_result ct ?h salt kc True)"
    if a: "length data = length (f_bytes (w_file w))" "sub data backup (backup + 512) = sub (f_bytes (w_file w')) backup (backup + 512)"
      "\<nexists>k c h. opens_at L data password [kc] 0 k c h" "no_earlier_cipher L (drop backup data) password kc ct" for data
  proof -
    have t: "take 512 (drop backup data) = take 512 (drop backup (f_bytes (w_file w')))"
      using a(2) by (simp add: sub_def)
    have "kdf_opens L (drop backup data) password kc ct ?h"
      using o(2) kdf_opens_take [OF t] by (simp add: opens_at_def)
    then have f: "opens_first L (drop backup data) password kc ct ?h"
      using a(4) by (simp add: opens_first_def no_earlier_cipher_def)
    have "sub data backup (backup + 64) = salt"
      using arg_cong [OF a(2), of "take 64"] o(1) by (simp add: sub_def)
    then show ?thesis
      using open_backup [OF assms(1), of "\<lambda>p. Inr data" path data password "[]" password alg pim ct ?h] a f assms(4)
      by (simp add: mix_password_def backup_def kc_def)
  qed
  moreover have "is_new_volume ct salt key volume_size (open_result ct ?h salt kc True)"
    using assms(5) by (simp add: created_result rng_for_creation_def)
  ultimately show ?thesis
    using c by (intro exI [of _ w']) (auto simp: open_result_def)
qed

text \<open>An instance of the library whose Argon2id refuses one salt.\<close>

definition picky_lib :: "bytes \<Rightarrow> crypto_lib" where
  "picky_lib bad = toy_lib \<lparr> lib_argon2id := (\<lambda>m t p n pw s. if s = bad then Inl ''salt'' else Inr (toy_pbkdf2 5 pw s t n)) \<rparr>"

lemma picky_lib_ok: "lib_ok (picky_lib bad)"
  using toy_lib_ok by (auto simp: lib_ok_def picky_lib_def argon2_ok_def toy_pbkdf2_def split: if_splits)

lemma picky_derive:
  "derive (picky_lib bad) (kc_implementation (make_kdf_candidate Argon2id pim)) pw salt it (replicate n 0) =
    (if salt = bad then Err (KeyDerivationFailed ''Argon2id: salt'')
     else Ok (toy_pbkdf2 5 pw salt (if it = 0 then snd (params_for_pim pim) else it) n))"
  by (auto simp: make_kdf_candidate_def argon2_derive_def picky_lib_def toy_lib_def split: prod.splits)

theorem backup_header_recovers_witness:
  "\<exists>w' r. create_volume_full (picky_lib (replicate 64 255)) 512 [1] Aes (kc_implementation (make_kdf_candidate Argon2id 0))
      (kc_iterations (make_kdf_candidate Argon2id 0)) False (toy_world 262656) = (Ok (), w')
    \<and> open_volume_file_with_kdf (picky_lib (replicate 64 255))
        (\<lambda>p. Inr (write_at (f_bytes (w_file w')) 0 (replicate 64 255))) ''v'' [1] [] Argon2id 0 = Ok r
    \<and> is_new_volume Aes (replicate 64 7) (replicate 64 7) 512 r \<and> or_used_backup_header r"
proof -
  let ?L = "picky_lib (replicate 64 255)" and ?kc = "make_kdf_candidate Argon2id 0"
  have ne: "replicate 64 (7 :: u8) \<noteq> replicate 64 255"
    using arg_cong [of "replicate 64 (7 :: u8)" "replicate 64 255" hd] by auto
  obtain max_key where d: "derive ?L (kc_implementation ?kc) [1] (replicate 64 7) (kc_iterations ?kc) (replicate 192 0) = Ok max_key"
    using ne by (simp add: picky_derive)
  have b: "262144 \<le> length (f_bytes (w_file (toy_world 262656)))"
    unfolding toy_world_ok(3) by simp
  have k: "rng_for_creation Aes (w_rng (toy_world 262656)) (replicate 64 7) (replicate 64 7)"
    using toy_world_ok(4) [of Aes] by simp
  have na: "no_earlier_cipher ?L x [1] ?kc Aes" for x
    by (simp add: no_earlier_cipher_def all_supported_def)
  have no: "\<nexists>k c h. opens_at ?L (write_at x 0 (replicate 64 255)) [1] [?kc] 0 k c h" if "length x = 262656" for x
  proof -
    have "take 64 (write_at x 0 (replicate 64 255)) = replicate 64 255"
      by (simp add: write_at_def)
    then show ?thesis
      by (simp add: opens_at_def kdf_opens_def derived_key_def picky_derive MAX_HEADER_KEY_SIZE_def)
  qed
  obtain w' where c: "create_volume_full ?L 512 [1] Aes (kc_implementation ?kc) (kc_iterations ?kc) False (toy_world 262656) = (Ok (), w')"
    and l: "length (f_bytes (w_file w')) = length (f_bytes (w_file (toy_world 262656)))"
    using create_opens [OF picky_lib_ok toy_world_ok(1,2) b k d] by metis
  let ?data = "write_at (f_bytes (w_file w')) 0 (replicate 64 255)"
  have l': "length (f_bytes (w_file w')) = 262656"
    using l toy_world_ok(3) [of 262656] by simp
  have "length ?data = 262656" "sub ?data 131584 (131584 + 512) = sub (f_bytes (w_file w')) 131584 (131584 + 512)"
    using l' by (simp_all add: sub_write_at_other)
  then show ?thesis
    using backup_header_recovers [OF picky_lib_ok toy_world_ok(1,2) b k d,
      where volume_size = 512 and progress = False and path = "''v''"] c no [OF l'] na toy_world_ok(3) [of 262656]
    by auto
qed

text \<open>
  C15: Creating a hidden volume in a file that is large enough writes its header
  to the two hidden slots and nothing else: both slots of the outer volume and
  everything between the slots stay as they were. The new headers open with
  the hidden password, and when the outer slots do not open with it, opening
  the file gives the hidden volume: its master key and a data area of the
  requested size that ends where the backup headers begin.
\<close>

theorem hidden_volume_created:
  assumes "lib_ok L" "reliable (w_file w)" "262144 \<le> length (f_bytes (w_file w))"
    "131072 + unat hidden_size \<le> length (f_bytes (w_file w))" "length (f_bytes (w_file w)) < 2 ^ 64"
    "rng_bytes (w_rng w) = salt @ key @ rest" "length salt = 64" "length key = 2 * ct_key_size ct"
    "derive L (kc_implementation (make_kdf_candidate alg pim)) password salt
       (kc_iterations (make_kdf_candidate alg pim)) (replicate 192 0) = Ok max_key"
  defines "n \<equiv> length (f_bytes (w_file w))" and "kc \<equiv> make_kdf_candidate alg pim"
  shows "\<exists>w'. create_hidden_volume L hidden_size password ct (kc_implementation kc) (kc_iterations kc) progress w = (Ok (), w')
    \<and> length (f_bytes (w_file w')) = n
    \<and> sub (f_bytes (w_file w')) 0 65536 = sub (f_bytes (w_file w)) 0 65536
    \<and> sub (f_bytes (w_file w')) 131072 (n - 65536) = sub (f_bytes (w_file w)) 131072 (n - 65536)
    \<and> ((\<forall>off \<in> {0, n - 131072}. \<nexists>k c h. opens_at L (f_bytes (w_file w)) password [kc] off k c h)
        \<and> no_earlier_cipher L (drop 65536 (f_bytes (w_file w'))) password kc ct \<longrightarrow>
        (\<exists>r. open_volume_file_with_kdf L (\<lambda>p. Inr (f_bytes (w_file w'))) path password [] alg pim = Ok r
          \<and> or_master_key r = key \<and> or_data_cipher r = ct \<and> or_data_length r = hidden_size
          \<and> unat (or_data_offset r) + unat hidden_size = n - 131072
          \<and> or_volume_type r = (if hidden_size = 0 then NormalVolume else HiddenVolume)))"
proof -
  let ?h = "stored_form L (hidden_header hidden_size (of_nat (n - 131072 - unat hidden_size)) salt key)"
  from hidden_run [OF assms(1,2,4-9), of progress]
  obtain hdr w' where
    c: "create_hidden_volume L hidden_size password ct (kc_implementation kc) (kc_iterations kc) progress w = (Ok (), w')"
    and hl: "length hdr = 65536" "take 64 hdr = salt"
    and ho: "header_opens L (hdr @ []) ct (take (2 * ct_key_size ct) max_key) ?h"
    and fb: "f_bytes (w_file w') = write_at (write_at (f_bytes (w_file w)) 65536 hdr) (n - 65536) hdr"
    unfolding n_def kc_def by blast
  let ?d = "f_bytes (w_file w)" and ?d' = "f_bytes (w_file w')"
  have nn: "65536 + 65536 \<le> n - 65536" "n - 65536 + 65536 = n" "length ?d = n" "131072 \<le> n - 131072"
    using assms(3) by (simp_all add: n_def)
  have l: "length ?d' = n"
    using hl nn by (simp add: fb)
  have other: "sub ?d' a b = sub ?d a b" if "b \<le> 65536 \<or> 131072 \<le> a" "b \<le> n - 65536" for a b
    using that hl nn by (auto simp: fb sub_write_at_other)
  have slot: "sub ?d' 65536 (65536 + 65536) = hdr"
    using sub_write_at_same [of 65536 hdr ?d] hl nn by (simp add: fb sub_write_at_other)
  note t = take_512_slot [OF slot]
  have same: "opens_at L ?d' password [kc] off k c h = opens_at L ?d password [kc] off k c h"
    if "off \<in> {0, n - 131072}" for off k c h
  proof -
    have "sub ?d' off (off + 512) = sub ?d off (off + 512)"
      using that nn by (intro other) auto
    then show ?thesis
      using kdf_opens_take [of "drop off ?d'" "drop off ?d"] l nn by (simp add: opens_at_def sub_def)
  qed
  have res: "open_volume_file_with_kdf L (\<lambda>p. Inr ?d') path password [] alg pim = Ok (open_result ct ?h salt kc False)"
    if no: "\<forall>off \<in> {0, n - 131072}. \<nexists>k c h. opens_at L ?d password [kc] off k c h"
      and ne: "no_earlier_cipher L (drop 65536 ?d') password kc ct"
  proof -
    have "opens_first L (drop 65536 ?d') password kc ct ?h"
      using kdf_opens_stored [OF _ ho t] assms(9) hl(2) ne
      by (simp add: opens_first_def no_earlier_cipher_def kc_def)
    moreover have "sub ?d' 65536 65600 = salt"
      using arg_cong [OF t, of "take 64"] hl(2) by (simp add: sub_def)
    ultimately show ?thesis
      using open_hidden [OF assms(1), of "\<lambda>p. Inr ?d'" path ?d' password "[]" password alg pim ct ?h] no same l assms(3)
      by (simp add: mix_password_def n_def kc_def)
  qed
  note proj = hidden_result [OF assms(8), of L hidden_size "of_nat (n - 131072 - unat hidden_size)" salt kc False]
  have "unat (of_nat (n - 131072 - unat hidden_size) :: u64) + unat hidden_size = n - 131072"
    using assms(4,5) unat_of_nat64 [of "n - 131072 - unat hidden_size"] by (simp add: n_def)
  then show ?thesis
    using c l other [of 65536 0] other [of "n - 65536" 131072] res proj nn(1)
    by (intro exI [of _ w']) (auto simp del: of_nat_diff)
qed

theorem hidden_volume_created_witness:
  "\<exists>w' r. create_hidden_volume (picky_lib (replicate 64 0)) 1024 [1] Aes (kc_implementation (make_kdf_candidate Argon2id 0))
      (kc_iterations (make_kdf_candidate Argon2id 0)) False (toy_world 300000) = (Ok (), w')
    \<and> open_volume_file_with_kdf (picky_lib (replicate 64 0)) (\<lambda>p. Inr (f_bytes (w_file w'))) ''v'' [1] [] Argon2id 0 = Ok r
    \<and> or_volume_type r = HiddenVolume \<and> unat (or_data_offset r) = 167904"
proof -
  let ?L = "picky_lib (replicate 64 0)" and ?kc = "make_kdf_candidate Argon2id 0"
  have ne: "replicate 64 (7 :: u8) \<noteq> replicate 64 0"
    using arg_cong [of "replicate 64 (7 :: u8)" "replicate 64 0" hd] by auto
  obtain max_key where d: "derive ?L (kc_implementation ?kc) [1] (replicate 64 7) (kc_iterations ?kc) (replicate 192 0) = Ok max_key"
    using ne by (simp add: picky_derive)
  have l: "length (f_bytes (w_file (toy_world 300000))) = 300000"
    unfolding toy_world_ok(3) by simp
  have r: "rng_bytes (w_rng (toy_world 300000)) = replicate 64 7 @ replicate 64 7 @ replicate 576 7"
    by (simp add: toy_world_def flip: replicate_add)
  have na: "no_earlier_cipher ?L x [1] ?kc Aes" for x
    by (simp add: no_earlier_cipher_def all_supported_def)
  have no: "\<not> opens_at ?L (f_bytes (w_file (toy_world 300000))) [1] [?kc] off k c h" if "off \<in> {0, 300000 - 131072}" for off k c h
    using that unfolding toy_world_ok(3)
    by (auto simp: opens_at_def kdf_opens_def derived_key_def picky_derive MAX_HEADER_KEY_SIZE_def)
  obtain w' where "create_hidden_volume ?L 1024 [1] Aes (kc_implementation ?kc) (kc_iterations ?kc) False (toy_world 300000) = (Ok (), w')"
    "\<exists>r. open_volume_file_with_kdf ?L (\<lambda>p. Inr (f_bytes (w_file w'))) ''v'' [1] [] Argon2id 0 = Ok r
      \<and> or_volume_type r = HiddenVolume \<and> unat (or_data_offset r) = 167904"
    using hidden_volume_created [OF picky_lib_ok toy_world_ok(1) _ _ _ r _ _ d,
      where hidden_size = 1024 and ct = Aes and progress = False and path = "''v''"] l no na by auto
  then show ?thesis
    by blast
qed

end
