(* ===== verification/ChangeVol.thy ===== *)
theory ChangeVol
  imports CreateVol
begin

text \<open>
  Changing the password of a volume (\<open>vcrypt-volume/src/change.rs\<close>): the stored
  header is encrypted again under a key derived from the new credentials and a
  new salt, and written to the backup slot first, then to the primary one.
\<close>

section \<open>Operations\<close>

fun kdf_box :: "KdfAlgorithm \<Rightarrow> KeyDerivation vres" where
  "kdf_box Pbkdf2Sha512 = Ok KdSha512"
| "kdf_box Pbkdf2Sha256 = Ok KdSha256"
| "kdf_box Pbkdf2Blake2s = Ok KdBlake2s"
| "kdf_box Pbkdf2Whirlpool = Ok KdWhirlpool"
| "kdf_box Pbkdf2Streebog = Ok KdStreebog"
| "kdf_box Argon2id = Panic"

text \<open>Step 3 of the code: the implementation of the new key derivation function and its iterations.\<close>

definition new_kdf_params :: "KdfAlgorithm \<Rightarrow> int \<Rightarrow> (KeyDerivation \<times> u32 \<times> u32 option) vres" where
  "new_kdf_params new_kdf new_pim =
     (case new_kdf of
        Argon2id \<Rightarrow> (let (mem, t) = params_for_pim new_pim in Ok (KdArgon2id mem t 1, t, Some mem))
      | _ \<Rightarrow> bind_res (kdf_box new_kdf) (\<lambda>imp. Ok (imp, get_iteration_count imp new_pim, None)))"

text \<open>Steps 4 and 5: the header with the new salt, encrypted under the new key.\<close>

definition new_header_buf :: "crypto_lib \<Rightarrow> OpenResult \<Rightarrow> bytes \<Rightarrow> bytes \<Rightarrow> bytes vres" where
  "new_header_buf L r new_salt effective_key =
     (let header_buf = blit (replicate VOLUME_HEADER_SIZE 0) 0 new_salt in
      bind_res (map_err (format_err ''serialize'') (serialize_header L (or_header r))) (\<lambda>plaintext.
      bind_res (slice plaintext PKCS5_SALT_SIZE (length plaintext)) (\<lambda>area.
      if length area \<noteq> 512 - PKCS5_SALT_SIZE then Panic
      else
        let header_buf = blit header_buf PKCS5_SALT_SIZE area in
        bind_res (slice header_buf 0 512) (\<lambda>eff.
        bind_res (map_err (\<lambda>e. VolCryptoError (''encrypt: '' @ display_format_error e))
          (encrypt_header_area L eff effective_key (or_header_cipher r))) (\<lambda>eff.
        Ok (blit header_buf 0 eff))))))"

text \<open>Steps 6 and 7.\<close>

definition write_both_headers :: "bytes \<Rightarrow> (vfile, VolumeError, unit) sm" where
  "write_both_headers header_buf =
     bindS (map_errS VolIoError seek_end) (\<lambda>file_end.
     if file_end < 4 * VOLUME_HEADER_SIZE
     then liftR (Err (InvalidFormat ''Volume file too small for header backup''))
     else
       let backup_offset = file_end - 2 * VOLUME_HEADER_SIZE in
       bindS (map_errS VolIoError (seek_start backup_offset)) (\<lambda>_.
       bindS (map_errS VolIoError (write_all header_buf)) (\<lambda>_.
       bindS (map_errS VolIoError flush) (\<lambda>_.
       bindS (map_errS VolIoError (seek_start 0)) (\<lambda>_.
       bindS (map_errS VolIoError (write_all header_buf)) (\<lambda>_.
       map_errS VolIoError flush))))))"

definition change_volume_password ::
  "crypto_lib \<Rightarrow> filesystem \<Rightarrow> OpenResult \<Rightarrow> bytes \<Rightarrow> string list \<Rightarrow> KdfAlgorithm \<Rightarrow> int \<Rightarrow> (world, VolumeError, unit) sm" where
  "change_volume_password L fs r new_password new_keyfiles new_kdf new_pim =
     bindS (map_errS (crypto_err ''rng'') (rngS (fill_random PKCS5_SALT_SIZE))) (\<lambda>new_salt.
     bindS (liftR (mix_password L fs new_password new_keyfiles)) (\<lambda>pw_bytes.
     bindS (liftR (new_kdf_params new_kdf new_pim)) (\<lambda>(imp, iterations, memory_cost_kib).
     bindS (liftR (map_err (crypto_err ''derive'')
       (derive L imp pw_bytes new_salt iterations (replicate MAX_HEADER_KEY_SIZE 0)))) (\<lambda>header_key.
     bindS (liftR (slice header_key 0 (ct_key_size (or_header_cipher r) * 2))) (\<lambda>effective_key.
     bindS (liftR (new_header_buf L r new_salt effective_key)) (\<lambda>header_buf.
     fileS (write_both_headers header_buf)))))))"

section \<open>The new header\<close>

lemma new_kdf_params_candidate:
  "new_kdf_params kdf pim = Ok (kc_implementation (make_kdf_candidate kdf pim),
     kc_iterations (make_kdf_candidate kdf pim), kc_memory_cost_kib (make_kdf_candidate kdf pim))"
  by (cases kdf) (auto simp: new_kdf_params_def make_kdf_candidate_def Let_def split: prod.splits)

text \<open>The buffer is what a creation with the same header and the new salt would write.\<close>

lemma new_header_buf_alt:
  assumes "lib_ok L" "header_ok (or_header r)" "length salt = 64" "length key = 2 * ct_key_size (or_header_cipher r)"
  shows "\<exists>hdr. new_header_buf L r salt key = Ok hdr \<and> length hdr = 65536 \<and> take 64 hdr = salt
    \<and> header_opens L (hdr @ []) (or_header_cipher r) key (stored_form L (or_header r \<lparr> vh_salt := salt \<rparr>))"
proof -
  let ?h = "or_header r \<lparr> vh_salt := salt \<rparr>"
  have ok: "header_ok ?h"
    using assms(2,3) by (simp add: header_ok_def)
  from encrypted_header_opens [OF assms(1) ok assms(4), of "''serialize''" "''enc''" "[]"]
  obtain hdr where h: "bind_res (header_bytes L ?h ''serialize'') (\<lambda>b. encrypt_header_bytes L b key (or_header_cipher r) ''enc'') = Ok hdr"
    and hl: "length hdr = 65536" "take 64 hdr = vh_salt ?h"
    and ho: "header_opens L (hdr @ []) (or_header_cipher r) key (stored_form L ?h)"
    by blast
  let ?A = "field_bytes ?h (key_crc L ?h) @ replicate 120 0 @ be_bytes 4 (header_crc L ?h) @ key_area ?h"
  have A: "length ?A = 448" "serialize_header L ?h = Ok (salt @ ?A)"
    "serialize_header L (or_header r) = Ok (vh_salt (or_header r) @ ?A)"
    by (simp_all add: serialize_layout key_crc_def header_crc_def key_area_def field_bytes_def)
  have full: "serialize_header_full L ?h = Ok ((salt @ ?A) @ replicate 65024 0)"
    using deserialize_serialize(1) [OF ok A(2)] A(2) by (simp add: serialize_header_full_def header_consts blit_def)
  have buf: "blit (blit (replicate 65536 0) 0 salt) 64 ?A = (salt @ ?A) @ replicate 65024 0"
    using A(1) assms(3) by (simp add: blit_def)
  have "new_header_buf L r salt key = Ok hdr"
    using h assms(2,3) A(1) full
    by (auto simp: new_header_buf_def A(3) header_ok_def header_consts buf sub_def header_bytes_def encrypt_header_bytes_def Let_def)
  then show ?thesis
    using hl ho by auto
qed
section \<open>The order of the two writes\<close>

text \<open>
  \<open>one_header_intact\<close>: what every state on the way satisfies, also one left by a
  write that stopped half way. Outside the two normal slots nothing changes,
  and either the primary slot is still the old one or the backup slot already
  holds the whole new header.
\<close>

definition one_header_intact :: "bytes \<Rightarrow> bytes \<Rightarrow> bytes \<Rightarrow> bool" where
  "one_header_intact old header_buf data \<longleftrightarrow>
     (let n = length old in
      length data = n \<and> sub data 65536 (n - 131072) = sub old 65536 (n - 131072)
      \<and> sub data (n - 65536) n = sub old (n - 65536) n
      \<and> (sub data 0 65536 = sub old 0 65536 \<or> sub data (n - 131072) (n - 65536) = header_buf))"

lemma one_header_intact_refl: "one_header_intact old buf old"
  by (simp add: one_header_intact_def Let_def)

lemma backup_write_frame:
  assumes "262144 \<le> length old" "length buf \<le> 65536"
  shows "b \<le> length old - 131072 \<or> length old - 65536 \<le> a \<Longrightarrow>
    sub (write_at old (length old - 131072) buf) a b = sub old a b"
  by (rule sub_write_at_other) (use assms in auto)

lemma intact_backup_write:
  assumes "262144 \<le> length old" "length buf = 65536"
  shows "one_header_intact old buf (write_at old (length old - 131072) (take k buf))"
proof -
  have "131072 \<le> length old - 131072"
    using assms(1) by simp
  then show ?thesis
    using assms backup_write_frame [OF assms(1), of "take k buf"]
    by (simp add: one_header_intact_def Let_def)
qed

lemma intact_backup_whole:
  "262144 \<le> length old \<Longrightarrow> length buf = 65536 \<Longrightarrow> one_header_intact old buf (write_at old (length old - 131072) buf)"
  using intact_backup_write [of old buf "length buf"] by simp

lemma intact_primary_write:
  assumes "262144 \<le> length old" "length buf = 65536"
  shows "one_header_intact old buf (write_at (write_at old (length old - 131072) buf) 0 (take k buf))"
proof -
  have n: "131072 \<le> length old - 131072" "min 65536 k \<le> length old - 65536"
    "length old - 131072 + 65536 = length old - 65536"
    using assms(1) by simp_all
  then have "sub (write_at old (length old - 131072) buf) (length old - 131072) (length old - 65536) = buf"
    using sub_write_at_same [of "length old - 131072" buf old] assms by simp
  then show ?thesis
    using assms n(1,2) backup_write_frame [OF assms(1), of buf]
    by (simp add: one_header_intact_def Let_def sub_write_at_other)
qed

lemma intact_primary_whole:
  "262144 \<le> length old \<Longrightarrow> length buf = 65536 \<Longrightarrow>
    one_header_intact old buf (write_at (write_at old (length old - 131072) buf) 0 buf)"
  using intact_primary_write [of old buf "length buf"] by simp

lemmas intact_states = one_header_intact_refl intact_backup_write intact_backup_whole
  intact_primary_write intact_primary_whole

lemma write_both_wp:
  fixes f :: vfile
  assumes "length buf = 65536"
  defines "old \<equiv> f_bytes f"
  shows "wpS (write_both_headers buf)
     (\<lambda>_ f'. 262144 \<le> length old \<and> f_bytes f' = write_at (write_at old (length old - 131072) buf) 0 buf)
     (\<lambda>f'. one_header_intact old buf (f_bytes f')) f"
  unfolding write_both_headers_def Let_def
  by (intro wp_rules, simp add: old_def one_header_intact_refl, split if_split, intro conjI impI)
    (intro wp_rules; use assms(1) in \<open>auto simp: old_def intact_states VOLUME_HEADER_SIZE_def\<close>)+

section \<open>The whole operation\<close>

lemma wp_fileS [wp_rules]:
  "wpS m (\<lambda>x f. Q x (w \<lparr> w_file := f \<rparr>)) (\<lambda>f. E (w \<lparr> w_file := f \<rparr>)) (w_file w) \<Longrightarrow> wpS (fileS m) Q E w"
  by (auto simp: wpS_def fileS_def split: prod.splits res.splits)

lemma wp_rngS [wp_rules]:
  "E w \<Longrightarrow> (\<And>x r. m (w_rng w) = Ok (x, r) \<Longrightarrow> Q x (w \<lparr> w_rng := r \<rparr>)) \<Longrightarrow> wpS (rngS m) Q E w"
  by (auto simp: wpS_def rngS_def split: prod.splits res.splits)

lemma wp_mono:
  assumes "wpS m Q E s" "\<And>x s'. Q x s' \<Longrightarrow> Q' x s'" "\<And>s'. E s' \<Longrightarrow> E' s'"
  shows "wpS m Q' E' s"
  using assms by (auto simp: wpS_def split: prod.splits res.splits)

text \<open>What a password change may leave on disk, whatever fails.\<close>

definition change_outcome ::
  "crypto_lib \<Rightarrow> OpenResult \<Rightarrow> bytes \<Rightarrow> KdfCandidate \<Rightarrow> bytes \<Rightarrow> bytes \<Rightarrow> bool" where
  "change_outcome L r new_pw nkc old data \<longleftrightarrow>
     (\<exists>hdr salt. one_header_intact old hdr data \<and>
        (data \<noteq> old \<longrightarrow> length hdr = 65536 \<and> kdf_opens L hdr new_pw nkc (or_header_cipher r)
           (stored_form L (or_header r \<lparr> vh_salt := salt \<rparr>))))"

lemma change_outcome_refl: "change_outcome L r pw nkc old old"
  using one_header_intact_refl by (auto simp: change_outcome_def)

lemma change_outcomeI:
  assumes "one_header_intact old hdr data" "length hdr = 65536"
    "kdf_opens L hdr new_pw nkc (or_header_cipher r) (stored_form L (or_header r \<lparr> vh_salt := salt \<rparr>))"
  shows "change_outcome L r new_pw nkc old data"
  using assms by (auto simp: change_outcome_def)

lemma change_wp:
  assumes "lib_ok L" "header_ok (or_header r)" "mix_password L fs new_password new_keyfiles = Ok new_pw"
  shows "wpS (change_volume_password L fs r new_password new_keyfiles new_kdf new_pim)
     (\<lambda>_ w'. change_outcome L r new_pw (make_kdf_candidate new_kdf new_pim) (f_bytes (w_file w)) (f_bytes (w_file w')))
     (\<lambda>w'. change_outcome L r new_pw (make_kdf_candidate new_kdf new_pim) (f_bytes (w_file w)) (f_bytes (w_file w'))) w"
    (is "wpS _ (\<lambda>_ w'. ?P (f_bytes (w_file w'))) _ w")
proof -
  let ?kc = "make_kdf_candidate new_kdf new_pim"
  have same: "?P (f_bytes (w_file w))"
    by (rule change_outcome_refl)
  have tail: "wpS (write_both_headers hdr) (\<lambda>_ f. ?P (f_bytes f)) (\<lambda>f. ?P (f_bytes f)) (w_file w)"
    if "length salt = 64" "derive L (kc_implementation ?kc) new_pw salt (kc_iterations ?kc) (replicate MAX_HEADER_KEY_SIZE 0) = Ok key"
      "slice key 0 (ct_key_size (or_header_cipher r) * 2) = (Ok ek :: bytes vres)" "new_header_buf L r salt ek = Ok hdr"
    for salt key ek hdr
  proof -
    have lk: "length key = 192"
      using derive_length [OF assms(1) that(2)] by (simp add: MAX_HEADER_KEY_SIZE_def)
    have ek: "ek = take (2 * ct_key_size (or_header_cipher r)) key"
      using that(3) lk ct_key_size_le [of "or_header_cipher r"] by (simp add: sub_def mult.commute)
    have lek: "length ek = 2 * ct_key_size (or_header_cipher r)"
      using lk ct_key_size_le [of "or_header_cipher r"] by (simp add: ek)
    have h: "length hdr = 65536" "take 64 hdr = salt"
      "header_opens L (hdr @ []) (or_header_cipher r) ek (stored_form L (or_header r \<lparr> vh_salt := salt \<rparr>))"
      using new_header_buf_alt [OF assms(1,2) that(1) lek] that(4) by auto
    have "kdf_opens L hdr new_pw ?kc (or_header_cipher r) (stored_form L (or_header r \<lparr> vh_salt := salt \<rparr>))"
      using kdf_opens_stored [OF _ h(3) [unfolded ek] refl, of ?kc new_pw] that(2) h(2) by (simp add: MAX_HEADER_KEY_SIZE_def)
    then show ?thesis
      using h(1)
      by (intro wp_mono [OF write_both_wp]) (auto intro: change_outcomeI intact_primary_whole)
  qed
  show ?thesis
    unfolding change_volume_password_def new_kdf_params_candidate split_beta
    by (intro wp_rules; (simp only: map_err_Ok_iff)?)
      (use same assms(3) fill_random_OkD in \<open>auto simp: PKCS5_SALT_SIZE_def intro!: tail\<close>)
qed

lemma opened_header_ok:
  assumes "lib_ok L" "open_volume_file_with_kdf L fs path password keyfiles kdf pim = Ok r"
  shows "header_ok (or_header r)" "length (vh_master_keydata (or_header r)) = 256"
    "or_data_cipher r = or_header_cipher r"
    "or_master_key r = take (ct_key_size (or_header_cipher r) * 2) (vh_master_keydata (or_header r))"
    "or_data_offset r = vh_encrypted_area_start (or_header r)"
    "or_data_length r = (if vh_encrypted_area_length (or_header r) > 0
       then vh_encrypted_area_length (or_header r) else vh_volume_size (or_header r))"
    "or_volume_type r = (if vh_hidden_volume_size (or_header r) \<noteq> 0 then HiddenVolume else NormalVolume)"
proof -
  obtain data pw off c h b where o: "opens_at L data pw [make_kdf_candidate kdf pim] off (make_kdf_candidate kdf pim) c h"
    and r: "r = open_result c h (sub data off (off + 64)) (make_kdf_candidate kdf pim) b"
    using opened_result [OF assms] by metis
  have "kdf_opens L (drop off data) pw (make_kdf_candidate kdf pim) c h"
    using o by (simp add: opens_at_def)
  note h = opens_header [OF this]
  show "header_ok (or_header r)" "length (vh_master_keydata (or_header r)) = 256"
    "or_data_cipher r = or_header_cipher r"
    "or_master_key r = take (ct_key_size (or_header_cipher r) * 2) (vh_master_keydata (or_header r))"
    "or_data_offset r = vh_encrypted_area_start (or_header r)"
    "or_data_length r = (if vh_encrypted_area_length (or_header r) > 0
       then vh_encrypted_area_length (or_header r) else vh_volume_size (or_header r))"
    "or_volume_type r = (if vh_hidden_volume_size (or_header r) \<noteq> 0 then HiddenVolume else NormalVolume)"
    using h by (simp_all add: r open_result_def)
qed

lemma outcome_opens:
  assumes "change_outcome L r new_pw nkc old data" "opens_at L old pw [kc] 0 kc ct h"
  shows "opens_at L data pw [kc] 0 kc ct h
    \<or> (\<exists>salt. opens_at L data new_pw [nkc] (length old - 131072) nkc (or_header_cipher r)
          (stored_form L (or_header r \<lparr> vh_salt := salt \<rparr>)))"
proof (cases "data = old")
  case False
  let ?b = "length old - 131072"
  obtain hdr salt where o: "one_header_intact old hdr data" and l: "length hdr = 65536"
    and k: "kdf_opens L hdr new_pw nkc (or_header_cipher r) (stored_form L (or_header r \<lparr> vh_salt := salt \<rparr>))"
    using assms(1) False by (auto simp: change_outcome_def)
  have n: "length data = length old"
    using o by (simp add: one_header_intact_def Let_def)
  consider "sub data 0 65536 = sub old 0 65536" | "sub data ?b (length old - 65536) = hdr"
    using o by (auto simp: one_header_intact_def Let_def)
  then show ?thesis
  proof cases
    case 1
    have "take 512 data = take 512 old"
      using arg_cong [OF 1, of "take 512"] by (simp add: sub_def)
    then show ?thesis
      using assms(2) n kdf_opens_take [of data old] by (simp add: opens_at_def)
  next
    case 2
    have "131072 \<le> length old"
      using arg_cong [OF 2, of length] l n by simp
    then have b: "?b + 65536 = length old - 65536" "?b + 512 \<le> length data"
      using n by simp_all
    have "take 512 (drop ?b data) = take 512 hdr"
      using take_512_slot [of data ?b hdr] 2 b(1) by simp
    then show ?thesis
      using k b(2) kdf_opens_take [of "drop ?b data" hdr] by (auto simp: opens_at_def)
  qed
qed (use assms(2) in simp)

section \<open>Properties\<close>

text \<open>
  C11: A password change never loses the volume, whatever fails: an error of the
  random source or the key derivation, a failed or a partial write, at any of
  its steps. The file keeps its size and everything outside the two normal
  header slots, and afterwards either the old password still opens the primary
  header, or the new password opens the backup header to the same volume
  header under a new salt.
\<close>

theorem password_change_crash_safe:
  assumes "lib_ok L" "fs path = Inr (f_bytes (w_file w))"
    "open_volume_file_with_kdf L fs path password keyfiles kdf pim = Ok r"
    "mix_password L fs password keyfiles = Ok pw"
    "opens_at L (f_bytes (w_file w)) pw [make_kdf_candidate kdf pim] 0 (make_kdf_candidate kdf pim) ct h"
    "mix_password L fs new_password new_keyfiles = Ok new_pw"
    "change_volume_password L fs r new_password new_keyfiles new_kdf new_pim w = (res, w')"
  defines "n \<equiv> length (f_bytes (w_file w))" and "kc \<equiv> make_kdf_candidate kdf pim"
    and "nkc \<equiv> make_kdf_candidate new_kdf new_pim"
  shows "length (f_bytes (w_file w')) = n
    \<and> sub (f_bytes (w_file w')) 65536 (n - 131072) = sub (f_bytes (w_file w)) 65536 (n - 131072)
    \<and> sub (f_bytes (w_file w')) (n - 65536) n = sub (f_bytes (w_file w)) (n - 65536) n
    \<and> (opens_at L (f_bytes (w_file w')) pw [kc] 0 kc ct h
       \<or> (\<exists>salt. opens_at L (f_bytes (w_file w')) new_pw [nkc] (n - 131072) nkc (or_header_cipher r)
             (stored_form L (or_header r \<lparr> vh_salt := salt \<rparr>))))"
proof -
  have o: "change_outcome L r new_pw nkc (f_bytes (w_file w)) (f_bytes (w_file w'))"
    using change_wp [OF assms(1) opened_header_ok(1) [OF assms(1,3)] assms(6), of new_kdf new_pim w] assms(7)
    by (auto simp: wpS_def nkc_def split: res.splits)
  then show ?thesis
    using outcome_opens [OF o assms(5)]
    by (auto simp: change_outcome_def one_header_intact_def Let_def n_def kc_def)
qed

text \<open>A volume created with the concrete library, for the witnesses.\<close>

lemma toy_created:
  obtains data h r where "length data = 262656"
    "opens_at toy_lib data [1] [make_kdf_candidate Pbkdf2Sha256 0] 0 (make_kdf_candidate Pbkdf2Sha256 0) Aes h"
    "open_volume_file_with_kdf toy_lib (\<lambda>p. Inr data) ''v'' [1] [] Pbkdf2Sha256 0 = Ok r"
    "or_header_cipher r = Aes"
proof -
  let ?kc = "make_kdf_candidate Pbkdf2Sha256 0"
  obtain max_key where d: "derive toy_lib (kc_implementation ?kc) [1] (replicate 64 7)
     (kc_iterations ?kc) (replicate 192 0) = Ok max_key"
    using toy_derive by blast
  have b: "262144 \<le> length (f_bytes (w_file (toy_world 262656)))"
    unfolding toy_world_ok(3) by simp
  have k: "rng_for_creation Aes (w_rng (toy_world 262656)) (replicate 64 7) (replicate 64 7)"
    using toy_world_ok(4) [of Aes] by simp
  let ?h = "stored_form toy_lib (created_header 512 (replicate 64 7) (replicate 64 7))"
  obtain w' :: world where w: "length (f_bytes (w_file w')) = length (f_bytes (w_file (toy_world 262656)))"
    "opens_at toy_lib (f_bytes (w_file w')) [1] [?kc] 0 ?kc Aes ?h"
    using create_opens [OF toy_lib_ok toy_world_ok(1,2) b k d, of 512 False] by blast
  have l: "length (f_bytes (w_file w')) = 262656"
    unfolding w(1) toy_world_ok(3) by simp
  have "opens_first toy_lib (f_bytes (w_file w')) [1] ?kc Aes ?h"
    using w(2) by (simp add: opens_first_def opens_at_def all_supported_def)
  then have "open_volume_file_with_kdf toy_lib (\<lambda>p. Inr (f_bytes (w_file w'))) ''v'' [1] [] Pbkdf2Sha256 0 =
      Ok (open_result Aes ?h (take 64 (f_bytes (w_file w'))) ?kc False)"
    using open_primary [OF toy_lib_ok, of "\<lambda>p. Inr (f_bytes (w_file w'))"] l by (simp add: mix_password_def)
  then show ?thesis
    using that [OF l w(2)] by (simp add: open_result_def)
qed

text \<open>A crash: the third operation fails and leaves a hundred bytes of the new header on disk.\<close>

theorem password_change_crash_safe_witness:
  "\<exists>w r res w' kc nkc. open_volume_file_with_kdf toy_lib (\<lambda>p. Inr (f_bytes (w_file w))) ''v'' [1] [] Pbkdf2Sha256 0 = Ok r
    \<and> f_budget (w_file w) = Some 2 \<and> f_short (w_file w) = 100
    \<and> change_volume_password toy_lib (\<lambda>p. Inr []) r [2] [] Pbkdf2Sha512 5 w = (res, w')
    \<and> (opens_at toy_lib (f_bytes (w_file w')) [1] [kc] 0 kc Aes (or_header r)
       \<or> (\<exists>h. opens_at toy_lib (f_bytes (w_file w')) [2] [nkc] 131584 nkc Aes h))"
proof -
  let ?kc = "make_kdf_candidate Pbkdf2Sha256 0"
  obtain data h r where d: "length data = 262656" "opens_at toy_lib data [1] [?kc] 0 ?kc Aes h"
    "open_volume_file_with_kdf toy_lib (\<lambda>p. Inr data) ''v'' [1] [] Pbkdf2Sha256 0 = Ok r" "or_header_cipher r = Aes"
    using toy_created by metis
  let ?w = "toy_world 0 \<lparr> w_file := \<lparr> f_bytes = data, f_pos = 0, f_budget = Some 2, f_short = 100, f_err = [] \<rparr> \<rparr>"
  obtain res w' where c: "change_volume_password toy_lib (\<lambda>p. Inr data) r [2] [] Pbkdf2Sha512 5 ?w = (res, w')"
    by (cases "change_volume_password toy_lib (\<lambda>p. Inr data) r [2] [] Pbkdf2Sha512 5 ?w")
  have mp: "mix_password toy_lib fs pw [] = Ok pw" for fs pw
    by (simp add: mix_password_def)
  have c': "change_volume_password toy_lib (\<lambda>p. Inr []) r [2] [] Pbkdf2Sha512 5 ?w = (res, w')"
    using c by (simp add: change_volume_password_def mp)
  have "or_header r = h"
  proof -
    have "opens_first toy_lib data [1] ?kc Aes h"
      using d(2) by (simp add: opens_first_def opens_at_def all_supported_def)
    then show ?thesis
      using open_primary [OF toy_lib_ok, of "\<lambda>p. Inr data" "''v''" data "[1]" "[]" "[1]" Pbkdf2Sha256 0 Aes h] d(1,3) mp
      by (simp add: open_result_def)
  qed
  then show ?thesis
    using password_change_crash_safe [OF toy_lib_ok, of "\<lambda>p. Inr data" "''v''" ?w "[1]" "[]" Pbkdf2Sha256 0 r "[1]" Aes h
        "[2]" "[]" "[2]" Pbkdf2Sha512 5 res w'] d c c' mp
    by (intro exI [of _ ?w] exI [of _ r] exI [of _ res] exI [of _ w'] exI [of _ ?kc]
        exI [of _ "make_kdf_candidate Pbkdf2Sha512 5"]) auto
qed

text \<open>
  C12: A password change that succeeds opens the same volume with the new
  credentials: on a file that does not fail and holds the four header slots it
  does succeed, both normal slots then open with the new password, key
  derivation function and PIM, and opening the file gives the same master key,
  cipher, data area and volume type as before.
\<close>

theorem password_change_preserves_volume:
  assumes "lib_ok L" "fs path = Inr (f_bytes (w_file w))"
    "open_volume_file_with_kdf L fs path password keyfiles kdf pim = Ok r"
    "mix_password L fs new_password new_keyfiles = Ok new_pw"
    "reliable (w_file w)" "262144 \<le> length (f_bytes (w_file w))"
    "rng_bytes (w_rng w) = salt @ rest" "length salt = 64"
    "derive L (kc_implementation (make_kdf_candidate new_kdf new_pim)) new_pw salt
       (kc_iterations (make_kdf_candidate new_kdf new_pim)) (replicate 192 0) = Ok max_key"
  defines "n \<equiv> length (f_bytes (w_file w))" and "nkc \<equiv> make_kdf_candidate new_kdf new_pim"
  shows "\<exists>w'. change_volume_password L fs r new_password new_keyfiles new_kdf new_pim w = (Ok (), w')
    \<and> (\<forall>off \<in> {0, n - 131072}. opens_at L (f_bytes (w_file w')) new_pw [nkc] off nkc (or_header_cipher r)
          (stored_form L (or_header r \<lparr> vh_salt := salt \<rparr>)))
    \<and> (no_earlier_cipher L (f_bytes (w_file w')) new_pw nkc (or_header_cipher r)
        \<and> mix_password L fs' new_password new_keyfiles = Ok new_pw \<and> fs' path = Inr (f_bytes (w_file w')) \<longrightarrow>
        (\<exists>r'. open_volume_file_with_kdf L fs' path new_password new_keyfiles new_kdf new_pim = Ok r'
          \<and> or_master_key r' = or_master_key r \<and> or_data_cipher r' = or_data_cipher r
          \<and> or_data_offset r' = or_data_offset r \<and> or_data_length r' = or_data_length r
          \<and> or_volume_type r' = or_volume_type r \<and> or_salt r' = salt))"
proof -
  let ?ct = "or_header_cipher r" and ?h = "stored_form L (or_header r \<lparr> vh_salt := salt \<rparr>)"
  let ?ek = "take (2 * ct_key_size ?ct) max_key" and ?d = "f_bytes (w_file w)"
  note ok = opened_header_ok [OF assms(1,3)]
  have lm: "length max_key = 192"
    using derive_length [OF assms(1,9)] by simp
  have ek: "slice max_key 0 (ct_key_size ?ct * 2) = (Ok ?ek :: bytes vres)" "length ?ek = 2 * ct_key_size ?ct"
    using lm ct_key_size_le [of ?ct] by (simp_all add: sub_def mult.commute)
  obtain hdr where h: "new_header_buf L r salt ?ek = Ok hdr" "length hdr = 65536" "take 64 hdr = salt"
    "header_opens L (hdr @ []) ?ct ?ek ?h"
    using new_header_buf_alt [OF assms(1) ok(1) assms(8) ek(2)] by blast
  let ?d' = "write_at (write_at ?d (n - 131072) hdr) 0 hdr"
  obtain w' where w': "change_volume_password L fs r new_password new_keyfiles new_kdf new_pim w = (Ok (), w')"
    "f_bytes (w_file w') = ?d'"
    using assms(4-9) h(1,2) ek(1)
    by (simp add: change_volume_password_def run_simps new_kdf_params_candidate random_Ok reliable_ops
        write_both_headers_def VOLUME_HEADER_SIZE_def PKCS5_SALT_SIZE_def MAX_HEADER_KEY_SIZE_def n_def)
  have nn: "131072 \<le> n - 131072" "n - 131072 + 65536 \<le> length ?d" "length ?d' = n"
    using assms(6) h(2) by (simp_all add: n_def)
  have slot: "sub ?d' off (off + 65536) = hdr" if "off \<in> {0, n - 131072}" for off
    using that nn h(2) sub_write_at_same [of 0 hdr "write_at ?d (n - 131072) hdr"] sub_write_at_same [of "n - 131072" hdr ?d]
    by (auto simp: sub_write_at_other)
  have t: "take 512 (drop off ?d') = take 512 hdr" if "off \<in> {0, n - 131072}" for off
    using take_512_slot [OF slot [OF that]] .
  have k: "kdf_opens L (drop off ?d') new_pw nkc ?ct ?h" if "off \<in> {0, n - 131072}" for off
    using kdf_opens_stored [OF _ h(4) t [OF that]] assms(9) h(3) by (simp add: nkc_def)
  have "take 64 ?d' = salt"
    using arg_cong [OF t [of 0], of "take 64"] h(3) by simp
  then have op: "open_volume_file_with_kdf L fs' path new_password new_keyfiles new_kdf new_pim =
      Ok (open_result ?ct ?h salt nkc False)"
    if "no_earlier_cipher L ?d' new_pw nkc ?ct" "mix_password L fs' new_password new_keyfiles = Ok new_pw" "fs' path = Inr ?d'"
    using open_primary [OF assms(1) that(3,2), of new_kdf new_pim ?ct ?h] k [of 0] that(1) nn assms(6)
    by (simp add: opens_first_def no_earlier_cipher_def nkc_def n_def)
  have same: "or_master_key (open_result ?ct ?h salt nkc False) = or_master_key r"
    "or_data_cipher (open_result ?ct ?h salt nkc False) = or_data_cipher r"
    "or_data_offset (open_result ?ct ?h salt nkc False) = or_data_offset r"
    "or_data_length (open_result ?ct ?h salt nkc False) = or_data_length r"
    "or_volume_type (open_result ?ct ?h salt nkc False) = or_volume_type r"
    "or_salt (open_result ?ct ?h salt nkc False) = salt"
    using ok(2) by (simp_all add: ok(3-7) open_result_def stored_form_def key_area_def resize_def)
  have "\<forall>off \<in> {0, n - 131072}. opens_at L ?d' new_pw [nkc] off nkc ?ct ?h"
    using k nn by (auto simp: opens_at_def)
  then show ?thesis
    using w' op same by (intro exI [of _ w']) auto
qed

theorem password_change_preserves_volume_witness:
  "\<exists>w r w' r'. open_volume_file_with_kdf toy_lib (\<lambda>p. Inr (f_bytes (w_file w))) ''v'' [1] [] Pbkdf2Sha256 0 = Ok r
    \<and> change_volume_password toy_lib (\<lambda>p. Inr (f_bytes (w_file w))) r [2] [] Pbkdf2Sha256 0 w = (Ok (), w')
    \<and> open_volume_file_with_kdf toy_lib (\<lambda>p. Inr (f_bytes (w_file w'))) ''v'' [2] [] Pbkdf2Sha256 0 = Ok r'
    \<and> or_master_key r' = or_master_key r \<and> or_salt r' = replicate 64 7"
proof -
  let ?kc = "make_kdf_candidate Pbkdf2Sha256 0"
  obtain data h r where d: "length data = 262656" 
    "open_volume_file_with_kdf toy_lib (\<lambda>p. Inr data) ''v'' [1] [] Pbkdf2Sha256 0 = Ok r" "or_header_cipher r = Aes"
    using toy_created by metis
  let ?w = "toy_world 0 \<lparr> w_file := \<lparr> f_bytes = data, f_pos = 0, f_budget = None, f_short = 0, f_err = [] \<rparr> \<rparr>"
  obtain max_key where k: "derive toy_lib (kc_implementation ?kc) [2] (replicate 64 7)
     (kc_iterations ?kc) (replicate 192 0) = Ok max_key"
    using toy_derive by blast
  have mp: "mix_password toy_lib fs pw [] = Ok pw" for fs pw
    by (simp add: mix_password_def)
  have na: "no_earlier_cipher toy_lib x [2] ?kc Aes" for x
    by (simp add: no_earlier_cipher_def all_supported_def)
  have r: "rng_bytes (w_rng ?w) = replicate 64 7 @ replicate 640 7"
    by (simp add: toy_world_def flip: replicate_add)
  have f: "reliable (w_file ?w)" "262144 \<le> length (f_bytes (w_file ?w))" "f_bytes (w_file ?w) = data"
    using d(1) by (simp_all add: reliable_def)
  obtain w' :: world where c: "change_volume_password toy_lib (\<lambda>p. Inr data) r [2] [] Pbkdf2Sha256 0 ?w = (Ok (), w')"
    by (rule exE [OF password_change_preserves_volume [OF toy_lib_ok _ d(2) mp f(1,2) r _ k]]) (auto simp: f(3))
  obtain r' where "open_volume_file_with_kdf toy_lib (\<lambda>p. Inr (f_bytes (w_file w'))) ''v'' [2] [] Pbkdf2Sha256 0 = Ok r'"
    "or_master_key r' = or_master_key r" "or_salt r' = replicate 64 7"
    using password_change_preserves_volume [OF toy_lib_ok _ d(2) mp f(1,2) r _ k,
        where fs' = "\<lambda>p. Inr (f_bytes (w_file w'))"] c na mp d(3) f(3) by auto
  then show ?thesis
    using c d(2) f(3) by metis
qed

end
