(* ===== verification/RestoreVol.thy ===== *)
theory RestoreVol
  imports ChangeVol
begin

text \<open>
  Restoring the primary header from its backup copy
  (\<open>vcrypt-volume/src/restore.rs\<close>): the backup is read and checked with the
  credentials before anything is written, the primary slot is then written,
  and last the backup itself again, ignoring errors.
\<close>

section \<open>Operation\<close>

text \<open>Step one: where the backup is, and what it holds.\<close>

definition read_backup :: "(vfile, VolumeError, nat \<times> bytes) sm" where
  "read_backup =
     bindS (map_errS VolIoError seek_end) (\<lambda>file_end.
     if file_end < 2 * VOLUME_HEADER_SIZE
     then liftR (Err (InvalidFormat ''File too small to contain a backup header''))
     else
       let backup_offset = file_end - 2 * VOLUME_HEADER_SIZE in
       bindS (map_errS VolIoError (seek_start backup_offset)) (\<lambda>_.
       bindS (map_errS VolIoError (file_read_exact VOLUME_HEADER_SIZE)) (\<lambda>backup_header.
       ret (backup_offset, backup_header))))"

text \<open>Step two: the candidates the credentials allow.\<close>

definition restore_candidates :: "KdfAlgorithm option \<Rightarrow> int option \<Rightarrow> KdfCandidate list" where
  "restore_candidates kdf pim = (case kdf of
      Some k \<Rightarrow> [make_kdf_candidate k (case pim of Some p \<Rightarrow> p | None \<Rightarrow> 0)]
    | None \<Rightarrow> auto_kdf_candidates pim)"

text \<open>The best-effort refresh: \<open>let _ = ...\<close> drops the result but not the effect.\<close>

definition ignore_result :: "('s, 'e, 'a) sm \<Rightarrow> ('s, 'f, unit) sm" where
  "ignore_result m = (\<lambda>s. case m s of (Panic, s') \<Rightarrow> (Panic, s') | (r, s') \<Rightarrow> (Ok (), s'))"

definition write_restored :: "nat \<Rightarrow> bytes \<Rightarrow> (vfile, VolumeError, unit) sm" where
  "write_restored backup_offset backup_header =
     bindS (map_errS VolIoError (seek_start 0)) (\<lambda>_.
     bindS (map_errS VolIoError (write_all backup_header)) (\<lambda>_.
     bindS (map_errS VolIoError flush) (\<lambda>_.
     ignore_result (
       bindS (seek_start backup_offset) (\<lambda>_.
       bindS (write_all backup_header) (\<lambda>_. flush))))))"

definition restore_volume_header ::
  "crypto_lib \<Rightarrow> filesystem \<Rightarrow> bytes \<Rightarrow> string list \<Rightarrow> KdfAlgorithm option \<Rightarrow> int option \<Rightarrow> (vfile, VolumeError, unit) sm" where
  "restore_volume_header L fs password keyfiles kdf pim =
     bindS read_backup (\<lambda>(backup_offset, backup_header).
     bindS (liftR (mix_password L fs password keyfiles)) (\<lambda>pw.
     bindS (liftR (slice backup_header 0 VOLUME_HEADER_EFFECTIVE_SIZE)) (\<lambda>effective.
     bindS (liftR (try_open L effective pw (restore_candidates kdf pim) True)) (\<lambda>_.
     write_restored backup_offset backup_header))))"

section \<open>What may be on disk\<close>

text \<open>Writing the backup over itself, in whole or in part, changes nothing.\<close>

lemma write_same:
  assumes "a + length bs \<le> length data" "sub data a (a + length bs) = bs"
  shows "write_at data a (take k bs) = data"
proof -
  have t: "take k bs = sub data a (a + length (take k bs))"
    using arg_cong [OF assms(2), of "take k"] by (simp add: sub_def min.commute)
  have le: "a + length (take k bs) \<le> length data"
    using assms(1) by simp
  have "blit data a (sub data a (a + length (take k bs))) = data"
    by (rule blit_sub_id) (use le in simp_all)
  then show ?thesis
    using t le by (simp only: write_at_blit)
qed

lemma wp_ignore_result [wp_rules]:
  "wpS m (\<lambda>_. Q ()) (\<lambda>s. Q () s \<and> E s) s \<Longrightarrow> wpS (ignore_result m) Q E s"
  by (auto simp: wpS_def ignore_result_def split: prod.splits res.splits)

text \<open>
  \<open>restored old data\<close>: the primary slot holds a prefix of the backup header,
  and nothing else has changed.
\<close>

definition backup_of :: "bytes \<Rightarrow> bytes" where
  "backup_of old = sub old (length old - 131072) (length old - 65536)"

definition restored :: "bytes \<Rightarrow> bytes \<Rightarrow> bool" where
  "restored old data \<longleftrightarrow> (\<exists>k. data = write_at old 0 (take k (backup_of old)))"

definition backup_opens :: "crypto_lib \<Rightarrow> bytes \<Rightarrow> KdfCandidate list \<Rightarrow> bytes \<Rightarrow> bool" where
  "backup_opens L pw cands old \<longleftrightarrow> (\<exists>k c h. opens_at L old pw cands (length old - 131072) k c h)"

lemma restored_refl: "restored old old"
  unfolding restored_def by (intro exI [of _ 0]) (simp add: write_at_def)

lemma backup_parts:
  assumes "196608 \<le> length old"
  shows "length (backup_of old) = 65536" "length old - 131072 + 65536 = length old - 65536"
    "65536 \<le> length old - 131072"
  using assms by (simp_all add: backup_of_def)

lemma refresh_same:
  assumes "196608 \<le> length old"
  shows "write_at (write_at old 0 (backup_of old)) (length old - 131072) (take k (backup_of old)) =
    write_at old 0 (backup_of old)"
proof (rule write_same)
  note p = backup_parts [OF assms]
  show "length old - 131072 + length (backup_of old) \<le> length (write_at old 0 (backup_of old))"
    using p assms by simp
  have "sub (write_at old 0 (backup_of old)) (length old - 131072) (length old - 65536) = backup_of old"
    using p assms by (simp add: sub_write_at_other) (simp add: backup_of_def)
  then show "sub (write_at old 0 (backup_of old)) (length old - 131072) (length old - 131072 + length (backup_of old)) =
      backup_of old"
    using p by simp
qed

lemma refresh_same_whole:
  "196608 \<le> length old \<Longrightarrow>
    write_at (write_at old 0 (backup_of old)) (length old - 131072) (backup_of old) = write_at old 0 (backup_of old)"
  using refresh_same [of old "length (backup_of old)"] by simp

lemma write_restored_wp:
  assumes "196608 \<le> length (f_bytes f)"
  defines "old \<equiv> f_bytes f"
  shows "wpS (write_restored (length old - 131072) (backup_of old))
    (\<lambda>_ f'. f_bytes f' = write_at old 0 (backup_of old)) (\<lambda>f'. restored old (f_bytes f')) f"
proof -
  have r: "restored old (write_at old 0 (backup_of old))"
    unfolding restored_def by (intro exI [of _ "length (backup_of old)"]) simp
  note same = refresh_same [OF assms(1)] refresh_same_whole [OF assms(1)]
  show ?thesis
    unfolding write_restored_def
    by (intro wp_rules; use r same in \<open>auto simp: old_def restored_refl restored_def\<close>)
qed

lemma restore_wp:
  fixes kdf :: "KdfAlgorithm option" and pim :: "int option"
  assumes "lib_ok L" "196608 \<le> length (f_bytes f)" "mix_password L fs password keyfiles = Ok pw"
  defines "old \<equiv> f_bytes f" and "opens \<equiv> backup_opens L pw (restore_candidates kdf pim) (f_bytes f)"
  shows "wpS (restore_volume_header L fs password keyfiles kdf pim)
    (\<lambda>_ f'. opens \<and> f_bytes f' = write_at old 0 (backup_of old))
    (\<lambda>f'. f_bytes f' = old \<or> opens \<and> restored old (f_bytes f')) f"
proof -
  note p = backup_parts [OF assms(2)]
  have tail: "wpS (write_restored (length old - 131072) (backup_of old))
      (\<lambda>_ f'. opens \<and> f_bytes f' = write_at old 0 (backup_of old))
      (\<lambda>f'. f_bytes f' = old \<or> opens \<and> restored old (f_bytes f')) f'"
    if "f_bytes f' = old" "opens" for f' :: vfile
    using write_restored_wp [of f'] assms(2) that unfolding old_def by (auto intro: wp_mono)
  have opens if "try_open L (take 512 (backup_of old)) pw (restore_candidates kdf pim) True = Ok r" for r
  proof -
    have l: "512 \<le> length (take 512 (backup_of old))"
      using p(1) by (simp add: old_def)
    have t: "take 512 (take 512 (backup_of old)) = take 512 (drop (length old - 131072) old)"
      using p by (simp add: backup_of_def old_def sub_def)
    show ?thesis
    proof (cases rule: try_open_spec [OF assms(1) l, of "restore_candidates kdf pim" pw True])
      case (1 k c h)
      then show ?thesis
        using kdf_opens_take [OF t] assms(2) unfolding opens_def backup_opens_def opens_at_def old_def by auto
    qed (use that in simp)
  qed
  then show ?thesis
    unfolding restore_volume_header_def read_backup_def Let_def split_beta
    by (intro wp_rules, simp add: old_def, split if_split, intro conjI impI)
      (intro wp_rules; use assms(2,3) p tail in \<open>auto simp: old_def VOLUME_HEADER_SIZE_def
        VOLUME_HEADER_EFFECTIVE_SIZE_def backup_of_def sub_def\<close>)+
qed

lemma restored_frame:
  assumes "196608 \<le> length old" "restored old data"
  shows "length data = length old" "a \<ge> 65536 \<Longrightarrow> sub data a b = sub old a b"
proof -
  obtain k where d: "data = write_at old 0 (take k (backup_of old))"
    using assms(2) by (auto simp: restored_def)
  have l: "0 + length (take k (backup_of old)) \<le> length old" "0 + length (take k (backup_of old)) \<le> 65536"
    using assms(1) backup_parts [OF assms(1)] by auto
  show "length data = length old"
    unfolding d using l(1) by (simp only: length_write_at)
  show "sub data a b = sub old a b" if "a \<ge> 65536"
    unfolding d by (rule sub_write_at_other) (use that l in linarith)+
qed

lemma opens_at_same:
  assumes "sub data a (a + 512) = sub old b (b + 512)" "a + 512 \<le> length data" "b + 512 \<le> length old"
  shows "opens_at L data pw cands a k c h = opens_at L old pw cands b k c h"
proof -
  have t: "take 512 (drop a data) = take 512 (drop b old)"
    using assms(1) by (simp add: sub_def)
  show ?thesis
    using assms(2,3) kdf_opens_take [OF t] by (simp add: opens_at_def)
qed

text \<open>Without failures, a restore with credentials that open the backup goes through.\<close>

lemma restore_run:
  assumes "lib_ok L" "reliable f" "196608 \<le> length (f_bytes f)" "mix_password L fs password keyfiles = Ok pw"
    "backup_opens L pw (restore_candidates kdf pim) (f_bytes f)"
  shows "fst (restore_volume_header L fs password keyfiles kdf pim f) = Ok ()"
proof -
  let ?old = "f_bytes f"
  note p = backup_parts [OF assms(3)]
  obtain k c h where k: "k \<in> set (restore_candidates kdf pim)" "kdf_opens L (drop (length ?old - 131072) ?old) pw k c h"
    using assms(5) by (auto simp: backup_opens_def opens_at_def)
  have t: "take 512 (take 512 (backup_of ?old)) = take 512 (drop (length ?old - 131072) ?old)"
    using p by (simp add: backup_of_def sub_def)
  have l: "512 \<le> length (take 512 (backup_of ?old))"
    using p(1) by simp
  have "\<exists>r. try_open L (take 512 (backup_of ?old)) pw (restore_candidates kdf pim) True = Ok r"
  proof (cases rule: try_open_spec [OF assms(1) l, of "restore_candidates kdf pim" pw True])
    case 2
    then show ?thesis
      using k kdf_opens_take [OF t] by auto
  qed blast
  moreover have "slice (backup_of ?old) 0 512 = (Ok (take 512 (backup_of ?old)) :: bytes vres)"
    using p(1) by (simp add: sub_def)
  moreover have "sub ?old (length ?old - 131072) (length ?old - 65536) = backup_of ?old"
    by (simp add: backup_of_def)
  ultimately show ?thesis
    using assms(2-4) p
    by (auto simp: restore_volume_header_def read_backup_def write_restored_def ignore_result_def bindS_def
        map_errS_def ret_def liftR_def Let_def reliable_ops VOLUME_HEADER_SIZE_def VOLUME_HEADER_EFFECTIVE_SIZE_def)
qed

section \<open>Properties\<close>

text \<open>
  C18: Restoring a header writes only after the backup header has opened with the
  credentials given, changes nothing but the primary slot, and leaves a backup
  that opens as before, whatever fails on the way. When it reports success the
  primary slot is a copy of the backup, so the same credentials open it; and
  without I/O errors it succeeds exactly when the backup opens.
\<close>

theorem restore_safe:
  assumes "lib_ok L" "196608 \<le> length (f_bytes f)" "mix_password L fs password keyfiles = Ok pw"
    "restore_volume_header L fs password keyfiles kdf pim f = (res, f')"
  defines "n \<equiv> length (f_bytes f)" and "cands \<equiv> restore_candidates kdf pim"
  shows "length (f_bytes f') = n \<and> sub (f_bytes f') 65536 n = sub (f_bytes f) 65536 n
    \<and> (\<forall>k c h. opens_at L (f_bytes f') pw cands (n - 131072) k c h = opens_at L (f_bytes f) pw cands (n - 131072) k c h)
    \<and> (f_bytes f' \<noteq> f_bytes f \<longrightarrow> (\<exists>k c h. opens_at L (f_bytes f) pw cands (n - 131072) k c h))
    \<and> (res = Ok () \<longrightarrow> sub (f_bytes f') 0 65536 = sub (f_bytes f) (n - 131072) (n - 65536)
        \<and> (\<exists>k c h. opens_at L (f_bytes f') pw cands 0 k c h))
    \<and> (reliable f \<longrightarrow> (res = Ok () \<longleftrightarrow> (\<exists>k c h. opens_at L (f_bytes f) pw cands (n - 131072) k c h)))"
proof -
  let ?old = "f_bytes f" and ?new = "f_bytes f'" and ?opens = "backup_opens L pw cands (f_bytes f)"
  note p = backup_parts [OF assms(2)]
  have wp: "case res of Ok u \<Rightarrow> ?opens \<and> ?new = write_at ?old 0 (backup_of ?old) | _ \<Rightarrow> ?new = ?old \<or> ?opens \<and> restored ?old ?new"
    using restore_wp [OF assms(1-3), of kdf pim] assms(4) by (auto simp: wpS_def cands_def split: res.splits)
  have r: "restored ?old ?new" "?new \<noteq> ?old \<Longrightarrow> ?opens"
    using wp restored_refl [of ?old] unfolding restored_def
    by (auto split: res.splits intro: exI [of _ "length (backup_of ?old)"])
  note fr = restored_frame [OF assms(2) r(1)]
  have same: "opens_at L ?new pw cands (n - 131072) k c h = opens_at L ?old pw cands (n - 131072) k c h" for k c h
    using fr p assms(2) by (intro opens_at_same) (simp_all add: n_def)
  have ok: "sub ?new 0 65536 = backup_of ?old" ?opens if "res = Ok ()"
    using wp that sub_write_at_same [of 0 "backup_of ?old" ?old] p assms(2) by simp_all
  have "\<exists>k c h. opens_at L ?new pw cands 0 k c h" if "res = Ok ()"
  proof -
    have "sub ?new 0 (0 + 512) = sub ?old (n - 131072) (n - 131072 + 512)"
      using arg_cong [OF ok(1) [OF that], of "take 512"] p by (simp add: backup_of_def sub_def n_def)
    then have "opens_at L ?new pw cands 0 k c h = opens_at L ?old pw cands (n - 131072) k c h" for k c h
      using fr(1) assms(2) by (intro opens_at_same) (simp_all add: n_def)
    then show ?thesis
      using ok(2) [OF that] by (simp add: backup_opens_def n_def)
  qed
  moreover have "res = Ok ()" if "reliable f" ?opens
    using restore_run [OF assms(1) that(1) assms(2,3), of kdf pim] that(2) assms(4) by (simp add: cands_def)
  ultimately show ?thesis
    using fr r(2) same ok by (auto simp: n_def backup_opens_def backup_of_def)
qed

theorem restore_safe_witness:
  "\<exists>data f'. restore_volume_header toy_lib (\<lambda>p. Inr []) [1] [] (Some Pbkdf2Sha256) None
      \<lparr> f_bytes = data, f_pos = 0, f_budget = None, f_short = 0, f_err = [] \<rparr> = (Ok (), f')
    \<and> sub data 0 65536 = replicate 65536 0 \<and> sub (f_bytes f') 0 65536 = sub data 131072 196608"
proof -
  let ?kc = "make_kdf_candidate Pbkdf2Sha256 0"
  obtain d h where d: "length d = 262656" "opens_at toy_lib d [1] [?kc] 0 ?kc Aes h"
    using toy_created by metis
  let ?data = "replicate 131072 0 @ take 131072 d"
  let ?f = "\<lparr> f_bytes = ?data, f_pos = 0, f_budget = None, f_short = 0, f_err = [] \<rparr>"
  have l: "length ?data = 262144" "reliable ?f"
    using d(1) by (simp_all add: reliable_def)
  have "opens_at toy_lib ?data [1] [?kc] 131072 ?kc Aes h"
    using d opens_at_same [of ?data 131072 d 0] by (simp add: sub_def)
  then have o: "opens_at toy_lib (f_bytes ?f) [1] (restore_candidates (Some Pbkdf2Sha256) None) 131072 ?kc Aes h"
    by (simp add: restore_candidates_def)
  obtain res f' where r: "restore_volume_header toy_lib (\<lambda>p. Inr []) [1] [] (Some Pbkdf2Sha256) None ?f = (res, f')"
    by (cases "restore_volume_header toy_lib (\<lambda>p. Inr []) [1] [] (Some Pbkdf2Sha256) None ?f")
  have big: "196608 \<le> length (f_bytes ?f)" and mp: "mix_password toy_lib (\<lambda>p. Inr []) [1] [] = Ok [1]"
    using l by (simp_all add: mix_password_def)
  from restore_safe [OF toy_lib_ok big mp r] have "res = Ok ()" "sub (f_bytes f') 0 65536 = sub ?data 131072 196608"
    using l o by auto
  then show ?thesis
    using r by (intro exI [of _ ?data] exI [of _ f']) (simp add: sub_def)
qed

end
