(* ===== verification/VolSectorCipher.thy ===== *)
theory VolSectorCipher
  imports SectorSpec VolumeErrors
begin

text \<open>
  The user-mode sector cipher (\<open>vcrypt-volume/src/sector_cipher.rs\<close>): the
  objects behind the \<open>SectorCipher\<close> trait, their construction from a volume
  key, and the refinement of the specification in theory \<open>SectorSpec\<close> on data
  of every block-aligned length.
\<close>

section \<open>Objects and construction\<close>

datatype SectorCipherObj =
    SxAes "bytes XtsMode"
  | SxSerpent "bytes XtsMode"
  | SxTwofish "Twofish XtsMode"
  | SxCamellia "bytes XtsMode"
  | SxKuznyechik "bytes XtsMode"
  | CascadeSectorCipher "SectorCipherObj list"

definition xts_enc_err :: "bytes cres \<Rightarrow> bytes vres" where
  "xts_enc_err = map_err (\<lambda>e. VolCryptoError (''XTS encrypt: '' @ display_crypto_error e))"

definition xts_dec_err :: "bytes cres \<Rightarrow> bytes vres" where
  "xts_dec_err = map_err (\<lambda>e. VolCryptoError (''XTS decrypt: '' @ display_crypto_error e))"

fun obj_encrypt_sector :: "crypto_lib \<Rightarrow> SectorCipherObj \<Rightarrow> u64 \<Rightarrow> bytes \<Rightarrow> bytes vres" where
  "obj_encrypt_sector L (SxAes xts) sector data = xts_enc_err (xts_encrypt (AesCipher L) xts sector data)"
| "obj_encrypt_sector L (SxSerpent xts) sector data = xts_enc_err (xts_encrypt (SerpentCipher L) xts sector data)"
| "obj_encrypt_sector L (SxTwofish xts) sector data = xts_enc_err (xts_encrypt TwofishCipher xts sector data)"
| "obj_encrypt_sector L (SxCamellia xts) sector data = xts_enc_err (xts_encrypt (CamelliaCipher L) xts sector data)"
| "obj_encrypt_sector L (SxKuznyechik xts) sector data = xts_enc_err (xts_encrypt (KuznyechikCipher L) xts sector data)"
| "obj_encrypt_sector L (CascadeSectorCipher passes) sector data =
     fold_res (\<lambda>pass data. obj_encrypt_sector L pass sector data) passes data"

fun obj_decrypt_sector :: "crypto_lib \<Rightarrow> SectorCipherObj \<Rightarrow> u64 \<Rightarrow> bytes \<Rightarrow> bytes vres" where
  "obj_decrypt_sector L (SxAes xts) sector data = xts_dec_err (xts_decrypt (AesCipher L) xts sector data)"
| "obj_decrypt_sector L (SxSerpent xts) sector data = xts_dec_err (xts_decrypt (SerpentCipher L) xts sector data)"
| "obj_decrypt_sector L (SxTwofish xts) sector data = xts_dec_err (xts_decrypt TwofishCipher xts sector data)"
| "obj_decrypt_sector L (SxCamellia xts) sector data = xts_dec_err (xts_decrypt (CamelliaCipher L) xts sector data)"
| "obj_decrypt_sector L (SxKuznyechik xts) sector data = xts_dec_err (xts_decrypt (KuznyechikCipher L) xts sector data)"
| "obj_decrypt_sector L (CascadeSectorCipher passes) sector data =
     fold_res (\<lambda>pass data. obj_decrypt_sector L pass sector data) (rev passes) data"

definition single_xts ::
  "'c block_cipher_ops \<Rightarrow> (bytes \<Rightarrow> 'c cres) \<Rightarrow> ('c XtsMode \<Rightarrow> SectorCipherObj) \<Rightarrow> bytes \<Rightarrow> SectorCipherObj vres" where
  "single_xts B ctor wrap key =
     bind_res (map_err (\<lambda>e. VolCryptoError (''XTS: '' @ display_crypto_error e)) (xts_new B ctor key))
       (\<lambda>xts. Ok (wrap xts))"

definition single_pass_xts :: "crypto_lib \<Rightarrow> CipherType \<Rightarrow> bytes \<Rightarrow> SectorCipherObj vres" where
  "single_pass_xts L ct key = (case ct of
      Aes \<Rightarrow> single_xts (AesCipher L) (aes_new L) SxAes key
    | Serpent \<Rightarrow> single_xts (SerpentCipher L) (serpent_new L) SxSerpent key
    | Twofish \<Rightarrow> single_xts TwofishCipher twofish_new SxTwofish key
    | Camellia \<Rightarrow> single_xts (CamelliaCipher L) (camellia_new L) SxCamellia key
    | Kuznyechik \<Rightarrow> single_xts (KuznyechikCipher L) (kuznyechik_new L) SxKuznyechik key
    | _ \<Rightarrow> Err (Unsupported (''cascade pass must be single cipher, got '' @ ct_name ct)))"

definition build_cascade_passes :: "crypto_lib \<Rightarrow> CascadeMode \<Rightarrow> bytes \<Rightarrow> SectorCipherObj list vres" where
  "build_cascade_passes L mode key =
     (let single_key_len = cm_key_size mode in
      if length key \<noteq> single_key_len * 2 then
        Err (VolCryptoError (''Bad key size for '' @ cm_name mode @ '': expected '' @
          show_nat (single_key_len * 2) @ '', got '' @ show_nat (length key)))
      else
        let data_half = take single_key_len key; tweak_half = drop single_key_len key in
        mapM_res (\<lambda>(ct, offset).
          bind_res (slice data_half offset (offset + 32)) (\<lambda>d.
          bind_res (slice tweak_half offset (offset + 32)) (\<lambda>t.
          single_pass_xts L ct (d @ t)))) (veracrypt_order mode))"

definition create_sector_cipher :: "crypto_lib \<Rightarrow> CipherType \<Rightarrow> bytes \<Rightarrow> SectorCipherObj vres" where
  "create_sector_cipher L cipher key = (case cipher of
      Aes \<Rightarrow> single_xts (AesCipher L) (aes_new L) SxAes key
    | Serpent \<Rightarrow> single_xts (SerpentCipher L) (serpent_new L) SxSerpent key
    | Twofish \<Rightarrow> single_xts TwofishCipher twofish_new SxTwofish key
    | Camellia \<Rightarrow> single_xts (CamelliaCipher L) (camellia_new L) SxCamellia key
    | Kuznyechik \<Rightarrow> single_xts (KuznyechikCipher L) (kuznyechik_new L) SxKuznyechik key
    | cipher \<Rightarrow> (case mode_of cipher of
        None \<Rightarrow> Err (Unsupported ''unknown cipher'')
      | Some mode \<Rightarrow> bind_res (build_cascade_passes L mode key)
          (\<lambda>passes. Ok (CascadeSectorCipher passes))))"

section \<open>Refinement of the specification\<close>

definition obj_single :: "CipherType \<times> bytes \<Rightarrow> SectorCipherObj" where
  "obj_single = (\<lambda>(ct, k). case ct of
      Serpent \<Rightarrow> SxSerpent (mk_xts id k)
    | Twofish \<Rightarrow> SxTwofish (mk_xts new256 k)
    | Camellia \<Rightarrow> SxCamellia (mk_xts id k)
    | Kuznyechik \<Rightarrow> SxKuznyechik (mk_xts id k)
    | _ \<Rightarrow> SxAes (mk_xts id k))"

lemma single_pass_xts_Ok:
  assumes "lib_ok L" "pass_ok (ct, k)"
  shows "single_pass_xts L ct k = Ok (obj_single (ct, k))"
  using assms
  by (cases ct) (simp_all add: pass_ok_def obj_single_def single_pass_xts_def single_xts_def
      single_xts_new [OF assms(1)] id_def)

lemma obj_single_sector:
  assumes "lib_ok L" "pass_ok p" "16 dvd length data" "data \<noteq> []"
  shows "obj_encrypt_sector L (obj_single p) i data = Ok (pass_E L p i data)"
    and "obj_decrypt_sector L (obj_single p) i data = Ok (pass_D L p i data)"
proof -
  obtain ct k where p: "p = (ct, k)" by force
  have k: "mode_of ct = None" "length k = 64"
    using assms(2) by (simp_all add: p pass_ok_def)
  note e = single_xts_encrypt [OF assms(1) k(2) assms(3,4)] single_xts_decrypt [OF assms(1) k(2) assms(3,4)]
  show "obj_encrypt_sector L (obj_single p) i data = Ok (pass_E L p i data)"
    "obj_decrypt_sector L (obj_single p) i data = Ok (pass_D L p i data)"
    using k(1) by (cases ct; simp add: p obj_single_def e xts_enc_err_def xts_dec_err_def)+
qed

lemma obj_cascade_sector:
  assumes "lib_ok L" "\<forall>p \<in> set ps. pass_ok p" "16 dvd length data" "data \<noteq> []"
  shows "fold_res (\<lambda>pass. obj_encrypt_sector L pass i) (map obj_single ps) data =
      Ok (fold (\<lambda>p. pass_E L p i) ps data)"
    and "fold_res (\<lambda>pass. obj_decrypt_sector L pass i) (map obj_single ps) data =
      Ok (fold (\<lambda>p. pass_D L p i) ps data)"
  using assms
proof (induction ps arbitrary: data)
  case (Cons p ps)
  have ne: "x \<noteq> []" if "length x = length d" "d \<noteq> []" for x d :: bytes
    using that by force
  { case 1
    then show ?case
      using Cons(1) [of "pass_E L p i data"] pass_length(1) [of L p data i] ne [of "pass_E L p i data" data]
      by (simp add: obj_single_sector)
  next
    case 2
    then show ?case
      using Cons(2) [of "pass_D L p i data"] pass_length(2) [of L p data i] ne [of "pass_D L p i data" data]
      by (simp add: obj_single_sector)
  }
qed simp_all

definition obj_refines :: "crypto_lib \<Rightarrow> SectorCipherObj \<Rightarrow> CipherType \<Rightarrow> bytes \<Rightarrow> bool" where
  "obj_refines L c ct key \<longleftrightarrow> (\<forall>i data. 16 dvd length data \<longrightarrow> data \<noteq> [] \<longrightarrow>
     obj_encrypt_sector L c i data = Ok (sector_E L ct key i data) \<and>
     obj_decrypt_sector L c i data = Ok (sector_D L ct key i data))"

lemma build_cascade_passes_Ok:
  assumes "lib_ok L" "length key = 2 * cm_key_size m"
  shows "build_cascade_passes L m key = Ok (map obj_single (cascade_passes m key))"
proof -
  have "bind_res (slice (take (cm_key_size m) key) off (off + 32)) (\<lambda>d.
        bind_res (slice (drop (cm_key_size m) key) off (off + 32)) (\<lambda>t. single_pass_xts L ct (d @ t)))
      = Ok (obj_single (ct, sub (take (cm_key_size m) key) off (off + 32) @
          sub (drop (cm_key_size m) key) off (off + 32)))"
    if "(ct, off) \<in> set (veracrypt_order m)" for ct off
  proof -
    have "pass_ok (ct, sub (take (cm_key_size m) key) off (off + 32) @ sub (drop (cm_key_size m) key) off (off + 32))"
      using order_ok [OF that] assms by (auto simp: pass_ok_def)
    then show ?thesis
      using order_ok [OF that] assms single_pass_xts_Ok [OF assms(1)] by simp
  qed
  then show ?thesis
    unfolding build_cascade_passes_def cascade_passes_def map_map
    using assms(2) by (auto simp: Let_def intro!: mapM_res_Ok)
qed

lemma create_sector_cipher_alt:
  "create_sector_cipher L ct key = (case mode_of ct of
      None \<Rightarrow> single_pass_xts L ct key
    | Some m \<Rightarrow> bind_res (build_cascade_passes L m key) (\<lambda>passes. Ok (CascadeSectorCipher passes)))"
  by (cases ct) (simp_all add: create_sector_cipher_def single_pass_xts_def)

lemma create_sector_cipher_refines:
  assumes "lib_ok L" "length key = 2 * ct_key_size ct"
  shows "\<exists>c. create_sector_cipher L ct key = Ok c \<and> obj_refines L c ct key"
proof (cases "mode_of ct")
  case None
  then have "pass_ok (ct, key)"
    using assms(2) single_key_size by (simp add: pass_ok_def)
  then show ?thesis
    using None assms(1)
    by (simp add: create_sector_cipher_alt single_pass_xts_Ok obj_refines_def obj_single_sector
        sector_E_def sector_D_def sector_passes_def)
next
  case (Some m)
  then have k: "length key = 2 * cm_key_size m"
    using assms(2) mode_key_size by simp
  have ps: "\<forall>p \<in> set (cascade_passes m key). pass_ok p"
    by (rule cascade_passes_ok [OF k])
  show ?thesis
    using Some obj_cascade_sector(1) [OF assms(1) ps] obj_cascade_sector(2) [OF assms(1), of "rev (cascade_passes m key)"] ps
    by (simp add: create_sector_cipher_alt build_cascade_passes_Ok [OF assms(1) k] obj_refines_def
        sector_E_def sector_D_def sector_passes_def rev_map [symmetric] del: rev_map)
qed

lemma create_sector_cipher_bad_key:
  assumes "length key \<noteq> 2 * ct_key_size ct"
  shows "\<exists>msg. create_sector_cipher L ct key = Err (VolCryptoError msg)"
proof (cases "mode_of ct")
  case None
  then show ?thesis
    using assms by (cases ct) (simp_all add: create_sector_cipher_alt single_pass_xts_def single_xts_def xts_new_Err)
next
  case (Some m)
  then show ?thesis
    using assms mode_key_size [OF Some]
    by (simp add: create_sector_cipher_alt build_cascade_passes_def Let_def mult.commute)
qed

lemma obj_sector_cipher:
  assumes "lib_ok L" "length key = 2 * ct_key_size ct" "obj_refines L c ct key"
  shows "sector_cipher (obj_encrypt_sector L c) (obj_decrypt_sector L c) (\<lambda>n. 16 dvd n \<and> 0 < n)"
  using assms(3)
  by unfold_locales
    (auto simp: obj_refines_def sector_length [OF assms(1,2)] sector_inverse [OF assms(1,2)]
      simp flip: length_greater_0_conv)

end
