(* ===== verification/VolumeIO.thy ===== *)
theory VolumeIO
  imports FileIO VolSectorCipher
begin

text \<open>
  Sector I/O of a volume file (\<open>vcrypt-volume/src/io.rs\<close>), over any sector
  cipher: the laws are proved once in the locale of theory \<open>SectorSpec\<close>. Offsets
  are \<open>u64\<close> and wrap. The length of the buffer is the length of the read.
\<close>

section \<open>Operations\<close>

definition DATA_UNIT_SIZE :: u64 where "DATA_UNIT_SIZE = 512"

definition host_pos :: "u64 \<Rightarrow> u64 \<Rightarrow> u64" where
  "host_pos data_offset sector = data_offset + sector * DATA_UNIT_SIZE"

definition read_sectors ::
  "(u64 \<Rightarrow> bytes \<Rightarrow> bytes vres) \<Rightarrow> u64 \<Rightarrow> u64 \<Rightarrow> nat \<Rightarrow> (vfile, VolumeError, bytes) sm" where
  "read_sectors decrypt data_offset sector len =
     bindS (map_errS (\<lambda>e. ReadError sector (''seek: '' @ e)) (seek_start (unat (host_pos data_offset sector)))) (\<lambda>_.
     bindS (map_errS (\<lambda>e. ReadError sector (''read: '' @ e)) (file_read_exact len)) (\<lambda>buffer.
     liftR (decrypt sector buffer)))"

definition write_sectors ::
  "(u64 \<Rightarrow> bytes \<Rightarrow> bytes vres) \<Rightarrow> u64 \<Rightarrow> u64 \<Rightarrow> bytes \<Rightarrow> (vfile, VolumeError, unit) sm" where
  "write_sectors encrypt data_offset sector buffer =
     bindS (liftR (encrypt sector buffer)) (\<lambda>encrypted.
     bindS (map_errS (\<lambda>e. WriteError sector (''seek: '' @ e)) (seek_start (unat (host_pos data_offset sector)))) (\<lambda>_.
     map_errS (\<lambda>e. WriteError sector (''write: '' @ e)) (write_all encrypted)))"

section \<open>Reading and writing through a sector cipher\<close>

text \<open>A read never changes the file.\<close>

lemma read_sectors_wp:
  assumes "\<And>f' r. f_bytes f' = f_bytes f \<Longrightarrow> Q r f'" "\<And>f'. f_bytes f' = f_bytes f \<Longrightarrow> E f'"
  shows "wpS (read_sectors dec off s n) Q E f"
  unfolding read_sectors_def by (intro wp_rules assms) auto

lemma read_sectors_bytes: "f_bytes (snd (read_sectors dec off s n f)) = f_bytes f"
  using read_sectors_wp [of f "\<lambda>_ f'. f_bytes f' = f_bytes f" "\<lambda>f'. f_bytes f' = f_bytes f" dec off s n]
  by (auto simp: wpS_def split: prod.splits res.splits)

context sector_cipher
begin

text \<open>A write changes at most the bytes of the request, even when it fails half way.\<close>

lemma write_sectors_wp:
  assumes "adm (length buf)" "\<And>f'. f_bytes f' = f_bytes f \<Longrightarrow> E f'"
    "\<And>f' c k. enc s buf = Ok c \<Longrightarrow> length c = length buf \<Longrightarrow>
      f_bytes f' = write_at (f_bytes f) (unat (host_pos off s)) (take k c) \<Longrightarrow> E f'"
    "\<And>f' c. enc s buf = Ok c \<Longrightarrow> length c = length buf \<Longrightarrow>
      f_bytes f' = write_at (f_bytes f) (unat (host_pos off s)) c \<Longrightarrow> Q () f'"
  shows "wpS (bindS (liftR (enc s buf)) (\<lambda>encrypted.
     bindS (map_errS g (seek_start (unat (host_pos off s)))) (\<lambda>_. map_errS h (write_all encrypted)))) Q E f"
proof -
  obtain c where c: "enc s buf = Ok c" "length c = length buf"
    using enc_ok [OF assms(1), of s] by auto
  show ?thesis
    by (intro wp_rules; use c assms in auto)
qed

end

text \<open>Nothing and everything are prefixes too.\<close>

lemma write_at_Nil [simp]: "write_at data p [] = data"
  by (simp add: write_at_def)

lemma write_prefix:
  "\<exists>k. data = write_at data p (take k c)" "\<exists>k. write_at data p c = write_at data p (take k c)"
  by (rule exI [of _ 0]; simp) (rule exI [of _ "length c"]; simp)

lemma write_sectors_bytes:
  assumes "sector_cipher enc dec adm" "adm (length buf)"
  shows "\<exists>k c. f_bytes (snd (write_sectors enc off s buf f)) =
      write_at (f_bytes f) (unat (host_pos off s)) (take k c) \<and> length c = length buf \<and> enc s buf = Ok c"
proof -
  obtain c where c: "enc s buf = Ok c" "length c = length buf"
    using sector_cipher.enc_ok [OF assms, of s] by auto
  have "wpS (write_sectors enc off s buf)
     (\<lambda>_ f'. \<exists>k. f_bytes f' = write_at (f_bytes f) (unat (host_pos off s)) (take k c))
     (\<lambda>f'. \<exists>k. f_bytes f' = write_at (f_bytes f) (unat (host_pos off s)) (take k c)) f"
    unfolding write_sectors_def
    by (rule sector_cipher.write_sectors_wp [OF assms])
      (use c write_prefix in auto)
  then show ?thesis
    using c by (auto simp: wpS_def split: prod.splits res.splits)
qed

lemma read_sectors_run:
  assumes "reliable f" "unat (host_pos off s) + n \<le> length (f_bytes f)"
  shows "fst (read_sectors dec off s n f) =
    dec s (sub (f_bytes f) (unat (host_pos off s)) (unat (host_pos off s) + n))"
  using assms by (simp add: read_sectors_def bindS_def map_errS_def liftR_def reliable_ops)

lemma write_sectors_run:
  assumes "sector_cipher enc dec adm" "adm (length buf)" "reliable f"
  shows "\<exists>c f'. enc s buf = Ok c \<and> length c = length buf \<and> dec s c = Ok buf
    \<and> write_sectors enc off s buf f = (Ok (), f') \<and> reliable f'
    \<and> f_bytes f' = write_at (f_bytes f) (unat (host_pos off s)) c"
proof -
  obtain c where c: "enc s buf = Ok c" "length c = length buf" "dec s c = Ok buf"
    using sector_cipher.enc_ok [OF assms(1,2), of s] by auto
  then show ?thesis
    using assms(3) by (simp add: write_sectors_def bindS_def map_errS_def liftR_def reliable_ops)
qed

text \<open>A read after a write: the same request gives the data back, a disjoint one is not affected.\<close>

lemma read_after_write:
  assumes "sector_cipher enc dec adm" "adm (length buf)" "reliable f"
    "unat (host_pos off s) + length buf \<le> length (f_bytes f)"
  shows "\<exists>f'. write_sectors enc off s buf f = (Ok (), f') \<and> reliable f'
    \<and> length (f_bytes f') = length (f_bytes f)
    \<and> fst (read_sectors dec off s (length buf) f') = Ok buf
    \<and> (\<forall>s' n. unat (host_pos off s') + n \<le> length (f_bytes f) \<and>
        (unat (host_pos off s') + n \<le> unat (host_pos off s) \<or> unat (host_pos off s) + length buf \<le> unat (host_pos off s')) \<longrightarrow>
        fst (read_sectors dec off s' n f') = fst (read_sectors dec off s' n f))
    \<and> (\<forall>a b. b \<le> unat (host_pos off s) \<or> unat (host_pos off s) + length buf \<le> a \<longrightarrow>
        sub (f_bytes f') a b = sub (f_bytes f) a b)"
proof -
  obtain c f' where w: "length c = length buf" "dec s c = Ok buf"
    "write_sectors enc off s buf f = (Ok (), f')" "reliable f'"
    "f_bytes f' = write_at (f_bytes f) (unat (host_pos off s)) c"
    using write_sectors_run [OF assms(1-3), of s off] by blast
  have other: "sub (f_bytes f') a b = sub (f_bytes f) a b"
    if "b \<le> unat (host_pos off s) \<or> unat (host_pos off s) + length buf \<le> a" for a b
    using that w(1,5) assms(4) by (auto simp: sub_write_at_other)
  have l: "length (f_bytes f') = length (f_bytes f)"
    using w(1,5) assms(4) by simp
  have same: "sub (f_bytes f') (unat (host_pos off s)) (unat (host_pos off s) + length buf) = c"
    using sub_write_at_same [of "unat (host_pos off s)" c "f_bytes f"] w(1,5) assms(4) by simp
  show ?thesis
  proof (intro exI [of _ f'] conjI allI impI)
    show "fst (read_sectors dec off s (length buf) f') = Ok buf"
      using assms(4) w(2,4) l same by (simp add: read_sectors_run)
  next
    fix s' n
    assume "unat (host_pos off s') + n \<le> length (f_bytes f) \<and>
        (unat (host_pos off s') + n \<le> unat (host_pos off s) \<or> unat (host_pos off s) + length buf \<le> unat (host_pos off s'))"
    then show "fst (read_sectors dec off s' n f') = fst (read_sectors dec off s' n f)"
      using assms(3) w(4) l by (auto simp: read_sectors_run other)
  qed (use w l other in simp_all)
qed

end
