(* ===== verification/Volume.thy ===== *)
theory Volume
  imports RestoreVol VolumeIO
begin

text \<open>
  Open volumes (\<open>vcrypt-volume/src/volume.rs\<close>): opening in the three modes,
  sector reads and writes with their guards, the protection of a hidden volume,
  and the byte-stream interface. A volume owns its file, so its operations run
  in the state-and-error monad over the volume itself.
\<close>

section \<open>State\<close>

record OpenVolume =
  ov_inner :: OpenResult
  ov_file :: vfile
  ov_cipher :: SectorCipherObj
  ov_read_only :: bool
  ov_protected_range :: "(u64 \<times> u64) option"
  ov_hidden_protection_triggered :: bool

text \<open>The host: what reading a path returns, and the handle that opening it for writing or not gives.\<close>

record host =
  h_read :: filesystem
  h_open :: "bool \<Rightarrow> string \<Rightarrow> string + vfile"

definition fileV :: "(vfile, 'e, 'a) sm \<Rightarrow> (OpenVolume, 'e, 'a) sm" where
  "fileV m = (\<lambda>v. case m (ov_file v) of (r, f) \<Rightarrow> (r, v \<lparr> ov_file := f \<rparr>))"

section \<open>Opening\<close>

definition open_header ::
  "crypto_lib \<Rightarrow> host \<Rightarrow> string \<Rightarrow> bytes \<Rightarrow> string list \<Rightarrow> KdfAlgorithm option \<Rightarrow> int option \<Rightarrow> OpenResult vres" where
  "open_header L H path password keyfiles kdf pim = (case kdf of
      Some k \<Rightarrow> open_volume_file_with_kdf L (h_read H) path password keyfiles k (case pim of Some p \<Rightarrow> p | None \<Rightarrow> 0)
    | None \<Rightarrow> open_volume_file L (h_read H) path password keyfiles pim)"

definition open_handle :: "host \<Rightarrow> bool \<Rightarrow> string \<Rightarrow> vfile vres" where
  "open_handle H writable path = (case h_open H writable path of Inl e \<Rightarrow> Err (OpenError e) | Inr f \<Rightarrow> Ok f)"

definition open_vol ::
  "crypto_lib \<Rightarrow> host \<Rightarrow> string \<Rightarrow> bytes \<Rightarrow> string list \<Rightarrow> KdfAlgorithm option \<Rightarrow> int option \<Rightarrow> OpenVolume vres" where
  "open_vol L H path password keyfiles kdf pim =
     bind_res (open_header L H path password keyfiles kdf pim) (\<lambda>result.
     bind_res (open_handle H True path) (\<lambda>f.
     bind_res (create_sector_cipher L (or_data_cipher result) (or_master_key result)) (\<lambda>cipher.
     Ok \<lparr> ov_inner = result, ov_file = f, ov_cipher = cipher, ov_read_only = False,
          ov_protected_range = None, ov_hidden_protection_triggered = False \<rparr>)))"

definition open_read_only ::
  "crypto_lib \<Rightarrow> host \<Rightarrow> string \<Rightarrow> bytes \<Rightarrow> string list \<Rightarrow> KdfAlgorithm option \<Rightarrow> int option \<Rightarrow> OpenVolume vres" where
  "open_read_only L H path password keyfiles kdf pim =
     bind_res (open_header L H path password keyfiles kdf pim) (\<lambda>result.
     bind_res (open_handle H False path) (\<lambda>f.
     bind_res (create_sector_cipher L (or_data_cipher result) (or_master_key result)) (\<lambda>cipher.
     Ok \<lparr> ov_inner = result, ov_file = f, ov_cipher = cipher, ov_read_only = True,
          ov_protected_range = None, ov_hidden_protection_triggered = False \<rparr>)))"

definition open_with_protection ::
  "crypto_lib \<Rightarrow> host \<Rightarrow> string \<Rightarrow> bytes \<Rightarrow> string list \<Rightarrow> KdfAlgorithm option \<Rightarrow> int option \<Rightarrow>
   bytes \<Rightarrow> string list \<Rightarrow> OpenVolume vres" where
  "open_with_protection L H path outer_password outer_keyfiles outer_kdf outer_pim hidden_password hidden_keyfiles =
     bind_res (open_header L H path outer_password outer_keyfiles outer_kdf outer_pim) (\<lambda>outer_result.
     if or_volume_type outer_result \<noteq> NormalVolume then
       Err (Unsupported ''Outer volume appears to be hidden (wrong password?)'')
     else
     bind_res (open_volume_file L (h_read H) path hidden_password hidden_keyfiles (Some 0)) (\<lambda>hidden_result.
     if or_volume_type hidden_result \<noteq> HiddenVolume then
       Err (AuthFailed ''Hidden volume not found (wrong password?)'')
     else
     bind_res (open_handle H True path) (\<lambda>f.
     bind_res (create_sector_cipher L (or_data_cipher outer_result) (or_master_key outer_result)) (\<lambda>cipher.
     Ok \<lparr> ov_inner = outer_result, ov_file = f, ov_cipher = cipher, ov_read_only = False,
          ov_protected_range = Some (or_data_offset hidden_result,
            or_data_offset hidden_result + or_data_length hidden_result),
          ov_hidden_protection_triggered = False \<rparr>))))"

section \<open>Sector reads and writes\<close>

definition check_protected_range :: "OpenVolume \<Rightarrow> u64 \<Rightarrow> u64 \<Rightarrow> bool" where
  "check_protected_range v host_offset len = (case ov_protected_range v of
      Some (start, fin) \<Rightarrow> (let write_end = host_offset + len in host_offset < fin \<and> write_end > start)
    | None \<Rightarrow> False)"

definition volume_read :: "crypto_lib \<Rightarrow> u64 \<Rightarrow> nat \<Rightarrow> (OpenVolume, VolumeError, bytes) sm" where
  "volume_read L sector len = (\<lambda>v.
     if len mod 512 \<noteq> 0 then
       (Err (Unsupported ''read buffer must be sector-aligned (multiple of 512)''), v)
     else fileV (read_sectors (obj_decrypt_sector L (ov_cipher v)) (or_data_offset (ov_inner v)) sector len) v)"

definition volume_write :: "crypto_lib \<Rightarrow> u64 \<Rightarrow> bytes \<Rightarrow> (OpenVolume, VolumeError, unit) sm" where
  "volume_write L sector buf = (\<lambda>v.
     if ov_read_only v then (Err (Unsupported ''volume opened read-only''), v)
     else if ov_hidden_protection_triggered v then (Err HiddenVolumeProtection, v)
     else if length buf mod 512 \<noteq> 0 then
       (Err (Unsupported ''write buffer must be sector-aligned (multiple of 512)''), v)
     else
       let host_offset = or_data_offset (ov_inner v) + sector * DATA_UNIT_SIZE in
       if check_protected_range v host_offset (of_nat (length buf)) then
         (Err HiddenVolumeProtection, v \<lparr> ov_hidden_protection_triggered := True \<rparr>)
       else fileV (write_sectors (obj_encrypt_sector L (ov_cipher v)) (or_data_offset (ov_inner v)) sector buf) v)"

definition data_size :: "OpenVolume \<Rightarrow> u64" where
  "data_size v = or_data_length (ov_inner v)"

definition max_sector :: "OpenVolume \<Rightarrow> u64" where
  "max_sector v = or_data_length (ov_inner v) div DATA_UNIT_SIZE"

section \<open>The byte-stream interface\<close>

text \<open>The implementations of \<open>Read\<close>, \<open>Write\<close> and \<open>Seek\<close>; signed offsets are added in two's complement.\<close>

datatype SeekFrom = SeekStart u64 | SeekEnd u64 | SeekCurrent u64

definition stream_read :: "nat \<Rightarrow> (OpenVolume, string, bytes) sm" where
  "stream_read len = (\<lambda>v.
     if len = 0 then (Ok [], v)
     else
       let fin = unat (or_data_offset (ov_inner v) + or_data_length (ov_inner v)) in
       bindS (fileV seek_current) (\<lambda>current.
         if fin \<le> current then ret []
         else fileV (file_read (min len (fin - current)))) v)"

definition stream_seek :: "SeekFrom \<Rightarrow> (OpenVolume, string, nat) sm" where
  "stream_seek pos = (\<lambda>v.
     let start = or_data_offset (ov_inner v); fin = start + or_data_length (ov_inner v) in
     bindS (case pos of
         SeekStart p \<Rightarrow> ret (start + p)
       | SeekEnd p \<Rightarrow> ret (fin + p)
       | SeekCurrent p \<Rightarrow> bindS (fileV seek_current) (\<lambda>cur. ret (of_nat cur + p))) (\<lambda>target :: u64.
     if target < start \<or> fin < target then liftR (Err ''seek out of data area'')
     else fileV (seek_start (unat target))) v)"

text \<open>\<open>File::write\<close> on a handle that was not opened for writing is an error of the host.\<close>

definition stream_write :: "bytes \<Rightarrow> (OpenVolume, string, nat) sm" where
  "stream_write buf = (\<lambda>v.
     if ov_read_only v then (Err (f_err (ov_file v)), v)
     else bindS (fileV (write_all buf)) (\<lambda>_. ret (length buf)) v)"

definition stream_flush :: "(OpenVolume, string, unit) sm" where
  "stream_flush = fileV flush"

section \<open>Sequences of requests\<close>

text \<open>
  A volume serves any sequence of sector reads and writes. A slice holds fewer
  than \<open>2^63\<close> bytes, the limit of the language.
\<close>

inductive vol_step :: "crypto_lib \<Rightarrow> OpenVolume \<Rightarrow> OpenVolume \<Rightarrow> bool" for L where
  step_read: "volume_read L sector len v = (r, v') \<Longrightarrow> vol_step L v v'"
| step_write: "length buf < 2 ^ 63 \<Longrightarrow> volume_write L sector buf v = (r, v') \<Longrightarrow> vol_step L v v'"

inductive vol_reach :: "crypto_lib \<Rightarrow> OpenVolume \<Rightarrow> OpenVolume \<Rightarrow> bool" for L v0 where
  reach_start: "vol_reach L v0 v0"
| reach_step: "vol_reach L v0 v \<Longrightarrow> vol_step L v v' \<Longrightarrow> vol_reach L v0 v'"

inductive_cases vol_stepE: "vol_step L v v'"

section \<open>What one request may change\<close>

text \<open>The cipher of a volume is one that \<open>create_sector_cipher\<close> made.\<close>

definition vol_ok :: "crypto_lib \<Rightarrow> OpenVolume \<Rightarrow> bool" where
  "vol_ok L v \<longleftrightarrow> (\<exists>ct key. length key = 2 * ct_key_size ct \<and> obj_refines L (ov_cipher v) ct key)"

lemma block_sizes [simp]:
  "bc_block_size (AesCipher L) = 16" "bc_block_size (SerpentCipher L) = 16" "bc_block_size TwofishCipher = 16"
  "bc_block_size (CamelliaCipher L) = 16" "bc_block_size (KuznyechikCipher L) = 16"
  by (simp_all add: AesCipher_def SerpentCipher_def TwofishCipher_def CamelliaCipher_def KuznyechikCipher_def crate_ops_def)

lemma obj_encrypt_Nil: "obj_encrypt_sector L c s d = Ok c' \<Longrightarrow> d = [] \<Longrightarrow> c' = []"
proof (induction L c s d arbitrary: c' rule: obj_encrypt_sector.induct)
  case (6 L passes s d)
  have "fold_res (\<lambda>pass data. obj_encrypt_sector L pass s data) ps [] = Ok c' \<Longrightarrow> c' = []"
    if "set ps \<subseteq> set passes" for ps
    using that 6(1) by (induction ps) fastforce+
  then show ?case
    using 6(2,3) by auto
qed (auto simp: xts_enc_err_def xts_encrypt_def validate_data_length_def)

lemma vol_cipher:
  assumes "lib_ok L" "vol_ok L v"
  shows "sector_cipher (obj_encrypt_sector L (ov_cipher v)) (obj_decrypt_sector L (ov_cipher v)) (\<lambda>n. 16 dvd n \<and> 0 < n)"
  using assms obj_sector_cipher by (auto simp: vol_ok_def)

lemma fileV_parts:
  "fst (fileV m v) = fst (m (ov_file v))" "snd (fileV m v) = v \<lparr> ov_file := snd (m (ov_file v)) \<rparr>"
  by (simp_all add: fileV_def split: prod.splits)

lemma volume_read_state:
  "\<exists>f. snd (volume_read L s n v) = v \<lparr> ov_file := f \<rparr> \<and> f_bytes f = f_bytes (ov_file v)"
proof (cases "n mod 512 = 0")
  case True
  then show ?thesis
    by (auto simp: volume_read_def fileV_parts read_sectors_bytes)
next
  case False
  then show ?thesis
    by (intro exI [of _ "ov_file v"]) (simp add: volume_read_def)
qed

text \<open>\<open>writes_allowed\<close>: the guards of \<open>volume_write\<close>.\<close>

definition writes_allowed :: "OpenVolume \<Rightarrow> u64 \<Rightarrow> bytes \<Rightarrow> bool" where
  "writes_allowed v s buf \<longleftrightarrow> \<not> ov_read_only v \<and> \<not> ov_hidden_protection_triggered v \<and> length buf mod 512 = 0
     \<and> \<not> check_protected_range v (host_pos (or_data_offset (ov_inner v)) s) (of_nat (length buf))"

lemma volume_write_refused:
  assumes "\<not> writes_allowed v s buf"
  shows "is_ok (fst (volume_write L s buf v)) = False"
    "\<exists>t. snd (volume_write L s buf v) = v \<lparr> ov_hidden_protection_triggered := t \<rparr> \<and> (ov_hidden_protection_triggered v \<longrightarrow> t)"
proof -
  show "is_ok (fst (volume_write L s buf v)) = False"
    using assms by (auto simp: volume_write_def writes_allowed_def host_pos_def Let_def)
  show "\<exists>t. snd (volume_write L s buf v) = v \<lparr> ov_hidden_protection_triggered := t \<rparr> \<and> (ov_hidden_protection_triggered v \<longrightarrow> t)"
    using assms
    by (cases v) (auto simp: volume_write_def writes_allowed_def host_pos_def Let_def)
qed

lemma volume_write_passed:
  assumes "writes_allowed v s buf"
  shows "volume_write L s buf v =
    fileV (write_sectors (obj_encrypt_sector L (ov_cipher v)) (or_data_offset (ov_inner v)) s buf) v"
  using assms by (simp add: volume_write_def writes_allowed_def host_pos_def Let_def)

lemma volume_write_state:
  assumes "lib_ok L" "vol_ok L v"
  obtains f t where "snd (volume_write L s buf v) = v \<lparr> ov_file := f, ov_hidden_protection_triggered := t \<rparr>"
    "ov_hidden_protection_triggered v \<Longrightarrow> t" "\<not> writes_allowed v s buf \<Longrightarrow> f_bytes f = f_bytes (ov_file v)"
    "\<exists>c. length c \<le> length buf \<and>
      f_bytes f = write_at (f_bytes (ov_file v)) (unat (host_pos (or_data_offset (ov_inner v)) s)) c"
proof (cases "writes_allowed v s buf")
  case False
  then obtain t where "snd (volume_write L s buf v) = v \<lparr> ov_hidden_protection_triggered := t \<rparr>"
    "ov_hidden_protection_triggered v \<longrightarrow> t"
    using volume_write_refused(2) by blast
  moreover have "\<exists>c. length c \<le> length buf \<and>
      f_bytes (ov_file v) = write_at (f_bytes (ov_file v)) (unat (host_pos (or_data_offset (ov_inner v)) s)) c"
    by (intro exI [of _ "[]"]) simp
  ultimately show ?thesis
    using that [of t "ov_file v"] by simp
next
  case True
  let ?e = "obj_encrypt_sector L (ov_cipher v)" and ?o = "or_data_offset (ov_inner v)"
  let ?f = "snd (write_sectors ?e ?o s buf (ov_file v))"
  have w: "snd (volume_write L s buf v) = v \<lparr> ov_file := ?f \<rparr>"
    by (simp add: volume_write_passed [OF True] fileV_parts)
  have "\<exists>c. length c \<le> length buf \<and> f_bytes ?f = write_at (f_bytes (ov_file v)) (unat (host_pos ?o s)) c"
  proof (cases "buf = []")
    case False
    have "512 dvd length buf"
      using True by (simp add: writes_allowed_def mod_eq_0_iff_dvd)
    then have a: "16 dvd length buf \<and> 0 < length buf"
      using False dvd_trans [of 16 512 "length buf"] by simp
    show ?thesis
      using write_sectors_bytes [OF vol_cipher [OF assms], of buf ?o s "ov_file v"] a
      by (metis length_take min.cobounded1)
  next
    case nil: True
    have "wpS (write_sectors ?e ?o s buf) (\<lambda>_ f. f_bytes f = f_bytes (ov_file v)) (\<lambda>f. f_bytes f = f_bytes (ov_file v)) (ov_file v)"
      unfolding write_sectors_def using obj_encrypt_Nil [of L "ov_cipher v" s buf] nil
      by (intro wp_rules) auto
    then have "f_bytes ?f = f_bytes (ov_file v)"
      by (auto simp: wpS_def split: prod.splits res.splits)
    then show ?thesis
      by (auto intro: exI [of _ "[]"])
  qed
  then show ?thesis
    using that [of "ov_hidden_protection_triggered v" ?f] w True by (cases v) simp
qed

section \<open>Invariants of a session\<close>

lemma sub_write_at_before:
  assumes "b \<le> pos" "b \<le> length d"
  shows "sub (write_at d pos c) a b = sub d a b"
proof -
  have "take b (write_at d pos c) = take b d"
    using assms by (simp add: write_at_def min_def)
  then show ?thesis
    by (metis sub_def take_drop diff_add_inverse drop_take)
qed

lemma sub_write_at_after:
  assumes "pos + length c \<le> a" "a \<le> length d"
  shows "sub (write_at d pos c) a b = sub d a b"
proof -
  have "drop a (write_at d pos c) = drop a d"
    using assms by (simp add: write_at_def)
  then show ?thesis
    by (simp add: sub_def)
qed

lemma length_write_at_le: "length d \<le> length (write_at d pos c)"
proof -
  have "length (write_at d pos c) = (if c = [] then length d else max (length d) (pos + length c))"
    by (auto simp: write_at_def)
  then show ?thesis
    by simp
qed

text \<open>\<open>session\<close>: what every state of a session has in common with its first one.\<close>

definition protects :: "OpenVolume \<Rightarrow> nat \<Rightarrow> nat \<Rightarrow> bool" where
  "protects v a b \<longleftrightarrow> (\<exists>start fin. ov_protected_range v = Some (start, fin) \<and> a = unat start \<and> b = unat fin
     \<and> unat fin \<le> 2 ^ 63)"

definition session :: "OpenVolume \<Rightarrow> OpenVolume \<Rightarrow> bool" where
  "session v0 v \<longleftrightarrow> ov_inner v = ov_inner v0 \<and> ov_cipher v = ov_cipher v0 \<and> ov_read_only v = ov_read_only v0
     \<and> ov_protected_range v = ov_protected_range v0
     \<and> length (f_bytes (ov_file v0)) \<le> length (f_bytes (ov_file v))
     \<and> (ov_hidden_protection_triggered v0 \<longrightarrow> ov_hidden_protection_triggered v)
     \<and> (ov_read_only v0 \<or> ov_hidden_protection_triggered v0 \<longrightarrow> f_bytes (ov_file v) = f_bytes (ov_file v0))
     \<and> (\<forall>a b. protects v0 a b \<and> b \<le> length (f_bytes (ov_file v0)) \<longrightarrow>
          sub (f_bytes (ov_file v)) a b = sub (f_bytes (ov_file v0)) a b)"

lemma session_refl: "session v v"
  by (simp add: session_def)

lemma session_trans: "session u v \<Longrightarrow> session v w \<Longrightarrow> session u w"
  by (auto simp: session_def protects_def)

lemma allowed_outside:
  assumes "writes_allowed v s buf" "protects v a b" "length buf < 2 ^ 63" "length c \<le> length buf"
    "b \<le> length d" "a \<le> b"
  shows "sub (write_at d (unat (host_pos (or_data_offset (ov_inner v)) s)) c) a b = sub d a b"
proof -
  let ?p = "host_pos (or_data_offset (ov_inner v)) s" and ?n = "of_nat (length buf) :: u64"
  obtain st en where r: "ov_protected_range v = Some (st, en)" "a = unat st" "b = unat en" "unat en \<le> 2 ^ 63"
    using assms(2) by (auto simp: protects_def)
  have "\<not> (?p < en \<and> st < ?p + ?n)"
    using assms(1) r(1) by (simp add: writes_allowed_def check_protected_range_def Let_def)
  then consider "en \<le> ?p" | "?p < en" "?p + ?n \<le> st"
    by fastforce
  then show ?thesis
  proof cases
    case 1
    then show ?thesis
      using r(3) assms(5) by (intro sub_write_at_before) (simp_all add: word_le_nat_alt)
  next
    case 2
    have n: "unat ?n = length buf"
      using assms(3) by (simp add: unat_of_nat64)
    have "unat (?p + ?n) = unat ?p + length buf"
      using 2(1) r(4) assms(3) n by (subst unat_plus64) (simp_all add: word_less_nat_alt)
    then have "unat ?p + length buf \<le> a"
      using 2(2) r(2) by (simp add: word_le_nat_alt)
    then show ?thesis
      using assms(4-6) by (intro sub_write_at_after) simp_all
  qed
qed

lemma session_step:
  assumes "lib_ok L" "vol_ok L v" "vol_step L v v'"
  shows "session v v'"
proof -
  consider (R) s n r where "volume_read L s n v = (r, v')"
    | (W) buf s r where "length buf < 2 ^ 63" "volume_write L s buf v = (r, v')"
    using assms(3) by (auto elim: vol_stepE)
  then show ?thesis
  proof cases
    case (R s n r)
    then obtain f where "v' = v \<lparr> ov_file := f \<rparr>" "f_bytes f = f_bytes (ov_file v)"
      using volume_read_state [of L s n v] by auto
    then show ?thesis
      by (simp add: session_def)
  next
    case (W buf s r)
    let ?p = "unat (host_pos (or_data_offset (ov_inner v)) s)"
    obtain f t where f: "v' = v \<lparr> ov_file := f, ov_hidden_protection_triggered := t \<rparr>"
      "ov_hidden_protection_triggered v \<Longrightarrow> t" "\<not> writes_allowed v s buf \<Longrightarrow> f_bytes f = f_bytes (ov_file v)"
      "\<exists>c. length c \<le> length buf \<and> f_bytes f = write_at (f_bytes (ov_file v)) ?p c"
      using volume_write_state [OF assms(1,2), of s buf] W(2) by (metis snd_conv)
    have keep: "sub (f_bytes f) a b = sub (f_bytes (ov_file v)) a b"
      if "protects v a b" "b \<le> length (f_bytes (ov_file v))" for a b
    proof (cases "writes_allowed v s buf \<and> a \<le> b")
      case True
      then show ?thesis
        using f(4) allowed_outside [of v s buf a b] that W(1) by auto
    next
      case False
      then show ?thesis
        using f(3) by (auto simp: sub_def)
    qed
    show ?thesis
      using f keep length_write_at_le unfolding session_def
      by (auto simp: writes_allowed_def)
  qed
qed

lemma vol_ok_session: "session v v' \<Longrightarrow> vol_ok L v \<Longrightarrow> vol_ok L v'"
  by (simp add: vol_ok_def session_def)

lemma session_reach:
  assumes "lib_ok L" "vol_ok L v0" "vol_reach L v0 v"
  shows "session v0 v \<and> vol_ok L v"
  using assms(3)
proof (induction rule: vol_reach.induct)
  case (reach_step v v')
  then have "session v v'"
    using session_step [OF assms(1)] by simp
  then show ?case
    using reach_step session_trans vol_ok_session by blast
qed (use assms(2) session_refl in simp)

section \<open>Opened volumes\<close>

lemma created_cipher_ok:
  assumes "lib_ok L" "create_sector_cipher L ct key = Ok c"
  shows "length key = 2 * ct_key_size ct \<and> obj_refines L c ct key"
proof -
  have "length key = 2 * ct_key_size ct"
    using create_sector_cipher_bad_key [of key ct L] assms(2) by fastforce
  then show ?thesis
    using create_sector_cipher_refines [OF assms(1)] assms(2) by fastforce
qed

lemma vol_okI: "lib_ok L \<Longrightarrow> create_sector_cipher L ct key = Ok (ov_cipher v) \<Longrightarrow> vol_ok L v"
  unfolding vol_ok_def using created_cipher_ok by blast

lemma opened_vol_ok:
  assumes "lib_ok L"
  shows "open_vol L H path pw kf kdf pim = Ok v \<Longrightarrow> vol_ok L v \<and> \<not> ov_read_only v \<and> ov_protected_range v = None"
    and "open_read_only L H path pw kf kdf pim = Ok v \<Longrightarrow> vol_ok L v \<and> ov_read_only v"
    and "open_with_protection L H path pw kf kdf pim hpw hkf = Ok v \<Longrightarrow> vol_ok L v \<and> \<not> ov_read_only v"
  using vol_okI [OF assms]
  by (auto simp: open_vol_def open_read_only_def open_with_protection_def split: if_splits)

text \<open>A volume with the concrete library and an all-zero file, for the witnesses.\<close>

definition toy_inner :: "u64 \<Rightarrow> u64 \<Rightarrow> OpenResult" where
  "toy_inner start len = open_result Aes (header_new \<lparr> vh_encrypted_area_start := start, vh_encrypted_area_length := len \<rparr>)
     [] (make_kdf_candidate Pbkdf2Sha256 0) False"

definition toy_volume :: "SectorCipherObj \<Rightarrow> nat \<Rightarrow> (u64 \<times> u64) option \<Rightarrow> OpenVolume" where
  "toy_volume c n rg = \<lparr> ov_inner = toy_inner 0 1024,
     ov_file = \<lparr> f_bytes = replicate n 0, f_pos = 0, f_budget = None, f_short = 0, f_err = [] \<rparr>,
     ov_cipher = c, ov_read_only = False, ov_protected_range = rg, ov_hidden_protection_triggered = False \<rparr>"

lemma toy_cipher: "\<exists>c. create_sector_cipher toy_lib Aes (replicate 64 1) = Ok c"
  using create_sector_cipher_refines [OF toy_lib_ok, of "replicate 64 1" Aes] by auto

lemma toy_volume_ok: "create_sector_cipher toy_lib Aes (replicate 64 1) = Ok c \<Longrightarrow> vol_ok toy_lib (toy_volume c n rg)"
  by (rule vol_okI [OF toy_lib_ok]) (simp add: toy_volume_def)

lemma toy_inner_parts: "or_data_offset (toy_inner start len) = start"
  by (simp add: toy_inner_def open_result_def)

text \<open>A write that fits, and the reads after it.\<close>

lemma volume_rw:
  assumes "lib_ok L" "vol_ok L v" "reliable (ov_file v)" "writes_allowed v s buf" "buf \<noteq> []"
    "unat (host_pos (or_data_offset (ov_inner v)) s) + length buf \<le> length (f_bytes (ov_file v))"
  defines "pos \<equiv> \<lambda>s. unat (host_pos (or_data_offset (ov_inner v)) s)"
  shows "\<exists>f'. volume_write L s buf v = (Ok (), v \<lparr> ov_file := f' \<rparr>) \<and> reliable f'
    \<and> length (f_bytes f') = length (f_bytes (ov_file v))
    \<and> fst (volume_read L s (length buf) (v \<lparr> ov_file := f' \<rparr>)) = Ok buf
    \<and> (\<forall>s' n. n mod 512 = 0 \<and> pos s' + n \<le> length (f_bytes (ov_file v))
         \<and> (pos s' + n \<le> pos s \<or> pos s + length buf \<le> pos s') \<longrightarrow>
         fst (volume_read L s' n (v \<lparr> ov_file := f' \<rparr>)) = fst (volume_read L s' n v))
    \<and> (\<forall>a b. b \<le> pos s \<or> pos s + length buf \<le> a \<longrightarrow>
         sub (f_bytes f') a b = sub (f_bytes (ov_file v)) a b)"
proof -
  let ?e = "obj_encrypt_sector L (ov_cipher v)" and ?d = "obj_decrypt_sector L (ov_cipher v)"
    and ?o = "or_data_offset (ov_inner v)"
  have m: "length buf mod 512 = 0"
    using assms(4) by (simp add: writes_allowed_def)
  then have a: "16 dvd length buf \<and> 0 < length buf"
    using assms(5) dvd_trans [of 16 512 "length buf"] by (simp add: mod_eq_0_iff_dvd)
  obtain f' :: vfile where f': "write_sectors ?e ?o s buf (ov_file v) = (Ok (), f')"
    "reliable f'" "length (f_bytes f') = length (f_bytes (ov_file v))"
    "fst (read_sectors ?d ?o s (length buf) f') = Ok buf"
    "\<forall>s' n. pos s' + n \<le> length (f_bytes (ov_file v)) \<and> (pos s' + n \<le> pos s \<or> pos s + length buf \<le> pos s') \<longrightarrow>
      fst (read_sectors ?d ?o s' n f') = fst (read_sectors ?d ?o s' n (ov_file v))"
    "\<forall>a b. b \<le> pos s \<or> pos s + length buf \<le> a \<longrightarrow> sub (f_bytes f') a b = sub (f_bytes (ov_file v)) a b"
    using read_after_write [OF vol_cipher [OF assms(1,2)] a assms(3,6)] unfolding pos_def by auto
  have w: "volume_write L s buf v = (Ok (), v \<lparr> ov_file := f' \<rparr>)"
    using f'(1) by (simp add: volume_write_passed [OF assms(4)] fileV_def)
  have r: "fst (volume_read L s' n (v \<lparr> ov_file := f \<rparr>)) = fst (read_sectors ?d ?o s' n f)"
    if "n mod 512 = 0" for s' n f
    using that by (simp add: volume_read_def fileV_parts)
  have r0: "fst (volume_read L s' n v) = fst (read_sectors ?d ?o s' n (ov_file v))" if "n mod 512 = 0" for s' n
    using that by (simp add: volume_read_def fileV_parts)
  show ?thesis
  proof (intro exI [of _ f'] conjI allI impI f'(2,3))
    show "volume_write L s buf v = (Ok (), v \<lparr> ov_file := f' \<rparr>)"
      by (rule w)
    show "fst (volume_read L s (length buf) (v \<lparr> ov_file := f' \<rparr>)) = Ok buf"
      unfolding r [OF m] by (rule f'(4))
  next
    fix s' n
    assume "n mod 512 = 0 \<and> pos s' + n \<le> length (f_bytes (ov_file v))
      \<and> (pos s' + n \<le> pos s \<or> pos s + length buf \<le> pos s')"
    then show "fst (volume_read L s' n (v \<lparr> ov_file := f' \<rparr>)) = fst (volume_read L s' n v)"
      using f'(5) r [of n s' f'] r0 [of n s'] by metis
  next
    fix a b
    assume "b \<le> pos s \<or> pos s + length buf \<le> a"
    then show "sub (f_bytes f') a b = sub (f_bytes (ov_file v)) a b"
      using f'(6) by auto
  qed
qed

section \<open>Properties\<close>

text \<open>
  C19: Data written to a volume is read back: a write that the guards admit and
  that fits into the file succeeds, reading the same sectors returns the data,
  reading any other sectors returns what it returned before, and outside the
  request no byte of the file changes.
\<close>

theorem volume_read_after_write:
  assumes "lib_ok L" "vol_ok L v" "reliable (ov_file v)" "writes_allowed v s buf" "buf \<noteq> []"
    "unat (host_pos (or_data_offset (ov_inner v)) s) + length buf \<le> length (f_bytes (ov_file v))"
  defines "pos \<equiv> \<lambda>s. unat (host_pos (or_data_offset (ov_inner v)) s)"
  shows "\<exists>v'. volume_write L s buf v = (Ok (), v')
    \<and> fst (volume_read L s (length buf) v') = Ok buf
    \<and> (\<forall>s' n. n mod 512 = 0 \<and> pos s' + n \<le> length (f_bytes (ov_file v))
         \<and> (pos s' + n \<le> pos s \<or> pos s + length buf \<le> pos s') \<longrightarrow>
         fst (volume_read L s' n v') = fst (volume_read L s' n v))
    \<and> (\<forall>a b. b \<le> pos s \<or> pos s + length buf \<le> a \<longrightarrow>
         sub (f_bytes (ov_file v')) a b = sub (f_bytes (ov_file v)) a b)"
proof -
  obtain f' where f': "volume_write L s buf v = (Ok (), v \<lparr> ov_file := f' \<rparr>)"
    "fst (volume_read L s (length buf) (v \<lparr> ov_file := f' \<rparr>)) = Ok buf"
    "\<forall>s' n. n mod 512 = 0 \<and> pos s' + n \<le> length (f_bytes (ov_file v))
         \<and> (pos s' + n \<le> pos s \<or> pos s + length buf \<le> pos s') \<longrightarrow>
         fst (volume_read L s' n (v \<lparr> ov_file := f' \<rparr>)) = fst (volume_read L s' n v)"
    "\<forall>a b. b \<le> pos s \<or> pos s + length buf \<le> a \<longrightarrow> sub (f_bytes f') a b = sub (f_bytes (ov_file v)) a b"
    using volume_rw [OF assms(1-6)] unfolding pos_def by blast
  then show ?thesis
    by (intro exI [of _ "v \<lparr> ov_file := f' \<rparr>"]) simp
qed

theorem volume_read_after_write_witness:
  "\<exists>c v'. create_sector_cipher toy_lib Aes (replicate 64 1) = Ok c
    \<and> volume_write toy_lib 1 (replicate 512 7) (toy_volume c 2048 None) = (Ok (), v')
    \<and> fst (volume_read toy_lib 1 512 v') = Ok (replicate 512 7)"
proof -
  obtain c where c: "create_sector_cipher toy_lib Aes (replicate 64 1) = Ok c"
    using toy_cipher by blast
  have r: "reliable (ov_file (toy_volume c 2048 None))" "writes_allowed (toy_volume c 2048 None) 1 (replicate 512 7)"
    by (simp_all add: toy_volume_def reliable_def writes_allowed_def check_protected_range_def)
  have p: "unat (host_pos (or_data_offset (ov_inner (toy_volume c 2048 None))) 1) = 512"
    "length (f_bytes (ov_file (toy_volume c 2048 None))) = 2048"
    by (simp_all add: toy_volume_def toy_inner_parts host_pos_def DATA_UNIT_SIZE_def)
  show ?thesis
    using volume_read_after_write [OF toy_lib_ok toy_volume_ok [OF c] r] c p by auto
qed

text \<open>
  C17: Hidden-volume protection holds: in a volume opened with protection, no
  sequence of sector reads and writes, whatever they ask for and whether or not
  the file operations fail, changes a byte of the hidden volume's data area.
\<close>

theorem hidden_protection_holds:
  assumes "lib_ok L"
    "open_with_protection L H path outer_password outer_keyfiles outer_kdf outer_pim hidden_password hidden_keyfiles = Ok v0"
    "open_volume_file L (h_read H) path hidden_password hidden_keyfiles (Some 0) = Ok hidden"
    "unat (or_data_offset hidden) + unat (or_data_length hidden) \<le> 2 ^ 63"
    "unat (or_data_offset hidden) + unat (or_data_length hidden) \<le> length (f_bytes (ov_file v0))"
    "vol_reach L v0 v"
  defines "a \<equiv> unat (or_data_offset hidden)" and "b \<equiv> unat (or_data_offset hidden) + unat (or_data_length hidden)"
  shows "sub (f_bytes (ov_file v)) a b = sub (f_bytes (ov_file v0)) a b"
proof -
  have r: "ov_protected_range v0 = Some (or_data_offset hidden, or_data_offset hidden + or_data_length hidden)"
    using assms(2,3) by (auto simp: open_with_protection_def split: if_splits)
  have "unat (or_data_offset hidden + or_data_length hidden) = b"
    using assms(4) by (simp add: b_def unat_plus64)
  then have "protects v0 a b"
    using r assms(4) by (simp add: protects_def a_def b_def)
  moreover have "vol_ok L v0"
    using opened_vol_ok(3) [OF assms(1,2)] by simp
  ultimately show ?thesis
    using session_reach [OF assms(1) _ assms(6)] assms(5) by (simp add: session_def b_def)
qed

text \<open>A file with a hidden-type header in the primary slot and a normal one in the backup slot.\<close>

lemma toy_header:
  assumes "lib_ok L" "derive L (kc_implementation kc) pw (vh_salt h) (kc_iterations kc) (replicate 192 0) = Ok key" "header_ok h"
  obtains hdr where "length hdr = 65536" "take 64 hdr = vh_salt h" "kdf_opens L hdr pw kc Aes (stored_form L h)"
proof -
  have l: "length (take (2 * ct_key_size Aes) key) = 2 * ct_key_size Aes"
    using derive_length [OF assms(1,2)] by simp
  obtain hdr where "length hdr = 65536" "take 64 hdr = vh_salt h"
    "header_opens L (hdr @ []) Aes (take (2 * ct_key_size Aes) key) (stored_form L h)"
    using encrypted_header_opens [OF assms(1,3) l, of "[]" "[]" "[]"] by blast
  then show ?thesis
    using that [of hdr] kdf_opens_stored [of L kc pw hdr key Aes "stored_form L h" hdr] assms(2) by simp
qed

lemma open_auto_first:
  assumes "lib_ok L" "fs path = Inr data" "262144 \<le> length data"
    "kdf_opens L data pw (make_kdf_candidate Pbkdf2Sha512 0) Aes h"
  shows "\<exists>s kc b. open_volume_file L fs path pw [] (Some 0) = Ok (open_result Aes h s kc b)"
proof -
  let ?kc = "make_kdf_candidate Pbkdf2Sha512 0"
  obtain cands where c: "auto_kdf_candidates (Some 0) = ?kc # cands"
    by (simp add: auto_kdf_candidates_def pim_for_algorithm_def)
  obtain ps where ps: "header_positions (length data) = (v2_normal (length data), 0) # ps"
    by (simp add: header_positions_large [OF assms(3)])
  let ?hdr = "sub data 0 65536"
  have len: "512 \<le> length ?hdr" and t: "take 512 ?hdr = take 512 data"
    using assms(3) by (auto simp: sub_def min_def)
  have k: "kdf_opens L ?hdr pw ?kc Aes h"
    using assms(4) kdf_opens_take [OF t] by simp
  have "try_open L ?hdr pw (?kc # cands) b = Ok (open_result Aes h (take 64 ?hdr) ?kc b)" for b
  proof -
    have eq: "try_open L ?hdr pw (?kc # cands) b = try_candidates L ?hdr pw (take 64 ?hdr) b (?kc # cands)"
    proof -
      have "slice ?hdr 0 64 = (Ok (take 64 ?hdr) :: bytes vres)" "\<not> length ?hdr < 512"
        using len by (simp_all add: sub_def)
      then show ?thesis
        by (simp add: try_open_def header_consts del: try_candidates.simps)
    qed
    show ?thesis
    proof (cases rule: try_candidates_spec [OF assms(1) len, of "?kc # cands" pw b])
      case (1 pre kdf post c h')
      then have pre: "pre = []"
        using k by (cases pre) auto
      then have "kdf = ?kc" "c = Aes"
        using 1(1,4) k by (auto simp: all_supported_def split: if_splits)
      then show ?thesis
        using 1(3,5) k kdf_opens_unique eq by metis
    next
      case 2
      then show ?thesis
        using k by auto
    qed
  qed
  moreover have "slice data 0 65536 = (Ok ?hdr :: bytes vres)" "min 65536 (length data) = 65536"
    using assms(3) by simp_all
  moreover have "mix_password L fs pw [] = Ok pw"
    by (simp add: mix_password_def)
  ultimately show ?thesis
    using open_file_alt(2) [of fs path data L pw "[]" pw "Some 0"] assms(2)
    by (auto simp: ps c v2_normal_def header_consts Let_def)
qed

text \<open>
  The witness: the primary slot holds a hidden header that the hidden password
  opens, the backup slot an outer header that the outer password opens with
  Argon2id, which refuses the salt of the primary slot.
\<close>

lemma toy_protected:
  obtains H v0 hidden where
    "open_with_protection (picky_lib (replicate 64 9)) H ''v'' [1] [] (Some Argon2id) None [2] [] = Ok v0"
    "open_volume_file (picky_lib (replicate 64 9)) (h_read H) ''v'' [2] [] (Some 0) = Ok hidden"
    "or_data_offset hidden = 70000" "or_data_length hidden = 512" "length (f_bytes (ov_file v0)) = 262144"
proof -
  let ?L = "picky_lib (replicate 64 9)" and ?k1 = "make_kdf_candidate Argon2id 0" and ?k2 = "make_kdf_candidate Pbkdf2Sha512 0"
  let ?h1 = "header_new \<lparr> vh_salt := replicate 64 7 \<rparr>"
  let ?h2 = "header_new \<lparr> vh_salt := replicate 64 9, vh_hidden_volume_size := 512,
    vh_encrypted_area_start := 70000, vh_encrypted_area_length := 512 \<rparr>"
  have ok: "header_ok ?h1" "header_ok ?h2"
    by (simp_all add: header_ok_def header_new_def sector_size_ok_def)
  have ne: "replicate 64 (7 :: u8) \<noteq> replicate 64 9"
    using arg_cong [of "replicate 64 (7 :: u8)" "replicate 64 9" hd] by auto
  obtain key1 where k1: "derive ?L (kc_implementation ?k1) [1] (vh_salt ?h1) (kc_iterations ?k1) (replicate 192 0) = Ok key1"
    using ne by (simp add: picky_derive)
  obtain key2 where k2: "derive ?L (kc_implementation ?k2) [2] (vh_salt ?h2) (kc_iterations ?k2) (replicate 192 0) = Ok key2"
    by (simp add: make_kdf_candidate_def)
  obtain hdr1 where h1: "length hdr1 = 65536" "kdf_opens ?L hdr1 [1] ?k1 Aes (stored_form ?L ?h1)"
    by (rule toy_header [OF picky_lib_ok k1 ok(1)])
  obtain hdr2 where h2: "length hdr2 = 65536" "take 64 hdr2 = replicate 64 9" "kdf_opens ?L hdr2 [2] ?k2 Aes (stored_form ?L ?h2)"
    by (rule toy_header [OF picky_lib_ok k2 ok(2)]) simp
  let ?data = "hdr2 @ replicate 65536 0 @ hdr1 @ replicate 65536 0"
  have l: "length ?data = 262144"
    using h1(1) h2(1) by simp
  have no: "\<nexists>k c h. opens_at ?L ?data [1] [?k1] 0 k c h"
    using h2(1,2) by (simp add: opens_at_def kdf_opens_def derived_key_def picky_derive MAX_HEADER_KEY_SIZE_def)
  have "take 512 (drop 131072 ?data) = take 512 hdr1"
    using h1(1) h2(1) by simp
  then have first: "opens_first ?L (drop (length ?data - 131072) ?data) [1] ?k1 Aes (stored_form ?L ?h1)"
    using h1(2) kdf_opens_take [of "drop 131072 ?data" hdr1] l by (simp add: opens_first_def all_supported_def)
  let ?H = "\<lparr> h_read = (\<lambda>p. Inr ?data), h_open = (\<lambda>w p. Inr \<lparr> f_bytes = ?data, f_pos = 0, f_budget = None, f_short = 0, f_err = [] \<rparr>) \<rparr>"
  have mp: "mix_password ?L fs pw [] = Ok pw" for fs pw
    by (simp add: mix_password_def)
  obtain s1 where outer: "open_volume_file_with_kdf ?L (h_read ?H) ''v'' [1] [] Argon2id 0 =
      Ok (open_result Aes (stored_form ?L ?h1) s1 ?k1 True)"
    using open_backup [OF picky_lib_ok _ mp _ no first, of "h_read ?H" "''v''"] l by simp
  have "kdf_opens ?L ?data [2] ?k2 Aes (stored_form ?L ?h2)"
    using h2(1,3) kdf_opens_take [of ?data hdr2] by simp
  then have "\<exists>s kc b. open_volume_file ?L (h_read ?H) ''v'' [2] [] (Some 0) = Ok (open_result Aes (stored_form ?L ?h2) s kc b)"
    by (intro open_auto_first [OF picky_lib_ok, where data = ?data]) (simp_all add: h1(1) h2(1))
  then obtain s2 kc b where hidden: "open_volume_file ?L (h_read ?H) ''v'' [2] [] (Some 0) =
      Ok (open_result Aes (stored_form ?L ?h2) s2 kc b)"
    by blast
  obtain c where c: "create_sector_cipher ?L Aes (or_master_key (open_result Aes (stored_form ?L ?h1) s1 ?k1 True)) = Ok c"
    using create_sector_cipher_refines [OF picky_lib_ok, of "or_master_key (open_result Aes (stored_form ?L ?h1) s1 ?k1 True)" Aes]
    by (auto simp: open_result_def stored_form_def key_area_def)
  have parts: "or_volume_type (open_result Aes (stored_form ?L ?h1) s1 ?k1 True) = NormalVolume"
    "or_data_cipher (open_result Aes (stored_form ?L ?h1) s1 ?k1 True) = Aes"
    "or_volume_type (open_result Aes (stored_form ?L ?h2) s2 kc b) = HiddenVolume"
    "or_data_offset (open_result Aes (stored_form ?L ?h2) s2 kc b) = 70000"
    "or_data_length (open_result Aes (stored_form ?L ?h2) s2 kc b) = 512"
    by (simp_all add: open_result_def stored_form_def header_new_def)
  obtain v0 where "open_with_protection ?L ?H ''v'' [1] [] (Some Argon2id) None [2] [] = Ok v0"
    "ov_file v0 = \<lparr> f_bytes = ?data, f_pos = 0, f_budget = None, f_short = 0, f_err = [] \<rparr>"
    using outer hidden c parts by (simp add: open_with_protection_def open_header_def open_handle_def)
  then show ?thesis
    using that [of ?H v0, OF _ hidden] parts(4,5) l by simp
qed

theorem hidden_protection_holds_witness:
  "\<exists>L H v0 v r. open_with_protection L H ''v'' [1] [] (Some Argon2id) None [2] [] = Ok v0
    \<and> volume_write L 100 (replicate 512 5) v0 = (r, v)
    \<and> sub (f_bytes (ov_file v)) 70000 70512 = sub (f_bytes (ov_file v0)) 70000 70512"
proof -
  let ?L = "picky_lib (replicate 64 9)"
  obtain H v0 hidden where h: "open_with_protection ?L H ''v'' [1] [] (Some Argon2id) None [2] [] = Ok v0"
    "open_volume_file ?L (h_read H) ''v'' [2] [] (Some 0) = Ok hidden"
    "or_data_offset hidden = 70000" "or_data_length hidden = 512" "length (f_bytes (ov_file v0)) = 262144"
    using toy_protected by metis
  obtain r v where w: "volume_write ?L 100 (replicate 512 5) v0 = (r, v)"
    by (cases "volume_write ?L 100 (replicate 512 5) v0")
  have "vol_reach ?L v0 v"
    by (rule reach_step [OF reach_start step_write [OF _ w]]) simp
  then have "sub (f_bytes (ov_file v)) 70000 70512 = sub (f_bytes (ov_file v0)) 70000 70512"
    using hidden_protection_holds [OF picky_lib_ok h(1,2)] h(3-5) by simp
  then show ?thesis
    using h(1) w by blast
qed

text \<open>
  A volume opened read-only never changes its file, through whatever
  sequence of sector requests, and refuses every write; and once the protection
  of a hidden volume has been triggered, the volume stays in that state,
  refuses every later write with the protection error and its file no longer
  changes.
\<close>

theorem write_guards_latch:
  assumes "lib_ok L" "vol_ok L v0" "vol_reach L v0 v" "ov_read_only v0 \<or> ov_hidden_protection_triggered v0"
  shows "f_bytes (ov_file v) = f_bytes (ov_file v0)
    \<and> volume_write L s buf v =
      (Err (if ov_read_only v0 then Unsupported ''volume opened read-only'' else HiddenVolumeProtection), v)"
proof -
  have "session v0 v"
    using session_reach [OF assms(1-3)] by simp
  then show ?thesis
    using assms(4) by (auto simp: session_def volume_write_def)
qed

theorem write_guards_latch_witness:
  "\<exists>c v r. create_sector_cipher toy_lib Aes (replicate 64 1) = Ok c
    \<and> volume_write toy_lib 0 (replicate 512 5) (toy_volume c 2048 (Some (100, 200))) = (r, v)
    \<and> volume_write toy_lib 3 (replicate 512 5) v = (Err HiddenVolumeProtection, v)"
proof -
  obtain c where c: "create_sector_cipher toy_lib Aes (replicate 64 1) = Ok c"
    using toy_cipher by blast
  let ?v = "toy_volume c 2048 (Some (100, 200))"
  obtain r v where w: "volume_write toy_lib 0 (replicate 512 5) ?v = (r, v)"
    by (cases "volume_write toy_lib 0 (replicate 512 5) ?v")
  then have v: "v = ?v \<lparr> ov_hidden_protection_triggered := True \<rparr>"
    by (auto simp: volume_write_def check_protected_range_def toy_volume_def toy_inner_parts)
  have "vol_ok toy_lib v"
    using toy_volume_ok [OF c] by (simp add: v vol_ok_def)
  from write_guards_latch [OF toy_lib_ok this reach_start, of 3 "replicate 512 5"]
  have "volume_write toy_lib 3 (replicate 512 5) v = (Err HiddenVolumeProtection, v)"
    by (simp add: v toy_volume_def)
  then show ?thesis
    using c w by blast
qed

text \<open>
  C20: The data area of a volume reaches into the backup headers. In a file of
  the size the command line tool makes (the volume and four header sizes) with
  a data area that starts after the first 256 KiB, a write to a sector below
  \<open>max_sector\<close> that every guard admits replaces the first 512 bytes of the backup
  header by ciphertext, for every volume of at least 128 KiB.
\<close>

theorem data_area_overlaps_backup:
  assumes "lib_ok L" "vol_ok L v" "reliable (ov_file v)" "\<not> ov_read_only v" "ov_protected_range v = None"
    "\<not> ov_hidden_protection_triggered v" "or_data_offset (ov_inner v) = 262144"
    "length (f_bytes (ov_file v)) = 262144 + unat (or_data_length (ov_inner v))"
    "length (f_bytes (ov_file v)) < 2 ^ 64" "131072 \<le> unat (or_data_length (ov_inner v))"
    "512 dvd unat (or_data_length (ov_inner v))" "length buf = 512"
  defines "s \<equiv> or_data_length (ov_inner v) div 512 - 256" and "backup \<equiv> length (f_bytes (ov_file v)) - 131072"
  shows "s < max_sector v \<and> (\<exists>v' c. volume_write L s buf v = (Ok (), v')
    \<and> obj_encrypt_sector L (ov_cipher v) s buf = Ok c
    \<and> sub (f_bytes (ov_file v')) backup (backup + 512) = c)"
proof -
  let ?len = "or_data_length (ov_inner v)" and ?e = "obj_encrypt_sector L (ov_cipher v)"
  have q: "256 \<le> unat (?len div 512)" "unat (?len div 512) = unat ?len div 512"
    using assms(10) by (simp_all add: unat_div)
  have us: "unat s = unat ?len div 512 - 256"
    unfolding s_def using q by (subst unat_minus64) (simp_all add: word_le_nat_alt)
  have big: "unat ?len < 2 ^ 64 - 262144"
    using assms(8,9) by simp
  have ps: "unat (s * 512) = unat ?len - 131072"
  proof -
    have "unat s * 512 = unat ?len - 131072"
      using us assms(11) by (auto simp: algebra_simps elim: dvdE)
    then show ?thesis
      using big by (subst unat_times64) simp_all
  qed
  have pos: "unat (host_pos (or_data_offset (ov_inner v)) s) = backup"
    using ps assms(7,8,10) big unfolding host_pos_def DATA_UNIT_SIZE_def backup_def
    by (subst unat_plus64) simp_all
  have lt: "s < max_sector v"
    using us q by (simp add: max_sector_def DATA_UNIT_SIZE_def word_less_nat_alt)
  have al: "writes_allowed v s buf"
    using assms(4-6,12) by (simp add: writes_allowed_def check_protected_range_def)
  have ad: "16 dvd length buf \<and> 0 < length buf"
    using assms(12) by simp
  obtain c f' where w: "?e s buf = Ok c" "length c = length buf"
    "write_sectors ?e (or_data_offset (ov_inner v)) s buf (ov_file v) = (Ok (), f')"
    "f_bytes f' = write_at (f_bytes (ov_file v)) backup c"
    using write_sectors_run [OF vol_cipher [OF assms(1,2)] ad assms(3), of s "or_data_offset (ov_inner v)"] pos by auto
  have "sub (f_bytes f') backup (backup + 512) = c"
    using sub_write_at_same [of backup c "f_bytes (ov_file v)"] w(2,4) assms(12,8) by (simp add: backup_def)
  then show ?thesis
    using lt w(1,3) by (auto simp: volume_write_passed [OF al] fileV_def)
qed

theorem data_area_overlaps_backup_witness:
  "\<exists>v' c. volume_write toy_lib 0 (replicate 512 5) ((toy_volume c 393216 None) \<lparr> ov_inner := toy_inner 262144 131072 \<rparr>) = (Ok (), v')
    \<and> obj_encrypt_sector toy_lib c 0 (replicate 512 5) = Ok (sub (f_bytes (ov_file v')) 262144 262656)"
proof -
  obtain c where c: "create_sector_cipher toy_lib Aes (replicate 64 1) = Ok c"
    using toy_cipher by blast
  let ?v = "(toy_volume c 393216 None) \<lparr> ov_inner := toy_inner 262144 131072 \<rparr>"
  have ok: "vol_ok toy_lib ?v"
    using toy_volume_ok [OF c] by (simp add: vol_ok_def)
  have p: "reliable (ov_file ?v)" "or_data_offset (ov_inner ?v) = 262144" "or_data_length (ov_inner ?v) = 131072"
    "length (f_bytes (ov_file ?v)) = 393216" "ov_cipher ?v = c" "\<not> ov_read_only ?v" "ov_protected_range ?v = None"
    "\<not> ov_hidden_protection_triggered ?v"
    by (simp_all add: toy_volume_def toy_inner_def open_result_def reliable_def header_new_def)
  have "length (replicate 512 (5 :: u8)) = 512"
    by simp
  from data_area_overlaps_backup [OF toy_lib_ok ok p(1,6,7,8,2) _ _ _ _ this]
  have "\<exists>v' d. volume_write toy_lib 0 (replicate 512 5) ?v = (Ok (), v')
    \<and> obj_encrypt_sector toy_lib c 0 (replicate 512 5) = Ok d \<and> sub (f_bytes (ov_file v')) 262144 262656 = d"
    unfolding p(3,4,5) by simp
  then show ?thesis
    by blast
qed

text \<open>
  The byte-stream interface of a volume goes around its encryption and its
  guards. A \<open>write\<close> through it puts the bytes as they are at the cursor of the
  file, also inside a protected range or after the protection has been
  triggered, and a \<open>read\<close> returns the bytes of the file as they are.
\<close>

theorem stream_bypasses_guards:
  assumes "reliable (ov_file v)" "\<not> ov_read_only v" "f_pos (ov_file v) + length buf \<le> length (f_bytes (ov_file v))"
    "f_pos (ov_file v) + length buf \<le> unat (or_data_offset (ov_inner v) + or_data_length (ov_inner v))"
  defines "p \<equiv> f_pos (ov_file v)"
  shows "\<exists>v'. stream_write buf v = (Ok (length buf), v') \<and> sub (f_bytes (ov_file v')) p (p + length buf) = buf
    \<and> fst (stream_read (length buf) v) = Ok (sub (f_bytes (ov_file v)) p (p + length buf))"
proof -
  have w: "stream_write buf v = (Ok (length buf), v \<lparr> ov_file := (ov_file v)
      \<lparr> f_bytes := write_at (f_bytes (ov_file v)) p buf, f_pos := p + length buf \<rparr> \<rparr>)"
    using assms(1,2) by (simp add: stream_write_def fileV_def reliable_ops p_def)
  have g: "io_guard (ov_file v) = (Ok (), ov_file v)"
    using assms(1) by (simp add: io_guard_def reliable_def)
  have "fst (stream_read (length buf) v) = Ok (sub (f_bytes (ov_file v)) p (p + length buf))"
  proof (cases "buf = []")
    case True
    then show ?thesis
      by (simp add: stream_read_def sub_def)
  next
    case False
    then have "0 < length buf"
      by simp
    then have "\<not> unat (or_data_offset (ov_inner v) + or_data_length (ov_inner v)) \<le> p"
      "min (length buf) (unat (or_data_offset (ov_inner v) + or_data_length (ov_inner v)) - p) = length buf"
      using assms(4) unfolding p_def by linarith+
    then show ?thesis
      using False assms(1) g
      by (simp add: stream_read_def fileV_def reliable_ops bindS_def file_read_def p_def Let_def)
  qed
  then show ?thesis
    using w sub_write_at_same [of p buf "f_bytes (ov_file v)"] assms(3) by (auto simp: p_def)
qed

theorem stream_bypasses_guards_witness:
  "\<exists>v'. stream_write (replicate 100 5) (toy_volume (SxAes \<lparr> cipher1 = [], cipher2 = [] \<rparr>) 2048 (Some (0, 1024))) = (Ok 100, v')
    \<and> sub (f_bytes (ov_file v')) 0 100 = replicate 100 5"
proof -
  let ?v = "toy_volume (SxAes \<lparr> cipher1 = [], cipher2 = [] \<rparr>) 2048 (Some (0, 1024))"
  have "reliable (ov_file ?v)" "\<not> ov_read_only ?v"
    by (simp_all add: toy_volume_def reliable_def)
  moreover have "f_pos (ov_file ?v) = 0" "length (f_bytes (ov_file ?v)) = 2048"
    "unat (or_data_offset (ov_inner ?v) + or_data_length (ov_inner ?v)) = 1024"
    by (simp_all add: toy_volume_def toy_inner_def open_result_def header_new_def)
  ultimately show ?thesis
    using stream_bypasses_guards [of ?v "replicate 100 5"] by auto
qed

text \<open>
  A seek through the stream interface that succeeds leaves the cursor inside
  the data area, ends included, and reports that position; one that leaves the
  data area is refused and the cursor stays where it was.
\<close>

theorem stream_seek_bounds:
  assumes "reliable (ov_file v)"
  defines "start \<equiv> or_data_offset (ov_inner v)" and "fin \<equiv> or_data_offset (ov_inner v) + or_data_length (ov_inner v)"
  shows "(\<exists>t. stream_seek pos v = (Ok (unat t), v \<lparr> ov_file := (ov_file v) \<lparr> f_pos := unat t \<rparr> \<rparr>) \<and> start \<le> t \<and> t \<le> fin)
    \<or> stream_seek pos v = (Err ''seek out of data area'', v)"
  using assms(1)
  by (cases pos) (auto simp: stream_seek_def fileV_def bindS_def ret_def liftR_def reliable_ops start_def fin_def Let_def)

theorem stream_seek_bounds_witness:
  "\<exists>t :: u64. stream_seek (SeekEnd (- 24)) (toy_volume (SxAes \<lparr> cipher1 = [], cipher2 = [] \<rparr>) 2048 None) =
    (Ok (unat t), (toy_volume (SxAes \<lparr> cipher1 = [], cipher2 = [] \<rparr>) 2048 None) \<lparr> ov_file := (ov_file (toy_volume (SxAes \<lparr> cipher1 = [], cipher2 = [] \<rparr>) 2048 None)) \<lparr> f_pos := unat t \<rparr> \<rparr>)
    \<and> t \<le> 1024"
proof -
  let ?v = "toy_volume (SxAes \<lparr> cipher1 = [], cipher2 = [] \<rparr>) 2048 None"
  have r: "reliable (ov_file ?v)"
    by (simp add: toy_volume_def reliable_def)
  have "stream_seek (SeekEnd (- 24)) ?v \<noteq> (Err ''seek out of data area'', ?v)"
    using r by (simp add: stream_seek_def fileV_def bindS_def ret_def reliable_ops toy_volume_def toy_inner_def
        open_result_def header_new_def Let_def)
  then obtain t where t: "stream_seek (SeekEnd (- 24)) ?v = (Ok (unat t), ?v \<lparr> ov_file := (ov_file ?v) \<lparr> f_pos := unat t \<rparr> \<rparr>)"
    "t \<le> or_data_offset (ov_inner ?v) + or_data_length (ov_inner ?v)"
    using stream_seek_bounds [OF r, of "SeekEnd (- 24)"] by blast
  have "or_data_offset (ov_inner ?v) + or_data_length (ov_inner ?v) = 1024"
    by (simp add: toy_volume_def toy_inner_def open_result_def header_new_def)
  then have "t \<le> 1024"
    using t(2) by simp
  then show ?thesis
    using t(1) by blast
qed

end
