(* ===== verification/SectorIo.thy ===== *)
theory SectorIo
  imports KernelCipher
begin

text \<open>
  The algorithms of the kernel driver that need no kernel
  (\<open>vcrypt-driver-core\<close>): the map from encryption-algorithm numbers to ciphers,
  the virtual disk geometry, the byte access to packed structures, and the
  arithmetic and the cipher loops of sector-aligned I/O. Offsets are \<open>u64\<close> and
  wrap as in a release build; \<open>usize\<close> is 64 bits wide and is read as a natural
  number.
\<close>

section \<open>Algorithm numbers and geometry\<close>

definition cipher_type_from_ea :: "u32 \<Rightarrow> CipherType option" where
  "cipher_type_from_ea ea =
     (if ea = 0x01 then Some Aes
      else if ea = 0x02 then Some Serpent
      else if ea = 0x03 then Some Twofish
      else if ea = 0x04 then Some Camellia
      else if ea = 0x05 then Some Kuznyechik
      else if ea = 0x11 then Some AesTwofish
      else if ea = 0x12 then Some AesTwofishSerpent
      else if ea = 0x13 then Some SerpentAes
      else if ea = 0x14 then Some SerpentTwofishAes
      else if ea = 0x15 then Some TwofishSerpent
      else if ea = 0x16 then Some CamelliaKuznyechik
      else if ea = 0x17 then Some CamelliaSerpent
      else if ea = 0x18 then Some KuznyechikAes
      else if ea = 0x19 then Some KuznyechikSerpentCamellia
      else if ea = 0x1A then Some KuznyechikTwofish
      else None)"

text \<open>Division by a sector size of zero panics.\<close>

definition compute_virtual_geometry :: "u64 \<Rightarrow> u32 \<Rightarrow> (unit, u64 \<times> u32 \<times> u32) res" where
  "compute_virtual_geometry disk_length bytes_per_sector =
     (if bytes_per_sector = 0 then Panic
      else
        let sector_count = disk_length div ucast bytes_per_sector;
            cylinders = max sector_count 1
        in Ok (cylinders, 1, 1))"

section \<open>Packed structures\<close>

text \<open>
  A packed structure is its bytes, a field is an offset into them. The code
  reads through raw pointers: the callers pass offsets of fields, so the bytes
  are there.
\<close>

definition read_packed_u32 :: "bytes \<Rightarrow> nat \<Rightarrow> u32" where
  "read_packed_u32 s addr = from_le [s ! addr, s ! (addr + 1), s ! (addr + 2), s ! (addr + 3)]"

definition read_packed_u64 :: "bytes \<Rightarrow> nat \<Rightarrow> u64" where
  "read_packed_u64 s addr = from_le (blit (replicate 8 0) 0 (sub s addr (addr + 8)))"

definition read_packed_i64 :: "bytes \<Rightarrow> nat \<Rightarrow> int" where
  "read_packed_i64 s addr = sint (read_packed_u64 s addr)"

definition read_packed_u8 :: "bytes \<Rightarrow> nat \<Rightarrow> u8" where
  "read_packed_u8 s addr = s ! addr"

definition read_packed_i32 :: "bytes \<Rightarrow> nat \<Rightarrow> int" where
  "read_packed_i32 s addr = sint (read_packed_u32 s addr)"

definition write_packed_i32 :: "bytes \<Rightarrow> nat \<Rightarrow> int \<Rightarrow> bytes" where
  "write_packed_i32 s addr v =
     (let b = le_bytes 4 (word_of_int v :: u32)
      in s[addr := b ! 0, addr + 1 := b ! 1, addr + 2 := b ! 2, addr + 3 := b ! 3])"

definition copy_into_packed :: "bytes \<Rightarrow> nat \<Rightarrow> bytes \<Rightarrow> nat \<Rightarrow> bytes" where
  "copy_into_packed s addr src len = blit s addr (take len src)"

definition copy_wide_into_packed :: "bytes \<Rightarrow> nat \<Rightarrow> u16 list \<Rightarrow> nat \<Rightarrow> bytes" where
  "copy_wide_into_packed s addr src len_ch = blit s addr (take (len_ch * 2) (concat (map (le_bytes 2) src)))"

section \<open>Sector-aligned requests\<close>

definition ENCRYPTION_DATA_UNIT_SIZE :: u64 where "ENCRYPTION_DATA_UNIT_SIZE = 512"

datatype SectorIoError = OutOfBounds | ZeroLength | InvalidAlignment

record SectorIoParams =
  aligned_host_offset :: u64
  aligned_length :: u64
  user_data_offset :: nat
  user_data_length :: nat
  sector_count :: nat
  first_sector_index :: u64

definition compute_sector_io_params :: "u64 \<Rightarrow> u64 \<Rightarrow> u64 \<Rightarrow> u64 \<Rightarrow> u64 \<Rightarrow> (SectorIoError, SectorIoParams) res" where
  "compute_sector_io_params vol_data_area_offset first_data_unit_no virtual_offset len disk_length =
     (if len = 0 then Err ZeroLength
      else if virtual_offset + len > disk_length then Err OutOfBounds
      else
        let host_offset = vol_data_area_offset + virtual_offset;
            unit = ENCRYPTION_DATA_UNIT_SIZE;
            aligned_off = (host_offset div unit) * unit;
            end_byte = host_offset + len;
            aligned_end = ((end_byte + unit - 1) div unit) * unit;
            buf_size = unat (aligned_end - aligned_off);
            count = buf_size div unat unit;
            user_off = unat (host_offset - aligned_off)
        in if buf_size mod unat unit \<noteq> 0 then Err InvalidAlignment
           else
             let base_unit = first_data_unit_no + (aligned_off - vol_data_area_offset) div unit
             in Ok \<lparr> aligned_host_offset = aligned_off, aligned_length = of_nat buf_size,
                  user_data_offset = user_off, user_data_length = unat len,
                  sector_count = count, first_sector_index = base_unit \<rparr>)"

text \<open>
  The loop both directions share: each 512-byte sector goes through the cipher
  under its own number. A buffer that is too short fails the assertion.
\<close>

definition each_sector :: "(u64 \<Rightarrow> bytes \<Rightarrow> ('e, bytes) res) \<Rightarrow> u64 \<Rightarrow> nat \<Rightarrow> bytes \<Rightarrow> ('e, bytes) res" where
  "each_sector crypt first n data =
     (let unit = unat ENCRYPTION_DATA_UNIT_SIZE
      in if length data < n * unit then Panic
         else fold_res (\<lambda>i data.
           let start = i * unit in
           bind_res (slice data start (start + unit)) (\<lambda>sector.
           bind_res (crypt (first + of_nat i) sector) (\<lambda>sector.
           Ok (blit data start sector)))) [0..<n] data)"

definition encrypt_sectors :: "crypto_lib \<Rightarrow> KernelSectorCipher \<Rightarrow> u64 \<Rightarrow> nat \<Rightarrow> bytes \<Rightarrow> bytes cres" where
  "encrypt_sectors L cipher = each_sector (kernel_encrypt_sector L cipher)"

definition decrypt_sectors :: "crypto_lib \<Rightarrow> KernelSectorCipher \<Rightarrow> u64 \<Rightarrow> nat \<Rightarrow> bytes \<Rightarrow> bytes cres" where
  "decrypt_sectors L cipher = each_sector (kernel_decrypt_sector L cipher)"

section \<open>The sector loops\<close>

definition sector_of :: "bytes \<Rightarrow> nat \<Rightarrow> bytes" where
  "sector_of data i = sub data (i * 512) (i * 512 + 512)"

lemma length_sector_of: "i < n \<Longrightarrow> n * 512 \<le> length data \<Longrightarrow> length (sector_of data i) = 512"
  by (auto simp: sector_of_def)

lemma length_concat_upt:
  "\<forall>i < n. length (g i) = k \<Longrightarrow> length (concat (map g [0..<n])) = n * k"
  by (induction n) auto

lemma sector_of_concat:
  assumes "\<forall>i < n. length (g i) = 512" "i < n"
  shows "sector_of (concat (map g [0..<n]) @ rest) i = g i"
proof -
  have "[0..<n] = [0..<i] @ i # [Suc i..<n]"
    using assms(2) upt_add_eq_append [of 0 i "n - i"] by (simp add: upt_conv_Cons)
  moreover have "length (concat (map g [0..<i])) = i * 512"
    using assms by (intro length_concat_upt) auto
  ultimately show ?thesis
    using assms by (simp add: sector_of_def sub_def)
qed

lemma each_sector_run:
  assumes "\<forall>i < n. f (first + of_nat i) (sector_of d i) = Ok (g i) \<and> length (g i) = 512" "n * 512 \<le> length d"
  shows "each_sector f first n d = Ok (concat (map g [0..<n]) @ drop (n * 512) d)"
proof -
  let ?step = "\<lambda>i data. bind_res (slice data (i * 512) (i * 512 + 512)) (\<lambda>sector.
    bind_res (f (first + of_nat i) sector) (\<lambda>sector. Ok (blit data (i * 512) sector)))"
  have "fold_res ?step [0..<m] d = Ok (concat (map g [0..<m]) @ drop (m * 512) d)" if "m \<le> n" for m
    using that
  proof (induction m)
    case (Suc m)
    let ?c = "concat (map g [0..<m])"
    have l: "length ?c = m * 512" "length (g m) = 512"
      using assms(1) Suc(2) by (auto intro!: length_concat_upt)
    have b: "m * 512 + 512 \<le> length d"
      using Suc(2) assms(2) by linarith
    have s: "slice (?c @ drop (m * 512) d) (m * 512) (m * 512 + 512) = (Ok (sector_of d m) :: ('a, bytes) res)"
      using l b by (simp add: slice_def sub_def sector_of_def)
    show ?case
      using Suc l b s assms(1) by (simp add: fold_res_upt_Suc blit_def add.commute del: upt_Suc) (simp add: add.commute)
  qed simp
  from this [of n] show ?thesis
    using assms(2) by (simp add: each_sector_def ENCRYPTION_DATA_UNIT_SIZE_def Let_def)
qed

lemma each_sector_short: "length d < n * 512 \<Longrightarrow> each_sector f first n d = Panic"
  by (simp add: each_sector_def ENCRYPTION_DATA_UNIT_SIZE_def)

text \<open>
  Over any sector cipher, the loop succeeds, treats every sector on its own,
  leaves what follows the last sector alone, and the other direction undoes it.
\<close>

definition sectors_image ::
  "(u64 \<Rightarrow> bytes \<Rightarrow> ('e, bytes) res) \<Rightarrow> u64 \<Rightarrow> nat \<Rightarrow> bytes \<Rightarrow> bytes \<Rightarrow> bool" where
  "sectors_image f first n d c \<longleftrightarrow> length c = length d \<and> drop (n * 512) c = drop (n * 512) d \<and>
     (\<forall>i < n. f (first + of_nat i) (sector_of d i) = Ok (sector_of c i))"

lemma each_sector_image:
  assumes "\<And>i s. length s = 512 \<Longrightarrow> \<exists>t. f i s = Ok t \<and> length t = 512" "n * 512 \<le> length d"
  shows "\<exists>c. each_sector f first n d = Ok c \<and> sectors_image f first n d c"
proof -
  define g where "g i = the_ok (f (first + of_nat i) (sector_of d i))" for i
  have g: "\<forall>i < n. f (first + of_nat i) (sector_of d i) = Ok (g i) \<and> length (g i) = 512"
  proof (intro allI impI)
    fix i assume "i < n"
    then obtain t where "f (first + of_nat i) (sector_of d i) = Ok t" "length t = 512"
      using assms(1) length_sector_of [OF _ assms(2)] by blast
    then show "f (first + of_nat i) (sector_of d i) = Ok (g i) \<and> length (g i) = 512"
      by (simp add: g_def)
  qed
  moreover have "length (concat (map g [0..<n])) = n * 512"
    using g by (intro length_concat_upt) auto
  ultimately show ?thesis
    using each_sector_run [OF g assms(2)] assms(2) by (auto simp: sectors_image_def sector_of_concat)
qed

lemma bytes_by_sectors:
  assumes "n * 512 \<le> length c"
  shows "concat (map (sector_of c) [0..<n]) @ drop (n * 512) c = c"
proof -
  have "concat (map (sector_of c) [0..<n]) = take (n * 512) c"
    using assms by (induction n) (simp_all add: sector_of_def sub_def take_add add.commute [of 512])
  then show ?thesis
    by simp
qed

context sector_cipher
begin

lemma each_sector_inverse:
  assumes "adm 512" "sectors_image enc first n d c" "n * 512 \<le> length d"
  shows "each_sector dec first n c = Ok d"
proof -
  have "\<forall>i < n. dec (first + of_nat i) (sector_of c i) = Ok (sector_of d i) \<and> length (sector_of d i) = 512"
    using assms enc_ok length_sector_of [OF _ assms(3)] unfolding sectors_image_def by (metis res.inject(1))
  moreover have "n * 512 \<le> length c"
    using assms by (simp add: sectors_image_def)
  ultimately show ?thesis
    using each_sector_run [of n dec first c "sector_of d"] bytes_by_sectors [OF assms(3)] assms(2)
    by (simp add: sectors_image_def)
qed

lemma each_sector_encrypts:
  assumes "adm 512" "n * 512 \<le> length d"
  shows "\<exists>c. each_sector enc first n d = Ok c \<and> sectors_image enc first n d c \<and> each_sector dec first n c = Ok d"
proof -
  have "\<exists>t. enc i s = Ok t \<and> length t = 512" if "length s = 512" for i s
    using enc_ok [of s i] that assms(1) by auto
  from each_sector_image [of enc, OF this assms(2)] show ?thesis
    using each_sector_inverse [OF assms(1) _ assms(2)] by blast
qed

lemma each_sector_decrypts:
  assumes "adm 512" "n * 512 \<le> length d"
  shows "\<exists>p. each_sector dec first n d = Ok p \<and> sectors_image dec first n d p"
proof -
  have "\<exists>t. dec i s = Ok t \<and> length t = 512" if "length s = 512" for i s
    using dec_ok [of s i] that assms(1) by auto
  from each_sector_image [of dec, OF this assms(2)] show ?thesis .
qed

end

section \<open>The request arithmetic\<close>

text \<open>Rounding to sector bounds, without wrap-around, is rounding of natural numbers.\<close>

lemma unat_lt64: "unat (x :: u64) < 2 ^ 64"
proof -
  have "unat x < 2 ^ LENGTH(64)"
    by (rule unsigned_less)
  then show ?thesis
    by simp
qed

lemma unat_round_down: "unat ((x :: u64) div 512 * 512) = unat x div 512 * 512"
proof -
  have "unat (x div 512) * unat (512 :: u64) < 2 ^ 64"
    using unat_lt64 [of x] div_times_less_eq_dividend [of "unat x" 512] by (simp add: unat_div_distrib)
  then show ?thesis
    using unat_times64 [of "x div 512" 512] by (simp add: unat_div_distrib)
qed

lemma unat_round_up:
  assumes "unat (x :: u64) + 511 < 2 ^ 64"
  shows "unat ((x + 512 - 1) div 512 * 512) = (unat x + 511) div 512 * 512"
proof -
  have "unat (x + 511) = unat x + 511"
    using assms unat_plus64 [of x 511] by simp
  moreover have "x + 512 - 1 = x + 511"
    by simp
  ultimately show ?thesis
    by (simp only: unat_round_down)
qed

lemma round_facts:
  fixes h l :: nat
  shows "h div 512 * 512 \<le> (h + l + 511) div 512 * 512"
    "512 dvd (h + l + 511) div 512 * 512 - h div 512 * 512"
    "h - h div 512 * 512 = h mod 512"
    "h mod 512 + l \<le> (h + l + 511) div 512 * 512 - h div 512 * 512"
    "(h + l + 511) div 512 * 512 - h div 512 * 512 < h mod 512 + l + 512"
proof -
  have e: "h = h div 512 * 512 + h mod 512" "h + l + 511 = (h + l + 511) div 512 * 512 + (h + l + 511) mod 512"
    "(h + l + 511) mod 512 < 512"
    by simp_all
  show "h div 512 * 512 \<le> (h + l + 511) div 512 * 512" "h - h div 512 * 512 = h mod 512"
    "512 dvd (h + l + 511) div 512 * 512 - h div 512 * 512"
    by (simp_all add: minus_div_mult_eq_mod div_le_mono dvd_diff_nat)
  show "h mod 512 + l \<le> (h + l + 511) div 512 * 512 - h div 512 * 512"
    "(h + l + 511) div 512 * 512 - h div 512 * 512 < h mod 512 + l + 512"
    using e by linarith+
qed

lemma params_run:
  assumes "len \<noteq> 0" "voff + len \<le> disk" "unat vol + unat voff + unat len + 511 < 2 ^ 64"
  defines "h \<equiv> unat vol + unat voff"
  shows "\<exists>p. compute_sector_io_params vol unit0 voff len disk = Ok p
    \<and> unat (aligned_host_offset p) = h div 512 * 512
    \<and> unat (aligned_length p) = sector_count p * 512
    \<and> user_data_offset p = h mod 512 \<and> user_data_length p = unat len
    \<and> h mod 512 + unat len \<le> sector_count p * 512 \<and> sector_count p * 512 < h mod 512 + unat len + 512
    \<and> first_sector_index p = unit0 + (aligned_host_offset p - vol) div 512"
proof -
  let ?h = "vol + voff" and ?n = "(h + unat len + 511) div 512 * 512 - h div 512 * 512"
  have uh: "unat ?h = h"
    using assms(3) unat_plus64 [of vol voff] by (simp add: h_def)
  have ue: "unat (?h + len) = h + unat len"
    using assms(3) unat_plus64 [of ?h len] uh by (simp add: h_def)
  have d: "unat (?h div 512 * 512) = h div 512 * 512"
    by (simp only: unat_round_down uh)
  have u: "unat ((?h + len + 512 - 1) div 512 * 512) = (h + unat len + 511) div 512 * 512"
    using unat_round_up [of "?h + len"] assms(3) ue by (simp add: h_def)
  have n: "unat ((?h + len + 512 - 1) div 512 * 512 - ?h div 512 * 512) = ?n"
    using unat_minus64 [of "?h div 512 * 512" "(?h + len + 512 - 1) div 512 * 512"] d u round_facts(1) [of h "unat len"]
    by (simp add: word_le_nat_alt)
  have o: "unat (?h - ?h div 512 * 512) = h mod 512"
    using unat_minus64 [of "?h div 512 * 512" ?h] d uh round_facts(3) [of h]
    by (simp add: word_le_nat_alt)
  have n64: "?n < 2 ^ 64"
    using n unat_lt64 [of "(?h + len + 512 - 1) div 512 * 512 - ?h div 512 * 512"] by simp
  have nd: "?n = ?n div 512 * 512" "?n mod 512 = 0"
    using round_facts(2) [of h "unat len"] by (auto simp only: dvd_div_mult_self dvd_eq_mod_eq_0)
  let ?p = "\<lparr> aligned_host_offset = ?h div 512 * 512, aligned_length = of_nat ?n, user_data_offset = h mod 512,
    user_data_length = unat len, sector_count = ?n div 512,
    first_sector_index = unit0 + (?h div 512 * 512 - vol) div 512 \<rparr>"
  have "compute_sector_io_params vol unit0 voff len disk = Ok ?p"
    unfolding compute_sector_io_params_def ENCRYPTION_DATA_UNIT_SIZE_def Let_def
    using assms(1,2) nd(2) by (simp only: n o) simp
  moreover have "unat (aligned_length ?p) = sector_count ?p * 512"
    using nd(1) n64 by (simp only: SectorIoParams.simps unat_of_nat64)
  moreover have "h mod 512 + unat len \<le> sector_count ?p * 512" "sector_count ?p * 512 < h mod 512 + unat len + 512"
    using round_facts(4,5) [of h "unat len"] unfolding SectorIoParams.simps nd(1) [symmetric] by this+
  ultimately show ?thesis
    using d by (intro exI [of _ ?p] conjI) (simp_all only: SectorIoParams.simps)
qed

text \<open>
  When the data area starts on a sector bound, the sector numbers are those of
  the virtual disk. When it does not, a request in the first sector underflows.
\<close>

lemma params_aligned:
  assumes "len \<noteq> 0" "voff + len \<le> disk" "unat vol + unat voff + unat len + 511 < 2 ^ 64" "512 dvd unat vol"
  shows "\<exists>p. compute_sector_io_params vol unit0 voff len disk = Ok p
    \<and> unat (aligned_host_offset p) = unat vol + unat voff div 512 * 512
    \<and> unat (aligned_length p) = sector_count p * 512
    \<and> user_data_offset p = unat voff mod 512 \<and> user_data_length p = unat len
    \<and> unat voff mod 512 + unat len \<le> sector_count p * 512 \<and> sector_count p * 512 < unat voff mod 512 + unat len + 512
    \<and> first_sector_index p = unit0 + voff div 512"
proof -
  obtain k where k: "unat vol = 512 * k"
    using assms(4) by auto
  have h: "(unat vol + unat voff) div 512 * 512 = unat vol + unat voff div 512 * 512"
    "(unat vol + unat voff) mod 512 = unat voff mod 512"
    by (simp_all add: k algebra_simps)
  obtain p where p: "compute_sector_io_params vol unit0 voff len disk = Ok p"
    "unat (aligned_host_offset p) = unat vol + unat voff div 512 * 512"
    "unat (aligned_length p) = sector_count p * 512" "user_data_offset p = unat voff mod 512"
    "user_data_length p = unat len" "unat voff mod 512 + unat len \<le> sector_count p * 512"
    "sector_count p * 512 < unat voff mod 512 + unat len + 512"
    "first_sector_index p = unit0 + (aligned_host_offset p - vol) div 512"
    using params_run [OF assms(1-3), of unit0] unfolding h by blast
  have "unat (aligned_host_offset p - vol) = unat voff div 512 * 512"
    using p(2) unat_minus64 [of vol "aligned_host_offset p"] by (simp add: word_le_nat_alt)
  then have "(aligned_host_offset p - vol) div 512 = voff div 512"
    by (intro word_unat_eq_iff [THEN iffD2]) (simp add: unat_div_distrib)
  then show ?thesis
    using p by auto
qed

lemma params_errors:
  "compute_sector_io_params vol unit0 voff 0 disk = Err ZeroLength"
  "len \<noteq> 0 \<Longrightarrow> disk < voff + len \<Longrightarrow> compute_sector_io_params vol unit0 voff len disk = Err OutOfBounds"
  by (simp_all add: compute_sector_io_params_def)

lemma params_underflow:
  "compute_sector_io_params 100 0 0 512 1024 = Ok \<lparr> aligned_host_offset = 0, aligned_length = 1024,
     user_data_offset = 100, user_data_length = 512, sector_count = 2, first_sector_index = 0x7FFFFFFFFFFFFF \<rparr>"
  by code_simp

lemma params_bounds_wrap:
  "compute_sector_io_params 0 0 0xFFFFFFFFFFFFFE00 0x400 1024 = Ok \<lparr> aligned_host_offset = 0xFFFFFFFFFFFFFE00,
     aligned_length = 1024, user_data_offset = 0, user_data_length = 1024, sector_count = 2,
     first_sector_index = 0x7FFFFFFFFFFFFF \<rparr>"
  by code_simp

section \<open>Packed fields\<close>

lemma read_packed_bytes:
  "addr + 4 \<le> length s \<Longrightarrow> read_packed_u32 s addr = from_le (sub s addr (addr + 4))"
  "addr + 8 \<le> length s \<Longrightarrow> read_packed_u64 s addr = from_le (sub s addr (addr + 8))"
proof -
  assume "addr + 4 \<le> length s"
  then have "[s ! addr, s ! (addr + 1), s ! (addr + 2), s ! (addr + 3)] = sub s addr (addr + 4)"
    by (intro nth_equalityI) (auto simp: sub_nth less_Suc_eq numeral_eq_Suc nth_Cons split: nat.split)
  then show "read_packed_u32 s addr = from_le (sub s addr (addr + 4))"
    by (simp add: read_packed_u32_def)
next
  assume "addr + 8 \<le> length s"
  then show "read_packed_u64 s addr = from_le (sub s addr (addr + 8))"
    by (simp add: read_packed_u64_def blit_def)
qed

lemma write_packed_blit:
  assumes "addr + 4 \<le> length s"
  shows "write_packed_i32 s addr v = blit s addr (le_bytes 4 (word_of_int v :: u32))"
  using assms
  by (intro nth_equalityI)
    (auto simp: write_packed_i32_def Let_def blit_nth nth_list_update le_Suc_eq numeral_eq_Suc less_Suc_eq nth_append)

lemma read_write_packed_i32:
  assumes "addr + 4 \<le> length s" "- (2 ^ 31) \<le> v" "v < 2 ^ 31"
  shows "read_packed_i32 (write_packed_i32 s addr v) addr = v"
  using assms
  by (simp add: read_packed_i32_def write_packed_blit read_packed_bytes le32.read_back signed_of_int
      signed_take_bit_int_eq_self)

text \<open>No two algorithm numbers name the same cipher, and every cipher type has one.\<close>

definition cipher_to_ea :: "CipherType \<Rightarrow> u32" where
  "cipher_to_ea ct = (case ct of Aes \<Rightarrow> 0x01 | Serpent \<Rightarrow> 0x02 | Twofish \<Rightarrow> 0x03 | Camellia \<Rightarrow> 0x04 | Kuznyechik \<Rightarrow> 0x05
    | AesTwofish \<Rightarrow> 0x11 | AesTwofishSerpent \<Rightarrow> 0x12 | SerpentAes \<Rightarrow> 0x13 | SerpentTwofishAes \<Rightarrow> 0x14
    | TwofishSerpent \<Rightarrow> 0x15 | CamelliaKuznyechik \<Rightarrow> 0x16 | CamelliaSerpent \<Rightarrow> 0x17 | KuznyechikAes \<Rightarrow> 0x18
    | KuznyechikSerpentCamellia \<Rightarrow> 0x19 | KuznyechikTwofish \<Rightarrow> 0x1A)"

lemma cipher_type_from_ea_iff: "cipher_type_from_ea ea = Some ct \<longleftrightarrow> ea = cipher_to_ea ct"
  by (cases ct) (auto simp: cipher_type_from_ea_def cipher_to_ea_def)

end
