(* ===== verification/DriverBase.thy ===== *)
theory DriverBase
  imports SectorIo
begin

text \<open>
  What the modules of the kernel driver share: status codes, I/O request
  packets and their completion (\<open>irp_utils.rs\<close>), the device extension
  (\<open>extension.rs\<close>), device names (\<open>names.rs\<close>) and debug output (\<open>debug.rs\<close>).
  The kernel's own routines are parameters: a record of the calls the driver
  makes, over an opaque state of the kernel.
\<close>

section \<open>Status codes\<close>

type_synonym NTSTATUS = u32

definition NT_SUCCESS :: "NTSTATUS \<Rightarrow> bool" where
  "NT_SUCCESS status \<longleftrightarrow> 0 \<le> sint status"

definition STATUS_SUCCESS :: NTSTATUS where "STATUS_SUCCESS = 0"
definition STATUS_PENDING :: NTSTATUS where "STATUS_PENDING = 0x00000103"
definition STATUS_BUFFER_TOO_SMALL :: NTSTATUS where "STATUS_BUFFER_TOO_SMALL = 0xC0000023"
definition STATUS_INVALID_PARAMETER :: NTSTATUS where "STATUS_INVALID_PARAMETER = 0xC000000D"
definition STATUS_INVALID_DEVICE_REQUEST :: NTSTATUS where "STATUS_INVALID_DEVICE_REQUEST = 0xC0000010"
definition STATUS_INSUFFICIENT_RESOURCES :: NTSTATUS where "STATUS_INSUFFICIENT_RESOURCES = 0xC000009A"
definition STATUS_MEDIA_WRITE_PROTECTED :: NTSTATUS where "STATUS_MEDIA_WRITE_PROTECTED = 0xC00000A2"
definition STATUS_ACCESS_DENIED :: NTSTATUS where "STATUS_ACCESS_DENIED = 0xC0000022"
definition STATUS_SHARING_VIOLATION :: NTSTATUS where "STATUS_SHARING_VIOLATION = 0xC0000043"
definition STATUS_DISK_CORRUPT_ERROR :: NTSTATUS where "STATUS_DISK_CORRUPT_ERROR = 0xC0000032"

lemmas status_defs = STATUS_SUCCESS_def STATUS_PENDING_def STATUS_BUFFER_TOO_SMALL_def STATUS_INVALID_PARAMETER_def
  STATUS_INVALID_DEVICE_REQUEST_def STATUS_INSUFFICIENT_RESOURCES_def STATUS_MEDIA_WRITE_PROTECTED_def
  STATUS_ACCESS_DENIED_def STATUS_SHARING_VIOLATION_def STATUS_DISK_CORRUPT_ERROR_def

lemma NT_SUCCESS_simps [simp]:
  "NT_SUCCESS STATUS_SUCCESS" "NT_SUCCESS STATUS_PENDING" "\<not> NT_SUCCESS STATUS_INVALID_PARAMETER"
  "\<not> NT_SUCCESS STATUS_INVALID_DEVICE_REQUEST" "\<not> NT_SUCCESS STATUS_INSUFFICIENT_RESOURCES"
  "\<not> NT_SUCCESS STATUS_MEDIA_WRITE_PROTECTED" "\<not> NT_SUCCESS STATUS_DISK_CORRUPT_ERROR"
  "\<not> NT_SUCCESS STATUS_ACCESS_DENIED" "\<not> NT_SUCCESS STATUS_SHARING_VIOLATION" "\<not> NT_SUCCESS STATUS_BUFFER_TOO_SMALL"
  by (simp_all add: NT_SUCCESS_def status_defs)

section \<open>I/O request packets\<close>

text \<open>
  A packet with the parameters of its current stack location. The user buffer
  is described by an MDL (\<open>irp_mdl\<close>: absent, present but impossible to map, or
  the mapped memory) or is the system buffer. \<open>irp_io_status\<close> is the status
  block (status and information), \<open>irp_boosts\<close> the calls of \<open>IoCompleteRequest\<close>
  with their priority boosts, the latest first.
\<close>

definition IRP_MJ_CREATE :: u8 where "IRP_MJ_CREATE = 0"
definition IRP_MJ_CLOSE :: u8 where "IRP_MJ_CLOSE = 2"
definition IRP_MJ_READ :: u8 where "IRP_MJ_READ = 3"
definition IRP_MJ_WRITE :: u8 where "IRP_MJ_WRITE = 4"
definition IRP_MJ_FLUSH_BUFFERS :: u8 where "IRP_MJ_FLUSH_BUFFERS = 9"
definition IRP_MJ_DEVICE_CONTROL :: u8 where "IRP_MJ_DEVICE_CONTROL = 14"
definition IRP_MJ_SHUTDOWN :: u8 where "IRP_MJ_SHUTDOWN = 16"
definition IRP_MJ_CLEANUP :: u8 where "IRP_MJ_CLEANUP = 18"

definition IO_NO_INCREMENT :: int where "IO_NO_INCREMENT = 0"
definition IO_DISK_INCREMENT :: int where "IO_DISK_INCREMENT = 1"

record IRP =
  irp_major :: u8
  irp_byte_offset :: u64
  irp_length :: u32
  irp_mdl :: "bytes option option"
  irp_system_buffer :: "bytes option"
  irp_ioctl :: u32
  irp_in_len :: u32
  irp_out_len :: u32
  irp_io_status :: "(NTSTATUS \<times> nat) option"
  irp_boosts :: "int list"

definition complete_irp :: "IRP \<Rightarrow> NTSTATUS \<Rightarrow> nat \<Rightarrow> IRP" where
  "complete_irp irp status information =
     irp \<lparr> irp_io_status := Some (status, information), irp_boosts := IO_NO_INCREMENT # irp_boosts irp \<rparr>"

definition complete_disk_irp :: "IRP \<Rightarrow> NTSTATUS \<Rightarrow> nat \<Rightarrow> IRP" where
  "complete_disk_irp irp status information =
     (let boost = if NT_SUCCESS status then IO_DISK_INCREMENT else IO_NO_INCREMENT
      in irp \<lparr> irp_io_status := Some (status, information), irp_boosts := boost # irp_boosts irp \<rparr>)"

definition get_read_params :: "IRP \<Rightarrow> u64 \<times> u32" where
  "get_read_params irp = (irp_byte_offset irp, irp_length irp)"

definition get_write_params :: "IRP \<Rightarrow> u64 \<times> u32" where
  "get_write_params irp = (irp_byte_offset irp, irp_length irp)"

text \<open>\<open>validate_output_size\<close> returns whether the output buffer is large enough; if not it clears it and completes.\<close>

definition validate_output_size :: "IRP \<Rightarrow> nat \<Rightarrow> bool \<times> IRP" where
  "validate_output_size irp required =
     (let out_len = unat (irp_out_len irp) in
      if out_len < required then
        let n = min out_len (max required out_len);
            irp' = irp \<lparr> irp_system_buffer :=
              map_option (\<lambda>sys. blit sys 0 (replicate (min n out_len) 0)) (irp_system_buffer irp) \<rparr>
        in (False, complete_irp irp' STATUS_BUFFER_TOO_SMALL required)
      else (True, irp))"

section \<open>The device extension\<close>

text \<open>
  The fields the driver uses, without the synchronisation objects. \<open>i64\<close> fields
  are kept as their bit pattern; pointers and handles are options.
\<close>

record Extension =
  is_volume_device :: bool
  unique_volume_id :: int
  n_dos_drive_no :: int
  b_shutting_down :: bool
  b_thread_should_quit :: bool
  h_device_file :: "nat option"
  pfo_device_file :: "nat option"
  crypto_info :: "KernelSectorCipher option"
  vol_data_area_offset :: u64
  first_data_unit_no :: u64
  host_length :: u64
  disk_length :: u64
  number_of_cylinders :: u64
  tracks_per_cylinder :: u32
  sectors_per_track :: u32
  bytes_per_sector :: u32
  host_bytes_per_sector :: u32
  host_bytes_per_physical_sector :: u32
  host_maximum_transfer_length :: u32
  host_maximum_physical_pages :: u32
  host_alignment_mask :: u32
  host_device_number :: u32
  host_incurs_seek_penalty :: bool
  host_trim_enabled :: bool
  b_read_only :: bool
  b_removable :: bool
  b_mount_manager :: bool
  wsz_volume :: "u16 list"
  wsz_label :: "u16 list"
  volume_id :: bytes
  file_times :: "u64 list"
  b_timestamp_valid :: bool
  b_preserve_timestamp :: bool

section \<open>Device names\<close>

definition ascii :: "string \<Rightarrow> bytes" where
  "ascii s = map of_char s"

definition wcslen :: "u16 list \<Rightarrow> nat" where
  "wcslen s = length (takeWhile (\<lambda>c. c \<noteq> 0) s)"

definition name_buf :: "nat \<Rightarrow> string \<Rightarrow> u16 list" where
  "name_buf n base = blit (replicate n 0) 0 (map ucast (ascii base))"

definition volume_nt_name :: "nat \<Rightarrow> u16 list" where
  "volume_nt_name drive_no =
     (let base = [CHR 0x5C] @ ''Device'' @ [CHR 0x5C] @ ''OxhideVolume''
      in (name_buf 32 base) [length base := of_char (CHR ''A'') + of_nat drive_no])"

definition volume_dos_name :: "nat \<Rightarrow> u16 list" where
  "volume_dos_name drive_no =
     (let base = [CHR 0x5C] @ ''DosDevices'' @ [CHR 0x5C]; off = length base
      in (name_buf 16 base) [off := of_char (CHR ''A'') + of_nat drive_no, off + 1 := of_char (CHR '':'')])"

definition volume_global_dos_name :: "nat \<Rightarrow> u16 list" where
  "volume_global_dos_name drive_no =
     (let base = [CHR 0x5C] @ ''GLOBAL??'' @ [CHR 0x5C]; off = length base
      in (name_buf 16 base) [off := of_char (CHR ''A'') + of_nat drive_no, off + 1 := of_char (CHR '':'')])"

lemma wcslen_table:
  "list_all (\<lambda>n. wcslen (volume_nt_name n) = 21 \<and> wcslen (volume_dos_name n) = 14 \<and>
     wcslen (volume_global_dos_name n) = 12) [0..<26]"
  by code_simp

lemma wcslen_names:
  assumes "n < 26"
  shows "wcslen (volume_nt_name n) = 21" "wcslen (volume_dos_name n) = 14" "wcslen (volume_global_dos_name n) = 12"
  using wcslen_table assms by (simp_all add: list_all_iff)

end
