(* ===== verification/DiskView.thy ===== *)
theory DiskView
  imports SectorIo FileIO
begin

text \<open>
  The plaintext disk behind an encrypted file, sector by sector: what a reader
  of the volume sees, as one byte list. Decrypting a run of sectors gives a
  piece of it, and writing an encrypted run replaces a piece of it; both are
  proved over any sector cipher.
\<close>

section \<open>Sectors of byte lists\<close>

lemma sectors_eqI:
  assumes "length x = n * 512" "length y = n * 512" "\<And>i. i < n \<Longrightarrow> sector_of x i = sector_of y i"
  shows "x = y"
proof -
  have "map (sector_of x) [0..<n] = map (sector_of y) [0..<n]"
    using assms(3) by simp
  then show ?thesis
    using bytes_by_sectors [of n x] bytes_by_sectors [of n y] assms(1,2) by (simp del: map_eq_conv)
qed

lemma sector_of_sub:
  assumes "i < m" "(a + m) * 512 \<le> length x"
  shows "sector_of (sub x (a * 512) ((a + m) * 512)) i = sector_of x (a + i)"
proof (rule nth_equalityI)
  have "(a + Suc i) * 512 \<le> (a + m) * 512" "Suc i * 512 \<le> m * 512"
    using assms(1) by simp_all
  then have b1: "(a + i) * 512 + 512 \<le> length x" and b2: "i * 512 + 512 \<le> m * 512"
    using assms(2) by simp_all
  note b = b1 b2
  show "length (sector_of (sub x (a * 512) ((a + m) * 512)) i) = length (sector_of x (a + i))"
    using b assms(2) by (simp add: sector_of_def algebra_simps)
  fix j assume "j < length (sector_of (sub x (a * 512) ((a + m) * 512)) i)"
  then have j: "j < 512"
    by (simp add: sector_of_def)
  show "sector_of (sub x (a * 512) ((a + m) * 512)) i ! j = sector_of x (a + i) ! j"
    using b j assms(2) by (simp add: sector_of_def sub_nth algebra_simps)
qed

lemma sector_of_blit:
  assumes "length b = m * 512" "(a + m) * 512 \<le> length x" "i * 512 + 512 \<le> length x"
  shows "sector_of (blit x (a * 512) b) i = (if a \<le> i \<and> i < a + m then sector_of b (i - a) else sector_of x i)"
proof (rule nth_equalityI)
  have fit: "a * 512 + length b \<le> length x"
    using assms(1,2) by (simp add: algebra_simps)
  have len: "length (sector_of (blit x (a * 512) b) i) = 512" "length (sector_of x i) = 512"
    using assms(3) fit by (simp_all add: sector_of_def)
  have lb: "length (sector_of b (i - a)) = 512" if "a \<le> i" "i < a + m"
    using that assms(1) by (intro length_sector_of [of _ m]) auto
  show "length (sector_of (blit x (a * 512) b) i) =
      length (if a \<le> i \<and> i < a + m then sector_of b (i - a) else sector_of x i)"
    using len lb by simp
  fix j assume "j < length (sector_of (blit x (a * 512) b) i)"
  then have j: "j < 512"
    by (simp add: len)
  have "sector_of (blit x (a * 512) b) i ! j = blit x (a * 512) b ! (i * 512 + j)"
    using assms(3) fit j by (simp add: sector_of_def sub_nth)
  also have "\<dots> = (if a * 512 \<le> i * 512 + j \<and> i * 512 + j < a * 512 + m * 512
      then b ! (i * 512 + j - a * 512) else x ! (i * 512 + j))"
    using assms(1,3) j fit by (subst blit_nth) auto
  also have "\<dots> = (if a \<le> i \<and> i < a + m then sector_of b (i - a) ! j else sector_of x i ! j)"
  proof (cases "a \<le> i \<and> i < a + m")
    case True
    then obtain d where d: "i = a + d" "d < m"
      by (metis add_less_cancel_left le_iff_add)
    then have "d * 512 + 512 \<le> length b"
      using assms(1) by simp
    then show ?thesis
      using d j by (simp add: sector_of_def sub_nth algebra_simps)
  next
    case False
    then have "\<not> (a * 512 \<le> i * 512 + j \<and> i * 512 + j < a * 512 + m * 512)"
      using j by auto
    then show ?thesis
      using False assms(3) j by (auto simp: sector_of_def sub_nth)
  qed
  finally show "sector_of (blit x (a * 512) b) i ! j =
      (if a \<le> i \<and> i < a + m then sector_of b (i - a) else sector_of x i) ! j"
    by simp
qed

section \<open>The plaintext disk\<close>

definition disk_plain :: "(u64 \<Rightarrow> bytes \<Rightarrow> ('e, bytes) res) \<Rightarrow> u64 \<Rightarrow> nat \<Rightarrow> nat \<Rightarrow> bytes \<Rightarrow> bytes" where
  "disk_plain dec first vol n contents = the_ok (each_sector dec first n (sub contents vol (vol + n * 512)))"

text \<open>The raw sectors of the data area, \<open>m\<close> of them from number \<open>a\<close>.\<close>

definition raw_sectors :: "nat \<Rightarrow> nat \<Rightarrow> nat \<Rightarrow> bytes \<Rightarrow> bytes" where
  "raw_sectors vol a m contents = sub contents (vol + a * 512) (vol + (a + m) * 512)"

lemma length_raw_sectors:
  "vol + (a + m) * 512 \<le> length contents \<Longrightarrow> length (raw_sectors vol a m contents) = m * 512"
  by (simp add: raw_sectors_def algebra_simps)

lemma sector_of_raw:
  assumes "i < m" "vol + (a + m) * 512 \<le> length contents"
  shows "sector_of (raw_sectors vol a m contents) i = sub contents (vol + (a + i) * 512) (vol + (a + i) * 512 + 512)"
proof -
  have "i * 512 + 512 \<le> m * 512"
    using assms(1) by linarith
  then show ?thesis
    by (simp add: sector_of_def raw_sectors_def sub_sub algebra_simps min_def)
qed

context sector_cipher
begin

lemma disk_plain_sectors:
  assumes "adm 512" "vol + n * 512 \<le> length contents"
  shows "length (disk_plain dec first vol n contents) = n * 512"
    "i < n \<Longrightarrow> dec (first + of_nat i) (sub contents (vol + i * 512) (vol + i * 512 + 512)) =
      Ok (sector_of (disk_plain dec first vol n contents) i)"
proof -
  let ?raw = "raw_sectors vol 0 n contents"
  have l: "length ?raw = n * 512"
    using assms(2) by (simp add: length_raw_sectors)
  obtain p where p: "each_sector dec first n ?raw = Ok p" "sectors_image dec first n ?raw p"
    using each_sector_decrypts [OF assms(1), of n ?raw first] l by auto
  then have e: "disk_plain dec first vol n contents = p"
    by (simp add: disk_plain_def raw_sectors_def)
  show "length (disk_plain dec first vol n contents) = n * 512"
    using p(2) l by (simp add: e sectors_image_def)
  show "dec (first + of_nat i) (sub contents (vol + i * 512) (vol + i * 512 + 512)) =
      Ok (sector_of (disk_plain dec first vol n contents) i)" if "i < n"
  proof -
    have "dec (first + of_nat i) (sector_of ?raw i) = Ok (sector_of p i)"
      using p(2) that by (simp add: sectors_image_def)
    then show ?thesis
      using that sector_of_raw [of i n vol 0 contents] assms(2) by (simp add: e)
  qed
qed

text \<open>Decrypting a run of raw sectors yields the piece of the disk they stand for.\<close>

lemma decrypt_run:
  assumes "adm 512" "vol + n * 512 \<le> length contents" "a + m \<le> n"
  shows "each_sector dec (first + of_nat a) m (raw_sectors vol a m contents) =
    Ok (sub (disk_plain dec first vol n contents) (a * 512) ((a + m) * 512))"
proof -
  let ?raw = "raw_sectors vol a m contents" and ?p = "disk_plain dec first vol n contents"
  have b: "vol + (a + m) * 512 \<le> length contents"
    using assms(2,3) by (meson add_le_mono le_refl le_trans mult_le_mono1)
  have lp: "length ?p = n * 512" "(a + m) * 512 \<le> n * 512"
    using disk_plain_sectors(1) [OF assms(1,2)] assms(3) by auto
  have "dec (first + of_nat a + of_nat i) (sector_of ?raw i) = Ok (sector_of ?p (a + i))
      \<and> length (sector_of ?p (a + i)) = 512" if "i < m" for i
    using disk_plain_sectors(2) [OF assms(1,2), of "a + i" first] sector_of_raw [OF that b] that assms(3) lp
      length_sector_of [of "a + i" n ?p]
    by (simp add: add.assoc)
  then have "each_sector dec (first + of_nat a) m ?raw =
      Ok (concat (map (\<lambda>i. sector_of ?p (a + i)) [0..<m]) @ drop (m * 512) ?raw)"
    using length_raw_sectors [OF b] by (intro each_sector_run) simp_all
  moreover have "concat (map (\<lambda>i. sector_of ?p (a + i)) [0..<m]) = sub ?p (a * 512) ((a + m) * 512)"
  proof -
    have "map (\<lambda>i. sector_of ?p (a + i)) [0..<m] = map (sector_of (sub ?p (a * 512) ((a + m) * 512))) [0..<m]"
      using lp by (intro map_cong refl sector_of_sub [symmetric]) auto
    then show ?thesis
      using bytes_by_sectors [of m "sub ?p (a * 512) ((a + m) * 512)"] lp
      by (simp add: algebra_simps del: map_eq_conv)
  qed
  ultimately show ?thesis
    using length_raw_sectors [OF b] by simp
qed

text \<open>Writing an encrypted run replaces the piece, and leaves the rest of the file alone.\<close>

lemma encrypt_run:
  assumes "adm 512" "vol + n * 512 \<le> length contents" "a + m \<le> n" "length buf = m * 512"
  shows "\<exists>c. each_sector enc (first + of_nat a) m buf = Ok c \<and> length c = m * 512 \<and>
    disk_plain dec first vol n (write_at contents (vol + a * 512) c) =
      blit (disk_plain dec first vol n contents) (a * 512) buf"
proof -
  obtain c where c: "each_sector enc (first + of_nat a) m buf = Ok c"
    "sectors_image enc (first + of_nat a) m buf c"
    using each_sector_encrypts [OF assms(1), of m buf "first + of_nat a"] assms(4) by auto
  let ?p = "disk_plain dec first vol n contents" and ?new = "write_at contents (vol + a * 512) c"
  have lc: "length c = m * 512"
    using c(2) assms(4) by (simp add: sectors_image_def)
  have am: "(a + m) * 512 \<le> n * 512"
    using assms(3) by simp
  then have fit: "vol + a * 512 + length c \<le> length contents"
    using lc assms(2) by (simp add: algebra_simps)
  have new: "vol + n * 512 \<le> length ?new"
    using fit assms(2) by simp
  have lp: "length ?p = n * 512"
    using disk_plain_sectors(1) [OF assms(1,2)] .
  have "disk_plain dec first vol n ?new = blit ?p (a * 512) buf"
  proof (rule sectors_eqI)
    show "length (disk_plain dec first vol n ?new) = n * 512"
      using disk_plain_sectors(1) [OF assms(1) new] .
    show "length (blit ?p (a * 512) buf) = n * 512"
      using lp am assms(4) by (simp add: algebra_simps)
    fix i assume i: "i < n"
    have d: "dec (first + of_nat i) (sub ?new (vol + i * 512) (vol + i * 512 + 512)) =
        Ok (sector_of (disk_plain dec first vol n ?new) i)"
      using disk_plain_sectors(2) [OF assms(1) new i] .
    have s: "sector_of (blit ?p (a * 512) buf) i =
        (if a \<le> i \<and> i < a + m then sector_of buf (i - a) else sector_of ?p i)"
      using lp am i assms(4) by (intro sector_of_blit) auto
    show "sector_of (disk_plain dec first vol n ?new) i = sector_of (blit ?p (a * 512) buf) i"
    proof (cases "a \<le> i \<and> i < a + m")
      case True
      then obtain k where k: "i = a + k" "k < m"
        by (metis add_less_cancel_left le_iff_add)
      have "sub ?new (vol + i * 512) (vol + i * 512 + 512) = sector_of c k"
      proof (rule nth_equalityI)
        have k512: "k * 512 + 512 \<le> m * 512"
          using k by linarith
        show "length (sub ?new (vol + i * 512) (vol + i * 512 + 512)) = length (sector_of c k)"
          using k k512 lc fit by (simp add: sector_of_def algebra_simps)
        fix j assume "j < length (sub ?new (vol + i * 512) (vol + i * 512 + 512))"
        then have j: "j < 512" by simp
        then show "sub ?new (vol + i * 512) (vol + i * 512 + 512) ! j = sector_of c k ! j"
          using k k512 lc fit
          by (simp add: sector_of_def sub_nth write_at_blit blit_nth algebra_simps)
      qed
      moreover have "dec (first + of_nat i) (sector_of c k) = Ok (sector_of buf k)"
      proof -
        have "length (sector_of buf k) = 512"
          using k assms(4) by (intro length_sector_of) auto
        moreover have "enc (first + of_nat i) (sector_of buf k) = Ok (sector_of c k)"
          using c(2) k by (simp add: sectors_image_def add.assoc)
        ultimately show ?thesis
          using enc_ok [of "sector_of buf k" "first + of_nat i"] assms(1) by auto
      qed
      ultimately show ?thesis
        using d s k by simp
    next
      case False
      have "sub ?new (vol + i * 512) (vol + i * 512 + 512) = sub contents (vol + i * 512) (vol + i * 512 + 512)"
        using False fit lc by (intro sub_write_at_other) (auto simp: algebra_simps)
      then show ?thesis
        using d s False disk_plain_sectors(2) [OF assms(1,2) i, of first] by auto
    qed
  qed
  then show ?thesis
    using c(1) lc by auto
qed

end

end
