(* ===== verification/IrpQueue.thy ===== *)
theory IrpQueue
  imports DriverBase DiskView
begin

text \<open>
  The encrypted I/O queue of the driver (\<open>encrypted_io_queue.rs\<close>) in its
  synchronous form: read, write and flush packets are served inline. The
  kernel's file and pool routines are parameters over an opaque kernel state.
  The context of a request is its packet, the kernel state and the number of
  pool buffers the driver holds.
\<close>

section \<open>Kernel routines and request context\<close>

text \<open>
  \<open>k_alloc\<close> says whether \<open>ExAllocatePool2\<close> finds memory (it is zeroed);
  \<open>k_read\<close>, \<open>k_write\<close> and \<open>k_flush\<close> are \<open>ZwReadFile\<close>, \<open>ZwWriteFile\<close> and
  \<open>ZwFlushBuffersFile\<close> on a handle, with a byte offset and a length or buffer.
\<close>

record 'h kernel =
  k_alloc :: "nat \<Rightarrow> 'h \<Rightarrow> bool \<times> 'h"
  k_read :: "nat option \<Rightarrow> u64 \<Rightarrow> nat \<Rightarrow> 'h \<Rightarrow> (NTSTATUS \<times> bytes) \<times> 'h"
  k_write :: "nat option \<Rightarrow> u64 \<Rightarrow> bytes \<Rightarrow> 'h \<Rightarrow> NTSTATUS \<times> 'h"
  k_flush :: "nat option \<Rightarrow> 'h \<Rightarrow> NTSTATUS \<times> 'h"

record 'h ioctx =
  io_irp :: IRP
  io_kernel :: 'h
  io_pool :: nat

type_synonym 'h io_result = "(unit, NTSTATUS) res \<times> 'h ioctx"

text \<open>Every return of the handlers completes the packet with the status it returns.\<close>

definition finish :: "NTSTATUS \<Rightarrow> nat \<Rightarrow> 'h ioctx \<Rightarrow> 'h io_result" where
  "finish status information c = (Ok status, c \<lparr> io_irp := complete_disk_irp (io_irp c) status information \<rparr>)"

definition alloc_pool :: "'h kernel \<Rightarrow> nat \<Rightarrow> 'h ioctx \<Rightarrow> bool \<times> 'h ioctx" where
  "alloc_pool K n c = (case k_alloc K n (io_kernel c) of
      (True, h) \<Rightarrow> (True, c \<lparr> io_kernel := h, io_pool := io_pool c + 1 \<rparr>)
    | (False, h) \<Rightarrow> (False, c \<lparr> io_kernel := h \<rparr>))"

definition free_pool :: "'h ioctx \<Rightarrow> 'h ioctx" where
  "free_pool c = c \<lparr> io_pool := io_pool c - 1 \<rparr>"

text \<open>\<open>ZwReadFile\<close> into a zeroed buffer of \<open>n\<close> bytes; the length argument is a \<open>u32\<close>.\<close>

definition read_host :: "'h kernel \<Rightarrow> nat option \<Rightarrow> u64 \<Rightarrow> u64 \<Rightarrow> 'h ioctx \<Rightarrow> (NTSTATUS \<times> bytes) \<times> 'h ioctx" where
  "read_host K handle offset n c = (case k_read K handle offset (unat (ucast n :: u32)) (io_kernel c) of
      ((status, data), h) \<Rightarrow>
        ((status, blit (replicate (unat n) 0) 0 (take (unat n) data)), c \<lparr> io_kernel := h \<rparr>))"

definition write_host :: "'h kernel \<Rightarrow> nat option \<Rightarrow> u64 \<Rightarrow> u64 \<Rightarrow> bytes \<Rightarrow> 'h ioctx \<Rightarrow> NTSTATUS \<times> 'h ioctx" where
  "write_host K handle offset n buf c = (case k_write K handle offset (take (unat (ucast n :: u32)) buf) (io_kernel c) of
      (status, h) \<Rightarrow> (status, c \<lparr> io_kernel := h \<rparr>))"

section \<open>User buffers\<close>

text \<open>A copy beyond the end of the user's memory is a memory fault.\<close>

definition copy_to_user_buffer :: "IRP \<Rightarrow> bytes \<Rightarrow> (unit, IRP option) res" where
  "copy_to_user_buffer irp data = (case irp_mdl irp of
      Some None \<Rightarrow> Ok None
    | Some (Some user) \<Rightarrow> (if length data \<le> length user
        then Ok (Some (irp \<lparr> irp_mdl := Some (Some (blit user 0 data)) \<rparr>)) else Panic)
    | None \<Rightarrow> (case irp_system_buffer irp of
        Some sys \<Rightarrow> (if length data \<le> length sys
          then Ok (Some (irp \<lparr> irp_system_buffer := Some (blit sys 0 data) \<rparr>)) else Panic)
      | None \<Rightarrow> Ok None))"

definition copy_from_user_buffer :: "IRP \<Rightarrow> nat \<Rightarrow> (unit, bytes option) res" where
  "copy_from_user_buffer irp n = (case irp_mdl irp of
      Some None \<Rightarrow> Ok None
    | Some (Some user) \<Rightarrow> (if n \<le> length user then Ok (Some (take n user)) else Panic)
    | None \<Rightarrow> (case irp_system_buffer irp of
        Some sys \<Rightarrow> (if n \<le> length sys then Ok (Some (take n sys)) else Panic)
      | None \<Rightarrow> Ok None))"

section \<open>The handlers\<close>

definition process_read_irp :: "crypto_lib \<Rightarrow> 'h kernel \<Rightarrow> Extension \<Rightarrow> 'h ioctx \<Rightarrow> 'h io_result" where
  "process_read_irp L K ext c = (case crypto_info ext of
      None \<Rightarrow> (Panic, c)
    | Some cipher \<Rightarrow>
      let (virtual_offset, len) = get_read_params (io_irp c) in
      if len = 0 then finish STATUS_SUCCESS 0 c
      else if sint virtual_offset < 0 then finish STATUS_INVALID_PARAMETER 0 c
      else (case compute_sector_io_params (vol_data_area_offset ext) (first_data_unit_no ext)
              virtual_offset (ucast len) (disk_length ext) of
        Panic \<Rightarrow> (Panic, c)
      | Err ZeroLength \<Rightarrow> finish STATUS_SUCCESS 0 c
      | Err _ \<Rightarrow> finish STATUS_INVALID_PARAMETER 0 c
      | Ok p \<Rightarrow>
        let (got, c) = alloc_pool K (unat (aligned_length p)) c in
        if \<not> got then finish STATUS_INSUFFICIENT_RESOURCES 0 c
        else
          let ((status, sector_buf), c) = read_host K (h_device_file ext) (aligned_host_offset p) (aligned_length p) c in
          if \<not> NT_SUCCESS status then finish status 0 (free_pool c)
          else (case decrypt_sectors L cipher (first_sector_index p) (sector_count p) sector_buf of
            Panic \<Rightarrow> (Panic, c)
          | Err _ \<Rightarrow> finish STATUS_DISK_CORRUPT_ERROR 0 (free_pool c)
          | Ok sector_slice \<Rightarrow>
            (case bind_res (slice sector_slice (user_data_offset p) (user_data_offset p + user_data_length p))
                    (copy_to_user_buffer (io_irp c)) of
              Ok (Some irp) \<Rightarrow> finish STATUS_SUCCESS (user_data_length p) (free_pool (c \<lparr> io_irp := irp \<rparr>))
            | Ok None \<Rightarrow> finish STATUS_INSUFFICIENT_RESOURCES 0 (free_pool c)
            | Err _ \<Rightarrow> (Panic, c)
            | Panic \<Rightarrow> (Panic, c)))))"

definition process_write_irp :: "crypto_lib \<Rightarrow> 'h kernel \<Rightarrow> Extension \<Rightarrow> 'h ioctx \<Rightarrow> 'h io_result" where
  "process_write_irp L K ext c = (case crypto_info ext of
      None \<Rightarrow> (Panic, c)
    | Some cipher \<Rightarrow>
      if b_read_only ext then finish STATUS_MEDIA_WRITE_PROTECTED 0 c
      else let (virtual_offset, len) = get_write_params (io_irp c) in
      if sint virtual_offset < 0 then finish STATUS_INVALID_PARAMETER 0 c
      else (case compute_sector_io_params (vol_data_area_offset ext) (first_data_unit_no ext)
              virtual_offset (ucast len) (disk_length ext) of
        Panic \<Rightarrow> (Panic, c)
      | Err ZeroLength \<Rightarrow> finish STATUS_SUCCESS 0 c
      | Err _ \<Rightarrow> finish STATUS_INVALID_PARAMETER 0 c
      | Ok p \<Rightarrow>
        let (got, c) = alloc_pool K (unat (aligned_length p)) c in
        if \<not> got then finish STATUS_INSUFFICIENT_RESOURCES 0 c
        else
          let ((status, sector_buf), c) = read_host K (h_device_file ext) (aligned_host_offset p) (aligned_length p) c in
          if \<not> NT_SUCCESS status then finish status 0 (free_pool c)
          else (case bind_res (slice sector_buf (user_data_offset p) (user_data_offset p + user_data_length p))
                  (\<lambda>_. copy_from_user_buffer (io_irp c) (user_data_length p)) of
            Panic \<Rightarrow> (Panic, c)
          | Err _ \<Rightarrow> (Panic, c)
          | Ok None \<Rightarrow> finish STATUS_INSUFFICIENT_RESOURCES 0 (free_pool c)
          | Ok (Some data) \<Rightarrow>
            (case encrypt_sectors L cipher (first_sector_index p) (sector_count p)
                    (blit sector_buf (user_data_offset p) data) of
              Panic \<Rightarrow> (Panic, c)
            | Err _ \<Rightarrow> finish STATUS_DISK_CORRUPT_ERROR 0 (free_pool c)
            | Ok sector_slice \<Rightarrow>
              let (w_status, c) = write_host K (h_device_file ext) (aligned_host_offset p) (aligned_length p) sector_slice c;
                  c = free_pool c in
              if \<not> NT_SUCCESS w_status then finish w_status 0 c
              else finish STATUS_SUCCESS (user_data_length p) c))))"

definition process_flush_irp :: "'h kernel \<Rightarrow> Extension \<Rightarrow> 'h ioctx \<Rightarrow> 'h io_result" where
  "process_flush_irp K ext c =
     (if b_read_only ext then finish STATUS_SUCCESS 0 c
      else let (status, h) = k_flush K (h_device_file ext) (io_kernel c); c = c \<lparr> io_kernel := h \<rparr> in
      if \<not> NT_SUCCESS status then finish status 0 c
      else finish STATUS_SUCCESS 0 c)"

definition add_irp :: "crypto_lib \<Rightarrow> 'h kernel \<Rightarrow> Extension \<Rightarrow> 'h ioctx \<Rightarrow> 'h io_result" where
  "add_irp L K ext c =
     (let major = irp_major (io_irp c) in
      if major = IRP_MJ_READ then process_read_irp L K ext c
      else if major = IRP_MJ_WRITE then process_write_irp L K ext c
      else if major = IRP_MJ_FLUSH_BUFFERS then process_flush_irp K ext c
      else finish STATUS_INVALID_DEVICE_REQUEST 0 c)"

section \<open>A well-behaved kernel\<close>

text \<open>
  The documented behaviour of the kernel routines, for a file handle whose
  contents are \<open>contents h\<close>: allocation, reads and flushes leave the file
  alone; a successful read inside the file returns its bytes; a write changes
  at most the bytes it addresses, and all of them when it succeeds.
\<close>

definition kernel_ok :: "'h kernel \<Rightarrow> nat option \<Rightarrow> ('h \<Rightarrow> bytes) \<Rightarrow> bool" where
  "kernel_ok K handle contents \<longleftrightarrow>
     (\<forall>n h. contents (snd (k_alloc K n h)) = contents h)
   \<and> (\<forall>off n h. contents (snd (k_read K handle off n h)) = contents h
       \<and> (NT_SUCCESS (fst (fst (k_read K handle off n h))) \<longrightarrow> unat off + n \<le> length (contents h) \<longrightarrow>
           snd (fst (k_read K handle off n h)) = sub (contents h) (unat off) (unat off + n)))
   \<and> (\<forall>off buf h. unat off + length buf \<le> length (contents h) \<longrightarrow>
         length (contents (snd (k_write K handle off buf h))) = length (contents h)
       \<and> (\<forall>a b. b \<le> unat off \<or> unat off + length buf \<le> a \<longrightarrow>
           sub (contents (snd (k_write K handle off buf h))) a b = sub (contents h) a b)
       \<and> (NT_SUCCESS (fst (k_write K handle off buf h)) \<longrightarrow>
           contents (snd (k_write K handle off buf h)) = write_at (contents h) (unat off) buf))
   \<and> (\<forall>h. contents (snd (k_flush K handle h)) = contents h)"

text \<open>A kernel that never refuses, over a file that is its bytes.\<close>

definition plain_kernel :: "bytes kernel" where
  "plain_kernel = \<lparr> k_alloc = \<lambda>n h. (True, h),
     k_read = \<lambda>handle off n h. ((STATUS_SUCCESS, sub h (unat off) (unat off + n)), h),
     k_write = \<lambda>handle off buf h. (STATUS_SUCCESS, write_at h (unat off) buf),
     k_flush = \<lambda>handle h. (STATUS_SUCCESS, h) \<rparr>"

lemma plain_kernel_ok: "kernel_ok plain_kernel handle id"
  by (auto simp: kernel_ok_def plain_kernel_def sub_write_at_other)

section \<open>Every request is completed once\<close>

text \<open>
  \<open>served c r\<close>: the handler returned, the packet was completed exactly once and
  carries the status that was returned, with the boost that fits it, and no
  pool buffer is left over.
\<close>

definition served :: "'h ioctx \<Rightarrow> 'h io_result \<Rightarrow> bool" where
  "served c r \<longleftrightarrow> (\<exists>status info. fst r = Ok status \<and>
     irp_io_status (io_irp (snd r)) = Some (status, info) \<and>
     irp_boosts (io_irp (snd r)) =
       (if NT_SUCCESS status then IO_DISK_INCREMENT else IO_NO_INCREMENT) # irp_boosts (io_irp c) \<and>
     io_pool (snd r) = io_pool c)"

definition same_request :: "'h ioctx \<Rightarrow> 'h ioctx \<Rightarrow> bool" where
  "same_request c c' \<longleftrightarrow> irp_boosts (io_irp c') = irp_boosts (io_irp c) \<and> io_pool c' = io_pool c"

lemma served_finish: "same_request c c' \<Longrightarrow> served c (finish status information c')"
  by (auto simp: served_def same_request_def finish_def complete_disk_irp_def Let_def)

lemma alloc_pool_cases:
  obtains h where "alloc_pool K n c = (True, c \<lparr> io_kernel := h, io_pool := io_pool c + 1 \<rparr>)"
    "h = snd (k_alloc K n (io_kernel c))"
  | h where "alloc_pool K n c = (False, c \<lparr> io_kernel := h \<rparr>)" "h = snd (k_alloc K n (io_kernel c))"
  by (cases "k_alloc K n (io_kernel c)"; cases "fst (k_alloc K n (io_kernel c))") (auto simp: alloc_pool_def)

lemma read_host_eq:
  "read_host K handle off n c =
    ((fst (fst (k_read K handle off (unat (ucast n :: u32)) (io_kernel c))),
      blit (replicate (unat n) 0) 0 (take (unat n) (snd (fst (k_read K handle off (unat (ucast n :: u32)) (io_kernel c)))))),
     c \<lparr> io_kernel := snd (k_read K handle off (unat (ucast n :: u32)) (io_kernel c)) \<rparr>)"
  by (simp add: read_host_def split: prod.split)

lemma write_host_eq:
  "write_host K handle off n buf c =
    (fst (k_write K handle off (take (unat (ucast n :: u32)) buf) (io_kernel c)),
     c \<lparr> io_kernel := snd (k_write K handle off (take (unat (ucast n :: u32)) buf) (io_kernel c)) \<rparr>)"
  by (simp add: write_host_def split: prod.split)

text \<open>The user's memory is as large as the request says, when it is there at all.\<close>

definition user_memory :: "IRP \<Rightarrow> bytes option" where
  "user_memory irp = (case irp_mdl irp of Some m \<Rightarrow> m | None \<Rightarrow> irp_system_buffer irp)"

definition set_user_memory :: "IRP \<Rightarrow> bytes \<Rightarrow> IRP" where
  "set_user_memory irp m = (if irp_mdl irp = None then irp \<lparr> irp_system_buffer := Some m \<rparr>
     else irp \<lparr> irp_mdl := Some (Some m) \<rparr>)"

definition user_fits :: "IRP \<Rightarrow> bool" where
  "user_fits irp \<longleftrightarrow> (case user_memory irp of None \<Rightarrow> True | Some m \<Rightarrow> unat (irp_length irp) \<le> length m)"

lemma copy_to_user_eq:
  "copy_to_user_buffer irp data = (case user_memory irp of
     None \<Rightarrow> Ok None
   | Some m \<Rightarrow> if length data \<le> length m then Ok (Some (set_user_memory irp (blit m 0 data))) else Panic)"
  by (auto simp: copy_to_user_buffer_def user_memory_def set_user_memory_def split: option.splits)

lemma copy_from_user_eq:
  "copy_from_user_buffer irp n = (case user_memory irp of
     None \<Rightarrow> Ok None | Some m \<Rightarrow> if n \<le> length m then Ok (Some (take n m)) else Panic)"
  by (auto simp: copy_from_user_buffer_def user_memory_def split: option.splits)

lemma set_user_memory_frame [simp]:
  "irp_boosts (set_user_memory irp m) = irp_boosts irp" "irp_length (set_user_memory irp m) = irp_length irp"
  "irp_byte_offset (set_user_memory irp m) = irp_byte_offset irp"
  "user_memory (set_user_memory irp m) = Some m"
  by (simp_all add: set_user_memory_def user_memory_def)

text \<open>A cipher the driver can hold, and a data area whose end does not wrap.\<close>

definition cipher_ok :: "crypto_lib \<Rightarrow> KernelSectorCipher \<Rightarrow> bool" where
  "cipher_ok L cipher \<longleftrightarrow> lib_ok L \<and> (\<exists>ct key. kernel_new L ct key = Ok cipher)"

lemma cipher_ok_sector_cipher:
  assumes "cipher_ok L cipher"
  shows "sector_cipher (kernel_encrypt_sector L cipher) (kernel_decrypt_sector L cipher) (\<lambda>n. n = 512)"
proof -
  obtain ct key where k: "lib_ok L" "kernel_new L ct key = Ok cipher"
    using assms by (auto simp: cipher_ok_def)
  moreover have "length key = 2 * ct_key_size ct"
    using k(2) kernel_new_bad_key [of key ct L] by fastforce
  ultimately show ?thesis
    by (intro kernel_sector_cipher)
qed

definition geometry_ok :: "Extension \<Rightarrow> bool" where
  "geometry_ok ext \<longleftrightarrow> unat (vol_data_area_offset ext) + unat (disk_length ext) + 511 < 2 ^ 64"

lemma nonneg_offset:
  assumes "0 \<le> sint (voff :: u64)"
  shows "unat voff < 2 ^ 63"
proof -
  have "sint voff < 2 ^ 63"
    using sint_lt [of voff] by simp
  then have "uint voff = sint voff"
    using assms by (simp add: uint_sint take_bit_int_def)
  then show ?thesis
    using \<open>sint voff < 2 ^ 63\<close> by (simp add: unat_eq_nat_uint)
qed

lemma unat_lt32: "unat (len :: u32) < 2 ^ 32"
proof -
  have "unat len < 2 ^ LENGTH(32)"
    by (rule unsigned_less)
  then show ?thesis
    by simp
qed

lemma unat_ucast_32_64: "unat (ucast (len :: u32) :: u64) = unat len"
  using unat_lt32 [of len] by (simp add: unsigned_ucast_eq take_bit_nat_def)

text \<open>The request arithmetic as the handlers meet it.\<close>

lemma request_params:
  fixes len :: u32
  assumes "geometry_ok ext" "0 \<le> sint voff" "len \<noteq> 0"
  shows "unat (disk_length ext) < unat voff + unat len \<Longrightarrow>
      compute_sector_io_params (vol_data_area_offset ext) unit0 voff (ucast len) (disk_length ext) = Err OutOfBounds"
    and "unat voff + unat len \<le> unat (disk_length ext) \<Longrightarrow>
      (ucast len :: u64) \<noteq> 0 \<and> voff + ucast len \<le> disk_length ext \<and>
      unat (vol_data_area_offset ext) + unat voff + unat (ucast len :: u64) + 511 < 2 ^ 64"
proof -
  note l = unat_ucast_32_64 [of len] unat_lt32 [of len]
  have "(ucast len :: u64) \<noteq> 0"
    using l assms(3) by (metis unat_0 unat_eq_zero)
  moreover have "unat (voff + ucast len) = unat voff + unat len"
    using nonneg_offset [OF assms(2)] l unat_plus64 [of voff "ucast len"] by simp
  ultimately show
    "unat (disk_length ext) < unat voff + unat len \<Longrightarrow>
      compute_sector_io_params (vol_data_area_offset ext) unit0 voff (ucast len) (disk_length ext) = Err OutOfBounds"
    "unat voff + unat len \<le> unat (disk_length ext) \<Longrightarrow>
      (ucast len :: u64) \<noteq> 0 \<and> voff + ucast len \<le> disk_length ext \<and>
      unat (vol_data_area_offset ext) + unat voff + unat (ucast len :: u64) + 511 < 2 ^ 64"
    using assms(1) l by (simp_all add: params_errors(2) word_less_nat_alt word_le_nat_alt geometry_ok_def)
qed

text \<open>What a request inside the disk gives the handler: bounds for its buffer.\<close>

lemma request_inside:
  fixes len :: u32
  assumes "geometry_ok ext" "0 \<le> sint voff" "len \<noteq> 0" "unat voff + unat len \<le> unat (disk_length ext)"
  shows "\<exists>p. compute_sector_io_params (vol_data_area_offset ext) unit0 voff (ucast len) (disk_length ext) = Ok p
    \<and> unat (aligned_length p) = sector_count p * 512 \<and> user_data_length p = unat len
    \<and> user_data_offset p + unat len \<le> sector_count p * 512"
  using params_run [of "ucast len" voff "disk_length ext" "vol_data_area_offset ext" unit0]
    request_params(2) [OF assms] unat_ucast_32_64 [of len] by auto

lemma length_host_buf [simp]: "length (blit (replicate n 0) 0 (take n data)) = n"
  by (simp add: blit_def)

lemma decrypt_host_buf:
  assumes "cipher_ok L cipher" "length buf = n * 512"
  shows "\<exists>s. decrypt_sectors L cipher first n buf = Ok s \<and> length s = n * 512"
  using sector_cipher.each_sector_decrypts [OF cipher_ok_sector_cipher [OF assms(1)], of n buf first] assms(2)
  by (auto simp: decrypt_sectors_def sectors_image_def)

lemma encrypt_host_buf:
  assumes "cipher_ok L cipher" "length buf = n * 512"
  shows "\<exists>s. encrypt_sectors L cipher first n buf = Ok s \<and> length s = n * 512"
  using sector_cipher.each_sector_encrypts [OF cipher_ok_sector_cipher [OF assms(1)], of n buf first] assms(2)
  by (auto simp: encrypt_sectors_def sectors_image_def)

lemma read_served:
  assumes "crypto_info ext = Some cipher" "cipher_ok L cipher" "geometry_ok ext" "user_fits (io_irp c)"
  shows "served c (process_read_irp L K ext c)"
proof -
  let ?voff = "irp_byte_offset (io_irp c)" and ?len = "irp_length (io_irp c)"
  note [simp] = process_read_irp_def assms(1) get_read_params_def served_finish same_request_def free_pool_def
  consider (nil) "?len = 0" | (neg) "?len \<noteq> 0" "sint ?voff < 0"
    | (out) "?len \<noteq> 0" "0 \<le> sint ?voff" "unat (disk_length ext) < unat ?voff + unat ?len"
    | (ok) "?len \<noteq> 0" "0 \<le> sint ?voff" "unat ?voff + unat ?len \<le> unat (disk_length ext)"
    by linarith
  then show ?thesis
  proof cases
    case out
    then show ?thesis
      using request_params(1) [OF assms(3) out(2,1,3)] by simp
  next
    case ok
    obtain p where p: "compute_sector_io_params (vol_data_area_offset ext) (first_data_unit_no ext) ?voff
        (ucast ?len) (disk_length ext) = Ok p"
      "unat (aligned_length p) = sector_count p * 512" "user_data_length p = unat ?len"
      "user_data_offset p + unat ?len \<le> sector_count p * 512"
      using request_inside [OF assms(3) ok(2,1,3)] by blast
    let ?n = "sector_count p * 512"
    show ?thesis
    proof (cases K ?n c rule: alloc_pool_cases)
      case (1 h)
      let ?c = "c \<lparr> io_kernel := h, io_pool := io_pool c + 1 \<rparr>"
      obtain status data h' where r: "read_host K (h_device_file ext) (aligned_host_offset p) (aligned_length p) ?c =
          ((status, blit (replicate ?n 0) 0 (take ?n data)), ?c \<lparr> io_kernel := h' \<rparr>)"
        using p(2) by (simp add: read_host_eq)
      obtain s where s: "decrypt_sectors L cipher (first_sector_index p) (sector_count p)
          (blit (replicate ?n 0) 0 (take ?n data)) = Ok s" "length s = ?n"
        using decrypt_host_buf [OF assms(2)] length_host_buf by blast
      show ?thesis
      proof (cases "user_memory (io_irp c)")
        case None
        then show ?thesis
          using ok p 1 r s by (simp add: copy_to_user_eq)
      next
        case (Some m)
        then have "unat ?len \<le> length m"
          using assms(4) by (simp add: user_fits_def)
        then show ?thesis
          using ok p 1 r s Some by (simp add: copy_to_user_eq)
      qed
    qed (use ok p in simp)
  qed simp_all
qed

lemma length_blit_user [simp]:
  "a + k \<le> n \<Longrightarrow> k \<le> length m \<Longrightarrow> length buf = n \<Longrightarrow> length (blit buf a (take k m)) = n"
  by simp

lemma write_served:
  assumes "crypto_info ext = Some cipher" "cipher_ok L cipher" "geometry_ok ext" "user_fits (io_irp c)"
  shows "served c (process_write_irp L K ext c)"
proof -
  let ?voff = "irp_byte_offset (io_irp c)" and ?len = "irp_length (io_irp c)"
  note [simp] = process_write_irp_def assms(1) get_write_params_def served_finish same_request_def free_pool_def
  consider (ro) "b_read_only ext" | (neg) "\<not> b_read_only ext" "sint ?voff < 0"
    | (nil) "\<not> b_read_only ext" "0 \<le> sint ?voff" "?len = 0"
    | (out) "\<not> b_read_only ext" "?len \<noteq> 0" "0 \<le> sint ?voff" "unat (disk_length ext) < unat ?voff + unat ?len"
    | (ok) "\<not> b_read_only ext" "?len \<noteq> 0" "0 \<le> sint ?voff" "unat ?voff + unat ?len \<le> unat (disk_length ext)"
    by linarith
  then show ?thesis
  proof cases
    case nil
    then show ?thesis
      by (simp add: params_errors(1))
  next
    case out
    then show ?thesis
      using request_params(1) [OF assms(3) out(3,2,4)] by simp
  next
    case ok
    obtain p where p: "compute_sector_io_params (vol_data_area_offset ext) (first_data_unit_no ext) ?voff
        (ucast ?len) (disk_length ext) = Ok p"
      "unat (aligned_length p) = sector_count p * 512" "user_data_length p = unat ?len"
      "user_data_offset p + unat ?len \<le> sector_count p * 512"
      using request_inside [OF assms(3) ok(3,2,4)] by blast
    let ?n = "sector_count p * 512"
    show ?thesis
    proof (cases K ?n c rule: alloc_pool_cases)
      case (1 h)
      let ?c = "c \<lparr> io_kernel := h, io_pool := io_pool c + 1 \<rparr>"
      obtain status data h' where r: "read_host K (h_device_file ext) (aligned_host_offset p) (aligned_length p) ?c =
          ((status, blit (replicate ?n 0) 0 (take ?n data)), ?c \<lparr> io_kernel := h' \<rparr>)"
        using p(2) by (simp add: read_host_eq)
      show ?thesis
      proof (cases "user_memory (io_irp c)")
        case None
        then show ?thesis
          using ok p 1 r by (simp add: copy_from_user_eq)
      next
        case (Some m)
        then have m: "unat ?len \<le> length m"
          using assms(4) by (simp add: user_fits_def)
        let ?buf = "blit (blit (replicate ?n 0) 0 (take ?n data)) (user_data_offset p) (take (unat ?len) m)"
        have "length ?buf = ?n"
          using p(4) m by (intro length_blit_user length_host_buf) simp_all
        then obtain s where s: "encrypt_sectors L cipher (first_sector_index p) (sector_count p) ?buf = Ok s"
          using encrypt_host_buf [OF assms(2)] by blast
        then show ?thesis
          using ok p 1 r Some m by (simp add: copy_from_user_eq write_host_eq Let_def)
      qed
    qed (use ok p in simp)
  qed simp_all
qed

lemma flush_served: "served c (process_flush_irp K ext c)"
  by (auto simp: process_flush_irp_def Let_def served_finish same_request_def split: prod.split)

lemma add_irp_served:
  assumes "crypto_info ext = Some cipher" "cipher_ok L cipher" "geometry_ok ext" "user_fits (io_irp c)"
  shows "served c (add_irp L K ext c)"
  using read_served [OF assms] write_served [OF assms]
  by (simp add: add_irp_def Let_def flush_served served_finish same_request_def)

section \<open>The plaintext disk behind the driver\<close>

definition driver_disk :: "crypto_lib \<Rightarrow> KernelSectorCipher \<Rightarrow> Extension \<Rightarrow> bytes \<Rightarrow> bytes" where
  "driver_disk L cipher ext contents =
     disk_plain (kernel_decrypt_sector L cipher) (first_data_unit_no ext) (unat (vol_data_area_offset ext))
       (unat (disk_length ext) div 512) contents"

text \<open>A volume whose data area and length are multiples of the sector, inside the file.\<close>

definition volume_fits :: "Extension \<Rightarrow> bytes \<Rightarrow> bool" where
  "volume_fits ext contents \<longleftrightarrow> 512 dvd unat (vol_data_area_offset ext) \<and> 512 dvd unat (disk_length ext)
     \<and> unat (vol_data_area_offset ext) + unat (disk_length ext) \<le> length contents \<and> geometry_ok ext"

text \<open>The sectors a request touches: its first sector and how many.\<close>

lemma request_sectors:
  fixes len :: u32
  assumes "volume_fits ext contents" "0 \<le> sint voff" "len \<noteq> 0" "unat voff + unat len \<le> unat (disk_length ext)"
    "unat len < 2 ^ 32 - 1024"
  defines "a \<equiv> unat voff div 512"
  shows "\<exists>p m. compute_sector_io_params (vol_data_area_offset ext) (first_data_unit_no ext) voff (ucast len) (disk_length ext) = Ok p
    \<and> sector_count p = m \<and> unat (aligned_length p) = m * 512 \<and> unat (ucast (aligned_length p) :: u32) = m * 512
    \<and> user_data_length p = unat len \<and> user_data_offset p = unat voff mod 512
    \<and> unat voff mod 512 + unat len \<le> m * 512 \<and> m * 512 < unat voff mod 512 + unat len + 512
    \<and> unat (aligned_host_offset p) = unat (vol_data_area_offset ext) + a * 512
    \<and> first_sector_index p = first_data_unit_no ext + of_nat a
    \<and> a + m \<le> unat (disk_length ext) div 512"
proof -
  let ?vol = "vol_data_area_offset ext"
  have g: "geometry_ok ext" "512 dvd unat ?vol" "512 dvd unat (disk_length ext)"
    using assms(1) by (simp_all add: volume_fits_def)
  have w: "(ucast len :: u64) \<noteq> 0" "voff + ucast len \<le> disk_length ext"
    "unat ?vol + unat voff + unat (ucast len :: u64) + 511 < 2 ^ 64"
    using request_params(2) [OF g(1) assms(2-4)] by auto
  obtain p where p: "compute_sector_io_params ?vol (first_data_unit_no ext) voff (ucast len) (disk_length ext) = Ok p"
    "unat (aligned_host_offset p) = unat ?vol + unat voff div 512 * 512"
    "unat (aligned_length p) = sector_count p * 512" "user_data_offset p = unat voff mod 512"
    "user_data_length p = unat len"
    "unat voff mod 512 + unat len \<le> sector_count p * 512" "sector_count p * 512 < unat voff mod 512 + unat len + 512"
    "first_sector_index p = first_data_unit_no ext + voff div 512"
    using params_aligned [OF w g(2), of "first_data_unit_no ext"] unfolding unat_ucast_32_64 by blast
  have m32: "unat (ucast (aligned_length p) :: u32) = sector_count p * 512"
    using p(3,7) assms(5) by (simp add: unsigned_ucast_eq take_bit_nat_def)
  have "(of_nat a :: u64) = voff div 512"
    by (intro word_unat_eq_iff [THEN iffD2])
      (use unat_lt64 [of voff] in \<open>simp add: a_def unat_div_distrib unat_of_nat64\<close>)
  moreover have "a + sector_count p \<le> unat (disk_length ext) div 512"
  proof -
    have "a * 512 + unat voff mod 512 = unat voff"
      by (simp add: a_def)
    then have "a * 512 + sector_count p * 512 < unat voff + unat len + 512"
      using p(7) by linarith
    then have "(a + sector_count p) * 512 < unat (disk_length ext) + 512"
      using assms(4) by (simp add: algebra_simps)
    then show ?thesis
      using g(3) by auto
  qed
  ultimately show ?thesis
    using p m32 by (auto simp: a_def)
qed

text \<open>
  A read or write request inside the disk, to a volume whose cipher and kernel
  behave, with user memory of the length of the request.
\<close>

definition good_request ::
  "crypto_lib \<Rightarrow> 'h kernel \<Rightarrow> ('h \<Rightarrow> bytes) \<Rightarrow> KernelSectorCipher \<Rightarrow> Extension \<Rightarrow> 'h ioctx \<Rightarrow> bytes \<Rightarrow> bool" where
  "good_request L K contents cipher ext c mem \<longleftrightarrow>
     crypto_info ext = Some cipher \<and> cipher_ok L cipher \<and> kernel_ok K (h_device_file ext) contents
   \<and> volume_fits ext (contents (io_kernel c)) \<and> user_memory (io_irp c) = Some mem
   \<and> 0 \<le> sint (irp_byte_offset (io_irp c)) \<and> irp_length (io_irp c) \<noteq> 0
   \<and> unat (irp_byte_offset (io_irp c)) + unat (irp_length (io_irp c)) \<le> unat (disk_length ext)
   \<and> unat (irp_length (io_irp c)) < 2 ^ 32 - 1024 \<and> unat (irp_length (io_irp c)) \<le> length mem"

definition never_fails :: "'h kernel \<Rightarrow> nat option \<Rightarrow> bool" where
  "never_fails K handle \<longleftrightarrow> (\<forall>n h. fst (k_alloc K n h)) \<and> (\<forall>off n h. NT_SUCCESS (fst (fst (k_read K handle off n h))))
     \<and> (\<forall>off buf h. NT_SUCCESS (fst (k_write K handle off buf h)))"

lemma alloc_pool_contents:
  assumes "kernel_ok K handle contents" "alloc_pool K n c = (got, c')"
  shows "contents (io_kernel c') = contents (io_kernel c)" "io_irp c' = io_irp c"
    "never_fails K handle \<Longrightarrow> got"
proof -
  have "got = fst (k_alloc K n (io_kernel c))" "io_kernel c' = snd (k_alloc K n (io_kernel c))" "io_irp c' = io_irp c"
    using assms(2) by (auto simp: alloc_pool_def split: prod.splits bool.splits)
  then show "contents (io_kernel c') = contents (io_kernel c)" "io_irp c' = io_irp c" "never_fails K handle \<Longrightarrow> got"
    using assms(1) by (simp_all add: kernel_ok_def never_fails_def)
qed

lemma read_host_contents:
  assumes "kernel_ok K handle contents" "read_host K handle off n c = ((status, buf), c')"
    "unat off + unat n \<le> length (contents (io_kernel c))" "unat (ucast n :: u32) = unat n"
  shows "contents (io_kernel c') = contents (io_kernel c)" "io_irp c' = io_irp c"
    "never_fails K handle \<Longrightarrow> NT_SUCCESS status" "length buf = unat n"
    "NT_SUCCESS status \<Longrightarrow> buf = sub (contents (io_kernel c)) (unat off) (unat off + unat n)"
proof -
  let ?r = "k_read K handle off (unat n) (io_kernel c)"
  have e: "status = fst (fst ?r)" "buf = blit (replicate (unat n) 0) 0 (take (unat n) (snd (fst ?r)))"
    "c' = c \<lparr> io_kernel := snd ?r \<rparr>"
    using assms(2) by (simp_all add: read_host_eq assms(4))
  show "contents (io_kernel c') = contents (io_kernel c)" "io_irp c' = io_irp c"
    "never_fails K handle \<Longrightarrow> NT_SUCCESS status" "length buf = unat n"
    using assms(1) by (simp_all add: e kernel_ok_def never_fails_def)
  show "buf = sub (contents (io_kernel c)) (unat off) (unat off + unat n)" if "NT_SUCCESS status"
    using assms(1,3) that by (simp add: e kernel_ok_def blit_def)
qed

lemma finish_simps [simp]:
  "fst (finish status info c) = Ok status" "io_kernel (snd (finish status info c)) = io_kernel c"
  "user_memory (io_irp (snd (finish status info c))) = user_memory (io_irp c)"
  by (simp_all add: finish_def complete_disk_irp_def Let_def user_memory_def split: option.split)

lemma finish_result:
  assumes "finish status info c = (r, c')"
  shows "r = Ok status \<and> io_kernel c' = io_kernel c \<and> user_memory (io_irp c') = user_memory (io_irp c)"
  using finish_simps [of status info c] by (simp add: assms)

lemma free_pool_simps [simp]: "io_kernel (free_pool c) = io_kernel c" "io_irp (free_pool c) = io_irp c"
  by (simp_all add: free_pool_def)

text \<open>
  The part that reads and writes have in common: the request is laid out in
  sectors, a buffer is allocated and the raw sectors are read into it.
\<close>

lemma request_fetch:
  assumes "good_request L K contents cipher ext c mem"
  defines "voff \<equiv> unat (irp_byte_offset (io_irp c))" and "len \<equiv> unat (irp_length (io_irp c))"
    and "vol \<equiv> unat (vol_data_area_offset ext)" and "a \<equiv> unat (irp_byte_offset (io_irp c)) div 512"
    and "old \<equiv> contents (io_kernel c)"
  shows "\<exists>p m got c1 status buf c2.
      compute_sector_io_params (vol_data_area_offset ext) (first_data_unit_no ext)
        (irp_byte_offset (io_irp c)) (ucast (irp_length (io_irp c))) (disk_length ext) = Ok p
    \<and> sector_count p = m \<and> unat (aligned_length p) = m * 512 \<and> unat (ucast (aligned_length p) :: u32) = m * 512
    \<and> user_data_length p = len \<and> user_data_offset p = voff mod 512 \<and> voff mod 512 + len \<le> m * 512
    \<and> m * 512 < voff mod 512 + len + 512
    \<and> unat (aligned_host_offset p) = vol + a * 512 \<and> first_sector_index p = first_data_unit_no ext + of_nat a
    \<and> a + m \<le> unat (disk_length ext) div 512 \<and> vol + a * 512 + m * 512 \<le> length old
    \<and> alloc_pool K (m * 512) c = (got, c1)
    \<and> read_host K (h_device_file ext) (aligned_host_offset p) (aligned_length p) c1 = ((status, buf), c2)
    \<and> contents (io_kernel c1) = old \<and> contents (io_kernel c2) = old \<and> io_irp c1 = io_irp c \<and> io_irp c2 = io_irp c
    \<and> length buf = m * 512 \<and> (NT_SUCCESS status \<longrightarrow> buf = raw_sectors vol a m old)
    \<and> (never_fails K (h_device_file ext) \<longrightarrow> got \<and> NT_SUCCESS status)"
proof -
  note g = assms(1) [unfolded good_request_def, folded voff_def len_def old_def]
  have kok: "kernel_ok K (h_device_file ext) contents"
    using g by simp
  have gf: "unat (disk_length ext) div 512 * 512 = unat (disk_length ext)"
    "vol + unat (disk_length ext) \<le> length old"
    using g by (auto simp: volume_fits_def vol_def)
  obtain p m where p: "compute_sector_io_params (vol_data_area_offset ext) (first_data_unit_no ext)
      (irp_byte_offset (io_irp c)) (ucast (irp_length (io_irp c))) (disk_length ext) = Ok p"
    "sector_count p = m" "unat (aligned_length p) = m * 512" "unat (ucast (aligned_length p) :: u32) = m * 512"
    "user_data_length p = len" "user_data_offset p = voff mod 512" "voff mod 512 + len \<le> m * 512"
    "m * 512 < voff mod 512 + len + 512" "unat (aligned_host_offset p) = vol + a * 512"
    "first_sector_index p = first_data_unit_no ext + of_nat a" "a + m \<le> unat (disk_length ext) div 512"
    using request_sectors [of ext old "irp_byte_offset (io_irp c)" "irp_length (io_irp c)"] g
    unfolding voff_def len_def vol_def a_def by blast
  have "(a + m) * 512 \<le> unat (disk_length ext)"
    using p(11) gf(1) by (metis mult_le_mono1)
  then have fit: "vol + a * 512 + m * 512 \<le> length old"
    using gf(2) by (simp add: algebra_simps)
  obtain got c1 where al: "alloc_pool K (m * 512) c = (got, c1)"
    by fastforce
  note al_facts = alloc_pool_contents [OF kok al, folded old_def]
  obtain status buf c2 where rd: "read_host K (h_device_file ext) (aligned_host_offset p) (aligned_length p) c1 =
      ((status, buf), c2)"
    by (metis prod.exhaust)
  have "unat (aligned_host_offset p) + unat (aligned_length p) \<le> length (contents (io_kernel c1))"
    using fit by (simp add: p(3,9) al_facts(1))
  note rd_facts = read_host_contents [OF kok rd this, unfolded p(3,4), OF refl]
  have buf: "NT_SUCCESS status \<Longrightarrow> buf = raw_sectors vol a m old"
    using rd_facts(5) by (simp add: p(9) al_facts(1) raw_sectors_def algebra_simps)
  show ?thesis
    by (rule exI [of _ p], rule exI [of _ m], rule exI [of _ got], rule exI [of _ c1], rule exI [of _ status],
        rule exI [of _ buf], rule exI [of _ c2])
      (use p fit al al_facts rd rd_facts buf in simp)
qed

text \<open>A read returns the bytes of the plaintext disk, wherever it starts and ends.\<close>

lemma read_refines:
  assumes "good_request L K contents cipher ext c mem" "process_read_irp L K ext c = (r, c')"
  defines "voff \<equiv> unat (irp_byte_offset (io_irp c))" and "len \<equiv> unat (irp_length (io_irp c))"
  shows "contents (io_kernel c') = contents (io_kernel c)
    \<and> (r = Ok STATUS_SUCCESS \<and> user_memory (io_irp c') =
          Some (blit mem 0 (sub (driver_disk L cipher ext (contents (io_kernel c))) voff (voff + len)))
       \<or> (\<exists>status. r = Ok status \<and> \<not> NT_SUCCESS status \<and> user_memory (io_irp c') = Some mem
            \<and> \<not> never_fails K (h_device_file ext)))"
proof -
  let ?f = "contents (io_kernel c)" and ?vol = "unat (vol_data_area_offset ext)" and ?a = "voff div 512"
  let ?disk = "driver_disk L cipher ext ?f" and ?N = "unat (disk_length ext) div 512"
  note g = assms(1) [unfolded good_request_def, folded voff_def len_def]
  obtain p m got c1 status buf c2 where p: "compute_sector_io_params (vol_data_area_offset ext) (first_data_unit_no ext)
        (irp_byte_offset (io_irp c)) (ucast (irp_length (io_irp c))) (disk_length ext) = Ok p"
      "sector_count p = m" "unat (aligned_length p) = m * 512"
      "user_data_length p = len" "user_data_offset p = voff mod 512" "voff mod 512 + len \<le> m * 512"
      "first_sector_index p = first_data_unit_no ext + of_nat ?a" "?a + m \<le> ?N"
    and st: "alloc_pool K (m * 512) c = (got, c1)"
      "read_host K (h_device_file ext) (aligned_host_offset p) (aligned_length p) c1 = ((status, buf), c2)"
      "contents (io_kernel c1) = ?f" "contents (io_kernel c2) = ?f" "io_irp c1 = io_irp c" "io_irp c2 = io_irp c"
      "NT_SUCCESS status \<longrightarrow> buf = raw_sectors ?vol ?a m ?f"
      "never_fails K (h_device_file ext) \<longrightarrow> got \<and> NT_SUCCESS status"
    using request_fetch [OF assms(1), folded voff_def len_def] by (elim exE conjE) rule
  have gf: "?N * 512 = unat (disk_length ext)" "?vol + ?N * 512 \<le> length ?f"
    using g by (auto simp: volume_fits_def)
  have sc: "sector_cipher (kernel_encrypt_sector L cipher) (kernel_decrypt_sector L cipher) (\<lambda>n. n = 512)"
    using g cipher_ok_sector_cipher by blast
  have dec: "decrypt_sectors L cipher (first_sector_index p) m (raw_sectors ?vol ?a m ?f) =
      Ok (sub ?disk (?a * 512) ((?a + m) * 512))"
    using sector_cipher.decrypt_run [OF sc _ gf(2) p(8), of "first_data_unit_no ext"]
    by (simp add: decrypt_sectors_def p(7) driver_disk_def)
  have ld: "length ?disk = ?N * 512"
    using sector_cipher.disk_plain_sectors(1) [OF sc _ gf(2)] by (simp add: driver_disk_def)
  have am: "(?a + m) * 512 \<le> ?N * 512" "?a * 512 + voff mod 512 = voff"
    using p(8) by simp_all
  have data: "slice (sub ?disk (?a * 512) ((?a + m) * 512)) (voff mod 512) (voff mod 512 + len) =
      (Ok (sub ?disk voff (voff + len)) :: (unit, bytes) res)"
  proof -
    have "voff + len \<le> (?a + m) * 512" "?a * 512 + (voff mod 512 + len) = voff + len"
      using am(2) p(6) add_mult_distrib [of ?a m 512] by linarith+
    then have "min ((?a + m) * 512) (?a * 512 + (voff mod 512 + len)) = voff + len"
      by simp
    then have "sub (sub ?disk (?a * 512) ((?a + m) * 512)) (voff mod 512) (voff mod 512 + len) = sub ?disk voff (voff + len)"
      by (simp only: sub_sub am(2))
    moreover have "length (sub ?disk (?a * 512) ((?a + m) * 512)) = m * 512"
      using am(1) ld by (simp add: algebra_simps)
    ultimately show ?thesis
      using p(6) by (simp add: slice_def)
  qed
  have ll: "length (sub ?disk voff (voff + len)) = len"
    using g ld gf(1) by auto
  obtain pb where pb: "decrypt_sectors L cipher (first_sector_index p) m (raw_sectors ?vol ?a m ?f) = Ok pb"
    "slice pb (voff mod 512) (voff mod 512 + len) = (Ok (sub ?disk voff (voff + len)) :: (unit, bytes) res)"
    using dec data by blast
  show ?thesis
  proof (cases "got \<and> NT_SUCCESS status")
    case False
    have "process_read_irp L K ext c =
        (if got then finish status 0 (free_pool c2) else finish STATUS_INSUFFICIENT_RESOURCES 0 c1)"
      using False g p(1,3) st(1,2) by (simp add: process_read_irp_def get_read_params_def)
    then have "(got \<longrightarrow> r = Ok status \<and> io_kernel c' = io_kernel c2 \<and> user_memory (io_irp c') = user_memory (io_irp c2)) \<and>
        (\<not> got \<longrightarrow> r = Ok STATUS_INSUFFICIENT_RESOURCES \<and> io_kernel c' = io_kernel c1 \<and>
          user_memory (io_irp c') = user_memory (io_irp c1))"
      using assms(2) finish_result [of status 0 "free_pool c2" r c'] finish_result [of STATUS_INSUFFICIENT_RESOURCES 0 c1 r c']
      by (cases got) simp_all
    then show ?thesis
      using False g st(3-6,8) by (cases got) simp_all
  next
    case True
    then have b: "decrypt_sectors L cipher (first_sector_index p) m buf = Ok pb"
      using st(7) pb(1) by simp
    let ?irp = "set_user_memory (io_irp c) (blit mem 0 (sub ?disk voff (voff + len)))"
    have "process_read_irp L K ext c = finish STATUS_SUCCESS len (free_pool (c2 \<lparr> io_irp := ?irp \<rparr>))"
      using g p(1-5) st(1,2,6) True b pb(2) ll
      by (simp add: process_read_irp_def get_read_params_def copy_to_user_eq)
    then have "r = Ok STATUS_SUCCESS \<and> io_kernel c' = io_kernel c2 \<and> user_memory (io_irp c') = user_memory ?irp"
      using assms(2) finish_result [of STATUS_SUCCESS len "free_pool (c2 \<lparr> io_irp := ?irp \<rparr>)" r c'] by simp
    then show ?thesis
      using st(4) by simp
  qed
qed

text \<open>
  A write that succeeds replaces whole sectors of the plaintext disk. The new
  sectors are what the file held there, not decrypted, with the user's bytes
  laid over it; the rest of the disk and of the file does not change.
\<close>

lemma write_effect:
  assumes "good_request L K contents cipher ext c mem" "\<not> b_read_only ext"
    "process_write_irp L K ext c = (r, c')"
  defines "voff \<equiv> unat (irp_byte_offset (io_irp c))" and "len \<equiv> unat (irp_length (io_irp c))"
    and "vol \<equiv> unat (vol_data_area_offset ext)" and "a \<equiv> unat (irp_byte_offset (io_irp c)) div 512"
    and "old \<equiv> contents (io_kernel c)" and "new \<equiv> contents (io_kernel c')"
  shows "\<exists>m. voff mod 512 + len \<le> m * 512 \<and> m * 512 < voff mod 512 + len + 512 \<and> a + m \<le> unat (disk_length ext) div 512
    \<and> length new = length old
    \<and> (\<forall>x y. y \<le> vol + a * 512 \<or> vol + (a + m) * 512 \<le> x \<longrightarrow> sub new x y = sub old x y)
    \<and> (r = Ok STATUS_SUCCESS \<and> driver_disk L cipher ext new =
          blit (driver_disk L cipher ext old) (a * 512) (blit (raw_sectors vol a m old) (voff mod 512) (take len mem))
       \<or> (\<exists>status. r = Ok status \<and> \<not> NT_SUCCESS status \<and> \<not> never_fails K (h_device_file ext)))"
proof -
  let ?N = "unat (disk_length ext) div 512"
  note g = assms(1) [unfolded good_request_def, folded voff_def len_def old_def]
  obtain p m got c1 status buf c2 where p: "compute_sector_io_params (vol_data_area_offset ext) (first_data_unit_no ext)
        (irp_byte_offset (io_irp c)) (ucast (irp_length (io_irp c))) (disk_length ext) = Ok p"
      "sector_count p = m" "unat (aligned_length p) = m * 512" "unat (ucast (aligned_length p) :: u32) = m * 512"
      "user_data_length p = len" "user_data_offset p = voff mod 512"
      "unat (aligned_host_offset p) = vol + a * 512" "first_sector_index p = first_data_unit_no ext + of_nat a"
    and m: "voff mod 512 + len \<le> m * 512" "m * 512 < voff mod 512 + len + 512" "a + m \<le> ?N"
      "vol + a * 512 + m * 512 \<le> length old"
    and st: "alloc_pool K (m * 512) c = (got, c1)"
      "read_host K (h_device_file ext) (aligned_host_offset p) (aligned_length p) c1 = ((status, buf), c2)"
      "contents (io_kernel c1) = old" "contents (io_kernel c2) = old" "io_irp c1 = io_irp c" "io_irp c2 = io_irp c"
      "length buf = m * 512" "NT_SUCCESS status \<longrightarrow> buf = raw_sectors vol a m old"
      "never_fails K (h_device_file ext) \<longrightarrow> got \<and> NT_SUCCESS status"
    using request_fetch [OF assms(1), folded voff_def len_def vol_def a_def old_def] by (elim exE conjE) rule
  show ?thesis
  proof (cases "got \<and> NT_SUCCESS status")
    case False
    have "process_write_irp L K ext c =
        (if got then finish status 0 (free_pool c2) else finish STATUS_INSUFFICIENT_RESOURCES 0 c1)"
      using False assms(2) g p(1,3) st(1,2) by (simp add: process_write_irp_def get_write_params_def)
    then have "new = old \<and> (\<exists>status. r = Ok status \<and> \<not> NT_SUCCESS status \<and> \<not> never_fails K (h_device_file ext))"
      using False assms(3) st by (auto simp: finish_def new_def split: if_splits)
    then show ?thesis
      using m by (intro exI [of _ m]) simp
  next
    case True
    let ?raw = "raw_sectors vol a m old"
    let ?buf = "blit ?raw (voff mod 512) (take len mem)" and ?off = "aligned_host_offset p"
    have lb: "length ?buf = m * 512" "length ?raw = m * 512"
      using st(7,8) True m(1) g by auto
    have sc: "sector_cipher (kernel_encrypt_sector L cipher) (kernel_decrypt_sector L cipher) (\<lambda>n. n = 512)"
      using g cipher_ok_sector_cipher by blast
    have fit: "vol + ?N * 512 \<le> length old"
      using g by (auto simp: volume_fits_def vol_def)
    obtain s where s: "encrypt_sectors L cipher (first_sector_index p) m ?buf = Ok s" "length s = m * 512"
      "driver_disk L cipher ext (write_at old (vol + a * 512) s) = blit (driver_disk L cipher ext old) (a * 512) ?buf"
      using sector_cipher.encrypt_run [OF sc _ fit m(3) lb(1), of "first_data_unit_no ext"]
      by (auto simp: encrypt_sectors_def p(8) driver_disk_def vol_def)
    let ?w = "k_write K (h_device_file ext) ?off s (io_kernel c2)"
    have run: "r = Ok (if NT_SUCCESS (fst ?w) then STATUS_SUCCESS else fst ?w)" "io_kernel c' = snd ?w"
      using assms(2,3) g p(1-6) st True m(1) lb s(1,2)
      by (auto simp: process_write_irp_def get_write_params_def copy_from_user_eq write_host_eq finish_def Let_def
          split: if_splits)
    have w: "unat ?off + length s \<le> length (contents (io_kernel c2))"
      using m(4) s(2) st(4) by (simp add: p(7))
    have kok: "kernel_ok K (h_device_file ext) contents"
      using g by simp
    have k: "length new = length old" "NT_SUCCESS (fst ?w) \<longrightarrow> new = write_at old (vol + a * 512) s"
      "\<forall>x y. y \<le> vol + a * 512 \<or> vol + a * 512 + m * 512 \<le> x \<longrightarrow> sub new x y = sub old x y"
      using kok w st(4) unfolding kernel_ok_def by (simp_all add: new_def run(2) p(7) s(2))
    have nf: "never_fails K (h_device_file ext) \<longrightarrow> NT_SUCCESS (fst ?w)"
      by (simp add: never_fails_def)
    show ?thesis
      using m k nf run(1) s(3) by (intro exI [of _ m]) (auto simp: algebra_simps)
  qed
qed

section \<open>An instance\<close>

text \<open>A disk of two sectors behind one sector of header, and a request to it.\<close>

definition toy_extension :: "KernelSectorCipher \<Rightarrow> Extension" where
  "toy_extension cipher = \<lparr> is_volume_device = True, unique_volume_id = 1, n_dos_drive_no = 3,
     b_shutting_down = False, b_thread_should_quit = False, h_device_file = Some 1, pfo_device_file = Some 2,
     crypto_info = Some cipher, vol_data_area_offset = 512, first_data_unit_no = 0, host_length = 1536,
     disk_length = 1024, number_of_cylinders = 2, tracks_per_cylinder = 1, sectors_per_track = 1,
     bytes_per_sector = 512, host_bytes_per_sector = 512, host_bytes_per_physical_sector = 512,
     host_maximum_transfer_length = 65536, host_maximum_physical_pages = 17, host_alignment_mask = 0,
     host_device_number = 0xFFFFFFFF, host_incurs_seek_penalty = True, host_trim_enabled = False,
     b_read_only = False, b_removable = False, b_mount_manager = True, wsz_volume = [], wsz_label = [],
     volume_id = [], file_times = [], b_timestamp_valid = False, b_preserve_timestamp = False \<rparr>"

definition toy_request :: "u8 \<Rightarrow> u64 \<Rightarrow> bytes \<Rightarrow> bytes ioctx" where
  "toy_request major offset mem = \<lparr> io_irp = \<lparr> irp_major = major, irp_byte_offset = offset,
       irp_length = of_nat (length mem), irp_mdl = Some (Some mem), irp_system_buffer = None, irp_ioctl = 0,
       irp_in_len = 0, irp_out_len = 0, irp_io_status = None, irp_boosts = [] \<rparr>,
     io_kernel = replicate 1536 0, io_pool = 0 \<rparr>"

lemma toy_kernel_cipher: "\<exists>c. kernel_new toy_lib Twofish (replicate 64 1) = Ok c \<and> cipher_ok toy_lib c"
proof -
  obtain c where "kernel_new toy_lib Twofish (replicate 64 1) = Ok c"
    using kernel_new_refines [OF toy_lib_ok, of "replicate 64 1" Twofish] by auto
  then show ?thesis
    using toy_lib_ok unfolding cipher_ok_def by blast
qed

lemma toy_never_fails: "never_fails plain_kernel handle"
  by (simp add: never_fails_def plain_kernel_def)

lemma toy_fits: "volume_fits (toy_extension c) (replicate 1536 0)"
  by (simp add: volume_fits_def geometry_ok_def toy_extension_def)

lemma toy_good_request:
  assumes "cipher_ok toy_lib c" "0 \<le> sint offset" "0 < length mem" "unat offset + length mem \<le> 1024"
  shows "good_request toy_lib plain_kernel id c (toy_extension c) (toy_request major offset mem) mem"
proof -
  have l: "unat (of_nat (length mem) :: u32) = length mem"
    using assms(4) by (simp add: unat_of_nat take_bit_nat_def)
  moreover have "(of_nat (length mem) :: u32) \<noteq> 0"
    using l assms(3) by (metis less_irrefl unat_0)
  ultimately show ?thesis
    using assms toy_fits [of c] plain_kernel_ok [of "Some 1"]
    by (simp add: good_request_def toy_request_def user_memory_def) (simp add: toy_extension_def)
qed

text \<open>A write of whole sectors.\<close>

lemma sector_write_refines:
  assumes "good_request L K contents cipher ext c mem" "\<not> b_read_only ext"
    "process_write_irp L K ext c = (r, c')"
    "512 dvd unat (irp_byte_offset (io_irp c))" "512 dvd unat (irp_length (io_irp c))"
  defines "voff \<equiv> unat (irp_byte_offset (io_irp c))" and "len \<equiv> unat (irp_length (io_irp c))"
    and "vol \<equiv> unat (vol_data_area_offset ext)"
    and "old \<equiv> contents (io_kernel c)" and "new \<equiv> contents (io_kernel c')"
  shows "length new = length old
    \<and> (\<forall>x y. y \<le> vol + voff \<or> vol + voff + len \<le> x \<longrightarrow> sub new x y = sub old x y)
    \<and> (r = Ok STATUS_SUCCESS
        \<and> driver_disk L cipher ext new = blit (driver_disk L cipher ext old) voff (take len mem)
       \<or> (\<exists>status. r = Ok status \<and> \<not> NT_SUCCESS status \<and> \<not> never_fails K (h_device_file ext)))"
proof -
  note g = assms(1) [unfolded good_request_def, folded voff_def len_def old_def]
  have a: "voff div 512 * 512 = voff" "voff mod 512 = 0"
    using assms(4) by (simp_all add: voff_def)
  obtain m where m: "len \<le> m * 512" "m * 512 < len + 512" "voff div 512 + m \<le> unat (disk_length ext) div 512"
      "length new = length old"
      "\<forall>x y. y \<le> vol + voff \<or> vol + (voff div 512 + m) * 512 \<le> x \<longrightarrow> sub new x y = sub old x y"
    and res: "r = Ok STATUS_SUCCESS \<and> driver_disk L cipher ext new =
          blit (driver_disk L cipher ext old) voff (blit (raw_sectors vol (voff div 512) m old) 0 (take len mem))
       \<or> (\<exists>status. r = Ok status \<and> \<not> NT_SUCCESS status \<and> \<not> never_fails K (h_device_file ext))"
    using write_effect [OF assms(1-3), folded voff_def len_def vol_def old_def new_def] unfolding a
    by (elim exE conjE) (simp only: add_0)
  obtain k where "len = 512 * k"
    using assms(5) unfolding len_def by (elim dvdE)
  then have ml: "m * 512 = len"
    using m(1,2) by simp
  have "length (raw_sectors vol (voff div 512) m old) = len"
  proof -
    have "(voff div 512 + m) * 512 \<le> unat (disk_length ext)"
      using m(3) g by (metis dvd_div_mult_self mult_le_mono1 volume_fits_def)
    then show ?thesis
      using g ml by (subst length_raw_sectors) (auto simp: volume_fits_def vol_def)
  qed
  then have "blit (raw_sectors vol (voff div 512) m old) 0 (take len mem) = take len mem"
    using g by (simp add: blit_def)
  moreover have "vol + (voff div 512 + m) * 512 = vol + voff + len"
    using a(1) ml by (simp add: add_mult_distrib)
  ultimately show ?thesis
    using m(4,5) res by simp
qed

text \<open>
  A request for sector \<open>s\<close>, to a kernel that refuses nothing and whose container
  holds \<open>file\<close>; \<open>mem\<close> is the user's memory of one sector.
\<close>

definition sector_request ::
  "crypto_lib \<Rightarrow> 'h kernel \<Rightarrow> ('h \<Rightarrow> bytes) \<Rightarrow> KernelSectorCipher \<Rightarrow> Extension \<Rightarrow> nat \<Rightarrow> bytes \<Rightarrow> bytes \<Rightarrow> 'h ioctx \<Rightarrow> bool" where
  "sector_request L K contents cipher ext s file mem c \<longleftrightarrow> good_request L K contents cipher ext c mem
     \<and> never_fails K (h_device_file ext) \<and> contents (io_kernel c) = file \<and> length mem = 512
     \<and> unat (irp_byte_offset (io_irp c)) = s * 512 \<and> unat (irp_length (io_irp c)) = 512"

lemma length_driver_disk: "cipher_ok L cipher \<Longrightarrow> volume_fits ext f \<Longrightarrow> length (driver_disk L cipher ext f) = unat (disk_length ext)"
  using sector_cipher.disk_plain_sectors(1) [OF cipher_ok_sector_cipher, of L cipher "unat (vol_data_area_offset ext)"
      "unat (disk_length ext) div 512" f "first_data_unit_no ext"]
  by (simp add: driver_disk_def volume_fits_def)

lemma driver_reads_sector:
  assumes "sector_request L K contents cipher ext s file mem c"
  shows "\<exists>c'. process_read_irp L K ext c = (Ok STATUS_SUCCESS, c') \<and> contents (io_kernel c') = file
    \<and> user_memory (io_irp c') = Some (sector_of (driver_disk L cipher ext file) s)"
proof -
  note q = assms [unfolded sector_request_def]
  obtain r c' where r: "process_read_irp L K ext c = (r, c')"
    by fastforce
  have len: "length (driver_disk L cipher ext file) = unat (disk_length ext)" "s * 512 + 512 \<le> unat (disk_length ext)"
    using q length_driver_disk by (auto simp: good_request_def)
  then have "blit mem 0 (sub (driver_disk L cipher ext file) (s * 512) (s * 512 + 512)) = sector_of (driver_disk L cipher ext file) s"
    using q by (simp add: blit_def sector_of_def algebra_simps)
  then show ?thesis
    using read_refines [OF _ r, of contents cipher mem] q r by auto
qed

lemma driver_writes_sector:
  assumes "sector_request L K contents cipher ext s file buf c" "\<not> b_read_only ext"
  shows "\<exists>c'. process_write_irp L K ext c = (Ok STATUS_SUCCESS, c') \<and> length (contents (io_kernel c')) = length file
    \<and> driver_disk L cipher ext (contents (io_kernel c')) = blit (driver_disk L cipher ext file) (s * 512) buf"
proof -
  note q = assms(1) [unfolded sector_request_def]
  obtain r c' where r: "process_write_irp L K ext c = (r, c')"
    by fastforce
  have "512 dvd unat (irp_byte_offset (io_irp c))" "512 dvd unat (irp_length (io_irp c))"
    using q by simp_all
  from sector_write_refines [OF _ assms(2) r this, of contents cipher buf] show ?thesis
    using q r by auto
qed

section \<open>Properties\<close>

text \<open>
  C21: Whatever the kernel answers, a packet given to the queue comes back: the
  handler returns without a fault, has completed the packet exactly once, with
  the status it returns and the boost that goes with it, and holds no pool
  buffer it did not hold before.
\<close>

theorem driver_completes_once:
  assumes "crypto_info ext = Some cipher" "cipher_ok L cipher" "geometry_ok ext" "user_fits (io_irp c)"
    "add_irp L K ext c = (r, c')"
  shows "\<exists>status info. r = Ok status \<and> irp_io_status (io_irp c') = Some (status, info)
    \<and> irp_boosts (io_irp c') = (if NT_SUCCESS status then IO_DISK_INCREMENT else IO_NO_INCREMENT) # irp_boosts (io_irp c)
    \<and> io_pool c' = io_pool c"
  using add_irp_served [OF assms(1-4), of K] by (simp add: served_def assms(5))

theorem driver_completes_once_witness:
  "\<exists>c r c'. kernel_new toy_lib Twofish (replicate 64 1) = Ok c
    \<and> add_irp toy_lib plain_kernel (toy_extension c) (toy_request IRP_MJ_WRITE 100 [7, 8]) = (r, c')
    \<and> length (irp_boosts (io_irp c')) = 1"
proof -
  obtain c where c: "kernel_new toy_lib Twofish (replicate 64 1) = Ok c" "cipher_ok toy_lib c"
    using toy_kernel_cipher by blast
  obtain r c' where r: "add_irp toy_lib plain_kernel (toy_extension c) (toy_request IRP_MJ_WRITE 100 [7, 8]) = (r, c')"
    by fastforce
  have "crypto_info (toy_extension c) = Some c" "geometry_ok (toy_extension c)"
    "user_fits (io_irp (toy_request IRP_MJ_WRITE 100 [7, 8]))"
    by (simp_all add: toy_extension_def geometry_ok_def user_fits_def user_memory_def toy_request_def)
  from driver_completes_once [OF this(1) c(2) this(2,3) r] show ?thesis
    using c(1) r by (auto simp: toy_request_def)
qed

text \<open>
  C22: A read of any range inside the disk, aligned or not, hands the user the
  bytes of the plaintext disk in that range and leaves the container file as
  it is. It fails only when the kernel refuses memory or the read, and then
  the user's memory is untouched.
\<close>

theorem driver_read_returns_disk:
  assumes "good_request L K contents cipher ext c mem" "process_read_irp L K ext c = (r, c')"
  defines "voff \<equiv> unat (irp_byte_offset (io_irp c))" and "len \<equiv> unat (irp_length (io_irp c))"
  shows "contents (io_kernel c') = contents (io_kernel c)
    \<and> (r = Ok STATUS_SUCCESS \<and> user_memory (io_irp c') =
          Some (blit mem 0 (sub (driver_disk L cipher ext (contents (io_kernel c))) voff (voff + len)))
       \<or> (\<exists>status. r = Ok status \<and> \<not> NT_SUCCESS status \<and> user_memory (io_irp c') = Some mem
            \<and> \<not> never_fails K (h_device_file ext)))"
  unfolding voff_def len_def by (rule read_refines [OF assms(1,2)])

theorem driver_read_returns_disk_witness:
  "\<exists>c r c'. kernel_new toy_lib Twofish (replicate 64 1) = Ok c
    \<and> process_read_irp toy_lib plain_kernel (toy_extension c) (toy_request IRP_MJ_READ 500 (replicate 20 0)) = (r, c')
    \<and> r = Ok STATUS_SUCCESS \<and> user_memory (io_irp c') =
        Some (blit (replicate 20 0) 0 (sub (driver_disk toy_lib c (toy_extension c) (replicate 1536 0)) 500 520))"
proof -
  obtain c where c: "kernel_new toy_lib Twofish (replicate 64 1) = Ok c" "cipher_ok toy_lib c"
    using toy_kernel_cipher by blast
  let ?q = "toy_request IRP_MJ_READ 500 (replicate 20 0)"
  obtain r c' where r: "process_read_irp toy_lib plain_kernel (toy_extension c) ?q = (r, c')"
    by fastforce
  have "good_request toy_lib plain_kernel id c (toy_extension c) ?q (replicate 20 0)"
    by (rule toy_good_request [OF c(2)]) simp_all
  from driver_read_returns_disk [OF this r] show ?thesis
    using c(1) r toy_never_fails by (auto simp: toy_request_def)
qed

text \<open>
  C23: A write of whole sectors replaces exactly its range of the plaintext
  disk by the user's bytes and touches nothing of the file outside that range;
  when the kernel refuses, at most that range of the file has changed.
\<close>

theorem driver_sector_write:
  assumes "good_request L K contents cipher ext c mem" "\<not> b_read_only ext"
    "process_write_irp L K ext c = (r, c')"
    "512 dvd unat (irp_byte_offset (io_irp c))" "512 dvd unat (irp_length (io_irp c))"
  defines "voff \<equiv> unat (irp_byte_offset (io_irp c))" and "len \<equiv> unat (irp_length (io_irp c))"
    and "vol \<equiv> unat (vol_data_area_offset ext)"
    and "old \<equiv> contents (io_kernel c)" and "new \<equiv> contents (io_kernel c')"
  shows "length new = length old
    \<and> (\<forall>x y. y \<le> vol + voff \<or> vol + voff + len \<le> x \<longrightarrow> sub new x y = sub old x y)
    \<and> (r = Ok STATUS_SUCCESS
        \<and> driver_disk L cipher ext new = blit (driver_disk L cipher ext old) voff (take len mem)
       \<or> (\<exists>status. r = Ok status \<and> \<not> NT_SUCCESS status \<and> \<not> never_fails K (h_device_file ext)))"
  unfolding voff_def len_def vol_def old_def new_def by (rule sector_write_refines [OF assms(1-5)])

theorem driver_sector_write_witness:
  "\<exists>c r c'. kernel_new toy_lib Twofish (replicate 64 1) = Ok c
    \<and> process_write_irp toy_lib plain_kernel (toy_extension c) (toy_request IRP_MJ_WRITE 512 (replicate 512 7)) = (r, c')
    \<and> r = Ok STATUS_SUCCESS \<and> driver_disk toy_lib c (toy_extension c) (io_kernel c') =
        blit (driver_disk toy_lib c (toy_extension c) (replicate 1536 0)) 512 (replicate 512 7)"
proof -
  obtain c where c: "kernel_new toy_lib Twofish (replicate 64 1) = Ok c" "cipher_ok toy_lib c"
    using toy_kernel_cipher by blast
  let ?q = "toy_request IRP_MJ_WRITE 512 (replicate 512 7)"
  obtain r c' where r: "process_write_irp toy_lib plain_kernel (toy_extension c) ?q = (r, c')"
    by fastforce
  have g: "good_request toy_lib plain_kernel id c (toy_extension c) ?q (replicate 512 7)"
    by (rule toy_good_request [OF c(2)]) simp_all
  have "\<not> b_read_only (toy_extension c)" "512 dvd unat (irp_byte_offset (io_irp ?q))" "512 dvd unat (irp_length (io_irp ?q))"
    by (simp_all add: toy_extension_def toy_request_def)
  from driver_sector_write [OF g this(1) r this(2,3)] show ?thesis
    using c(1) r toy_never_fails by (auto simp: toy_request_def)
qed

text \<open>
  C24: A write that does not cover its sectors damages their other bytes: the
  handler lays the user's bytes over the sectors as read from the file,
  without decrypting them, and encrypts the result. Afterwards the plaintext
  disk holds the user's bytes where they belong, and before and after them in
  the touched sectors the old ciphertext instead of the old plaintext.
\<close>

theorem driver_partial_write_corrupts:
  assumes "good_request L K contents cipher ext c mem" "\<not> b_read_only ext" "never_fails K (h_device_file ext)"
    "process_write_irp L K ext c = (r, c')"
  defines "voff \<equiv> unat (irp_byte_offset (io_irp c))" and "len \<equiv> unat (irp_length (io_irp c))"
    and "vol \<equiv> unat (vol_data_area_offset ext)"
    and "old \<equiv> contents (io_kernel c)" and "new \<equiv> contents (io_kernel c')"
  shows "r = Ok STATUS_SUCCESS
    \<and> sub (driver_disk L cipher ext new) voff (voff + len) = take len mem
    \<and> sub (driver_disk L cipher ext new) (voff div 512 * 512) voff = sub old (vol + voff div 512 * 512) (vol + voff)
    \<and> sub (driver_disk L cipher ext new) (voff + len) ((voff + len + 511) div 512 * 512) =
        sub old (vol + voff + len) (vol + (voff + len + 511) div 512 * 512)"
proof -
  let ?a = "voff div 512"
  note g = assms(1) [unfolded good_request_def, folded voff_def len_def old_def]
  obtain m where m: "voff mod 512 + len \<le> m * 512" "m * 512 < voff mod 512 + len + 512"
      "?a + m \<le> unat (disk_length ext) div 512"
    and res: "r = Ok STATUS_SUCCESS" "driver_disk L cipher ext new =
          blit (driver_disk L cipher ext old) (?a * 512) (blit (raw_sectors vol ?a m old) (voff mod 512) (take len mem))"
    using write_effect [OF assms(1,2,4), folded voff_def len_def vol_def old_def new_def] assms(3)
    by (elim exE conjE) blast
  let ?raw = "raw_sectors vol ?a m old" and ?disk = "driver_disk L cipher ext old"
  let ?buf = "blit ?raw (voff mod 512) (take len mem)"
  have a: "?a * 512 + voff mod 512 = voff"
    by simp
  have am: "?a * 512 + m * 512 \<le> unat (disk_length ext)" "vol + unat (disk_length ext) \<le> length old"
  proof -
    have "(?a + m) * 512 \<le> unat (disk_length ext)"
      using m(3) g by (metis dvd_div_mult_self mult_le_mono1 volume_fits_def)
    then show "?a * 512 + m * 512 \<le> unat (disk_length ext)"
      by (simp add: add_mult_distrib)
    show "vol + unat (disk_length ext) \<le> length old"
      using g by (simp add: volume_fits_def vol_def)
  qed
  have lr: "length ?raw = m * 512"
    using am by (intro length_raw_sectors) (simp add: add_mult_distrib)
  have lt: "length (take len mem) = len"
    using g by simp
  have lb: "length ?buf = m * 512"
    using lr lt m(1) by simp
  have fit: "unat (vol_data_area_offset ext) + unat (disk_length ext) div 512 * 512 \<le> length old"
    using g by (auto simp: volume_fits_def)
  have ld: "length ?disk = unat (disk_length ext)"
    using sector_cipher.disk_plain_sectors(1) [OF cipher_ok_sector_cipher _ fit, of L cipher] g
    by (auto simp: driver_disk_def volume_fits_def)
  have piece: "sub (driver_disk L cipher ext new) (?a * 512 + x) (?a * 512 + y) = sub ?buf x y" if "y \<le> m * 512" for x y
  proof -
    have "sub (blit ?disk (?a * 512) ?buf) (?a * 512) (?a * 512 + m * 512) = ?buf"
      using am ld lb by (intro sub_blit_same) simp_all
    then have "sub (sub (blit ?disk (?a * 512) ?buf) (?a * 512) (?a * 512 + m * 512)) x y = sub ?buf x y"
      by simp
    moreover have "min (?a * 512 + m * 512) (?a * 512 + y) = ?a * 512 + y"
      using that by simp
    ultimately show ?thesis
      unfolding res(2) sub_sub by simp
  qed
  have e: "(voff + len + 511) div 512 = ?a + m"
    using a m(1,2) by linarith
  have raw: "sub ?raw x y = sub old (vol + (?a * 512 + x)) (vol + (?a * 512 + y))" if "y \<le> m * 512" for x y
  proof -
    have "min (vol + (?a + m) * 512) (vol + ?a * 512 + y) = vol + (?a * 512 + y)"
      using that by (simp add: add_mult_distrib)
    then show ?thesis
      unfolding raw_sectors_def sub_sub by (simp add: add.assoc)
  qed
  have "sub ?buf (voff mod 512) (voff mod 512 + len) = take len mem"
    using lr lt m(1) by (intro sub_blit_same) simp_all
  then have "sub (driver_disk L cipher ext new) voff (voff + len) = take len mem"
    using piece [of "voff mod 512 + len" "voff mod 512"] m(1) by (simp add: a add.assoc [symmetric])
  moreover have "sub ?buf 0 (voff mod 512) = sub ?raw 0 (voff mod 512)"
    using lr m(1) by (intro sub_blit_before) simp_all
  then have "sub (driver_disk L cipher ext new) (?a * 512) voff = sub old (vol + ?a * 512) (vol + voff)"
    using piece [of "voff mod 512" 0] raw [of "voff mod 512" 0] m(1) by (simp add: a)
  moreover have "sub ?buf (voff mod 512 + len) (m * 512) = sub ?raw (voff mod 512 + len) (m * 512)"
    using lr lt m(1) by (intro sub_blit_after) simp_all
  then have "sub (driver_disk L cipher ext new) (voff + len) ((?a + m) * 512) =
      sub old (vol + voff + len) (vol + (?a + m) * 512)"
    using piece [of "m * 512" "voff mod 512 + len"] raw [of "m * 512" "voff mod 512 + len"]
    by (simp add: a add.assoc [symmetric] add_mult_distrib)
  ultimately show ?thesis
    using res(1) by (simp add: e)
qed

theorem driver_partial_write_corrupts_witness:
  "\<exists>c r c'. kernel_new toy_lib Twofish (replicate 64 1) = Ok c
    \<and> process_write_irp toy_lib plain_kernel (toy_extension c) (toy_request IRP_MJ_WRITE 100 [7, 8]) = (r, c')
    \<and> r = Ok STATUS_SUCCESS \<and> sub (driver_disk toy_lib c (toy_extension c) (io_kernel c')) 0 100 = replicate 100 0"
proof -
  obtain c where c: "kernel_new toy_lib Twofish (replicate 64 1) = Ok c" "cipher_ok toy_lib c"
    using toy_kernel_cipher by blast
  let ?q = "toy_request IRP_MJ_WRITE 100 [7, 8]"
  obtain r c' where r: "process_write_irp toy_lib plain_kernel (toy_extension c) ?q = (r, c')"
    by fastforce
  have g: "good_request toy_lib plain_kernel id c (toy_extension c) ?q [7, 8]"
    by (rule toy_good_request [OF c(2)]) simp_all
  have "\<not> b_read_only (toy_extension c)"
    by (simp add: toy_extension_def)
  from driver_partial_write_corrupts [OF g this toy_never_fails r] show ?thesis
    using c(1) r by (auto simp: toy_request_def toy_extension_def sub_def)
qed

end
