(* ===== verification/DriverDebug.thy ===== *)
theory DriverDebug
  imports DriverBase
begin

text \<open>
  Debug output of the driver (\<open>debug.rs\<close>): each function builds a
  NUL-terminated line in a stack buffer and gives it to \<open>DbgPrintEx\<close>. The model
  returns the buffer; an out-of-range slice or a copy between slices of
  different lengths panics, which stops the machine in kernel mode.
\<close>

definition copy_slice :: "'a list \<Rightarrow> nat \<Rightarrow> nat \<Rightarrow> 'a list \<Rightarrow> ('e, 'a list) res" where
  "copy_slice buf a b src =
     (if a \<le> b \<and> b \<le> length buf \<and> length src = b - a then Ok (blit buf a src) else Panic)"

section \<open>Formatting\<close>

definition format_hex_status :: "u32 \<Rightarrow> ('e, bytes) res" where
  "format_hex_status val =
     (let buf = replicate 19 0; prefix = ascii '' status=0x'' in
      bind_res (copy_slice buf 0 11 prefix) (\<lambda>buf.
      Ok (fold (\<lambda>i buf.
            let nibble = ucast (drop_bit (28 - i * 4) val AND 0xF) :: u8
            in buf[11 + i := if nibble < 10 then of_char (CHR ''0'') + nibble else of_char (CHR ''A'') + nibble - 10])
          [0..<8] buf)))"

text \<open>The digits come out of the division loop in reverse; at most twenty fit.\<close>

fun digits_loop :: "nat \<Rightarrow> bytes" where
  "digits_loop val = (if val = 0 then [] else (of_char (CHR ''0'') + of_nat (val mod 10)) # digits_loop (val div 10))"

declare digits_loop.simps [simp del]

definition format_u64 :: "u64 \<Rightarrow> bytes" where
  "format_u64 val =
     (let buf = replicate 21 0 in
      if val = 0 then buf[0 := of_char (CHR '' ''), 1 := of_char (CHR ''0'')]
      else
        let digits = digits_loop (unat val); n = length digits
        in fold (\<lambda>i buf. buf[1 + i := digits ! (n - 1 - i)]) [0..<n] (buf[0 := of_char (CHR '' '')]))"

section \<open>Output\<close>

definition kdbg :: "bytes \<Rightarrow> ('e, bytes) res" where
  "kdbg msg =
     (let buf = replicate 256 0; len = min (length msg) 254 in
      bind_res (copy_slice buf 0 len (take len msg)) (\<lambda>buf. Ok (buf[len := 0])))"

definition kdbg_status :: "bytes \<Rightarrow> NTSTATUS \<Rightarrow> ('e, bytes) res" where
  "kdbg_status msg status =
     (let buf = replicate 300 0; len = min (length msg) 260 in
      bind_res (copy_slice buf 0 len (take len msg)) (\<lambda>buf.
      bind_res (format_hex_status status) (\<lambda>s.
      let total_len = len + 19 in
      bind_res (slice s 0 19) (\<lambda>s.
      bind_res (copy_slice buf len total_len s) (\<lambda>buf. Ok (buf[total_len := 0]))))))"

fun scan_len :: "bytes \<Rightarrow> nat \<Rightarrow> nat \<Rightarrow> nat" where
  "scan_len s 0 slen = slen"
| "scan_len s (Suc fuel) slen = (if slen < 20 \<and> s ! slen \<noteq> 0 then scan_len s fuel (slen + 1) else slen)"

definition kdbg_u64 :: "bytes \<Rightarrow> u64 \<Rightarrow> ('e, bytes) res" where
  "kdbg_u64 msg val =
     (let buf = replicate 300 0; len = min (length msg) 260 in
      bind_res (copy_slice buf 0 len (take len msg)) (\<lambda>buf.
      let s = format_u64 val; slen = scan_len s 20 1; total_len = len + slen in
      bind_res (slice s 0 slen) (\<lambda>s.
      bind_res (copy_slice buf len total_len s) (\<lambda>buf. Ok (buf[total_len := 0])))))"

section \<open>Printing a status panics\<close>

text \<open>The prefix has ten bytes and is copied into a slice of eleven.\<close>

lemma format_hex_status_panics: "format_hex_status val = Panic"
  by (simp add: format_hex_status_def copy_slice_def ascii_def)

lemma kdbg_status_panics: "kdbg_status msg status = Panic"
  by (simp add: kdbg_status_def copy_slice_def format_hex_status_panics Let_def)

lemma kdbg_Ok: "kdbg msg = Ok ((blit (replicate 256 0) 0 (take (min (length msg) 254) msg)) [min (length msg) 254 := 0])"
  by (simp add: kdbg_def copy_slice_def Let_def)

section \<open>Printing a number\<close>

lemma length_digits_loop: "length (digits_loop v) \<le> n" if "v < 10 ^ n"
  using that
proof (induction n arbitrary: v)
  case 0
  then show ?case
    by (simp add: digits_loop.simps)
next
  case (Suc n)
  then have "v div 10 < 10 ^ n"
    by (simp add: less_mult_imp_div_less)
  then show ?case
    using Suc.IH [of "v div 10"] by (subst digits_loop.simps) simp
qed

lemma write_reversed:
  assumes "1 + n \<le> length buf" "n \<le> length ds"
  shows "fold (\<lambda>i buf. buf[1 + i := ds ! (n - 1 - i)]) [0..<n] buf = blit buf 1 (rev (take n ds))"
proof -
  have "fold (\<lambda>i buf. buf[1 + i := ds ! (n - 1 - i)]) [0..<m] buf = blit buf 1 (take m (rev (take n ds)))" if "m \<le> n" for m
    using that
  proof (induction m)
    case 0
    then show ?case by (simp add: blit_def)
  next
    case (Suc m)
    have l: "length (rev (take n ds)) = n"
      using assms(2) by simp
    have "rev (take n ds) ! m = ds ! (n - 1 - m)"
      using Suc.prems assms(2) by (simp add: rev_nth)
    then show ?case
      using Suc assms l
      by (simp add: blit_def list_update_append take_Suc_conv_app_nth Cons_nth_drop_Suc [symmetric])
  qed
  from this [of n] show ?thesis
    using assms(2) by simp
qed

lemma format_u64_text:
  assumes "val \<noteq> 0"
  shows "format_u64 val = blit ((replicate 21 0)[0 := 32]) 1 (rev (digits_loop (unat val)))"
    "length (digits_loop (unat val)) \<le> 20"
proof -
  have "unat val < 10 ^ 20"
    using unat_lt64 [of val] by simp
  then show l: "length (digits_loop (unat val)) \<le> 20"
    by (rule length_digits_loop)
  show "format_u64 val = blit ((replicate 21 0)[0 := 32]) 1 (rev (digits_loop (unat val)))"
    using assms l write_reversed [of "length (digits_loop (unat val))" "(replicate 21 0)[0 := 32]" "digits_loop (unat val)"]
    by (simp add: format_u64_def Let_def)
qed

text \<open>Twenty digits do not fit the scan: the last one of the largest numbers is lost.\<close>

lemma digits_of_max:
  "digits_loop 18446744073709551615 = map (\<lambda>d. 48 + of_nat d) [5, 1, 6, 1, 5, 5, 9, 0, 7, 3, 7, 0, 4, 4, 7, 6, 4, 4, 8, 1]"
  by (simp add: digits_loop.simps)

lemma format_of_max: "format_u64 18446744073709551615 = ascii '' 18446744073709551615''"
proof -
  have r: "replicate 21 (0 :: u8) = [0, 0, 0, 0, 0, 0, 0, 0, 0, 0, 0, 0, 0, 0, 0, 0, 0, 0, 0, 0, 0]"
    by (simp add: numeral_eq_Suc)
  have "unat (18446744073709551615 :: u64) = 18446744073709551615"
    by simp
  then show ?thesis
    using format_u64_text(1) [of 18446744073709551615]
    by (simp add: r digits_of_max ascii_def blit_def)
qed

lemma kdbg_u64_truncates: "scan_len (format_u64 18446744073709551615) 20 1 = 20"
  unfolding format_of_max by code_simp

end
