(* ===== verification/MountWire.thy ===== *)
theory MountWire
  imports DriverBase DiskView OpenVol
begin

text \<open>
  The mount request on its way from the command-line tool to the driver:
  the packed \<open>MountStruct\<close> as the tool (\<open>kernel_ioctl.rs\<close>) and the driver
  (\<open>types.rs\<close>) declare it, how the
  tool fills it from an opened volume, how \<open>mount_device\<close> puts it into a thread
  block and how \<open>volume_thread_proc\<close> takes it apart. Structures are their bytes.
\<close>

section \<open>Layouts\<close>

text \<open>
  A packed structure is the list of its fields with their Rust types, in source
  order and without gaps. The tool and the driver declare the mount request
  each for itself.
\<close>

datatype c_type = T_u8 | T_u16 | T_u32 | T_i32 | T_u64 | T_i64 | T_array c_type nat

fun size_of :: "c_type \<Rightarrow> nat" where
  "size_of T_u8 = 1"
| "size_of T_u16 = 2"
| "size_of T_u32 = 4"
| "size_of T_i32 = 4"
| "size_of T_u64 = 8"
| "size_of T_i64 = 8"
| "size_of (T_array t n) = n * size_of t"

fun offset_in :: "(string \<times> c_type) list \<Rightarrow> string \<Rightarrow> nat" where
  "offset_in [] name = 0"
| "offset_in ((fld, t) # rest) name = (if fld = name then 0 else size_of t + offset_in rest name)"

definition packed_size :: "(string \<times> c_type) list \<Rightarrow> nat" where
  "packed_size members = sum_list (map (\<lambda>(_, t). size_of t) members)"

definition TC_MAX_PATH :: nat where "TC_MAX_PATH = 260"
definition MAX_PASSWORD :: nat where "MAX_PASSWORD = 64"
definition MASTER_KEY_MAX_SIZE :: nat where "MASTER_KEY_MAX_SIZE = 192"
definition MAX_DRIVE :: nat where "MAX_DRIVE = 26"

text \<open>The driver's declaration (\<open>types.rs\<close>).\<close>

definition mount_fields :: "(string \<times> c_type) list" where
  "mount_fields =
     [(''return_code'', T_i32), (''filesystem_dirty'', T_u8), (''volume_password'', T_array T_u16 MAX_PASSWORD),
      (''mount_read_only'', T_u8), (''mount_removable'', T_u8), (''partition_in_inactive_sys_enc_scope'', T_u8),
      (''mount_disable_write_cache'', T_u8), (''protected_volume_password'', T_array T_u16 MAX_PASSWORD),
      (''use_hidden_volume_protection'', T_u8), (''preserve_timestamps'', T_u8), (''part_slot_number'', T_u32),
      (''volume_creation_time'', T_i64), (''volume_serial_number'', T_u32), (''dummy'', T_array T_u8 4),
      (''wsz_volume'', T_array T_u16 TC_MAX_PATH), (''n_dos_drive_no'', T_i32), (''bytes_per_sector'', T_u32),
      (''disk_length'', T_i64), (''ea'', T_u32), (''master_key'', T_array T_u8 MASTER_KEY_MAX_SIZE),
      (''data_offset'', T_u64), (''raw_device'', T_u8), (''volume_pim'', T_i32), (''wsz_label'', T_array T_u16 33),
      (''max_xfer_len'', T_u32), (''max_phys_pages'', T_u32), (''align_mask'', T_u32)]"

definition mount_offset :: "string \<Rightarrow> nat" where
  "mount_offset = offset_in mount_fields"

definition MOUNT_STRUCT_SIZE :: nat where
  "MOUNT_STRUCT_SIZE = packed_size mount_fields"

text \<open>The tool's declaration (\<open>kernel_ioctl.rs\<close>).\<close>

definition CLI_MAX_PATH :: nat where "CLI_MAX_PATH = 260"
definition CLI_MAX_PASSWORD :: nat where "CLI_MAX_PASSWORD = 64"
definition MASTER_KEY_MAX :: nat where "MASTER_KEY_MAX = 192"

definition cli_mount_fields :: "(string \<times> c_type) list" where
  "cli_mount_fields =
     [(''return_code'', T_i32), (''filesystem_dirty'', T_u8),
      (''volume_password'', T_array T_u16 CLI_MAX_PASSWORD),
      (''mount_read_only'', T_u8), (''mount_removable'', T_u8),
      (''partition_in_inactive_sys_enc_scope'', T_u8), (''mount_disable_write_cache'', T_u8),
      (''protected_volume_password'', T_array T_u16 CLI_MAX_PASSWORD),
      (''use_hidden_volume_protection'', T_u8), (''preserve_timestamps'', T_u8),
      (''part_slot_number'', T_u32), (''volume_creation_time'', T_i64), (''volume_serial_number'', T_u32),
      (''dummy'', T_array T_u8 4), (''wsz_volume'', T_array T_u16 CLI_MAX_PATH),
      (''n_dos_drive_no'', T_i32), (''bytes_per_sector'', T_u32), (''disk_length'', T_i64),
      (''ea'', T_u32), (''master_key'', T_array T_u8 MASTER_KEY_MAX),
      (''data_offset'', T_u64), (''raw_device'', T_u8), (''volume_pim'', T_i32),
      (''wsz_label'', T_array T_u16 33), (''max_xfer_len'', T_u32), (''max_phys_pages'', T_u32), (''align_mask'', T_u32)]"

definition cli_mount_offset :: "string \<Rightarrow> nat" where
  "cli_mount_offset = offset_in cli_mount_fields"

definition CLI_MOUNT_STRUCT_SIZE :: nat where
  "CLI_MOUNT_STRUCT_SIZE = packed_size cli_mount_fields"

lemmas mount_layout_defs = mount_fields_def cli_mount_fields_def packed_size_def TC_MAX_PATH_def MAX_PASSWORD_def
  MASTER_KEY_MAX_SIZE_def CLI_MAX_PATH_def CLI_MAX_PASSWORD_def MASTER_KEY_MAX_def

lemma mount_size [simp]: "MOUNT_STRUCT_SIZE = 1110" "CLI_MOUNT_STRUCT_SIZE = 1110"
  by (simp_all add: MOUNT_STRUCT_SIZE_def CLI_MOUNT_STRUCT_SIZE_def mount_layout_defs)

lemma mount_offsets [simp]:
  "mount_offset ''return_code'' = 0" "mount_offset ''mount_read_only'' = 133" "mount_offset ''mount_removable'' = 134"
  "mount_offset ''preserve_timestamps'' = 266" "mount_offset ''wsz_volume'' = 287" "mount_offset ''n_dos_drive_no'' = 807"
  "mount_offset ''bytes_per_sector'' = 811" "mount_offset ''disk_length'' = 815" "mount_offset ''ea'' = 823"
  "mount_offset ''master_key'' = 827" "mount_offset ''data_offset'' = 1019" "mount_offset ''volume_pim'' = 1028"
  by (simp_all add: mount_offset_def mount_layout_defs)

lemma cli_mount_offsets [simp]:
  "cli_mount_offset ''return_code'' = 0" "cli_mount_offset ''mount_read_only'' = 133"
  "cli_mount_offset ''mount_removable'' = 134" "cli_mount_offset ''wsz_volume'' = 287"
  "cli_mount_offset ''n_dos_drive_no'' = 807" "cli_mount_offset ''bytes_per_sector'' = 811"
  "cli_mount_offset ''disk_length'' = 815" "cli_mount_offset ''ea'' = 823" "cli_mount_offset ''master_key'' = 827"
  "cli_mount_offset ''data_offset'' = 1019" "cli_mount_offset ''volume_pim'' = 1028"
  by (simp_all add: cli_mount_offset_def mount_layout_defs)

section \<open>The request of the command-line tool\<close>

text \<open>A character is its code point; the conversion to \<open>u8\<close> drops the high bits and the subtraction wraps.\<close>

definition to_ascii_uppercase :: "nat \<Rightarrow> nat" where
  "to_ascii_uppercase c = (if 97 \<le> c \<and> c \<le> 122 then c - 32 else c)"

definition drive_number :: "nat \<Rightarrow> u8" where
  "drive_number drive_letter = of_nat (to_ascii_uppercase drive_letter) - of_char (CHR ''A'')"

definition wide_bytes :: "u16 list \<Rightarrow> bytes" where
  "wide_bytes ws = concat (map (le_bytes 2) ws)"

text \<open>\<open>wide_path\<close> is the path in UTF-16, as \<open>encode_wide\<close> of the standard library yields it.\<close>

definition mount_request :: "OpenResult \<Rightarrow> u8 \<Rightarrow> bool \<Rightarrow> u16 list \<Rightarrow> bytes" where
  "mount_request r drive_no read_only wide_path =
     (let m = replicate CLI_MOUNT_STRUCT_SIZE 0;
          m = blit m (cli_mount_offset ''n_dos_drive_no'') (le_bytes 4 (ucast drive_no :: u32));
          m = blit m (cli_mount_offset ''bytes_per_sector'') (le_bytes 4 (512 :: u32));
          m = blit m (cli_mount_offset ''disk_length'') (le_bytes 8 (or_data_length r));
          m = blit m (cli_mount_offset ''ea'') (le_bytes 4 (cipher_to_ea (or_data_cipher r)));
          m = blit m (cli_mount_offset ''data_offset'') (le_bytes 8 (or_data_offset r));
          m = blit m (cli_mount_offset ''mount_read_only'') [if read_only then 1 else 0];
          m = blit m (cli_mount_offset ''mount_removable'') [1];
          m = blit m (cli_mount_offset ''volume_pim'') (le_bytes 4 (word_of_int (or_pim r) :: u32));
          key_len = min (length (or_master_key r)) MASTER_KEY_MAX;
          m = blit m (cli_mount_offset ''master_key'') (take key_len (or_master_key r));
          wide_path = wide_path @ [0];
          plen = min (length wide_path) CLI_MAX_PATH
      in blit m (cli_mount_offset ''wsz_volume'') (wide_bytes (take plen wide_path)))"

datatype cli_error = OpenFailed VolumeError | InvalidDriveLetter nat | DriverNotLoaded | IoctlFailed
  | DriveLetterInUse | CannotOpenContainer | UnsupportedDriverCipher | DriverError int

text \<open>The driver is a parameter: whether its device opens, and its answer to the control code, \<open>None\<close> for a failed call.\<close>

definition send_mount_ioctl :: "(bytes \<Rightarrow> bytes option) \<Rightarrow> bytes \<Rightarrow> (cli_error, unit) res" where
  "send_mount_ioctl device_io_control m = (case device_io_control m of
      None \<Rightarrow> Err IoctlFailed
    | Some reply \<Rightarrow>
        let code = read_packed_i32 reply (cli_mount_offset ''return_code'') in
        if code = 0 then Ok ()
        else if code = -1 then Err DriveLetterInUse
        else if code = -2 then Err CannotOpenContainer
        else if code = -3 then Err UnsupportedDriverCipher
        else Err (DriverError code))"

definition mount_via_driver ::
  "crypto_lib \<Rightarrow> filesystem \<Rightarrow> bool \<Rightarrow> (bytes \<Rightarrow> bytes option) \<Rightarrow> string \<Rightarrow> u16 list \<Rightarrow> nat \<Rightarrow> bytes \<Rightarrow> string list \<Rightarrow>
    KdfAlgorithm option \<Rightarrow> int option \<Rightarrow> bool \<Rightarrow> (cli_error, unit) res" where
  "mount_via_driver L fs driver_loaded device_io_control volume_path wide_path drive_letter password keyfiles kdf pim read_only =
     bind_res (map_err OpenFailed (case open_volume_file L fs volume_path password keyfiles pim of
         Ok r \<Rightarrow> Ok r
       | Err _ \<Rightarrow> (case kdf of
             Some k \<Rightarrow> open_volume_file_with_kdf L fs volume_path password keyfiles k (case pim of Some p \<Rightarrow> p | None \<Rightarrow> 0)
           | None \<Rightarrow> Err (OpenError ''cannot open volume''))
       | Panic \<Rightarrow> Panic)) (\<lambda>open_result.
     let drive_no = drive_number drive_letter in
     if drive_no > 25 then Err (InvalidDriveLetter drive_letter)
     else if \<not> driver_loaded then Err DriverNotLoaded
     else send_mount_ioctl device_io_control (mount_request open_result drive_no read_only wide_path))"

section \<open>The request in the driver\<close>

text \<open>
  A thread block holds a device pointer (8 bytes), a status (4 bytes) and the
  packed request, which thus starts at offset 12. \<open>mount_device\<close> copies the
  request to the start of the zeroed block; the pointer and the status are
  written over it when the thread is started.
\<close>

definition THREAD_BLOCK_MOUNT :: nat where "THREAD_BLOCK_MOUNT = 12"
definition THREAD_BLOCK_SIZE :: nat where "THREAD_BLOCK_SIZE = 1128"

definition thread_block :: "u64 \<Rightarrow> bytes \<Rightarrow> bytes" where
  "thread_block device_object m =
     (let block = replicate THREAD_BLOCK_SIZE 0;
          block = blit block 0 (take MOUNT_STRUCT_SIZE m);
          block = blit block 0 (le_bytes 8 device_object)
      in blit block 8 (le_bytes 4 STATUS_PENDING))"

definition block_mount :: "bytes \<Rightarrow> bytes" where
  "block_mount block = sub block THREAD_BLOCK_MOUNT (THREAD_BLOCK_MOUNT + MOUNT_STRUCT_SIZE)"

definition read_wide :: "bytes \<Rightarrow> nat \<Rightarrow> u16" where
  "read_wide m addr = from_le (sub m addr (addr + 2))"

record ThreadParams =
  tp_drive_no :: int
  tp_nt_path :: "u16 list"
  tp_ea :: u32
  tp_key :: bytes
  tp_data_offset :: u64
  tp_disk_length :: u64
  tp_bytes_per_sector :: u32
  tp_read_only :: bool
  tp_removable :: bool
  tp_preserve_ts :: bool

text \<open>What \<open>volume_thread_proc\<close> extracts before it opens the volume.\<close>

definition thread_params :: "bytes \<Rightarrow> ThreadParams" where
  "thread_params m =
     (let wsz = map (\<lambda>i. read_wide m (mount_offset ''wsz_volume'' + 2 * i)) [0..<TC_MAX_PATH];
          path = takeWhile (\<lambda>c. c \<noteq> 0) wsz;
          prefix = [0x5C, 0x3F, 0x3F, 0x5C];
          nt_path = (blit (blit (replicate (TC_MAX_PATH + 8) 0) 0 prefix) 4 path) [4 + length path := 0];
          ea = read_packed_u32 m (mount_offset ''ea'');
          key_len = (case cipher_type_from_ea ea of
              Some ct \<Rightarrow> min (ct_key_size ct * 2) MASTER_KEY_MAX_SIZE
            | None \<Rightarrow> 0);
          key_buf = blit (replicate MASTER_KEY_MAX_SIZE 0) 0
            (sub m (mount_offset ''master_key'') (mount_offset ''master_key'' + key_len))
      in \<lparr> tp_drive_no = read_packed_i32 m (mount_offset ''n_dos_drive_no''), tp_nt_path = nt_path, tp_ea = ea,
           tp_key = take key_len key_buf,
           tp_data_offset = read_packed_u64 m (mount_offset ''data_offset''),
           tp_disk_length = read_packed_u64 m (mount_offset ''disk_length''),
           tp_bytes_per_sector = read_packed_u32 m (mount_offset ''bytes_per_sector''),
           tp_read_only = (read_packed_u8 m (mount_offset ''mount_read_only'') \<noteq> 0),
           tp_removable = (read_packed_u8 m (mount_offset ''mount_removable'') \<noteq> 0),
           tp_preserve_ts = (read_packed_u8 m (mount_offset ''preserve_timestamps'') \<noteq> 0) \<rparr>)"

section \<open>What the driver reads\<close>

lemma length_wide_bytes [simp]: "length (wide_bytes ws) = 2 * length ws"
  unfolding wide_bytes_def by (rule le16.array_width)

lemma wide_bytes_nth:
  "i < length ws \<Longrightarrow> sub (wide_bytes ws) (2 * i) (2 * i + 2) = le_bytes 2 (ws ! i)"
  unfolding wide_bytes_def by (rule le16.array_nth)

text \<open>The fields of a request, byte for byte; the last write is the path.\<close>

lemma request_bytes:
  fixes r :: OpenResult and d :: u8 and ro :: bool and wide :: "u16 list"
  assumes "length (or_master_key r) \<le> 192"
  defines "m \<equiv> mount_request r d ro wide"
  shows "length m = 1110" "sub m 807 811 = le_bytes 4 (ucast d :: u32)" "sub m 811 815 = le_bytes 4 (512 :: u32)"
    "sub m 815 823 = le_bytes 8 (or_data_length r)" "sub m 823 827 = le_bytes 4 (cipher_to_ea (or_data_cipher r))"
    "sub m 827 (827 + length (or_master_key r)) = or_master_key r" "sub m 1019 1027 = le_bytes 8 (or_data_offset r)"
    "sub m 133 134 = [if ro then 1 else 0]" "sub m 134 135 = [1]" "sub m 266 267 = [0]"
    "sub m 287 (287 + 2 * min (length wide + 1) 260) = wide_bytes (take 260 (wide @ [0]))"
proof -
  let ?w = "wide_bytes (take (min (length (wide @ [0])) 260) (wide @ [0]))"
  have w: "length ?w = 2 * min (length wide + 1) 260" "length ?w \<le> 520"
    "take (min (length (wide @ [0])) 260) (wide @ [0]) = take 260 (wide @ [0])"
    by (simp_all add: min_def)
  have k: "min (length (or_master_key r)) 192 = length (or_master_key r)"
    using assms(1) by simp
  note [simp] = mount_request_def Let_def MASTER_KEY_MAX_def CLI_MAX_PATH_def k
  show "length m = 1110"
    using assms(1) w(2) by (simp add: m_def)
  show "sub m 807 811 = le_bytes 4 (ucast d :: u32)" "sub m 811 815 = le_bytes 4 (512 :: u32)"
    "sub m 815 823 = le_bytes 8 (or_data_length r)" "sub m 823 827 = le_bytes 4 (cipher_to_ea (or_data_cipher r))"
    "sub m 1019 1027 = le_bytes 8 (or_data_offset r)" "sub m 133 134 = [if ro then 1 else 0]" "sub m 134 135 = [1]"
    "sub m 827 (827 + length (or_master_key r)) = or_master_key r"
    using assms(1) w(1,2) unfolding m_def by (simp_all add: buf_simps)
  show "sub m 266 267 = [0]"
    using assms(1) w(1,2) unfolding m_def by (simp add: buf_simps) (simp add: sub_def)
  show "sub m 287 (287 + 2 * min (length wide + 1) 260) = wide_bytes (take 260 (wide @ [0]))"
    using assms(1) w unfolding m_def by (simp add: sub_blit_same)
qed

lemma nth_of_sub: "sub m a (a + 1) = [x] \<Longrightarrow> m ! a = x"
  unfolding sub_def by (cases "a < length m") (simp_all add: take_Suc_conv_app_nth Cons_nth_drop_Suc [symmetric])

lemma request_u8s:
  assumes "length (or_master_key r) \<le> 192"
  shows "mount_request r d ro wide ! 133 = (if ro then 1 else 0)" "mount_request r d ro wide ! 134 = 1"
    "mount_request r d ro wide ! 266 = 0"
  using request_bytes(8-10) [OF assms, of d ro wide]
    nth_of_sub [of "mount_request r d ro wide" 133] nth_of_sub [of "mount_request r d ro wide" 134]
    nth_of_sub [of "mount_request r d ro wide" 266]
  by simp_all

text \<open>The path array, character by character, up to the terminating NUL.\<close>

lemma request_path:
  assumes "length (or_master_key r) \<le> 192" "length wide < 260" "0 \<notin> set wide"
  shows "takeWhile (\<lambda>c. c \<noteq> 0) (map (\<lambda>i. read_wide (mount_request r d ro wide) (287 + 2 * i)) [0..<260]) = wide"
proof -
  let ?m = "mount_request r d ro wide" and ?n = "length wide + 1"
  have w: "sub ?m 287 (287 + 2 * ?n) = wide_bytes (wide @ [0])"
    using request_bytes(11) [OF assms(1), of d ro wide] assms(2) by (simp add: min_def)
  have c: "read_wide ?m (287 + 2 * i) = (wide @ [0]) ! i" if "i < ?n" for i
  proof -
    have "sub ?m (287 + 2 * i) (287 + 2 * i + 2) = sub (sub ?m 287 (287 + 2 * ?n)) (2 * i) (2 * i + 2)"
      using that by (simp add: sub_sub add.assoc)
    also have "\<dots> = le_bytes 2 ((wide @ [0]) ! i)"
      unfolding w using that by (intro wide_bytes_nth) simp
    finally show ?thesis
      by (simp add: read_wide_def)
  qed
  have "[0..<260] = [0..<?n] @ [?n..<260]"
    using assms(2) upt_add_eq_append [of 0 ?n "260 - ?n"] by simp
  moreover have "map (\<lambda>i. read_wide ?m (287 + 2 * i)) [0..<?n] = wide @ [0]"
  proof (rule nth_equalityI)
    fix i assume "i < length (map (\<lambda>i. read_wide ?m (287 + 2 * i)) [0..<?n])"
    then have "i < ?n" by simp
    then show "map (\<lambda>i. read_wide ?m (287 + 2 * i)) [0..<?n] ! i = (wide @ [0]) ! i"
      using c [of i] by (simp del: upt_Suc)
  qed simp
  ultimately have "map (\<lambda>i. read_wide ?m (287 + 2 * i)) [0..<260] =
      wide @ 0 # map (\<lambda>i. read_wide ?m (287 + 2 * i)) [?n..<260]"
    by simp
  moreover have "takeWhile (\<lambda>c. c \<noteq> 0) (wide @ 0 # rest) = wide" for rest
  proof -
    have "takeWhile (\<lambda>c. c \<noteq> 0) (wide @ 0 # rest) = wide @ takeWhile (\<lambda>c. c \<noteq> 0) (0 # rest)"
      using assms(3) by (intro takeWhile_append2) auto
    then show ?thesis by simp
  qed
  ultimately show ?thesis
    by simp
qed

text \<open>
  What the thread extracts when the mount field of its block holds a request
  of the tool (\<open>mount_device\<close> never puts it there, see below); \<open>nt_path_of\<close> is the path
  as the driver passes it on: prefix, path and zeros.
\<close>

definition nt_path_of :: "u16 list \<Rightarrow> u16 list" where
  "nt_path_of wide = (blit (blit (replicate 268 0) 0 [0x5C, 0x3F, 0x3F, 0x5C]) 4 wide) [4 + length wide := 0]"

lemma thread_params_of_request:
  assumes "length (or_master_key r) = 2 * ct_key_size (or_data_cipher r)" "length wide < 260" "0 \<notin> set wide"
  shows "thread_params (mount_request r d ro wide) = \<lparr> tp_drive_no = uint d, tp_nt_path = nt_path_of wide,
     tp_ea = cipher_to_ea (or_data_cipher r), tp_key = or_master_key r, tp_data_offset = or_data_offset r,
     tp_disk_length = or_data_length r, tp_bytes_per_sector = 512, tp_read_only = ro, tp_removable = True,
     tp_preserve_ts = False \<rparr>"
proof -
  let ?m = "mount_request r d ro wide"
  have k: "length (or_master_key r) \<le> 192"
    using assms(1) by (cases "or_data_cipher r") simp_all
  note b = request_bytes [OF k, of d ro wide]
  have u: "read_packed_u32 ?m 823 = cipher_to_ea (or_data_cipher r)" "read_packed_u32 ?m 811 = 512"
    "read_packed_u32 ?m 807 = ucast d" "read_packed_u64 ?m 1019 = or_data_offset r"
    "read_packed_u64 ?m 815 = or_data_length r"
    using b(1-5,7) by (simp_all add: read_packed_bytes)
  have "sint (ucast d :: u32) = uint d"
  proof -
    have "uint d < 256" "- (2 ^ 31) \<le> uint d"
      using uint_bounded [of d] order_trans [of "- (2 ^ 31)" 0 "uint d"] by simp_all
    then show ?thesis
      by (simp add: sint_uint unsigned_ucast_eq signed_take_bit_int_eq_self take_bit_int_eq_self)
  qed
  then have d: "read_packed_i32 ?m 807 = uint d"
    by (simp add: read_packed_i32_def u(3))
  have ct: "cipher_type_from_ea (cipher_to_ea (or_data_cipher r)) = Some (or_data_cipher r)"
    by (simp add: cipher_type_from_ea_iff)
  have kl: "min (ct_key_size (or_data_cipher r) * 2) 192 = length (or_master_key r)"
    using assms(1) k by simp
  have key: "take (length (or_master_key r)) (blit (replicate 192 0) 0 (sub ?m 827 (827 + length (or_master_key r)))) = or_master_key r"
    unfolding b(6) by (simp add: blit_def)
  show ?thesis
    unfolding thread_params_def Let_def mount_offsets u d ct option.case MASTER_KEY_MAX_SIZE_def kl key TC_MAX_PATH_def
      request_path [OF k assms(2,3)] nt_path_of_def read_packed_u8_def request_u8s [OF k]
    by simp
qed

text \<open>
  In the thread block everything is twelve bytes off: the driver finds in a
  field what the request holds twelve bytes further on.
\<close>

lemma shifted_request:
  assumes "length m = 1110"
  shows "length (block_mount (thread_block dev m)) = 1110"
    "b \<le> 1098 \<Longrightarrow> sub (block_mount (thread_block dev m)) a b = sub m (a + 12) (b + 12)"
proof -
  let ?block = "thread_block dev m"
  have l: "length ?block = 1128"
    using assms by (simp add: thread_block_def THREAD_BLOCK_SIZE_def)
  then show "length (block_mount ?block) = 1110"
    by (simp add: block_mount_def THREAD_BLOCK_MOUNT_def)
  have "sub ?block 12 1110 = sub m 12 1110"
    using assms by (simp add: thread_block_def THREAD_BLOCK_SIZE_def buf_simps)
      (simp add: blit_def sub_def)
  then have e: "sub ?block (a + 12) (b + 12) = sub m (a + 12) (b + 12)" if "b \<le> 1098" for a b
  proof -
    have "sub (sub ?block 12 1110) a b = sub (sub m 12 1110) a b"
      using \<open>sub ?block 12 1110 = sub m 12 1110\<close> by simp
    moreover have "min 1110 (12 + b) = b + 12"
      using that by simp
    ultimately show ?thesis
      unfolding sub_sub by (simp add: add.commute)
  qed
  show "sub (block_mount ?block) a b = sub m (a + 12) (b + 12)" if "b \<le> 1098"
    using e [OF that, of a] that by (simp add: block_mount_def THREAD_BLOCK_MOUNT_def sub_sub add.commute)
qed

section \<open>The cipher of a request\<close>

definition init_cipher_from_ea_and_key :: "crypto_lib \<Rightarrow> u32 \<Rightarrow> bytes \<Rightarrow> KernelSectorCipher option" where
  "init_cipher_from_ea_and_key L ea key = (case cipher_type_from_ea ea of
      None \<Rightarrow> None
    | Some ct \<Rightarrow> ok_of (kernel_new L ct (take (min (ct_key_size ct * 2) (length key)) key)))"

lemma init_cipher_of_request:
  "length key = 2 * ct_key_size ct \<Longrightarrow>
     init_cipher_from_ea_and_key L (cipher_to_ea ct) key = ok_of (kernel_new L ct key)"
  by (simp add: init_cipher_from_ea_and_key_def cipher_type_from_ea_iff [THEN iffD2])

section \<open>Properties\<close>

definition toy_opened :: OpenResult where
  "toy_opened = open_result Aes (header_new \<lparr> vh_encrypted_area_start := 262144, vh_encrypted_area_length := 1024,
     vh_master_keydata := map of_nat [0..<256] \<rparr>) [] (make_kdf_candidate Pbkdf2Sha256 0) False"

lemma toy_opened_key: "or_master_key toy_opened = map of_nat [0..<64]" "or_data_cipher toy_opened = Aes"
  by (simp_all add: toy_opened_def open_result_def take_map take_upt)

text \<open>
  C27: The request does not reach the driver thread as it was sent. Because the
  request is copied to the start of the thread block and not to its field
  there, the thread reads every field twelve bytes too far: it takes bytes of
  the master key for the algorithm number and for the disk length, and the
  algorithm number for the sector size.
\<close>

theorem mount_request_shifted:
  fixes r :: OpenResult and dev :: u64 and d :: u8 and ro :: bool and wide :: "u16 list"
  assumes "length (or_master_key r) = 2 * ct_key_size (or_data_cipher r)"
  defines "p \<equiv> thread_params (block_mount (thread_block dev (mount_request r d ro wide)))"
  shows "tp_ea p = from_le (sub (or_master_key r) 8 12)
    \<and> tp_disk_length p = from_le (sub (or_master_key r) 0 8)
    \<and> tp_bytes_per_sector p = cipher_to_ea (or_data_cipher r)"
proof -
  let ?m = "mount_request r d ro wide"
  have k: "length (or_master_key r) \<le> 192" "64 \<le> length (or_master_key r)"
    using assms(1) by (cases "or_data_cipher r"; simp)+
  note b = request_bytes [OF k(1), of d ro wide]
  note s = shifted_request [OF b(1)]
  have key: "sub ?m (827 + x) (827 + y) = sub (or_master_key r) x y" if "y \<le> 64" for x y
  proof -
    have "sub (sub ?m 827 (827 + length (or_master_key r))) x y = sub (or_master_key r) x y"
      by (simp only: b(6))
    moreover have "min (827 + length (or_master_key r)) (827 + y) = 827 + y"
      using that k(2) by simp
    ultimately show ?thesis
      unfolding sub_sub by simp
  qed
  have "sub ?m 835 839 = sub (or_master_key r) 8 12" "sub ?m 827 835 = sub (or_master_key r) 0 8"
    using key [of 12 8] key [of 8 0] by simp_all
  then show ?thesis
    using s(1) b(5) by (simp add: p_def thread_params_def Let_def read_packed_bytes s(2))
qed

theorem mount_request_shifted_witness:
  "tp_ea (thread_params (block_mount (thread_block 1 (mount_request toy_opened 3 False [0x43])))) = 0x0B0A0908
   \<and> cipher_type_from_ea 0x0B0A0908 = None"
proof -
  have "length (or_master_key toy_opened) = 2 * ct_key_size (or_data_cipher toy_opened)"
    by (simp add: toy_opened_key)
  from mount_request_shifted [OF this, of 1 3 False "[0x43]"]
  have "tp_ea (thread_params (block_mount (thread_block 1 (mount_request toy_opened 3 False [0x43])))) =
      from_le (sub (map of_nat [0..<64]) 8 12)"
    by (simp add: toy_opened_key)
  moreover have "sub (map of_nat [0..<64]) 8 12 = [8, 9, 10, 11 :: u8]"
    by (simp add: sub_def upt_rec)
  then have "from_le (sub (map of_nat [0..<64]) 8 12) = (0x0B0A0908 :: u32)"
    by simp
  ultimately show ?thesis
    by (simp add: cipher_type_from_ea_def)
qed

end
