(* ===== verification/NtVol.thy ===== *)
theory NtVol
  imports IrpQueue DriverDebug MountWire
begin

text \<open>
  Opening and closing the container file of a volume (\<open>ntvol.rs\<close>). The code
  prints a status in the middle of \<open>open_host_file\<close>; the printing routine is an
  argument of the model, so that the theorems can speak about the code as it
  stands, with \<open>kdbg_status\<close>, and about what it does once printing works.
\<close>

section \<open>Kernel routines on files\<close>

text \<open>
  \<open>k_create\<close> is \<open>ZwCreateFile\<close> for an existing file, with path, access and share
  mode; \<open>k_query_times\<close>, \<open>k_set_times\<close> and \<open>k_query_size\<close> read and set the basic
  information and read the end of the file; \<open>k_set_times\<close> takes the length given
  for the structure, which has forty bytes. \<open>k_reference\<close>, \<open>k_dereference\<close> and
  \<open>k_close\<close> count references and close handles.
\<close>

record 'h nt_kernel = "'h kernel" +
  k_create :: "u16 list \<Rightarrow> u32 \<Rightarrow> u32 \<Rightarrow> 'h \<Rightarrow> (NTSTATUS \<times> nat) \<times> 'h"
  k_query_times :: "nat option \<Rightarrow> 'h \<Rightarrow> (NTSTATUS \<times> u64 list) \<times> 'h"
  k_set_times :: "nat option \<Rightarrow> u64 list \<Rightarrow> nat \<Rightarrow> 'h \<Rightarrow> NTSTATUS \<times> 'h"
  k_query_size :: "nat option \<Rightarrow> 'h \<Rightarrow> (NTSTATUS \<times> u64) \<times> 'h"
  k_reference :: "nat option \<Rightarrow> 'h \<Rightarrow> (NTSTATUS \<times> nat) \<times> 'h"
  k_dereference :: "nat \<Rightarrow> 'h \<Rightarrow> 'h"
  k_close :: "nat option \<Rightarrow> 'h \<Rightarrow> 'h"

definition GENERIC_READ :: u32 where "GENERIC_READ = 0x80000000"
definition GENERIC_WRITE :: u32 where "GENERIC_WRITE = 0x40000000"
definition SYNCHRONIZE :: u32 where "SYNCHRONIZE = 0x00100000"
definition FILE_WRITE_ATTRIBUTES :: u32 where "FILE_WRITE_ATTRIBUTES = 0x00000100"
definition FILE_SHARE_READ :: u32 where "FILE_SHARE_READ = 0x00000001"
definition FILE_SHARE_WRITE :: u32 where "FILE_SHARE_WRITE = 0x00000002"

definition TC_MIN_VOLUME_SIZE_LEGACY :: u64 where "TC_MIN_VOLUME_SIZE_LEGACY = 256 * 1024"
definition TC_MAX_VOLUME_SIZE :: u64 where "TC_MAX_VOLUME_SIZE = push_bit 63 1 - 1"
definition MAX_SECTOR_SIZE :: u32 where "MAX_SECTOR_SIZE = 128 * 1024"

type_synonym debug_print = "bytes \<Rightarrow> NTSTATUS \<Rightarrow> (unit, bytes) res"
type_synonym 'h open_result = "(unit, NTSTATUS) res \<times> Extension \<times> 'h"

section \<open>Opening the host file\<close>

definition path_of :: "u16 list \<Rightarrow> u16 list" where
  "path_of volume_path = takeWhile (\<lambda>c. c \<noteq> 0) (take TC_MAX_PATH volume_path)"

text \<open>The read-only attempts after a failed read-write one: with attribute access first, when timestamps are to be kept.\<close>

definition reopen_read_only :: "'h nt_kernel \<Rightarrow> u16 list \<Rightarrow> u32 \<Rightarrow> bool \<Rightarrow> 'h \<Rightarrow> (NTSTATUS \<times> nat) \<times> 'h" where
  "reopen_read_only K path share preserve_timestamp h =
     (let ro_desired = if preserve_timestamp then GENERIC_READ OR FILE_WRITE_ATTRIBUTES OR SYNCHRONIZE
                       else GENERIC_READ OR SYNCHRONIZE;
          ((ro_status, handle), h) = k_create K path ro_desired share h in
      if \<not> NT_SUCCESS ro_status \<and> ro_desired AND FILE_WRITE_ATTRIBUTES \<noteq> 0
      then k_create K path (GENERIC_READ OR SYNCHRONIZE) share h
      else ((ro_status, handle), h))"

text \<open>What follows a successful open: flags and handle, timestamps, size, reference.\<close>

definition query_timestamps :: "'h nt_kernel \<Rightarrow> Extension \<Rightarrow> 'h \<Rightarrow> Extension \<times> 'h" where
  "query_timestamps K ext h =
     (if b_preserve_timestamp ext then
        let ((qs, times), h) = k_query_times K (h_device_file ext) h in
        if NT_SUCCESS qs then
          let (_, h) = k_set_times K (h_device_file ext) [-1, -1, -1, -1] 40 h
          in (ext \<lparr> file_times := times, b_timestamp_valid := True \<rparr>, h)
        else (ext, h)
      else (ext, h))"

definition file_opened :: "'h nt_kernel \<Rightarrow> Extension \<Rightarrow> nat \<Rightarrow> bool \<Rightarrow> bool \<Rightarrow> 'h \<Rightarrow> 'h open_result" where
  "file_opened K ext handle is_ro preserve_timestamp h =
     (let ext = ext \<lparr> b_read_only := is_ro, b_preserve_timestamp := (if is_ro then False else preserve_timestamp),
                    h_device_file := Some handle \<rparr>;
          (ext, h) = query_timestamps K ext h;
          ((qs, end_of_file), h) = k_query_size K (h_device_file ext) h;
          ext = ext \<lparr> host_length := (if NT_SUCCESS qs then end_of_file else 0) \<rparr>;
          ((ref_status, obj), h) = k_reference K (h_device_file ext) h;
          ext = (if NT_SUCCESS ref_status then ext \<lparr> pfo_device_file := Some obj \<rparr> else ext)
      in (Ok STATUS_SUCCESS, ext, h))"

definition open_host_file ::
  "debug_print \<Rightarrow> 'h nt_kernel \<Rightarrow> Extension \<Rightarrow> u16 list \<Rightarrow> bool \<Rightarrow> bool \<Rightarrow> bool \<Rightarrow> 'h \<Rightarrow> 'h open_result" where
  "open_host_file dbg K ext volume_path read_only exclusive_access preserve_timestamp h =
     (let path = path_of volume_path in
      if path = [] then (Ok STATUS_INVALID_PARAMETER, ext, h)
      else
        let (got, h) = k_alloc K ((length path + 1) * 2) h in
        if \<not> got then (Ok STATUS_INSUFFICIENT_RESOURCES, ext, h)
        else
          let share = if exclusive_access then FILE_SHARE_READ else FILE_SHARE_READ OR FILE_SHARE_WRITE;
              ((status, handle), h) = k_create K path (GENERIC_READ OR GENERIC_WRITE OR SYNCHRONIZE) share h in
          case dbg (ascii ''[Oxhide] ZwCreateFile = '') status of
            Ok _ \<Rightarrow>
              if NT_SUCCESS status then file_opened K ext handle False preserve_timestamp h
              else
                let status = if status = 0xC000001B then STATUS_ACCESS_DENIED else status in
                if status = STATUS_ACCESS_DENIED \<or> status = STATUS_SHARING_VIOLATION \<or> read_only then
                  let ((ro_status, handle), h) = reopen_read_only K path share preserve_timestamp h in
                  if NT_SUCCESS ro_status then file_opened K ext handle True preserve_timestamp h
                  else (Ok ro_status, ext, h)
                else (Ok status, ext, h)
          | _ \<Rightarrow> (Panic, ext, h))"

section \<open>Opening and closing the volume\<close>

text \<open>The file is closed again when the request turns out to be wrong.\<close>

definition close_handle :: "'h nt_kernel \<Rightarrow> NTSTATUS \<Rightarrow> Extension \<Rightarrow> 'h \<Rightarrow> 'h open_result" where
  "close_handle K status ext h = (Ok status, ext \<lparr> h_device_file := None \<rparr>, k_close K (h_device_file ext) h)"

text \<open>The fields set once the file is open and the cipher is built.\<close>

definition set_volume :: "KernelSectorCipher \<Rightarrow> ThreadParams \<Rightarrow> bool \<Rightarrow> u64 \<times> u32 \<times> u32 \<Rightarrow> Extension \<Rightarrow> Extension" where
  "set_volume c t mount_manager = (\<lambda>(cyl, tpc, spt) ext.
     let path = path_of (tp_nt_path t); copy_len = min (length path) (TC_MAX_PATH - 1); bps = tp_bytes_per_sector t
     in ext \<lparr> crypto_info := Some c, vol_data_area_offset := tp_data_offset t, first_data_unit_no := 0,
          bytes_per_sector := bps, disk_length := tp_disk_length t,
          number_of_cylinders := cyl, tracks_per_cylinder := tpc, sectors_per_track := spt,
          wsz_volume := (blit (wsz_volume ext) 0 (take copy_len path)) [copy_len := 0],
          host_bytes_per_sector := bps, host_bytes_per_physical_sector := bps,
          host_maximum_transfer_length := 65536, host_maximum_physical_pages := 17,
          host_alignment_mask := 0, host_device_number := 0xFFFFFFFF,
          host_incurs_seek_penalty := True, host_trim_enabled := False,
          b_removable := tp_removable t, b_mount_manager := mount_manager \<rparr>)"

definition tc_open_volume ::
  "crypto_lib \<Rightarrow> debug_print \<Rightarrow> 'h nt_kernel \<Rightarrow> Extension \<Rightarrow> ThreadParams \<Rightarrow> bool \<Rightarrow> bool \<Rightarrow> 'h \<Rightarrow> 'h open_result" where
  "tc_open_volume L dbg K ext t mount_manager exclusive_access h =
     (if tp_bytes_per_sector t = 0 \<or> tp_bytes_per_sector t > MAX_SECTOR_SIZE then (Ok STATUS_INVALID_PARAMETER, ext, h)
      else case open_host_file dbg K ext (tp_nt_path t) (tp_read_only t) exclusive_access (tp_preserve_ts t) h of
        (Ok open_status, ext, h) \<Rightarrow>
          if \<not> NT_SUCCESS open_status then (Ok open_status, ext, h)
          else if tp_disk_length t < TC_MIN_VOLUME_SIZE_LEGACY \<or> tp_disk_length t > TC_MAX_VOLUME_SIZE
          then close_handle K STATUS_INVALID_PARAMETER ext h
          else (case init_cipher_from_ea_and_key L (tp_ea t) (tp_key t) of
            None \<Rightarrow> close_handle K STATUS_INVALID_PARAMETER ext h
          | Some c \<Rightarrow>
            (case compute_virtual_geometry (tp_disk_length t) (tp_bytes_per_sector t) of
              Ok geometry \<Rightarrow> (Ok STATUS_SUCCESS, set_volume c t mount_manager geometry ext, h)
            | _ \<Rightarrow> (Panic, ext, h)))
      | r \<Rightarrow> r)"

definition restore_timestamp :: "'h nt_kernel \<Rightarrow> Extension \<Rightarrow> 'h \<Rightarrow> 'h" where
  "restore_timestamp K ext h =
     (if \<not> b_preserve_timestamp ext \<or> \<not> b_timestamp_valid ext \<or> h_device_file ext = None then h
      else snd (k_set_times K (h_device_file ext) (file_times ext) 38 h))"

definition tc_close_volume :: "'h nt_kernel \<Rightarrow> Extension \<Rightarrow> 'h \<Rightarrow> Extension \<times> 'h" where
  "tc_close_volume K ext h =
     (let h = restore_timestamp K ext h;
          h = (if h_device_file ext \<noteq> None \<and> \<not> b_read_only ext then snd (k_flush K (h_device_file ext) h) else h);
          h = (if h_device_file ext \<noteq> None then k_close K (h_device_file ext) h else h);
          ext = ext \<lparr> h_device_file := None \<rparr>;
          h = (case pfo_device_file ext of Some obj \<Rightarrow> k_dereference K obj h | None \<Rightarrow> h);
          ext = ext \<lparr> pfo_device_file := None \<rparr>
      in (ext \<lparr> crypto_info := None \<rparr>, h))"

section \<open>What opening achieves\<close>

lemma file_opened_result:
  assumes "file_opened K ext handle is_ro preserve h = (r, ext', h')"
  shows "r = Ok STATUS_SUCCESS" "b_read_only ext' = is_ro" "h_device_file ext' = Some handle"
    "is_volume_device ext' = is_volume_device ext" "unique_volume_id ext' = unique_volume_id ext"
    "b_preserve_timestamp ext' \<longrightarrow> \<not> is_ro \<and> preserve"
  using assms by (auto simp: file_opened_def query_timestamps_def Let_def split: prod.splits if_splits)

text \<open>A successful open went through one of the two ways.\<close>

lemma open_host_file_success:
  assumes "open_host_file dbg K ext path ro excl pres h = (Ok status, ext', h')" "NT_SUCCESS status"
  shows "\<exists>st handle is_ro h1. file_opened K ext handle is_ro pres h1 = (Ok status, ext', h')
    \<and> (\<exists>out. dbg (ascii ''[Oxhide] ZwCreateFile = '') st = Ok out) \<and> (NT_SUCCESS st \<longleftrightarrow> \<not> is_ro)
    \<and> st = fst (fst (k_create K (path_of path) (GENERIC_READ OR GENERIC_WRITE OR SYNCHRONIZE)
        (if excl then FILE_SHARE_READ else FILE_SHARE_READ OR FILE_SHARE_WRITE)
        (snd (k_alloc K ((length (path_of path) + 1) * 2) h))))"
  using assms
  by (auto simp: open_host_file_def Let_def split: prod.splits res.splits if_splits)

lemma open_host_file_kdbg:
  "open_host_file kdbg_status K ext path ro excl pres h = (Ok status, ext', h') \<Longrightarrow> \<not> NT_SUCCESS status"
  using open_host_file_success [of kdbg_status K ext path ro excl pres h status ext' h']
  by (auto simp: kdbg_status_panics)

text \<open>What a successfully opened volume looks like.\<close>

definition opened_ok :: "crypto_lib \<Rightarrow> ThreadParams \<Rightarrow> Extension \<Rightarrow> bool" where
  "opened_ok L t ext \<longleftrightarrow> 0 < tp_bytes_per_sector t \<and> tp_bytes_per_sector t \<le> MAX_SECTOR_SIZE
     \<and> TC_MIN_VOLUME_SIZE_LEGACY \<le> disk_length ext \<and> disk_length ext \<le> TC_MAX_VOLUME_SIZE
     \<and> disk_length ext = tp_disk_length t \<and> vol_data_area_offset ext = tp_data_offset t \<and> first_data_unit_no ext = 0
     \<and> bytes_per_sector ext = tp_bytes_per_sector t \<and> h_device_file ext \<noteq> None
     \<and> crypto_info ext = init_cipher_from_ea_and_key L (tp_ea t) (tp_key t) \<and> crypto_info ext \<noteq> None"

lemma set_volume_fields [simp]:
  "crypto_info (set_volume c t mm g ext) = Some c" "vol_data_area_offset (set_volume c t mm g ext) = tp_data_offset t"
  "first_data_unit_no (set_volume c t mm g ext) = 0" "disk_length (set_volume c t mm g ext) = tp_disk_length t"
  "bytes_per_sector (set_volume c t mm g ext) = tp_bytes_per_sector t"
  "h_device_file (set_volume c t mm g ext) = h_device_file ext" "b_read_only (set_volume c t mm g ext) = b_read_only ext"
  "is_volume_device (set_volume c t mm g ext) = is_volume_device ext"
  "unique_volume_id (set_volume c t mm g ext) = unique_volume_id ext"
  by (simp_all add: set_volume_def Let_def split: prod.split)

lemma tc_open_volume_steps:
  assumes "tc_open_volume L dbg K ext t mm excl h = (Ok status, ext', h')" "NT_SUCCESS status"
  shows "\<exists>st1 ext1 c g. open_host_file dbg K ext (tp_nt_path t) (tp_read_only t) excl (tp_preserve_ts t) h = (Ok st1, ext1, h')
    \<and> NT_SUCCESS st1 \<and> status = STATUS_SUCCESS \<and> ext' = set_volume c t mm g ext1
    \<and> init_cipher_from_ea_and_key L (tp_ea t) (tp_key t) = Some c
    \<and> 0 < tp_bytes_per_sector t \<and> tp_bytes_per_sector t \<le> MAX_SECTOR_SIZE
    \<and> TC_MIN_VOLUME_SIZE_LEGACY \<le> tp_disk_length t \<and> tp_disk_length t \<le> TC_MAX_VOLUME_SIZE"
  using assms
  by (auto simp: tc_open_volume_def close_handle_def not_less word_greater_zero_iff
      split: prod.splits res.splits if_splits option.splits)

lemma tc_open_volume_success:
  assumes "tc_open_volume L dbg K ext t mm excl h = (Ok status, ext', h')" "NT_SUCCESS status"
  shows "opened_ok L t ext'" "is_volume_device ext' = is_volume_device ext" "unique_volume_id ext' = unique_volume_id ext"
    "\<exists>ext1 st1. open_host_file dbg K ext (tp_nt_path t) (tp_read_only t) excl (tp_preserve_ts t) h = (Ok st1, ext1, h')
      \<and> NT_SUCCESS st1 \<and> b_read_only ext' = b_read_only ext1"
proof -
  obtain st1 ext1 c g where s: "open_host_file dbg K ext (tp_nt_path t) (tp_read_only t) excl (tp_preserve_ts t) h = (Ok st1, ext1, h')"
    "NT_SUCCESS st1" "status = STATUS_SUCCESS" "ext' = set_volume c t mm g ext1"
    "init_cipher_from_ea_and_key L (tp_ea t) (tp_key t) = Some c"
    "0 < tp_bytes_per_sector t" "tp_bytes_per_sector t \<le> MAX_SECTOR_SIZE"
    "TC_MIN_VOLUME_SIZE_LEGACY \<le> tp_disk_length t" "tp_disk_length t \<le> TC_MAX_VOLUME_SIZE"
    using tc_open_volume_steps [OF assms] by (elim exE conjE)
  obtain handle is_ro h0 where f: "file_opened K ext handle is_ro (tp_preserve_ts t) h0 = (Ok st1, ext1, h')"
    using open_host_file_success [OF s(1,2)] by auto
  note fo = file_opened_result [OF f]
  show "opened_ok L t ext'" "is_volume_device ext' = is_volume_device ext" "unique_volume_id ext' = unique_volume_id ext"
    using s fo by (simp_all add: opened_ok_def)
  show "\<exists>ext1 st1. open_host_file dbg K ext (tp_nt_path t) (tp_read_only t) excl (tp_preserve_ts t) h = (Ok st1, ext1, h')
      \<and> NT_SUCCESS st1 \<and> b_read_only ext' = b_read_only ext1"
    using s by auto
qed

lemma tc_open_volume_kdbg:
  assumes "tc_open_volume L kdbg_status K ext t mm excl h = (Ok status, ext', h')"
  shows "\<not> NT_SUCCESS status"
proof
  assume "NT_SUCCESS status"
  then obtain ext1 st1 where "open_host_file kdbg_status K ext (tp_nt_path t) (tp_read_only t) excl (tp_preserve_ts t) h =
      (Ok st1, ext1, h')" "NT_SUCCESS st1"
    using tc_open_volume_success(4) [OF assms] by blast
  then show False
    using open_host_file_kdbg by fast
qed

text \<open>After closing, nothing of the volume is left in the extension.\<close>

lemma tc_close_volume_clears:
  "h_device_file (fst (tc_close_volume K ext h)) = None" "pfo_device_file (fst (tc_close_volume K ext h)) = None"
  "crypto_info (fst (tc_close_volume K ext h)) = None"
  by (simp_all add: tc_close_volume_def Let_def)

section \<open>An instance\<close>

definition plain_nt_kernel :: "bytes nt_kernel" where
  "plain_nt_kernel = \<lparr> k_alloc = \<lambda>n h. (True, h),
     k_read = \<lambda>handle off n h. ((STATUS_SUCCESS, sub h (unat off) (unat off + n)), h),
     k_write = \<lambda>handle off buf h. (STATUS_SUCCESS, write_at h (unat off) buf),
     k_flush = \<lambda>handle h. (STATUS_SUCCESS, h),
     k_create = \<lambda>path access share h. ((STATUS_SUCCESS, 7), h),
     k_query_times = \<lambda>handle h. ((STATUS_SUCCESS, [1, 2, 3, 4]), h),
     k_set_times = \<lambda>handle times n h. (if n = 40 then STATUS_SUCCESS else STATUS_INVALID_PARAMETER, h),
     k_query_size = \<lambda>handle h. ((STATUS_SUCCESS, of_nat (length h)), h),
     k_reference = \<lambda>handle h. ((STATUS_SUCCESS, 9), h),
     k_dereference = \<lambda>obj h. h, k_close = \<lambda>handle h. h \<rparr>"

definition toy_params :: "bool \<Rightarrow> ThreadParams" where
  "toy_params ro = \<lparr> tp_drive_no = 3, tp_nt_path = [0x5C, 0x3F, 0x3F, 0x5C, 0x76, 0], tp_ea = 3, tp_key = replicate 64 1,
     tp_data_offset = 262144, tp_disk_length = 1048576, tp_bytes_per_sector = 512, tp_read_only = ro,
     tp_removable = True, tp_preserve_ts = False \<rparr>"

lemma toy_path: "path_of [0x5C, 0x3F, 0x3F, 0x5C, 0x76, 0] = [0x5C, 0x3F, 0x3F, 0x5C, 0x76]"
  by (simp add: path_of_def TC_MAX_PATH_def)

lemma toy_tc_open:
  "\<exists>ext'. tc_open_volume toy_lib (\<lambda>msg st. Ok []) plain_nt_kernel ext (toy_params ro) True True h = (Ok STATUS_SUCCESS, ext', h)"
proof -
  obtain c where c: "kernel_new toy_lib Twofish (replicate 64 1) = Ok c"
    using toy_kernel_cipher by blast
  have "cipher_type_from_ea 3 = Some Twofish"
    by (simp add: cipher_type_from_ea_def)
  then have "init_cipher_from_ea_and_key toy_lib 3 (replicate 64 1) = Some c"
    using c by (simp add: init_cipher_from_ea_and_key_def)
  then show ?thesis
    by (simp add: tc_open_volume_def open_host_file_def toy_params_def toy_path plain_nt_kernel_def file_opened_def
        query_timestamps_def compute_virtual_geometry_def MAX_SECTOR_SIZE_def TC_MIN_VOLUME_SIZE_LEGACY_def
        TC_MAX_VOLUME_SIZE_def Let_def)
qed

section \<open>Properties\<close>

text \<open>
  The flag that asks for a read-only mount has no effect on the volume:
  when the volume opens, it is read-only exactly when the container could not
  be opened for writing. A request for a read-only mount of a writable
  container yields a writable volume.
\<close>

theorem read_only_request_ignored:
  assumes "tc_open_volume L dbg K ext t mm excl h = (Ok status, ext', h')" "NT_SUCCESS status"
  shows "b_read_only ext' \<longleftrightarrow> \<not> NT_SUCCESS (fst (fst (k_create K (path_of (tp_nt_path t))
      (GENERIC_READ OR GENERIC_WRITE OR SYNCHRONIZE) (if excl then FILE_SHARE_READ else FILE_SHARE_READ OR FILE_SHARE_WRITE)
      (snd (k_alloc K ((length (path_of (tp_nt_path t)) + 1) * 2) h)))))"
proof -
  obtain ext1 st1 where o: "open_host_file dbg K ext (tp_nt_path t) (tp_read_only t) excl (tp_preserve_ts t) h = (Ok st1, ext1, h')"
    "NT_SUCCESS st1" "b_read_only ext' = b_read_only ext1"
    using tc_open_volume_success(4) [OF assms] by blast
  obtain handle is_ro h1 where f: "file_opened K ext handle is_ro (tp_preserve_ts t) h1 = (Ok st1, ext1, h')"
    "NT_SUCCESS (fst (fst (k_create K (path_of (tp_nt_path t))
      (GENERIC_READ OR GENERIC_WRITE OR SYNCHRONIZE) (if excl then FILE_SHARE_READ else FILE_SHARE_READ OR FILE_SHARE_WRITE)
      (snd (k_alloc K ((length (path_of (tp_nt_path t)) + 1) * 2) h))))) \<longleftrightarrow> \<not> is_ro"
    using open_host_file_success [OF o(1,2)] by blast
  then show ?thesis
    using o(3) file_opened_result(2) [OF f(1)] by simp
qed

theorem read_only_request_ignored_witness:
  "\<exists>c ext'. tc_open_volume toy_lib (\<lambda>msg st. Ok []) plain_nt_kernel (toy_extension c) (toy_params True) True True [] =
      (Ok STATUS_SUCCESS, ext', []) \<and> tp_read_only (toy_params True) \<and> \<not> b_read_only ext'"
proof -
  fix c
  obtain ext' where e: "tc_open_volume toy_lib (\<lambda>msg st. Ok []) plain_nt_kernel (toy_extension c) (toy_params True) True True [] =
      (Ok STATUS_SUCCESS, ext', [])"
    using toy_tc_open by blast
  moreover have "\<not> b_read_only ext'"
    using read_only_request_ignored [OF e] by (simp add: plain_nt_kernel_def)
  moreover have "tp_read_only (toy_params True)"
    by (simp add: toy_params_def)
  ultimately show ?thesis
    by blast
qed

end
