(* ===== verification/MountMgr.thy ===== *)
theory MountMgr
  imports NtVol
begin

text \<open>
  The driver's messages to the Windows mount manager (\<open>mount_mgr.rs\<close>): the
  input buffers of the three requests and how they are sent. The mount manager
  is a parameter: \<open>None\<close> when its device does not open, else the status of the
  request.
\<close>

text \<open>
  \<open>k_create_device\<close> is \<open>IoCreateDevice\<close> with name and characteristics, which yields
  the address of the device object; \<open>k_create_thread\<close> starts a system thread;
  \<open>k_reference_thread\<close> references its object, or yields a null pointer, and closes
  the thread handle.
\<close>

record 'h mount_kernel = "'h nt_kernel" +
  k_mountmgr :: "u32 \<Rightarrow> bytes \<Rightarrow> 'h \<Rightarrow> NTSTATUS option \<times> 'h"
  k_create_device :: "u16 list \<Rightarrow> u32 \<Rightarrow> 'h \<Rightarrow> (NTSTATUS \<times> u64) \<times> 'h"
  k_delete_device :: "u64 \<Rightarrow> 'h \<Rightarrow> 'h"
  k_create_thread :: "'h \<Rightarrow> NTSTATUS \<times> 'h"
  k_reference_thread :: "'h \<Rightarrow> nat option \<times> 'h"

definition IOCTL_MOUNTMGR_CREATE_POINT :: u32 where "IOCTL_MOUNTMGR_CREATE_POINT = 0x006D4000"
definition IOCTL_MOUNTMGR_DELETE_POINTS :: u32 where "IOCTL_MOUNTMGR_DELETE_POINTS = 0x006D4004"
definition IOCTL_MOUNTMGR_VOLUME_ARRIVAL_NOTIFICATION :: u32 where
  "IOCTL_MOUNTMGR_VOLUME_ARRIVAL_NOTIFICATION = 0x006D4034"

definition send_mountmgr_ioctl :: "debug_print \<Rightarrow> 'h mount_kernel \<Rightarrow> u32 \<Rightarrow> bytes \<Rightarrow> 'h \<Rightarrow> (unit, unit) res \<times> 'h" where
  "send_mountmgr_ioctl dbg K ioctl_code input h = (case k_mountmgr K ioctl_code input h of
      (None, h) \<Rightarrow> (Ok (), h)
    | (Some status, h) \<Rightarrow>
        if \<not> NT_SUCCESS status
        then (bind_res (dbg (ascii ''[Oxhide] mountmgr: ZwDeviceIoControlFile failed'') status) (\<lambda>_. Ok ()), h)
        else (Ok (), h))"

section \<open>Input buffers\<close>

text \<open>Each request is a header of 16-bit or 32-bit fields in a zeroed buffer, followed by names in UTF-16.\<close>

definition arrival_input :: "nat \<Rightarrow> bytes" where
  "arrival_input drive_no =
     (let buf = replicate 512 0; nt_name = volume_nt_name drive_no; nt_name_len = wcslen nt_name;
          buf = blit buf 0 (le_bytes 2 (of_nat (nt_name_len * 2) :: u16));
          buf = blit buf 2 (wide_bytes (take nt_name_len nt_name));
          in_size = 2 + nt_name_len * 2
      in take in_size buf)"

definition create_point_input :: "nat \<Rightarrow> bytes" where
  "create_point_input drive_no =
     (let buf = replicate 512 0;
          dos_name = volume_dos_name drive_no; dos_len = wcslen dos_name;
          nt_name = volume_nt_name drive_no; nt_len = wcslen nt_name;
          hdr_size = 8;
          buf = blit buf 0 (le_bytes 2 (of_nat hdr_size :: u16));
          buf = blit buf 2 (le_bytes 2 (of_nat (dos_len * 2) :: u16));
          buf = blit buf 4 (le_bytes 2 (of_nat (hdr_size + dos_len * 2) :: u16));
          buf = blit buf 6 (le_bytes 2 (of_nat (nt_len * 2) :: u16));
          buf = blit buf hdr_size (wide_bytes (take dos_len dos_name));
          buf = blit buf (hdr_size + dos_len * 2) (wide_bytes (take nt_len nt_name));
          total_len = hdr_size + dos_len * 2 + nt_len * 2
      in take total_len buf)"

definition delete_point_input :: "nat \<Rightarrow> bytes" where
  "delete_point_input drive_no =
     (let buf = replicate 256 0;
          dos_name = volume_dos_name drive_no; dos_len = wcslen dos_name;
          hdr_size = 24;
          buf = blit buf 0 (le_bytes 4 (of_nat hdr_size :: u32));
          buf = blit buf 4 (le_bytes 2 (of_nat (dos_len * 2) :: u16));
          buf = blit buf hdr_size (wide_bytes (take dos_len dos_name));
          total_len = hdr_size + dos_len * 2
      in take total_len buf)"

definition notify_volume_arrival :: "debug_print \<Rightarrow> 'h mount_kernel \<Rightarrow> nat \<Rightarrow> 'h \<Rightarrow> (unit, unit) res \<times> 'h" where
  "notify_volume_arrival dbg K drive_no h =
     (if drive_no \<ge> 26 then (Ok (), h)
      else send_mountmgr_ioctl dbg K IOCTL_MOUNTMGR_VOLUME_ARRIVAL_NOTIFICATION (arrival_input drive_no) h)"

definition create_mount_point :: "debug_print \<Rightarrow> 'h mount_kernel \<Rightarrow> nat \<Rightarrow> 'h \<Rightarrow> (unit, unit) res \<times> 'h" where
  "create_mount_point dbg K drive_no h =
     (if drive_no \<ge> 26 then (Ok (), h)
      else send_mountmgr_ioctl dbg K IOCTL_MOUNTMGR_CREATE_POINT (create_point_input drive_no) h)"

definition delete_mount_point :: "debug_print \<Rightarrow> 'h mount_kernel \<Rightarrow> nat \<Rightarrow> 'h \<Rightarrow> (unit, unit) res \<times> 'h" where
  "delete_mount_point dbg K drive_no h =
     (if drive_no \<ge> 26 then (Ok (), h)
      else send_mountmgr_ioctl dbg K IOCTL_MOUNTMGR_DELETE_POINTS (delete_point_input drive_no) h)"

section \<open>The buffers hold what their headers say\<close>

text \<open>The names the headers point at are the link and the device of the drive.\<close>

definition name_at :: "bytes \<Rightarrow> nat \<Rightarrow> nat \<Rightarrow> bytes" where
  "name_at input off_field len_field =
     (let off = unat (from_le (sub input off_field (off_field + 2)) :: u16);
          len = unat (from_le (sub input len_field (len_field + 2)) :: u16)
      in sub input off (off + len))"

lemma length_names [simp]: "length (volume_nt_name n) = 32" "length (volume_dos_name n) = 16"
  by (simp_all add: volume_nt_name_def volume_dos_name_def name_buf_def ascii_def)

lemma sub_take: "b \<le> n \<Longrightarrow> sub (take n xs) a b = sub xs a b"
  by (simp add: sub_def drop_take min_def)

lemma create_point_names:
  assumes "n < 26"
  shows "name_at (create_point_input n) 0 2 = wide_bytes (take 14 (volume_dos_name n))"
    "name_at (create_point_input n) 4 6 = wide_bytes (take 21 (volume_nt_name n))"
    "length (create_point_input n) = 78"
proof -
  let ?in = "create_point_input n"
  note [simp] = create_point_input_def Let_def wcslen_names [OF assms] sub_take
  have "sub ?in 0 2 = le_bytes 2 (8 :: u16)" "sub ?in 2 4 = le_bytes 2 (28 :: u16)" "sub ?in 4 6 = le_bytes 2 (36 :: u16)"
    "sub ?in 6 8 = le_bytes 2 (42 :: u16)" "sub ?in 8 36 = wide_bytes (take 14 (volume_dos_name n))"
    "sub ?in 36 78 = wide_bytes (take 21 (volume_nt_name n))" "length ?in = 78"
    by (simp_all add: buf_simps)
  then show "name_at ?in 0 2 = wide_bytes (take 14 (volume_dos_name n))"
    "name_at ?in 4 6 = wide_bytes (take 21 (volume_nt_name n))" "length ?in = 78"
    by (simp_all add: name_at_def numeral_2_eq_2 [symmetric] del: create_point_input_def)
qed

end
