(* ===== verification/VolThread.thy ===== *)
theory VolThread
  imports MountMgr
begin

text \<open>
  The life of a volume device (\<open>volume_thread.rs\<close>, the queue control of
  \<open>encrypted_io_queue.rs\<close>): its worker thread opens the container and starts the
  queue while the caller waits for the thread's event, and on request closes
  everything again while the caller waits for the thread's end. Because of the
  waits both are sequential; the work of the thread in between, on queued
  control requests, is in theory \<open>VolRequests\<close>.
\<close>

section \<open>The I/O queue of a device\<close>

text \<open>The fields the synchronous queue uses.\<close>

record EncryptedIoQueue =
  q_crypto_info :: "KernelSectorCipher option"
  q_host_file_handle :: "nat option"
  q_virtual_device_length :: u64
  q_suspended :: bool
  q_stop_pending :: bool

definition io_queue_start :: "Extension \<Rightarrow> EncryptedIoQueue \<Rightarrow> NTSTATUS \<times> EncryptedIoQueue" where
  "io_queue_start ext q =
     (STATUS_SUCCESS, q \<lparr> q_crypto_info := crypto_info ext, q_host_file_handle := h_device_file ext,
        q_virtual_device_length := disk_length ext, q_stop_pending := False \<rparr>)"

definition io_queue_stop :: "EncryptedIoQueue \<Rightarrow> NTSTATUS \<times> EncryptedIoQueue" where
  "io_queue_stop q = (STATUS_SUCCESS, q)"

definition is_running :: "EncryptedIoQueue \<Rightarrow> bool" where
  "is_running q \<longleftrightarrow> \<not> q_stop_pending q"

definition is_suspended :: "EncryptedIoQueue \<Rightarrow> bool" where
  "is_suspended q \<longleftrightarrow> q_suspended q"

section \<open>Device objects\<close>

definition FILE_DEVICE_SECURE_OPEN :: u32 where "FILE_DEVICE_SECURE_OPEN = 0x100"
definition DO_DIRECT_IO :: u32 where "DO_DIRECT_IO = 0x10"
definition DO_DEVICE_INITIALIZING :: u32 where "DO_DEVICE_INITIALIZING = 0x80"
definition FILE_READ_ONLY_DEVICE :: u32 where "FILE_READ_ONLY_DEVICE = 0x2000"
definition FILE_REMOVABLE_MEDIA :: u32 where "FILE_REMOVABLE_MEDIA = 0x0800"

text \<open>
  A device object with its extension. \<open>dev_pe_thread\<close> is the extension's
  pointer to the thread object, \<open>dev_requests\<close> its list of queued control
  requests and \<open>dev_semaphore\<close> the count of the semaphore that announces them.
\<close>

record device =
  dev_address :: u64
  dev_flags :: u32
  dev_characteristics :: u32
  dev_stack_size :: u8
  dev_ext :: Extension
  dev_queue :: EncryptedIoQueue
  dev_pe_thread :: "nat option"
  dev_requests :: "IRP list"
  dev_semaphore :: nat

text \<open>\<open>IoCreateDevice\<close> zeroes the extension, sets the initialising flag and a stack size of one.\<close>

definition zero_extension :: Extension where
  "zero_extension = \<lparr> is_volume_device = False, unique_volume_id = 0, n_dos_drive_no = 0,
     b_shutting_down = False, b_thread_should_quit = False, h_device_file = None, pfo_device_file = None,
     crypto_info = None, vol_data_area_offset = 0, first_data_unit_no = 0, host_length = 0, disk_length = 0,
     number_of_cylinders = 0, tracks_per_cylinder = 0, sectors_per_track = 0, bytes_per_sector = 0,
     host_bytes_per_sector = 0, host_bytes_per_physical_sector = 0, host_maximum_transfer_length = 0,
     host_maximum_physical_pages = 0, host_alignment_mask = 0, host_device_number = 0,
     host_incurs_seek_penalty = False, host_trim_enabled = False, b_read_only = False, b_removable = False,
     b_mount_manager = False, wsz_volume = replicate 260 0, wsz_label = replicate 33 0, volume_id = replicate 32 0,
     file_times = replicate 4 0, b_timestamp_valid = False, b_preserve_timestamp = False \<rparr>"

definition zero_device :: "u64 \<Rightarrow> u32 \<Rightarrow> device" where
  "zero_device address characteristics = \<lparr> dev_address = address, dev_flags = DO_DEVICE_INITIALIZING,
     dev_characteristics = characteristics, dev_stack_size = 1, dev_ext = zero_extension,
     dev_queue = \<lparr> q_crypto_info = None, q_host_file_handle = None, q_virtual_device_length = 0,
       q_suspended = False, q_stop_pending = False \<rparr>,
     dev_pe_thread = None, dev_requests = [], dev_semaphore = 0 \<rparr>"

section \<open>Closing\<close>

definition tc_close_and_cleanup :: "'h mount_kernel \<Rightarrow> device \<Rightarrow> 'h \<Rightarrow> device \<times> 'h" where
  "tc_close_and_cleanup K dev h =
     (let (_, q) = io_queue_stop (dev_queue dev);
          (ext, h) = tc_close_volume (nt_kernel.truncate K) (dev_ext dev) h
      in (dev \<lparr> dev_queue := q, dev_ext := ext \<rparr>, h))"

text \<open>
  Stopping waits for the thread when its object is known; the thread takes the
  semaphore, leaves its loop, cleans up and ends.
\<close>

definition tc_stop_volume_thread :: "'h mount_kernel \<Rightarrow> device \<Rightarrow> 'h \<Rightarrow> device \<times> 'h" where
  "tc_stop_volume_thread K dev h =
     (let dev = dev \<lparr> dev_ext := (dev_ext dev) \<lparr> b_thread_should_quit := True \<rparr>,
                    dev_semaphore := dev_semaphore dev + 1 \<rparr> in
      case dev_pe_thread dev of
        None \<Rightarrow> (dev, h)
      | Some thread \<Rightarrow>
        let (dev, h) = tc_close_and_cleanup K (dev \<lparr> dev_semaphore := dev_semaphore dev - 1 \<rparr>) h;
            h = k_dereference K thread h
        in (dev \<lparr> dev_pe_thread := None \<rparr>, h))"

section \<open>Starting\<close>

type_synonym 'h start_result = "(unit, NTSTATUS) res \<times> device \<times> 'h"

text \<open>
  The thread procedure up to the event that wakes the starter. It passes the
  device to \<open>tc_open_volume\<close> for one purpose, the read-only characteristic.
\<close>

definition volume_thread_start ::
  "crypto_lib \<Rightarrow> debug_print \<Rightarrow> 'h mount_kernel \<Rightarrow> device \<Rightarrow> bytes \<Rightarrow> 'h \<Rightarrow> 'h start_result" where
  "volume_thread_start L dbg K dev block h =
     (let t = thread_params (block_mount block) in
      case tc_open_volume L dbg (nt_kernel.truncate K) (dev_ext dev) t True True h of
        (Ok nt_status, ext, h) \<Rightarrow>
          let dev = dev \<lparr> dev_ext := ext, dev_characteristics := (if NT_SUCCESS nt_status \<and> b_read_only ext
                then dev_characteristics dev OR FILE_READ_ONLY_DEVICE else dev_characteristics dev) \<rparr> in
          (case dbg (ascii ''[Oxhide] tc_open_volume returned'') nt_status of
            Ok _ \<Rightarrow>
              if \<not> NT_SUCCESS nt_status then (Ok nt_status, dev, h)
              else
                let (q_status, q) = io_queue_start ext (dev_queue dev); dev = dev \<lparr> dev_queue := q \<rparr> in
                if \<not> NT_SUCCESS q_status then
                  let (dev, h) = tc_close_and_cleanup K dev h in (Ok q_status, dev, h)
                else (Ok nt_status,
                      dev \<lparr> dev_ext := ext \<lparr> n_dos_drive_no := tp_drive_no t, b_mount_manager := True \<rparr> \<rparr>, h)
          | _ \<Rightarrow> (Panic, dev, h))
      | (_, ext, h) \<Rightarrow> (Panic, dev \<lparr> dev_ext := ext \<rparr>, h))"

definition tc_start_volume_thread ::
  "crypto_lib \<Rightarrow> debug_print \<Rightarrow> 'h mount_kernel \<Rightarrow> device \<Rightarrow> bytes \<Rightarrow> 'h \<Rightarrow> 'h start_result" where
  "tc_start_volume_thread L dbg K dev m h =
     (let block = thread_block (dev_address dev) m; (status, h) = k_create_thread K h in
      if \<not> NT_SUCCESS status then
        (case dbg (ascii ''[Oxhide] PsCreateSystemThread failed'') status of
          Ok _ \<Rightarrow> (Ok status, dev, h) | _ \<Rightarrow> (Panic, dev, h))
      else (case volume_thread_start L dbg K dev block h of
          (Ok nt_create_status, dev, h) \<Rightarrow>
            let (thread_obj, h) = k_reference_thread K h
            in (Ok nt_create_status, dev \<lparr> dev_pe_thread := thread_obj \<rparr>, h)
        | r \<Rightarrow> r))"

section \<open>Container handles\<close>

text \<open>
  \<open>opened h\<close> is the set of container handles that are open in kernel state
  \<open>h\<close>. Creating a file yields a handle that was not open, closing removes one,
  and no other routine changes the set; the object of a thread just created
  can be referenced.
\<close>

definition handles_ok :: "'h mount_kernel \<Rightarrow> ('h \<Rightarrow> nat set) \<Rightarrow> bool" where
  "handles_ok K opened \<longleftrightarrow>
     (\<forall>path acc share h. if NT_SUCCESS (fst (fst (k_create K path acc share h)))
        then snd (fst (k_create K path acc share h)) \<notin> opened h \<and>
          opened (snd (k_create K path acc share h)) = insert (snd (fst (k_create K path acc share h))) (opened h)
        else opened (snd (k_create K path acc share h)) = opened h)
   \<and> (\<forall>x h. opened (k_close K (Some x) h) = opened h - {x})
   \<and> (\<forall>n h. opened (snd (k_alloc K n h)) = opened h)
   \<and> (\<forall>x h. opened (snd (k_flush K x h)) = opened h)
   \<and> (\<forall>x h. opened (snd (k_query_times K x h)) = opened h)
   \<and> (\<forall>x ts n h. opened (snd (k_set_times K x ts n h)) = opened h)
   \<and> (\<forall>x h. opened (snd (k_query_size K x h)) = opened h)
   \<and> (\<forall>x h. opened (snd (k_reference K x h)) = opened h)
   \<and> (\<forall>obj h. opened (k_dereference K obj h) = opened h)
   \<and> (\<forall>c i h. opened (snd (k_mountmgr K c i h)) = opened h)
   \<and> (\<forall>name c h. opened (snd (k_create_device K name c h)) = opened h)
   \<and> (\<forall>a h. opened (k_delete_device K a h) = opened h)
   \<and> (\<forall>h. opened (snd (k_create_thread K h)) = opened h)
   \<and> (\<forall>h. opened (snd (k_reference_thread K h)) = opened h \<and> fst (k_reference_thread K h) \<noteq> None)"

lemma handles_frame:
  assumes "handles_ok K opened"
  shows "opened (snd (k_alloc K n h)) = opened h" "opened (snd (k_flush K x h)) = opened h"
    "opened (snd (k_query_times K x h)) = opened h" "opened (snd (k_set_times K x ts n h)) = opened h"
    "opened (snd (k_query_size K x h)) = opened h" "opened (snd (k_reference K x h)) = opened h"
    "opened (snd (k_mountmgr K c i h)) = opened h" "opened (snd (k_create_device K name c h)) = opened h"
    "opened (snd (k_create_thread K h)) = opened h" "opened (snd (k_reference_thread K h)) = opened h"
    "opened (k_close K (Some a) h) = opened h - {a}" "opened (k_dereference K obj h) = opened h"
    "opened (k_delete_device K addr h) = opened h"
  using assms by (simp_all add: handles_ok_def)

lemma handles_create:
  assumes "handles_ok K opened" "k_create K path acc share h = ((st, a), h')"
  shows "opened h' = (if NT_SUCCESS st then insert a (opened h) else opened h)" "NT_SUCCESS st \<Longrightarrow> a \<notin> opened h"
proof -
  have "if NT_SUCCESS st then a \<notin> opened h \<and> opened h' = insert a (opened h) else opened h' = opened h"
    using assms unfolding handles_ok_def by (metis fst_conv snd_conv)
  then show "opened h' = (if NT_SUCCESS st then insert a (opened h) else opened h)" "NT_SUCCESS st \<Longrightarrow> a \<notin> opened h"
    by (simp_all split: if_splits)
qed

lemma handles_thread: "handles_ok K opened \<Longrightarrow> fst (k_reference_thread K h) \<noteq> None"
  unfolding handles_ok_def by blast

lemma truncate_simps [simp]:
  "k_alloc (nt_kernel.truncate K) = k_alloc K" "k_flush (nt_kernel.truncate K) = k_flush K"
  "k_create (nt_kernel.truncate K) = k_create K" "k_query_times (nt_kernel.truncate K) = k_query_times K"
  "k_set_times (nt_kernel.truncate K) = k_set_times K" "k_query_size (nt_kernel.truncate K) = k_query_size K"
  "k_reference (nt_kernel.truncate K) = k_reference K" "k_dereference (nt_kernel.truncate K) = k_dereference K"
  "k_close (nt_kernel.truncate K) = k_close K"
  by (simp_all add: nt_kernel.defs)

lemma query_timestamps_handles:
  assumes "handles_ok K opened"
  shows "opened (snd (query_timestamps (nt_kernel.truncate K) ext h)) = opened h"
  by (simp add: query_timestamps_def Let_def case_prod_beta handles_frame [OF assms])

lemma file_opened_handles:
  assumes "handles_ok K opened"
  shows "opened (snd (snd (file_opened (nt_kernel.truncate K) ext x is_ro pres h))) = opened h"
  by (simp add: file_opened_def Let_def case_prod_beta handles_frame [OF assms] query_timestamps_handles [OF assms])

text \<open>\<open>took opened h x h'\<close>: between \<open>h\<close> and \<open>h'\<close> exactly the handle \<open>x\<close>, if any, was opened.\<close>

definition took :: "('h \<Rightarrow> nat set) \<Rightarrow> 'h \<Rightarrow> nat option \<Rightarrow> 'h \<Rightarrow> bool" where
  "took opened h x h' \<longleftrightarrow> (case x of None \<Rightarrow> opened h' = opened h
     | Some a \<Rightarrow> a \<notin> opened h \<and> opened h' = insert a (opened h))"

lemma took_create:
  assumes "handles_ok K opened" "k_create K path acc share h = ((st, a), h')"
  shows "took opened h (if NT_SUCCESS st then Some a else None) h'"
  using handles_create [OF assms] by (simp add: took_def)

lemma reopen_handles:
  assumes "handles_ok K opened" "reopen_read_only (nt_kernel.truncate K) path share pres h = ((st, a), h')"
  shows "took opened h (if NT_SUCCESS st then Some a else None) h'"
proof -
  define d where "d = (if pres then GENERIC_READ OR FILE_WRITE_ATTRIBUTES OR SYNCHRONIZE else GENERIC_READ OR SYNCHRONIZE)"
  obtain st1 a1 h1 where c: "k_create K path d share h = ((st1, a1), h1)"
    by (metis prod.collapse)
  show ?thesis
  proof (cases "\<not> NT_SUCCESS st1 \<and> d AND FILE_WRITE_ATTRIBUTES \<noteq> 0")
    case True
    then have "k_create K path (GENERIC_READ OR SYNCHRONIZE) share h1 = ((st, a), h')"
      using assms(2) c by (simp add: reopen_read_only_def Let_def flip: d_def)
    moreover have "opened h1 = opened h"
      using handles_create(1) [OF assms(1) c] True by simp
    ultimately show ?thesis
      using took_create [OF assms(1)] by (metis took_def)
  next
    case False
    then have "((st1, a1), h1) = ((st, a), h')"
      using assms(2) c by (auto simp: reopen_read_only_def Let_def simp flip: d_def)
    then show ?thesis
      using took_create [OF assms(1) c] by auto
  qed
qed

lemma open_host_file_handles:
  assumes "handles_ok K opened" "open_host_file dbg (nt_kernel.truncate K) ext path ro excl pres h = (Ok st, ext', h')"
  shows "took opened h (if NT_SUCCESS st then h_device_file ext' else None) h'"
proof -
  let ?K = "nt_kernel.truncate K" and ?path = "path_of path"
  define share where "share = (if excl then FILE_SHARE_READ else FILE_SHARE_READ OR FILE_SHARE_WRITE)"
  let ?d = "GENERIC_READ OR GENERIC_WRITE OR SYNCHRONIZE"
  obtain got h1 where al: "k_alloc K ((length ?path + 1) * 2) h = (got, h1)"
    by (metis prod.collapse)
  have o1: "opened h1 = opened h"
    using handles_frame(1) [OF assms(1), of "(length ?path + 1) * 2" h] al by simp
  obtain st1 a1 h2 where c: "k_create K ?path ?d share h1 = ((st1, a1), h2)"
    by (metis prod.collapse)
  obtain st2 a2 h3 where r: "reopen_read_only ?K ?path share pres h2 = ((st2, a2), h3)"
    by (metis prod.collapse)
  have fo: "r = Ok STATUS_SUCCESS \<and> h_device_file e = Some a \<and> opened hh' = opened hh"
    if "file_opened ?K ext a is_ro pres hh = (r, e, hh')" for a is_ro hh r e hh'
    using file_opened_result(1,3) [OF that] file_opened_handles [OF assms(1), of ext a is_ro pres hh] that by simp
  note t = took_create [OF assms(1) c] reopen_handles [OF assms(1) r]
  define st1' where "st1' = (if st1 = 0xC000001B then STATUS_ACCESS_DENIED else st1)"
  have e: "open_host_file dbg ?K ext path ro excl pres h = (case dbg (ascii ''[Oxhide] ZwCreateFile = '') st1 of
      Ok _ \<Rightarrow> if NT_SUCCESS st1 then file_opened ?K ext a1 False pres h2
        else if st1' = STATUS_ACCESS_DENIED \<or> st1' = STATUS_SHARING_VIOLATION \<or> ro
          then if NT_SUCCESS st2 then file_opened ?K ext a2 True pres h3 else (Ok st2, ext, h3)
          else (Ok st1', ext, h2)
    | _ \<Rightarrow> (Panic, ext, h2))" if "?path \<noteq> []" got
    using that al c r by (simp add: open_host_file_def Let_def st1'_def flip: share_def cong: res.case_cong)
  show ?thesis
  proof (cases "?path = [] \<or> \<not> got")
    case True
    then have "open_host_file dbg ?K ext path ro excl pres h =
        (if ?path = [] then (Ok STATUS_INVALID_PARAMETER, ext, h) else (Ok STATUS_INSUFFICIENT_RESOURCES, ext, h1))"
      using al by (auto simp: open_host_file_def)
    then show ?thesis
      using assms(2) o1 by (auto simp: took_def split: if_splits)
  next
    case False
    show ?thesis
    proof (cases "NT_SUCCESS st1")
      case True
      then have "file_opened ?K ext a1 False pres h2 = (Ok st, ext', h')"
        using assms(2) False e by (simp split: res.splits)
      then show ?thesis
        using fo [of a1 False h2 "Ok st" ext' h'] t(1) True o1 by (auto simp: took_def)
    next
      case f1: False
      have h2: "opened h2 = opened h"
        using t(1) f1 o1 by (simp add: took_def)
      show ?thesis
      proof (cases "NT_SUCCESS st2 \<and> file_opened ?K ext a2 True pres h3 = (Ok st, ext', h')")
        case True
        then show ?thesis
          using fo [of a2 True h3 "Ok st" ext' h'] t(2) h2 by (simp add: took_def)
      next
        case f2: False
        define C where "C \<longleftrightarrow> st1' = STATUS_ACCESS_DENIED \<or> st1' = STATUS_SHARING_VIOLATION \<or> ro"
        have "(if C then if NT_SUCCESS st2 then file_opened ?K ext a2 True pres h3 else (Ok st2, ext, h3)
            else (Ok st1', ext, h2)) = (Ok st, ext', h')"
          using assms(2) e False f1 by (simp flip: C_def split: res.splits)
        moreover have "\<not> NT_SUCCESS st1'"
          using f1 by (simp add: st1'_def)
        ultimately show ?thesis
          using f2 t(2) h2 by (simp add: took_def split: if_splits)
      qed
    qed
  qed
qed

lemma tc_open_volume_handles:
  assumes "handles_ok K opened" "tc_open_volume L dbg (nt_kernel.truncate K) ext t mm excl h = (Ok st, ext', h')"
  shows "took opened h (if NT_SUCCESS st then h_device_file ext' else None) h'"
proof (cases "tp_bytes_per_sector t = 0 \<or> tp_bytes_per_sector t > MAX_SECTOR_SIZE")
  case True
  then show ?thesis
    using assms(2) by (auto simp: tc_open_volume_def took_def)
next
  case False
  let ?o = "open_host_file dbg (nt_kernel.truncate K) ext (tp_nt_path t) (tp_read_only t) excl (tp_preserve_ts t) h"
  obtain st1 ext1 h1 where o: "?o = (Ok st1, ext1, h1)"
    using assms(2) False by (auto simp: tc_open_volume_def split: res.splits prod.splits)
  note t = open_host_file_handles [OF assms(1) o]
  show ?thesis
  proof (cases "NT_SUCCESS st1")
    case False
    then show ?thesis
      using t o assms(2) \<open>\<not> (tp_bytes_per_sector t = 0 \<or> tp_bytes_per_sector t > MAX_SECTOR_SIZE)\<close>
      by (auto simp: tc_open_volume_def)
  next
    case True
    then obtain a where a: "h_device_file ext1 = Some a" "a \<notin> opened h" "opened h1 = insert a (opened h)"
    proof -
      obtain x is_ro h0 where "file_opened (nt_kernel.truncate K) ext x is_ro (tp_preserve_ts t) h0 = (Ok st1, ext1, h1)"
        using open_host_file_success [OF o True] by blast
      then have "h_device_file ext1 = Some x"
        by (rule file_opened_result(3))
      then show ?thesis
        using that t True by (simp add: took_def)
    qed
    have "took opened h None (k_close K (Some a) h1)"
      using a handles_frame(11) [OF assms(1)] by (auto simp: took_def)
    then show ?thesis
      using a o True assms(2) False
      by (auto simp: tc_open_volume_def close_handle_def took_def split: if_splits option.splits res.splits)
  qed
qed

lemma tc_close_volume_handles:
  assumes "handles_ok K opened"
  shows "opened (snd (tc_close_volume (nt_kernel.truncate K) ext h)) = opened h - set_option (h_device_file ext)"
  by (auto simp: tc_close_volume_def restore_timestamp_def Let_def handles_frame [OF assms] split: option.split)

lemma tc_close_and_cleanup_handles:
  assumes "handles_ok K opened"
  shows "opened (snd (tc_close_and_cleanup K dev h)) = opened h - set_option (h_device_file (dev_ext dev))"
  using tc_close_volume_handles [OF assms] by (simp add: tc_close_and_cleanup_def case_prod_beta Let_def)

section \<open>Starting and stopping a volume\<close>

lemma volume_thread_start_steps:
  assumes "volume_thread_start L dbg K dev block h = (Ok st, dev', h')"
  defines "t \<equiv> thread_params (block_mount block)"
  shows "\<exists>ext out. tc_open_volume L dbg (nt_kernel.truncate K) (dev_ext dev) t True True h = (Ok st, ext, h')
    \<and> dbg (ascii ''[Oxhide] tc_open_volume returned'') st = Ok out
    \<and> dev_ext dev' = (if NT_SUCCESS st then ext \<lparr> n_dos_drive_no := tp_drive_no t, b_mount_manager := True \<rparr> else ext)
    \<and> dev_address dev' = dev_address dev"
  using assms(1)
  by (auto simp: volume_thread_start_def io_queue_start_def Let_def t_def split: prod.splits res.splits if_splits)

text \<open>A volume device as mounting leaves it: opened, with its thread, and not shutting down.\<close>

definition mounted_ok :: "crypto_lib \<Rightarrow> device \<Rightarrow> bool" where
  "mounted_ok L dev \<longleftrightarrow> (\<exists>t. opened_ok L t (dev_ext dev)) \<and> is_volume_device (dev_ext dev)
     \<and> b_mount_manager (dev_ext dev) \<and> dev_pe_thread dev \<noteq> None"

lemma opened_ok_update [simp]:
  "opened_ok L t (ext \<lparr> n_dos_drive_no := d \<rparr>) = opened_ok L t ext"
  "opened_ok L t (ext \<lparr> b_mount_manager := b \<rparr>) = opened_ok L t ext"
  by (simp_all add: opened_ok_def)

lemma tc_start_volume_thread_result:
  assumes "handles_ok K opened" "tc_start_volume_thread L dbg K dev m h = (Ok st, dev', h')"
  shows "took opened h (if NT_SUCCESS st then h_device_file (dev_ext dev') else None) h'"
    "NT_SUCCESS st \<Longrightarrow> is_volume_device (dev_ext dev) \<Longrightarrow> mounted_ok L dev'
       \<and> unique_volume_id (dev_ext dev') = unique_volume_id (dev_ext dev)
       \<and> h_device_file (dev_ext dev') \<noteq> None"
proof -
  note fr = handles_frame [OF assms(1)]
  let ?block = "thread_block (dev_address dev) m"
  obtain st1 h1 where c: "k_create_thread K h = (st1, h1)"
    by fastforce
  have o1: "opened h1 = opened h"
    using fr(9) [of h] c by simp
  have "took opened h (if NT_SUCCESS st then h_device_file (dev_ext dev') else None) h'
    \<and> (NT_SUCCESS st \<longrightarrow> is_volume_device (dev_ext dev) \<longrightarrow> mounted_ok L dev'
       \<and> unique_volume_id (dev_ext dev') = unique_volume_id (dev_ext dev) \<and> h_device_file (dev_ext dev') \<noteq> None)"
  proof (cases "NT_SUCCESS st1")
    case False
    then have "st = st1 \<and> h' = h1"
      using assms(2) c by (auto simp: tc_start_volume_thread_def split: res.splits)
    then show ?thesis
      using False o1 by (simp add: took_def)
  next
    case True
    then obtain dev1 h2 where s: "volume_thread_start L dbg K dev ?block h1 = (Ok st, dev1, h2)"
      "dev' = dev1 \<lparr> dev_pe_thread := fst (k_reference_thread K h2) \<rparr>" "h' = snd (k_reference_thread K h2)"
      using assms(2) c by (auto simp: tc_start_volume_thread_def split: res.splits prod.splits)
    define t where "t = thread_params (block_mount ?block)"
    obtain ext where o: "tc_open_volume L dbg (nt_kernel.truncate K) (dev_ext dev) t True True h1 = (Ok st, ext, h2)"
      "dev_ext dev1 = (if NT_SUCCESS st then ext \<lparr> n_dos_drive_no := tp_drive_no t, b_mount_manager := True \<rparr> else ext)"
      using volume_thread_start_steps [OF s(1)] unfolding t_def by blast
    have "took opened h1 (if NT_SUCCESS st then h_device_file ext else None) h2"
      by (rule tc_open_volume_handles [OF assms(1) o(1)])
    moreover have "opened h' = opened h2"
      using s(3) fr(10) by simp
    ultimately have tk: "took opened h (if NT_SUCCESS st then h_device_file (dev_ext dev') else None) h'"
      using o1 o(2) s(2) by (cases "NT_SUCCESS st") (simp_all add: took_def split: option.splits)
    moreover have "mounted_ok L dev' \<and> unique_volume_id (dev_ext dev') = unique_volume_id (dev_ext dev)
        \<and> h_device_file (dev_ext dev') \<noteq> None" if st: "NT_SUCCESS st" "is_volume_device (dev_ext dev)"
    proof -
      have "opened_ok L t (dev_ext dev')" "is_volume_device (dev_ext dev')" "b_mount_manager (dev_ext dev')"
        "unique_volume_id (dev_ext dev') = unique_volume_id (dev_ext dev)" "dev_pe_thread dev' \<noteq> None"
        using tc_open_volume_success(1-3) [OF o(1) st(1)] st o(2) s(2) handles_thread [OF assms(1), of h2] by simp_all
      moreover from this(1) have "h_device_file (dev_ext dev') \<noteq> None"
        by (simp add: opened_ok_def)
      ultimately show ?thesis
        unfolding mounted_ok_def by blast
    qed
    ultimately show ?thesis
      by blast
  qed
  then show "took opened h (if NT_SUCCESS st then h_device_file (dev_ext dev') else None) h'"
    "NT_SUCCESS st \<Longrightarrow> is_volume_device (dev_ext dev) \<Longrightarrow> mounted_ok L dev'
       \<and> unique_volume_id (dev_ext dev') = unique_volume_id (dev_ext dev)
       \<and> h_device_file (dev_ext dev') \<noteq> None"
    by blast+
qed

lemma tc_stop_volume_thread_handles:
  assumes "handles_ok K opened" "dev_pe_thread dev \<noteq> None"
  shows "opened (snd (tc_stop_volume_thread K dev h)) = opened h - set_option (h_device_file (dev_ext dev))"
  using assms(2) handles_frame(12) [OF assms(1)] tc_close_and_cleanup_handles [OF assms(1)]
  by (auto simp: tc_stop_volume_thread_def Let_def case_prod_beta)

text \<open>With the status printer as it is, no thread gets as far as reporting a result.\<close>

lemma volume_thread_start_kdbg: "fst (volume_thread_start L kdbg_status K dev block h) = Panic"
  by (auto simp: volume_thread_start_def kdbg_status_panics Let_def split: prod.splits res.splits)

lemma tc_start_volume_thread_kdbg: "fst (tc_start_volume_thread L kdbg_status K dev m h) = Panic"
proof -
  obtain st h1 where c: "k_create_thread K h = (st, h1)"
    by fastforce
  obtain dev' h' where "volume_thread_start L kdbg_status K dev (thread_block (dev_address dev) m) h1 = (Panic, dev', h')"
    using volume_thread_start_kdbg by (metis prod.collapse)
  then show ?thesis
    using c by (simp add: tc_start_volume_thread_def kdbg_status_panics)
qed

end
