(* ===== verification/MountTable.thy ===== *)
theory MountTable
  imports VolThread
begin

text \<open>
  Mounting, unmounting and listing volumes (\<open>mount.rs\<close>), over the driver's
  global state (\<open>driver.rs\<close>): the table of 26 volume devices, the root device
  and the counter of volume numbers. The theorems say in which order volumes
  are unmounted, what the list of mounted volumes contains, and which container
  handles are open.
\<close>

section \<open>The driver's state\<close>

record root_device =
  rd_address :: u64
  rd_reference_count :: int
  rd_driver_object :: "nat option"
  rd_flags :: u32

record 'h driver =
  drv_volumes :: "device option list"
  drv_root :: "root_device option"
  drv_last_volume_id :: int
  drv_kernel :: 'h

definition next_volume_id :: "'h driver \<Rightarrow> int \<times> 'h driver" where
  "next_volume_id s =
     (let n = sint (word_of_int (drv_last_volume_id s + 1) :: u32) in (n, s \<lparr> drv_last_volume_id := n \<rparr>))"

definition ERR_SUCCESS :: int where "ERR_SUCCESS = 0"
definition ERR_OS_ERROR :: int where "ERR_OS_ERROR = 1"
definition ERR_OUTOFMEMORY :: int where "ERR_OUTOFMEMORY = 2"
definition ERR_DRIVE_NOT_FOUND :: int where "ERR_DRIVE_NOT_FOUND = 5"
definition ERR_VOL_ALREADY_MOUNTED :: int where "ERR_VOL_ALREADY_MOUNTED = 21"
definition ERR_VOL_MOUNT_FAILED :: int where "ERR_VOL_MOUNT_FAILED = 24"

lemmas err_defs = ERR_SUCCESS_def ERR_OS_ERROR_def ERR_OUTOFMEMORY_def ERR_DRIVE_NOT_FOUND_def
  ERR_VOL_ALREADY_MOUNTED_def ERR_VOL_MOUNT_FAILED_def

section \<open>Mounting\<close>

definition announce :: "debug_print \<Rightarrow> 'h mount_kernel \<Rightarrow> device \<Rightarrow> nat \<Rightarrow> 'h \<Rightarrow> (unit, unit) res \<times> 'h" where
  "announce dbg K dev drive_no h =
     (if b_mount_manager (dev_ext dev) then bindS (notify_volume_arrival dbg K drive_no) (\<lambda>_. create_mount_point dbg K drive_no) h
      else (Ok (), h))"

text \<open>The device as it is set up before its thread starts.\<close>

definition new_device :: "u64 \<Rightarrow> u32 \<Rightarrow> int \<Rightarrow> device" where
  "new_device address characteristics vid =
     (let dev = zero_device address characteristics
      in dev \<lparr> dev_flags := dev_flags dev OR DO_DIRECT_IO, dev_stack_size := dev_stack_size dev + 6,
           dev_ext := (dev_ext dev) \<lparr> is_volume_device := True, unique_volume_id := vid \<rparr> \<rparr>)"

definition mount_device ::
  "crypto_lib \<Rightarrow> debug_print \<Rightarrow> 'h mount_kernel \<Rightarrow> bytes \<Rightarrow> nat \<Rightarrow> 'h driver \<Rightarrow> (unit, int \<times> bool) res \<times> 'h driver" where
  "mount_device L dbg K m drive_no s =
     (let read_only = read_packed_u8 m (mount_offset ''mount_read_only'') \<noteq> 0;
          removable = read_packed_u8 m (mount_offset ''mount_removable'') \<noteq> 0 in
      case drv_root s of
        None \<Rightarrow> (Ok (ERR_OS_ERROR, False), s)
      | Some root \<Rightarrow>
        if rd_driver_object root = None then (Ok (ERR_OS_ERROR, False), s)
        else
          let dev_chars = FILE_DEVICE_SECURE_OPEN OR (if read_only then FILE_READ_ONLY_DEVICE else 0)
                OR (if removable then FILE_REMOVABLE_MEDIA else 0);
              ((status, address), h) = k_create_device K (volume_nt_name drive_no) dev_chars (drv_kernel s);
              s = s \<lparr> drv_kernel := h \<rparr> in
          if \<not> NT_SUCCESS status then
            (bind_res (dbg (ascii ''[Oxhide] IoCreateDevice FAILED'') status) (\<lambda>_. Ok (ERR_OS_ERROR, False)), s)
          else
            let (vid, s) = next_volume_id s; dev = new_device address dev_chars vid;
                (got, h) = k_alloc K THREAD_BLOCK_SIZE (drv_kernel s) in
            if \<not> got then (Ok (ERR_OUTOFMEMORY, False), s \<lparr> drv_kernel := k_delete_device K address h \<rparr>)
            else (case tc_start_volume_thread L dbg K dev m h of
                (Ok nt_status, dev, h) \<Rightarrow>
                  if \<not> NT_SUCCESS nt_status then
                    (bind_res (dbg (ascii ''[Oxhide] mount thread FAILED'') nt_status) (\<lambda>_. Ok (ERR_VOL_MOUNT_FAILED, False)),
                     s \<lparr> drv_kernel := k_delete_device K address h \<rparr>)
                  else (case announce dbg K dev drive_no h of
                      (Ok _, h) \<Rightarrow>
                        let dev = dev \<lparr> dev_flags := dev_flags dev AND NOT DO_DEVICE_INITIALIZING \<rparr>
                        in (Ok (ERR_SUCCESS, False),
                            s \<lparr> drv_kernel := h, drv_volumes := (drv_volumes s) [drive_no := Some dev] \<rparr>)
                    | (_, h) \<Rightarrow> (Panic, s \<lparr> drv_kernel := h \<rparr>))
              | (_, dev, h) \<Rightarrow> (Panic, s \<lparr> drv_kernel := h \<rparr>)))"

text \<open>The drive letter is never found in use here; the code leaves conflicts to the mount manager.\<close>

definition is_drive_letter_available :: "nat \<Rightarrow> bool" where
  "is_drive_letter_available drive_no = True"

type_synonym 'h handled = "(unit, NTSTATUS) res \<times> IRP \<times> 'h driver"

text \<open>A return code goes to the first field of the structure in the system buffer.\<close>

definition write_return_code :: "IRP \<Rightarrow> int \<Rightarrow> IRP" where
  "write_return_code irp code =
     irp \<lparr> irp_system_buffer := map_option (\<lambda>b. write_packed_i32 b (mount_offset ''return_code'') code) (irp_system_buffer irp) \<rparr>"

definition done_irp :: "IRP \<Rightarrow> NTSTATUS \<Rightarrow> nat \<Rightarrow> 'h driver \<Rightarrow> 'h handled" where
  "done_irp irp status information s = (Ok status, complete_irp irp status information, s)"

definition handle_mount_volume ::
  "crypto_lib \<Rightarrow> debug_print \<Rightarrow> 'h mount_kernel \<Rightarrow> IRP \<Rightarrow> 'h driver \<Rightarrow> 'h handled" where
  "handle_mount_volume L dbg K irp s =
     (let msize = MOUNT_STRUCT_SIZE; in_len = unat (irp_in_len irp); out_len = unat (irp_out_len irp);
          answer = (\<lambda>code s. done_irp (write_return_code irp code) STATUS_SUCCESS msize s) in
      if in_len < msize \<or> out_len < msize then done_irp irp STATUS_BUFFER_TOO_SMALL msize s
      else (case irp_system_buffer irp of
          None \<Rightarrow> done_irp irp STATUS_INVALID_PARAMETER 0 s
        | Some buf \<Rightarrow>
          let aligned = take msize buf; drive_no = read_packed_i32 aligned (mount_offset ''n_dos_drive_no'') in
          if drive_no < 0 \<or> nat drive_no \<ge> MAX_DRIVE then answer ERR_DRIVE_NOT_FOUND s
          else
            let d = nat drive_no in
            if drv_volumes s ! d \<noteq> None then answer ERR_VOL_ALREADY_MOUNTED s
            else if \<not> is_drive_letter_available d then answer ERR_DRIVE_NOT_FOUND s
            else (case mount_device L dbg K aligned d s of
                (Ok (ret_code, _), s) \<Rightarrow> answer ret_code s
              | (_, s) \<Rightarrow> (Panic, irp, s))))"

section \<open>Unmounting\<close>

definition unmount_device :: "debug_print \<Rightarrow> 'h mount_kernel \<Rightarrow> nat \<Rightarrow> 'h driver \<Rightarrow> (unit, unit) res \<times> 'h driver" where
  "unmount_device dbg K drive_no s = (case drv_volumes s ! drive_no of
      None \<Rightarrow> (Ok (), s)
    | Some dev \<Rightarrow>
      let s = s \<lparr> drv_volumes := (drv_volumes s) [drive_no := None] \<rparr>;
          dev = dev \<lparr> dev_ext := (dev_ext dev) \<lparr> b_shutting_down := True \<rparr> \<rparr> in
      (case (if b_mount_manager (dev_ext dev) then delete_mount_point dbg K drive_no (drv_kernel s) else (Ok (), drv_kernel s)) of
        (Ok _, h) \<Rightarrow>
          let (dev, h) = tc_stop_volume_thread K dev h
          in (Ok (), s \<lparr> drv_kernel := k_delete_device K (dev_address dev) h \<rparr>)
      | (_, h) \<Rightarrow> (Panic, s \<lparr> drv_kernel := h \<rparr>)))"

definition UNMOUNT_STRUCT_SIZE :: nat where "UNMOUNT_STRUCT_SIZE = 8"

definition handle_unmount_volume :: "debug_print \<Rightarrow> 'h mount_kernel \<Rightarrow> IRP \<Rightarrow> 'h driver \<Rightarrow> 'h handled" where
  "handle_unmount_volume dbg K irp s =
     (let msize = UNMOUNT_STRUCT_SIZE; in_len = unat (irp_in_len irp); out_len = unat (irp_out_len irp) in
      if in_len < msize \<or> out_len < msize then done_irp irp STATUS_BUFFER_TOO_SMALL msize s
      else (case irp_system_buffer irp of
          None \<Rightarrow> done_irp irp STATUS_INVALID_PARAMETER 0 s
        | Some buf \<Rightarrow>
          let aligned = take msize buf; drive_no = unat (word_of_int (read_packed_i32 aligned 4) :: u64) in
          (case (if drive_no < MAX_DRIVE then unmount_device dbg K drive_no s else (Ok (), s)) of
            (Ok _, s) \<Rightarrow> done_irp (write_return_code irp ERR_SUCCESS) STATUS_SUCCESS msize s
          | (_, s) \<Rightarrow> (Panic, irp, s))))"

text \<open>
  Unmounting all: the numbers are collected once, then each of 26 rounds looks
  for the mounted volume with the highest number above \<open>-1\<close>, the first of
  equals, and unmounts it.
\<close>

definition volume_ids :: "device option list \<Rightarrow> int list" where
  "volume_ids vols = map (\<lambda>v. case v of None \<Rightarrow> 0 | Some dev \<Rightarrow> unique_volume_id (dev_ext dev)) vols"

definition highest :: "int list \<Rightarrow> device option list \<Rightarrow> int \<times> nat" where
  "highest ids vols =
     fold (\<lambda>i (max_id, max_idx). if vols ! i \<noteq> None \<and> ids ! i > max_id then (ids ! i, i) else (max_id, max_idx))
       [0..<MAX_DRIVE] (- 1, MAX_DRIVE)"

fun unmount_rounds ::
  "debug_print \<Rightarrow> 'h mount_kernel \<Rightarrow> int list \<Rightarrow> nat \<Rightarrow> 'h driver \<Rightarrow> (unit, unit) res \<times> 'h driver" where
  "unmount_rounds dbg K ids 0 s = (Ok (), s)"
| "unmount_rounds dbg K ids (Suc n) s =
     (let (max_id, max_idx) = highest ids (drv_volumes s)
      in bindS (if max_idx < MAX_DRIVE then unmount_device dbg K max_idx else (\<lambda>s. (Ok (), s)))
           (\<lambda>_. unmount_rounds dbg K ids n) s)"

definition handle_unmount_all_volumes :: "debug_print \<Rightarrow> 'h mount_kernel \<Rightarrow> IRP \<Rightarrow> 'h driver \<Rightarrow> 'h handled" where
  "handle_unmount_all_volumes dbg K irp s =
     (case unmount_rounds dbg K (volume_ids (drv_volumes s)) MAX_DRIVE s of
        (Ok _, s) \<Rightarrow> done_irp irp STATUS_SUCCESS 0 s
      | (_, s) \<Rightarrow> (Panic, irp, s))"

section \<open>Listing\<close>

text \<open>
  The list structure: a bit mask and, per drive, path, label, volume identifier,
  length, algorithm and type, at their offsets in C layout (the lengths are
  aligned to eight bytes, where they are already).
\<close>

definition LIST_PATH :: nat where "LIST_PATH = 4"
definition LIST_LABEL :: nat where "LIST_LABEL = LIST_PATH + MAX_DRIVE * (TC_MAX_PATH * 2)"
definition LIST_ID :: nat where "LIST_ID = LIST_LABEL + MAX_DRIVE * (33 * 2)"
definition LIST_LENGTH :: nat where "LIST_LENGTH = LIST_ID + MAX_DRIVE * 32"
definition LIST_EA :: nat where "LIST_EA = LIST_LENGTH + MAX_DRIVE * 8"
definition LIST_TYPE :: nat where "LIST_TYPE = LIST_EA + MAX_DRIVE * 4"
definition MOUNT_LIST_SIZE :: nat where "MOUNT_LIST_SIZE = 16520"

definition list_entry :: "device option list \<Rightarrow> nat \<Rightarrow> bytes \<Rightarrow> bytes" where
  "list_entry vols i buf =
     (let mask = from_le (sub buf 0 4) :: u32 in
      case vols ! i of
        None \<Rightarrow> blit buf 0 (le_bytes 4 (mask AND NOT (push_bit i 1)))
      | Some dev \<Rightarrow>
        let ext = dev_ext dev;
            buf = blit buf 0 (le_bytes 4 (mask OR push_bit i 1));
            buf = blit buf (LIST_PATH + i * (TC_MAX_PATH * 2)) (wide_bytes (take TC_MAX_PATH (wsz_volume ext)));
            buf = blit buf (LIST_LABEL + i * (33 * 2)) (wide_bytes (take 33 (wsz_label ext)));
            buf = blit buf (LIST_ID + i * 32) (volume_id ext);
            buf = blit buf (LIST_LENGTH + i * 8) (le_bytes 8 (disk_length ext));
            buf = blit buf (LIST_EA + i * 4) (replicate 4 0)
        in blit buf (LIST_TYPE + i * 4) (replicate 4 0))"

definition handle_get_mounted_volumes :: "IRP \<Rightarrow> 'h driver \<Rightarrow> 'h handled" where
  "handle_get_mounted_volumes irp s =
     (let msize = MOUNT_LIST_SIZE; out_len = unat (irp_out_len irp) in
      if out_len < msize then done_irp irp STATUS_BUFFER_TOO_SMALL msize s
      else (case irp_system_buffer irp of
          None \<Rightarrow> done_irp irp STATUS_INVALID_PARAMETER 0 s
        | Some buf \<Rightarrow>
          let buf = fold (list_entry (drv_volumes s)) [0..<MAX_DRIVE] buf
          in done_irp (irp \<lparr> irp_system_buffer := Some buf \<rparr>) STATUS_SUCCESS msize s))"

section \<open>The order of unmounting\<close>

definition mounted :: "'h driver \<Rightarrow> nat set" where
  "mounted s = {d. d < MAX_DRIVE \<and> drv_volumes s ! d \<noteq> None}"

lemma finite_mounted [simp]: "finite (mounted s)"
  by (simp add: mounted_def)

lemma highest_fold:
  assumes "n \<le> N"
  shows "case fold (\<lambda>i (max_id, max_idx). if P i \<and> f i > max_id then (f i, i) else (max_id, max_idx)) [0..<n] (- 1 :: int, N)
    of (m, x) \<Rightarrow> x = N \<and> m = - 1 \<and> (\<forall>i < n. P i \<longrightarrow> f i \<le> - 1)
       \<or> x < n \<and> P x \<and> m = f x \<and> (\<forall>i < n. P i \<longrightarrow> f i \<le> f x)"
  using assms
proof (induction n)
  case (Suc n)
  let ?g = "\<lambda>i (max_id, max_idx). if P i \<and> f i > max_id then (f i, i) else (max_id, max_idx)"
  obtain m x where mx: "fold ?g [0..<n] (- 1 :: int, N) = (m, x)"
    by fastforce
  then have "x = N \<and> m = - 1 \<and> (\<forall>i < n. P i \<longrightarrow> f i \<le> - 1) \<or> x < n \<and> P x \<and> m = f x \<and> (\<forall>i < n. P i \<longrightarrow> f i \<le> f x)"
    using Suc by simp
  moreover have "fold ?g [0..<Suc n] (- 1 :: int, N) = (if P n \<and> m < f n then (f n, n) else (m, x))"
    by (simp add: mx)
  ultimately show ?case
    by (auto simp: less_Suc_eq)
qed simp

lemma highest_cases:
  assumes "\<forall>i \<in> mounted s. 0 \<le> ids ! i"
  obtains "mounted s = {}" "snd (highest ids (drv_volumes s)) = MAX_DRIVE"
  | x where "x \<in> mounted s" "snd (highest ids (drv_volumes s)) = x" "\<forall>i \<in> mounted s. ids ! i \<le> ids ! x"
proof -
  obtain m x where h: "highest ids (drv_volumes s) = (m, x)"
    by fastforce
  then have "x = MAX_DRIVE \<and> m = - 1 \<and> (\<forall>i < MAX_DRIVE. drv_volumes s ! i \<noteq> None \<longrightarrow> ids ! i \<le> - 1)
      \<or> x < MAX_DRIVE \<and> drv_volumes s ! x \<noteq> None \<and> (\<forall>i < MAX_DRIVE. drv_volumes s ! i \<noteq> None \<longrightarrow> ids ! i \<le> ids ! x)"
    using highest_fold [of MAX_DRIVE MAX_DRIVE "\<lambda>i. drv_volumes s ! i \<noteq> None" "\<lambda>i. ids ! i"]
    unfolding highest_def by auto
  then show ?thesis
  proof (elim disjE conjE)
    assume "x = MAX_DRIVE" "\<forall>i < MAX_DRIVE. drv_volumes s ! i \<noteq> None \<longrightarrow> ids ! i \<le> - 1"
    moreover from this(2) have "mounted s = {}"
      using assms by (fastforce simp: mounted_def)
    ultimately show ?thesis
      using that(1) h by simp
  next
    assume "x < MAX_DRIVE" "drv_volumes s ! x \<noteq> None"
      "\<forall>i < MAX_DRIVE. drv_volumes s ! i \<noteq> None \<longrightarrow> ids ! i \<le> ids ! x"
    then show ?thesis
      using that(2) [of x] h by (simp add: mounted_def)
  qed
qed

lemma unmount_device_table:
  "drv_volumes (snd (unmount_device dbg K d s)) = (drv_volumes s) [d := None]"
  by (cases "drv_volumes s ! d")
    (simp_all add: unmount_device_def Let_def case_prod_beta list_update_same_conv split: res.split, metis list_update_id)

lemma mounted_unmount:
  "length (drv_volumes s) = MAX_DRIVE \<Longrightarrow> mounted (snd (unmount_device dbg K d s)) = mounted s - {d}"
  unfolding mounted_def unmount_device_table
  by (cases "d < MAX_DRIVE") (auto simp: nth_list_update list_update_beyond split: if_splits)

text \<open>Unmounting the drives of a list, one after the other, as the driver does it.\<close>

fun unmount_each :: "debug_print \<Rightarrow> 'h mount_kernel \<Rightarrow> nat list \<Rightarrow> 'h driver \<Rightarrow> (unit, unit) res \<times> 'h driver" where
  "unmount_each dbg K [] s = (Ok (), s)"
| "unmount_each dbg K (d # ds) s = bindS (unmount_device dbg K d) (\<lambda>_. unmount_each dbg K ds) s"

lemma unmount_rounds_idle:
  "mounted s = {} \<Longrightarrow> unmount_rounds dbg K ids n s = (Ok (), s)"
proof (induction n)
  case (Suc n)
  then have "snd (highest ids (drv_volumes s)) = MAX_DRIVE"
    by (rule_tac highest_cases [of s ids]) simp_all
  then show ?case
    using Suc by (simp add: case_prod_beta bindS_def)
qed simp

lemma unmount_rounds_descending:
  assumes "length (drv_volumes s) = MAX_DRIVE" "\<forall>i \<in> mounted s. 0 \<le> ids ! i" "inj_on ((!) ids) (mounted s)"
    "card (mounted s) \<le> n"
  shows "\<exists>ds. set ds = mounted s \<and> distinct ds \<and> sorted_wrt (\<lambda>a b. ids ! b < ids ! a) ds
    \<and> unmount_rounds dbg K ids n s = unmount_each dbg K ds s"
  using assms
proof (induction n arbitrary: s)
  case 0
  then show ?case
    by (intro exI [of _ "[]"]) simp
next
  case (Suc n)
  show ?case
  proof (rule highest_cases [OF Suc.prems(2)])
    assume "mounted s = {}"
    then show ?thesis
      using unmount_rounds_idle [of s dbg K ids "Suc n"] by (intro exI [of _ "[]"]) simp
  next
    fix x assume x: "x \<in> mounted s" "snd (highest ids (drv_volumes s)) = x" "\<forall>i \<in> mounted s. ids ! i \<le> ids ! x"
    obtain r s' where u: "unmount_device dbg K x s = (r, s')"
      by fastforce
    have m': "mounted s' = mounted s - {x}" "length (drv_volumes s') = MAX_DRIVE"
      using mounted_unmount [OF Suc.prems(1), of dbg K x] unmount_device_table [of dbg K x s] u Suc.prems(1) by simp_all
    have "card (mounted s') \<le> n"
      using Suc.prems(4) x(1) by (simp add: m'(1))
    then obtain ds where ds: "set ds = mounted s'" "distinct ds" "sorted_wrt (\<lambda>a b. ids ! b < ids ! a) ds"
      "unmount_rounds dbg K ids n s' = unmount_each dbg K ds s'"
      using Suc.IH [OF m'(2)] Suc.prems(2,3) m'(1) by (metis DiffD1 inj_on_subset Diff_subset)
    have "ids ! b < ids ! x" if "b \<in> set ds" for b
      using that x Suc.prems(3) m'(1) ds(1) by (metis DiffD1 DiffD2 inj_onD insertI1 order_le_less)
    moreover have "unmount_rounds dbg K ids (Suc n) s = unmount_each dbg K (x # ds) s"
      using x(1,2) u ds(4) by (cases r) (simp_all add: case_prod_beta bindS_def mounted_def)
    ultimately show ?thesis
      using ds(1-3) x(1) m'(1) by (intro exI [of _ "x # ds"]) auto
  qed
qed

lemma unmount_each_table:
  "unmount_each dbg K ds s = (Ok (), s') \<Longrightarrow> length (drv_volumes s) = MAX_DRIVE \<Longrightarrow> mounted s' = mounted s - set ds"
proof (induction ds arbitrary: s)
  case (Cons d ds)
  obtain r s1 where u: "unmount_device dbg K d s = (r, s1)"
    by fastforce
  then have "unmount_each dbg K ds s1 = (Ok (), s')"
    using Cons.prems(1) by (cases r) (simp_all add: bindS_def)
  moreover have "mounted s1 = mounted s - {d}" "length (drv_volumes s1) = MAX_DRIVE"
    using mounted_unmount [OF Cons.prems(2), of dbg K d] unmount_device_table [of dbg K d s] u Cons.prems(2) by simp_all
  ultimately show ?case
    using Cons.IH by auto
qed simp

section \<open>An invariant of the driver's state\<close>

definition vid :: "'h driver \<Rightarrow> nat \<Rightarrow> int" where
  "vid s d = unique_volume_id (dev_ext (the (drv_volumes s ! d)))"

definition holds :: "'h driver \<Rightarrow> nat \<Rightarrow> nat option" where
  "holds s d = h_device_file (dev_ext (the (drv_volumes s ! d)))"

text \<open>
  Volumes in the table are completely mounted; their numbers are positive, were
  all given out, and differ; each holds a container handle of its own, and
  besides the handles open at the start, \<open>base\<close>, no other is open.
\<close>

definition drv_ok :: "crypto_lib \<Rightarrow> ('h \<Rightarrow> nat set) \<Rightarrow> nat set \<Rightarrow> 'h driver \<Rightarrow> bool" where
  "drv_ok L opened base s \<longleftrightarrow> length (drv_volumes s) = MAX_DRIVE \<and> 0 \<le> drv_last_volume_id s
     \<and> (\<forall>d \<in> mounted s. mounted_ok L (the (drv_volumes s ! d)) \<and> 0 < vid s d \<and> vid s d \<le> drv_last_volume_id s)
     \<and> inj_on (vid s) (mounted s) \<and> inj_on (holds s) (mounted s)
     \<and> (\<forall>d \<in> mounted s. \<forall>a \<in> base. holds s d \<noteq> Some a)
     \<and> opened (drv_kernel s) = base \<union> {a. \<exists>d \<in> mounted s. holds s d = Some a}"

lemma new_device_fields [simp]:
  "is_volume_device (dev_ext (new_device address chars n))" "unique_volume_id (dev_ext (new_device address chars n)) = n"
  by (simp_all add: new_device_def Let_def)

lemma next_volume_id_eq:
  assumes "0 \<le> drv_last_volume_id s" "drv_last_volume_id s + 1 < 2 ^ 31"
  shows "next_volume_id s = (drv_last_volume_id s + 1, s \<lparr> drv_last_volume_id := drv_last_volume_id s + 1 \<rparr>)"
proof -
  have "sint (word_of_int n :: u32) = n" if "0 \<le> n" "n < 2 ^ 31" for n
    using that by (simp add: sint_sbintrunc' signed_take_bit_int_eq_self)
  from this [of "drv_last_volume_id s + 1"] have "sint (word_of_int (drv_last_volume_id s + 1) :: u32) = drv_last_volume_id s + 1"
    using assms by simp
  then show ?thesis
    by (simp only: next_volume_id_def Let_def)
qed

lemma mountmgr_handles:
  assumes "handles_ok K opened"
  shows "opened (snd (send_mountmgr_ioctl dbg K c i h)) = opened h"
  using handles_frame(7) [OF assms, of c i h]
  by (cases "k_mountmgr K c i h") (simp add: send_mountmgr_ioctl_def split: option.split)

lemma announce_handles:
  assumes "handles_ok K opened"
  shows "opened (snd (announce dbg K dev d h)) = opened h"
  using mountmgr_handles [OF assms]
  by (auto simp: announce_def bindS_def notify_volume_arrival_def create_mount_point_def split: prod.split res.split)
    (metis snd_conv)+

lemma mount_device_result:
  assumes "handles_ok K opened" "mount_device L dbg K m d s = (Ok (rc, b), s')"
    "0 \<le> drv_last_volume_id s" "drv_last_volume_id s + 1 < 2 ^ 31"
  shows "drv_volumes s' = drv_volumes s \<and> opened (drv_kernel s') = opened (drv_kernel s) \<and> rc \<noteq> ERR_SUCCESS
      \<and> drv_last_volume_id s' \<in> {drv_last_volume_id s, drv_last_volume_id s + 1}
    \<or> (\<exists>dev. drv_volumes s' = (drv_volumes s) [d := Some dev] \<and> mounted_ok L dev \<and> rc = ERR_SUCCESS
        \<and> unique_volume_id (dev_ext dev) = drv_last_volume_id s + 1 \<and> drv_last_volume_id s' = drv_last_volume_id s + 1
        \<and> (\<exists>a. h_device_file (dev_ext dev) = Some a \<and> a \<notin> opened (drv_kernel s)
            \<and> opened (drv_kernel s') = insert a (opened (drv_kernel s))))"
proof (cases "\<exists>root. drv_root s = Some root \<and> rd_driver_object root \<noteq> None")
  case False
  then show ?thesis
    using assms(2) by (auto simp: mount_device_def err_defs split: option.splits)
next
  case True
  then obtain root obj where root: "drv_root s = Some root" "rd_driver_object root = Some obj"
    by blast
  note fr = handles_frame [OF assms(1)]
  define chars where "chars = FILE_DEVICE_SECURE_OPEN
      OR (if read_packed_u8 m (mount_offset ''mount_read_only'') \<noteq> 0 then FILE_READ_ONLY_DEVICE else 0)
      OR (if read_packed_u8 m (mount_offset ''mount_removable'') \<noteq> 0 then FILE_REMOVABLE_MEDIA else 0)"
  let ?n = "drv_last_volume_id s + 1"
  obtain st addr h1 where c: "k_create_device K (volume_nt_name d) chars (drv_kernel s) = ((st, addr), h1)"
    by (metis prod.collapse)
  obtain got h2 where al: "k_alloc K THREAD_BLOCK_SIZE h1 = (got, h2)"
    by fastforce
  define dev where "dev = new_device addr chars ?n"
  obtain r dev1 h3 where t: "tc_start_volume_thread L dbg K dev m h2 = (r, dev1, h3)"
    by (metis prod.collapse)
  obtain r' h4 where an: "announce dbg K dev1 d h3 = (r', h4)"
    by fastforce
  define s1 where "s1 = s \<lparr> drv_kernel := h1, drv_last_volume_id := ?n \<rparr>"
  have nx: "next_volume_id (s \<lparr> drv_kernel := h1 \<rparr>) = (?n, s1)"
    using next_volume_id_eq [of "s \<lparr> drv_kernel := h1 \<rparr>"] assms(3,4) by (simp add: s1_def)
  have k1: "drv_kernel s1 = h1"
    by (simp add: s1_def)
  have o: "opened h1 = opened (drv_kernel s)" "opened h2 = opened h1" "opened h4 = opened h3"
    using fr(8) [of "volume_nt_name d" chars "drv_kernel s"] fr(1) [of THREAD_BLOCK_SIZE h1]
      announce_handles [OF assms(1), of dbg dev1 d h3] c al an by simp_all
  have eq: "mount_device L dbg K m d s =
      (if \<not> NT_SUCCESS st then
         (bind_res (dbg (ascii ''[Oxhide] IoCreateDevice FAILED'') st) (\<lambda>_. Ok (ERR_OS_ERROR, False)), s \<lparr> drv_kernel := h1 \<rparr>)
       else if \<not> got then (Ok (ERR_OUTOFMEMORY, False), s1 \<lparr> drv_kernel := k_delete_device K addr h2 \<rparr>)
       else (case r of
           Ok nt \<Rightarrow> if \<not> NT_SUCCESS nt then
               (bind_res (dbg (ascii ''[Oxhide] mount thread FAILED'') nt) (\<lambda>_. Ok (ERR_VOL_MOUNT_FAILED, False)),
                s1 \<lparr> drv_kernel := k_delete_device K addr h3 \<rparr>)
             else (case r' of
                 Ok _ \<Rightarrow> (Ok (ERR_SUCCESS, False), s1 \<lparr> drv_kernel := h4, drv_volumes := (drv_volumes s)
                   [d := Some (dev1 \<lparr> dev_flags := dev_flags dev1 AND NOT DO_DEVICE_INITIALIZING \<rparr>)] \<rparr>)
               | _ \<Rightarrow> (Panic, s1 \<lparr> drv_kernel := h4 \<rparr>))
         | _ \<Rightarrow> (Panic, s1 \<lparr> drv_kernel := h3 \<rparr>)))"
    unfolding mount_device_def Let_def root(1) option.case chars_def [symmetric] c prod.case nx k1 al dev_def [symmetric] t
    using root(2) by (cases r; cases r') (simp_all add: an s1_def)
  show ?thesis
  proof (cases "\<exists>nt. NT_SUCCESS st \<and> got \<and> r = Ok nt \<and> NT_SUCCESS nt \<and> (\<exists>u. r' = Ok u)")
    case True
    then obtain nt u where nt: "NT_SUCCESS st" got "r = Ok nt" "NT_SUCCESS nt" "r' = Ok u"
      by blast
    have "took opened h2 (h_device_file (dev_ext dev1)) h3" "mounted_ok L dev1"
      "unique_volume_id (dev_ext dev1) = ?n" "h_device_file (dev_ext dev1) \<noteq> None"
      using tc_start_volume_thread_result [OF assms(1) t [unfolded nt(3)]] nt(4)
      by (simp_all add: dev_def)
    moreover define dev2 where "dev2 = dev1 \<lparr> dev_flags := dev_flags dev1 AND NOT DO_DEVICE_INITIALIZING \<rparr>"
    ultimately obtain a where a: "h_device_file (dev_ext dev2) = Some a" "a \<notin> opened h2" "opened h3 = insert a (opened h2)"
      and dev2: "mounted_ok L dev2" "unique_volume_id (dev_ext dev2) = ?n"
      by (auto simp: took_def mounted_ok_def)
    moreover have "drv_volumes s' = (drv_volumes s) [d := Some dev2]" "rc = ERR_SUCCESS" "drv_kernel s' = h4"
      "drv_last_volume_id s' = ?n"
      using assms(2) nt by (simp_all add: eq s1_def dev2_def) auto
    ultimately show ?thesis
      using o by (intro disjI2 exI [of _ dev2]) simp
  next
    case False
    then have "drv_volumes s' = drv_volumes s \<and> rc \<noteq> ERR_SUCCESS
        \<and> drv_last_volume_id s' \<in> {drv_last_volume_id s, ?n}
        \<and> drv_kernel s' \<in> {h1, k_delete_device K addr h2} \<or> (\<exists>nt. r = Ok nt \<and> \<not> NT_SUCCESS nt)"
      using assms(2) by (auto simp: eq s1_def err_defs split: if_splits res.splits)
    moreover have ?thesis if nt: "r = Ok nt" "\<not> NT_SUCCESS nt" for nt
    proof -
      have "opened h3 = opened h2"
        using tc_start_volume_thread_result(1) [OF assms(1) t [unfolded nt(1)]] nt(2) by (simp add: took_def)
      then show ?thesis
        using assms(2) nt o fr(13) by (auto simp: eq s1_def err_defs split: if_splits)
    qed
    ultimately show ?thesis
      using o fr(13) by auto
  qed
qed

lemma drv_ok_frame:
  assumes "drv_ok L opened base s" "drv_volumes s' = drv_volumes s" "opened (drv_kernel s') = opened (drv_kernel s)"
    "drv_last_volume_id s \<le> drv_last_volume_id s'"
  shows "drv_ok L opened base s'" "mounted s' = mounted s"
proof -
  have m: "mounted s' = mounted s" "vid s' = vid s" "holds s' = holds s"
    by (auto simp: mounted_def vid_def holds_def assms(2))
  then show "mounted s' = mounted s"
    by simp
  show "drv_ok L opened base s'"
    using assms m by (auto simp: drv_ok_def)
qed

text \<open>One volume more.\<close>

lemma drv_ok_add:
  assumes "drv_ok L opened base s" "d < MAX_DRIVE" "drv_volumes s ! d = None"
    "drv_volumes s' = (drv_volumes s) [d := Some dev]" "mounted_ok L dev"
    "unique_volume_id (dev_ext dev) = drv_last_volume_id s + 1" "drv_last_volume_id s' = drv_last_volume_id s + 1"
    "h_device_file (dev_ext dev) = Some a" "a \<notin> opened (drv_kernel s)"
    "opened (drv_kernel s') = insert a (opened (drv_kernel s))"
  shows "drv_ok L opened base s'" "mounted s' = insert d (mounted s)"
proof -
  note ok = assms(1) [unfolded drv_ok_def]
  have len: "length (drv_volumes s) = MAX_DRIVE"
    using ok by blast
  have d: "d \<notin> mounted s"
    using assms(3) by (simp add: mounted_def)
  have nth: "drv_volumes s' ! e = (if e = d then Some dev else drv_volumes s ! e)" for e
    using assms(2,4) len by simp
  show m: "mounted s' = insert d (mounted s)"
    using assms(2) by (auto simp: mounted_def nth)
  have v: "vid s' e = (if e = d then drv_last_volume_id s + 1 else vid s e)"
    and hl: "holds s' e = (if e = d then Some a else holds s e)" for e
    by (simp_all add: vid_def holds_def nth assms(6,8))
  have "\<forall>e \<in> mounted s. vid s e \<noteq> drv_last_volume_id s + 1" "\<forall>e \<in> mounted s. holds s e \<noteq> Some a" "a \<notin> base"
    using ok assms(9) by force+
  then have "inj_on (vid s') (mounted s')" "inj_on (holds s') (mounted s')"
    using ok d by (auto simp: m inj_on_def v hl)
  moreover have "opened (drv_kernel s') = base \<union> {x. \<exists>e \<in> mounted s'. holds s' e = Some x}"
    using ok d assms(10) by (auto simp: m hl)
  moreover have "\<forall>e \<in> mounted s'. mounted_ok L (the (drv_volumes s' ! e)) \<and> 0 < vid s' e \<and> vid s' e \<le> drv_last_volume_id s'"
    using ok assms(5,7) by (fastforce simp: m v nth)
  moreover have "\<forall>e \<in> mounted s'. \<forall>x \<in> base. holds s' e \<noteq> Some x"
    using ok \<open>a \<notin> base\<close> by (auto simp: m hl)
  ultimately show "drv_ok L opened base s'"
    using ok assms(4,7) by (simp add: drv_ok_def)
qed

text \<open>One volume less.\<close>

lemma drv_ok_drop:
  assumes "drv_ok L opened base s" "d \<in> mounted s" "drv_volumes s' = (drv_volumes s) [d := None]"
    "drv_last_volume_id s' = drv_last_volume_id s"
    "opened (drv_kernel s') = opened (drv_kernel s) - set_option (holds s d)"
  shows "drv_ok L opened base s'" "mounted s' = mounted s - {d}"
proof -
  note ok = assms(1) [unfolded drv_ok_def]
  have d: "d < length (drv_volumes s)"
    using ok assms(2) by (simp add: mounted_def)
  have nth: "drv_volumes s' ! e = (if e = d then None else drv_volumes s ! e)" for e
    using d assms(3) by simp
  show m: "mounted s' = mounted s - {d}"
    by (auto simp: mounted_def nth)
  have v: "vid s' e = vid s e" "holds s' e = holds s e" if "e \<noteq> d" for e
    using that by (simp_all add: vid_def holds_def nth)
  have "inj_on (vid s') (mounted s')" "inj_on (holds s') (mounted s')"
    using ok by (auto simp: m inj_on_def v)
  moreover have "opened (drv_kernel s') = base \<union> {x. \<exists>e \<in> mounted s'. holds s' e = Some x}"
  proof -
    have "holds s e \<noteq> holds s d" if "e \<in> mounted s - {d}" for e
      using ok assms(2) that by (auto simp: inj_on_def)
    then show ?thesis
      using ok assms(2,5) by (auto simp: m v)
  qed
  moreover have "\<forall>e \<in> mounted s'. mounted_ok L (the (drv_volumes s' ! e)) \<and> 0 < vid s' e \<and> vid s' e \<le> drv_last_volume_id s'"
    using ok assms(4) by (simp add: m v nth)
  moreover have "\<forall>e \<in> mounted s'. \<forall>x \<in> base. holds s' e \<noteq> Some x"
    using ok by (simp add: m v)
  ultimately show "drv_ok L opened base s'"
    using ok assms(3,4) by (simp add: drv_ok_def)
qed

lemma drv_ok_mount:
  assumes "handles_ok K opened" "drv_ok L opened base s" "d < MAX_DRIVE" "drv_volumes s ! d = None"
    "drv_last_volume_id s + 1 < 2 ^ 31" "mount_device L dbg K m d s = (Ok (rc, b), s')"
  shows "drv_ok L opened base s'" "drv_last_volume_id s' \<le> drv_last_volume_id s + 1"
    "mounted s' = (if rc = ERR_SUCCESS then insert d (mounted s) else mounted s)"
proof -
  have "0 \<le> drv_last_volume_id s"
    using assms(2) by (simp add: drv_ok_def)
  from mount_device_result [OF assms(1,6) this assms(5)]
  have "drv_ok L opened base s' \<and> drv_last_volume_id s' \<le> drv_last_volume_id s + 1 \<and>
    mounted s' = (if rc = ERR_SUCCESS then insert d (mounted s) else mounted s)"
  proof (elim disjE exE conjE)
    assume "drv_volumes s' = drv_volumes s" "opened (drv_kernel s') = opened (drv_kernel s)" "rc \<noteq> ERR_SUCCESS"
      "drv_last_volume_id s' \<in> {drv_last_volume_id s, drv_last_volume_id s + 1}"
    then show ?thesis
      using drv_ok_frame [OF assms(2), of s'] by auto
  next
    fix dev a assume "drv_volumes s' = (drv_volumes s) [d := Some dev]" "mounted_ok L dev" "rc = ERR_SUCCESS"
      "unique_volume_id (dev_ext dev) = drv_last_volume_id s + 1" "drv_last_volume_id s' = drv_last_volume_id s + 1"
      "h_device_file (dev_ext dev) = Some a" "a \<notin> opened (drv_kernel s)"
      "opened (drv_kernel s') = insert a (opened (drv_kernel s))"
    then show ?thesis
      using drv_ok_add [OF assms(2-4), of s' dev a] by simp
  qed
  then show "drv_ok L opened base s'" "drv_last_volume_id s' \<le> drv_last_volume_id s + 1"
    "mounted s' = (if rc = ERR_SUCCESS then insert d (mounted s) else mounted s)"
    by blast+
qed

lemma drv_ok_unmount:
  assumes "handles_ok K opened" "drv_ok L opened base s" "d < MAX_DRIVE" "unmount_device dbg K d s = (Ok (), s')"
  shows "drv_ok L opened base s'" "drv_last_volume_id s' = drv_last_volume_id s" "mounted s' = mounted s - {d}"
proof -
  have "drv_ok L opened base s' \<and> drv_last_volume_id s' = drv_last_volume_id s \<and> mounted s' = mounted s - {d}"
  proof (cases "drv_volumes s ! d")
    case None
    then show ?thesis
      using assms(2,4) by (auto simp: unmount_device_def mounted_def)
  next
    case (Some dev)
    let ?dev = "dev \<lparr> dev_ext := (dev_ext dev) \<lparr> b_shutting_down := True \<rparr> \<rparr>"
    have dm: "d \<in> mounted s" "mounted_ok L dev"
      using Some assms(2,3) by (auto simp: mounted_def drv_ok_def)
    obtain h1 where h1: "delete_mount_point dbg K d (drv_kernel s) = (Ok (), h1)"
      using assms(4) Some dm(2) by (auto simp: unmount_device_def Let_def mounted_ok_def split: prod.splits res.splits)
    have o1: "opened h1 = opened (drv_kernel s)"
      using mountmgr_handles [OF assms(1), of dbg IOCTL_MOUNTMGR_DELETE_POINTS "delete_point_input d" "drv_kernel s"] h1
      by (simp add: delete_mount_point_def split: if_splits)
    obtain dev2 h2 where st: "tc_stop_volume_thread K ?dev h1 = (dev2, h2)"
      by fastforce
    have "opened h2 = opened h1 - set_option (h_device_file (dev_ext dev))"
      using tc_stop_volume_thread_handles [OF assms(1), of ?dev h1] dm(2) st by (simp add: mounted_ok_def)
    moreover have "s' = s \<lparr> drv_volumes := (drv_volumes s) [d := None], drv_kernel := k_delete_device K (dev_address dev2) h2 \<rparr>"
      using assms(4) Some dm(2) h1 st by (simp add: unmount_device_def Let_def mounted_ok_def)
    ultimately show ?thesis
      using drv_ok_drop [OF assms(2) dm(1), of s'] o1 handles_frame(13) [OF assms(1)] Some
      by (simp add: holds_def)
  qed
  then show "drv_ok L opened base s'" "drv_last_volume_id s' = drv_last_volume_id s" "mounted s' = mounted s - {d}"
    by blast+
qed

lemma mount_device_kdbg:
  assumes "mount_device L kdbg_status K m d s = (Ok (rc, b), s')"
  shows "rc \<noteq> ERR_SUCCESS \<and> drv_volumes s' = drv_volumes s"
proof -
  have t: "tc_start_volume_thread L kdbg_status K dev m h = (Ok st, dev', h') \<Longrightarrow> False" for dev h st dev' h'
    using tc_start_volume_thread_kdbg [of L K dev m h] by simp
  show ?thesis
    using assms
    by (auto simp: mount_device_def Let_def kdbg_status_panics err_defs next_volume_id_def
        split: option.splits if_splits prod.splits res.splits dest!: t)
qed

section \<open>The list of mounted volumes\<close>

lemmas list_offsets = LIST_PATH_def LIST_LABEL_def LIST_ID_def LIST_LENGTH_def LIST_EA_def LIST_TYPE_def
  MAX_DRIVE_def TC_MAX_PATH_def MOUNT_LIST_SIZE_def

definition list_mask :: "bytes \<Rightarrow> u32" where
  "list_mask buf = from_le (sub buf 0 4)"

definition list_length_at :: "bytes \<Rightarrow> nat \<Rightarrow> u64" where
  "list_length_at buf i = from_le (sub buf (LIST_LENGTH + i * 8) (LIST_LENGTH + i * 8 + 8))"

text \<open>What one entry writes, in a buffer that is large enough.\<close>

lemma list_entry_effect:
  assumes "i < MAX_DRIVE" "MOUNT_LIST_SIZE \<le> length buf"
    "\<forall>dev. vols ! i = Some dev \<longrightarrow> length (volume_id (dev_ext dev)) \<le> 32"
  shows "length (list_entry vols i buf) = length buf"
    "list_mask (list_entry vols i buf) = (if vols ! i = None then list_mask buf AND NOT (push_bit i 1)
       else list_mask buf OR push_bit i 1)"
    "vols ! i = Some dev \<Longrightarrow> list_length_at (list_entry vols i buf) i = disk_length (dev_ext dev)"
    "j < MAX_DRIVE \<Longrightarrow> j \<noteq> i \<Longrightarrow> list_length_at (list_entry vols i buf) j = list_length_at buf j"
proof -
  have "length (list_entry vols i buf) = length buf
    \<and> list_mask (list_entry vols i buf) = (if vols ! i = None then list_mask buf AND NOT (push_bit i 1)
       else list_mask buf OR push_bit i 1)
    \<and> (\<forall>dev. vols ! i = Some dev \<longrightarrow> list_length_at (list_entry vols i buf) i = disk_length (dev_ext dev))
    \<and> (\<forall>j < MAX_DRIVE. j \<noteq> i \<longrightarrow> list_length_at (list_entry vols i buf) j = list_length_at buf j)"
  proof (cases "vols ! i")
    case None
    then show ?thesis
      using assms(1,2)
      by (simp add: list_entry_def list_mask_def list_length_at_def Let_def list_offsets buf_simps)
  next
    case (Some dev)
    let ?e = "dev_ext dev"
    have l: "length (volume_id ?e) \<le> 32" "length (wide_bytes (take 260 (wsz_volume ?e))) \<le> 520"
      "length (wide_bytes (take 33 (wsz_label ?e))) \<le> 66" "i < 26" "16520 \<le> length buf"
      using assms Some by (simp_all add: list_offsets)
    have "list_length_at (list_entry vols i buf) j = list_length_at buf j" if "j < MAX_DRIVE" "j \<noteq> i" for j
    proof -
      have "j * 8 + 8 \<le> i * 8 \<or> i * 8 + 8 \<le> j * 8" "j < 26"
        using that by (auto simp: MAX_DRIVE_def)
      then show ?thesis
        using l by (elim disjE)
          (simp_all add: list_entry_def Some list_length_at_def Let_def list_offsets buf_simps)
    qed
    moreover have "length (list_entry vols i buf) = length buf"
      "list_mask (list_entry vols i buf) = list_mask buf OR push_bit i 1"
      "list_length_at (list_entry vols i buf) i = disk_length ?e"
      using l by (simp_all add: list_entry_def Some list_mask_def list_length_at_def Let_def list_offsets buf_simps)
    ultimately show ?thesis
      using Some by simp
  qed
  then show "length (list_entry vols i buf) = length buf"
    "list_mask (list_entry vols i buf) = (if vols ! i = None then list_mask buf AND NOT (push_bit i 1)
       else list_mask buf OR push_bit i 1)"
    "vols ! i = Some dev \<Longrightarrow> list_length_at (list_entry vols i buf) i = disk_length (dev_ext dev)"
    "j < MAX_DRIVE \<Longrightarrow> j \<noteq> i \<Longrightarrow> list_length_at (list_entry vols i buf) j = list_length_at buf j"
    by blast+
qed

lemma list_entries_effect:
  assumes "n \<le> MAX_DRIVE" "MOUNT_LIST_SIZE \<le> length buf"
    "\<forall>i < MAX_DRIVE. \<forall>dev. vols ! i = Some dev \<longrightarrow> length (volume_id (dev_ext dev)) \<le> 32"
  defines "buf' \<equiv> fold (list_entry vols) [0..<n] buf"
  shows "length buf' = length buf" "i < n \<Longrightarrow> bit (list_mask buf') i \<longleftrightarrow> vols ! i \<noteq> None"
    "i < n \<Longrightarrow> vols ! i = Some dev \<Longrightarrow> list_length_at buf' i = disk_length (dev_ext dev)"
proof -
  have "length (fold (list_entry vols) [0..<n] buf) = length buf
    \<and> (\<forall>i < n. bit (list_mask (fold (list_entry vols) [0..<n] buf)) i \<longleftrightarrow> vols ! i \<noteq> None)
    \<and> (\<forall>i < n. \<forall>dev. vols ! i = Some dev \<longrightarrow>
        list_length_at (fold (list_entry vols) [0..<n] buf) i = disk_length (dev_ext dev))"
    using assms(1)
  proof (induction n)
    case (Suc n)
    let ?b = "fold (list_entry vols) [0..<n] buf"
    have n: "n < MAX_DRIVE" "n < 32" "MOUNT_LIST_SIZE \<le> length ?b"
      using Suc assms(2) by (simp_all add: MAX_DRIVE_def)
    note e = list_entry_effect [OF n(1,3), of vols]
    have "bit (list_mask (list_entry vols n ?b)) i \<longleftrightarrow> vols ! i \<noteq> None" if "i < Suc n" for i
      using that Suc n e(2) assms(3) by (auto simp: less_Suc_eq bit_simps)
    moreover have "list_length_at (list_entry vols n ?b) i = disk_length (dev_ext dev)"
      if "i < Suc n" "vols ! i = Some dev" for i dev
      using that Suc n e(3,4) assms(3) by (cases "i = n") auto
    ultimately show ?case
      using Suc n e(1) assms(3) by simp
  qed simp
  then show "length buf' = length buf" "i < n \<Longrightarrow> bit (list_mask buf') i \<longleftrightarrow> vols ! i \<noteq> None"
    "i < n \<Longrightarrow> vols ! i = Some dev \<Longrightarrow> list_length_at buf' i = disk_length (dev_ext dev)"
    by (simp_all add: buf'_def)
qed

end
