(* ===== verification/DriverDispatch.thy ===== *)
theory DriverDispatch
  imports MountTable
begin

text \<open>
  The driver's entry, dispatch and unload routines (\<open>driver.rs\<close>) and its root
  control device with the control codes of the tool (\<open>device.rs\<close>). Reachable
  driver states are those after loading and any sequence of requests; the
  theorems hold the invariant of theory \<open>MountTable\<close> along them.
\<close>

section \<open>Control codes\<close>

definition CTL_CODE :: "u32 \<Rightarrow> u32 \<Rightarrow> u32 \<Rightarrow> u32 \<Rightarrow> u32" where
  "CTL_CODE device_type function method access =
     push_bit 16 device_type OR push_bit 14 access OR push_bit 2 function OR method"

definition tc_ioctl :: "u32 \<Rightarrow> u32" where
  "tc_ioctl code = CTL_CODE 0x22 (0x800 + code) 0 0"

definition TC_IOCTL_GET_DRIVER_VERSION :: u32 where "TC_IOCTL_GET_DRIVER_VERSION = tc_ioctl 1"
definition TC_IOCTL_MOUNT_VOLUME :: u32 where "TC_IOCTL_MOUNT_VOLUME = tc_ioctl 3"
definition TC_IOCTL_UNMOUNT_VOLUME :: u32 where "TC_IOCTL_UNMOUNT_VOLUME = tc_ioctl 4"
definition TC_IOCTL_UNMOUNT_ALL_VOLUMES :: u32 where "TC_IOCTL_UNMOUNT_ALL_VOLUMES = tc_ioctl 5"
definition TC_IOCTL_GET_MOUNTED_VOLUMES :: u32 where "TC_IOCTL_GET_MOUNTED_VOLUMES = tc_ioctl 6"
definition TC_IOCTL_GET_DEVICE_REFCOUNT :: u32 where "TC_IOCTL_GET_DEVICE_REFCOUNT = tc_ioctl 8"
definition TC_IOCTL_IS_DRIVER_UNLOAD_DISABLED :: u32 where "TC_IOCTL_IS_DRIVER_UNLOAD_DISABLED = tc_ioctl 9"
definition TC_IOCTL_IS_ANY_VOLUME_MOUNTED :: u32 where "TC_IOCTL_IS_ANY_VOLUME_MOUNTED = tc_ioctl 10"
definition DRIVER_VERSION :: u32 where "DRIVER_VERSION = 0x00010A00"

lemmas tc_ioctl_defs = TC_IOCTL_GET_DRIVER_VERSION_def TC_IOCTL_MOUNT_VOLUME_def TC_IOCTL_UNMOUNT_VOLUME_def
  TC_IOCTL_UNMOUNT_ALL_VOLUMES_def TC_IOCTL_GET_MOUNTED_VOLUMES_def TC_IOCTL_GET_DEVICE_REFCOUNT_def
  TC_IOCTL_IS_DRIVER_UNLOAD_DISABLED_def TC_IOCTL_IS_ANY_VOLUME_MOUNTED_def tc_ioctl_def CTL_CODE_def

text \<open>The codes the command-line tool has written out.\<close>

lemma tool_codes:
  "TC_IOCTL_GET_DRIVER_VERSION = 0x00222004" "TC_IOCTL_MOUNT_VOLUME = 0x0022200C" "TC_IOCTL_UNMOUNT_VOLUME = 0x00222010"
  by (simp_all add: tc_ioctl_defs)

section \<open>The root device\<close>

text \<open>A reply is written to the system buffer, if there is one, without looking at its length; past its end is a memory fault.\<close>

definition reply_bytes :: "IRP \<Rightarrow> bytes \<Rightarrow> 'h driver \<Rightarrow> 'h handled" where
  "reply_bytes irp data s = (case irp_system_buffer irp of
      None \<Rightarrow> done_irp irp STATUS_SUCCESS (length data) s
    | Some buf \<Rightarrow>
      if length buf < length data then (Panic, irp, s)
      else done_irp (irp \<lparr> irp_system_buffer := Some (blit buf 0 data) \<rparr>) STATUS_SUCCESS (length data) s)"

definition process_root_device_ioctl ::
  "crypto_lib \<Rightarrow> debug_print \<Rightarrow> 'h mount_kernel \<Rightarrow> IRP \<Rightarrow> 'h driver \<Rightarrow> 'h handled" where
  "process_root_device_ioctl L dbg K irp s =
     (let ioctl = irp_ioctl irp in
      if ioctl = TC_IOCTL_GET_DRIVER_VERSION then reply_bytes irp (le_bytes 4 DRIVER_VERSION) s
      else if ioctl = TC_IOCTL_IS_ANY_VOLUME_MOUNTED then
        let any_mounted = list_ex (\<lambda>d. d \<noteq> None) (drv_volumes s)
        in reply_bytes irp (le_bytes 4 (of_bool any_mounted :: u32)) s
      else if ioctl = TC_IOCTL_GET_DEVICE_REFCOUNT then
        let count = (case drv_root s of None \<Rightarrow> 0 | Some root \<Rightarrow> rd_reference_count root)
        in reply_bytes irp (le_bytes 4 (word_of_int count :: u32)) s
      else if ioctl = TC_IOCTL_IS_DRIVER_UNLOAD_DISABLED then reply_bytes irp [1] s
      else if ioctl = TC_IOCTL_MOUNT_VOLUME then handle_mount_volume L dbg K irp s
      else if ioctl = TC_IOCTL_UNMOUNT_VOLUME then handle_unmount_volume dbg K irp s
      else if ioctl = TC_IOCTL_UNMOUNT_ALL_VOLUMES then handle_unmount_all_volumes dbg K irp s
      else if ioctl = TC_IOCTL_GET_MOUNTED_VOLUMES then handle_get_mounted_volumes irp s
      else done_irp irp STATUS_INVALID_DEVICE_REQUEST 0 s)"

definition process_root_device_irp ::
  "crypto_lib \<Rightarrow> debug_print \<Rightarrow> 'h mount_kernel \<Rightarrow> IRP \<Rightarrow> 'h driver \<Rightarrow> 'h handled" where
  "process_root_device_irp L dbg K irp s =
     (let major = irp_major irp in
      if major = IRP_MJ_SHUTDOWN then handle_unmount_all_volumes dbg K irp s
      else if major = IRP_MJ_DEVICE_CONTROL then process_root_device_ioctl L dbg K irp s
      else done_irp irp STATUS_INVALID_DEVICE_REQUEST 0 s)"

text \<open>Symbolic links and shutdown notifications of the kernel.\<close>

record 'h root_ops =
  r_create_symlink :: "u16 list \<Rightarrow> u16 list \<Rightarrow> 'h \<Rightarrow> NTSTATUS \<times> 'h"
  r_delete_symlink :: "u16 list \<Rightarrow> 'h \<Rightarrow> 'h"
  r_register_shutdown :: "u64 \<Rightarrow> 'h \<Rightarrow> 'h"
  r_unregister_shutdown :: "u64 \<Rightarrow> 'h \<Rightarrow> 'h"

definition ROOT_DEVICE_NAME :: "u16 list" where
  "ROOT_DEVICE_NAME =
     [0x5C, 0x44, 0x65, 0x76, 0x69, 0x63, 0x65, 0x5C, 0x4F, 0x78, 0x68, 0x69, 0x64, 0x65, 0x00, 0x00]"

definition ROOT_DOS_NAME :: "u16 list" where
  "ROOT_DOS_NAME =
     [0x5C, 0x44, 0x6F, 0x73, 0x44, 0x65, 0x76, 0x69, 0x63, 0x65, 0x73, 0x5C, 0x4F, 0x78, 0x68, 0x69, 0x64, 0x65, 0x00]"

definition create_root_device ::
  "'h mount_kernel \<Rightarrow> 'h root_ops \<Rightarrow> nat \<Rightarrow> 'h driver \<Rightarrow> NTSTATUS \<times> 'h driver" where
  "create_root_device K R driver_object s =
     (let ((status, address), h) = k_create_device K ROOT_DEVICE_NAME FILE_DEVICE_SECURE_OPEN (drv_kernel s) in
      if \<not> NT_SUCCESS status then (status, s \<lparr> drv_kernel := h \<rparr>)
      else
        let flags = DO_DEVICE_INITIALIZING OR DO_DIRECT_IO;
            (link_status, h) = r_create_symlink R ROOT_DOS_NAME ROOT_DEVICE_NAME h in
        if \<not> NT_SUCCESS link_status then (link_status, s \<lparr> drv_kernel := k_delete_device K address h \<rparr>)
        else
          let h = r_register_shutdown R address h; flags = flags AND NOT DO_DEVICE_INITIALIZING
          in (STATUS_SUCCESS, s \<lparr> drv_kernel := h, drv_root := Some \<lparr> rd_address = address, rd_reference_count = 0,
                rd_driver_object = Some driver_object, rd_flags = flags \<rparr> \<rparr>))"

section \<open>Entry, dispatch, unload\<close>

definition initial_driver :: "'h \<Rightarrow> 'h driver" where
  "initial_driver h = \<lparr> drv_volumes = replicate MAX_DRIVE None, drv_root = None, drv_last_volume_id = 0, drv_kernel = h \<rparr>"

definition driver_entry :: "'h mount_kernel \<Rightarrow> 'h root_ops \<Rightarrow> nat \<Rightarrow> 'h \<Rightarrow> NTSTATUS \<times> 'h driver" where
  "driver_entry K R driver_object h = create_root_device K R driver_object (initial_driver h)"

text \<open>The loop body that unloading and shutdown share.\<close>

definition stop_volume :: "'h mount_kernel \<Rightarrow> nat \<Rightarrow> 'h driver \<Rightarrow> 'h driver" where
  "stop_volume K i s = (case drv_volumes s ! i of
      None \<Rightarrow> s
    | Some dev \<Rightarrow>
      let s = s \<lparr> drv_volumes := (drv_volumes s) [i := None] \<rparr>;
          dev = dev \<lparr> dev_ext := (dev_ext dev) \<lparr> b_shutting_down := True \<rparr> \<rparr>;
          (dev, h) = tc_stop_volume_thread K dev (drv_kernel s)
      in s \<lparr> drv_kernel := k_delete_device K (dev_address dev) h \<rparr>)"

definition stop_all :: "'h mount_kernel \<Rightarrow> 'h driver \<Rightarrow> 'h driver" where
  "stop_all K = fold (stop_volume K) [0..<MAX_DRIVE]"

definition tc_unload_driver :: "'h mount_kernel \<Rightarrow> 'h root_ops \<Rightarrow> 'h driver \<Rightarrow> 'h driver" where
  "tc_unload_driver K R s =
     (let s = stop_all K s in
      case drv_root s of
        None \<Rightarrow> s
      | Some root \<Rightarrow>
        let h = r_unregister_shutdown R (rd_address root) (drv_kernel s); h = r_delete_symlink R ROOT_DOS_NAME h;
            h = k_delete_device K (rd_address root) h
        in s \<lparr> drv_kernel := h, drv_root := None \<rparr>)"

definition dispatch_root :: "crypto_lib \<Rightarrow> debug_print \<Rightarrow> 'h mount_kernel \<Rightarrow> IRP \<Rightarrow> 'h driver \<Rightarrow> 'h handled" where
  "dispatch_root L dbg K irp s =
     (let major = irp_major irp in
      if major = IRP_MJ_CREATE \<or> major = IRP_MJ_CLOSE \<or> major = IRP_MJ_CLEANUP then done_irp irp STATUS_SUCCESS 0 s
      else if major = IRP_MJ_SHUTDOWN then done_irp irp STATUS_SUCCESS 0 (stop_all K s)
      else process_root_device_irp L dbg K irp s)"

text \<open>\<open>device_object\<close> is the address of the device the request is for.\<close>

definition tc_dispatch_queue_irp ::
  "crypto_lib \<Rightarrow> debug_print \<Rightarrow> 'h mount_kernel \<Rightarrow> u64 \<Rightarrow> IRP \<Rightarrow> 'h driver \<Rightarrow> 'h handled" where
  "tc_dispatch_queue_irp L dbg K device_object irp s =
     (let is_root = (case drv_root s of Some root \<Rightarrow> rd_address root = device_object | None \<Rightarrow> False) in
      if is_root then dispatch_root L dbg K irp s
      else
        let major = irp_major irp in
        if major = IRP_MJ_CREATE \<or> major = IRP_MJ_CLOSE \<or> major = IRP_MJ_CLEANUP then done_irp irp STATUS_SUCCESS 0 s
        else done_irp irp STATUS_INVALID_DEVICE_REQUEST 0 s)"

section \<open>Reachable states\<close>

text \<open>
  A loaded driver after \<open>n\<close> requests that returned. Between requests the rest
  of the system may change the kernel's state, but not the container handles.
\<close>

inductive drv_reach ::
  "crypto_lib \<Rightarrow> debug_print \<Rightarrow> 'h mount_kernel \<Rightarrow> 'h root_ops \<Rightarrow> ('h \<Rightarrow> nat set) \<Rightarrow> nat set \<Rightarrow> nat \<Rightarrow> 'h driver \<Rightarrow> bool"
  for L dbg K R opened base where
  reach_entry: "opened h = base \<Longrightarrow> drv_reach L dbg K R opened base 0 (snd (driver_entry K R obj h))"
| reach_request: "drv_reach L dbg K R opened base n s \<Longrightarrow>
    tc_dispatch_queue_irp L dbg K device_object irp s = (Ok status, irp', s') \<Longrightarrow>
    drv_reach L dbg K R opened base (Suc n) s'"
| reach_other: "drv_reach L dbg K R opened base n s \<Longrightarrow> opened h = opened (drv_kernel s) \<Longrightarrow>
    drv_reach L dbg K R opened base n (s \<lparr> drv_kernel := h \<rparr>)"

inductive_cases reach_ZeroE: "drv_reach L dbg K R opened base 0 s"

section \<open>The invariant along requests\<close>

definition root_ops_ok :: "'h root_ops \<Rightarrow> ('h \<Rightarrow> nat set) \<Rightarrow> bool" where
  "root_ops_ok R opened \<longleftrightarrow> (\<forall>a b h. opened (snd (r_create_symlink R a b h)) = opened h)
     \<and> (\<forall>a h. opened (r_delete_symlink R a h) = opened h)
     \<and> (\<forall>a h. opened (r_register_shutdown R a h) = opened h) \<and> (\<forall>a h. opened (r_unregister_shutdown R a h) = opened h)"

lemma stop_volume_ok:
  assumes "handles_ok K opened" "drv_ok L opened base s" "i < MAX_DRIVE"
  shows "drv_ok L opened base (stop_volume K i s)" "mounted (stop_volume K i s) = mounted s - {i}"
    "drv_last_volume_id (stop_volume K i s) = drv_last_volume_id s" "drv_root (stop_volume K i s) = drv_root s"
proof -
  have "drv_ok L opened base (stop_volume K i s) \<and> mounted (stop_volume K i s) = mounted s - {i}
    \<and> drv_last_volume_id (stop_volume K i s) = drv_last_volume_id s \<and> drv_root (stop_volume K i s) = drv_root s"
  proof (cases "drv_volumes s ! i")
    case None
    then show ?thesis
      using assms(2) by (auto simp: stop_volume_def mounted_def)
  next
    case (Some dev)
    let ?dev = "dev \<lparr> dev_ext := (dev_ext dev) \<lparr> b_shutting_down := True \<rparr> \<rparr>"
    have m: "i \<in> mounted s" "mounted_ok L dev"
      using Some assms(2,3) by (auto simp: mounted_def drv_ok_def)
    obtain dev2 h2 where st: "tc_stop_volume_thread K ?dev (drv_kernel s) = (dev2, h2)"
      by fastforce
    have "opened h2 = opened (drv_kernel s) - set_option (h_device_file (dev_ext dev))"
      using tc_stop_volume_thread_handles [OF assms(1), of ?dev "drv_kernel s"] m(2) st by (simp add: mounted_ok_def)
    moreover have "stop_volume K i s =
        s \<lparr> drv_volumes := (drv_volumes s) [i := None], drv_kernel := k_delete_device K (dev_address dev2) h2 \<rparr>"
      using Some st by (simp add: stop_volume_def Let_def)
    ultimately show ?thesis
      using drv_ok_drop [OF assms(2) m(1), of "stop_volume K i s"] handles_frame(13) [OF assms(1)] Some
      by (simp add: holds_def)
  qed
  then show "drv_ok L opened base (stop_volume K i s)" "mounted (stop_volume K i s) = mounted s - {i}"
    "drv_last_volume_id (stop_volume K i s) = drv_last_volume_id s" "drv_root (stop_volume K i s) = drv_root s"
    by blast+
qed

lemma stop_all_ok:
  assumes "handles_ok K opened" "drv_ok L opened base s"
  shows "drv_ok L opened base (stop_all K s)" "mounted (stop_all K s) = {}"
    "drv_last_volume_id (stop_all K s) = drv_last_volume_id s" "drv_root (stop_all K s) = drv_root s"
proof -
  have "drv_ok L opened base (fold (stop_volume K) [0..<n] s) \<and> mounted (fold (stop_volume K) [0..<n] s) = mounted s - {..<n}
    \<and> drv_last_volume_id (fold (stop_volume K) [0..<n] s) = drv_last_volume_id s
    \<and> drv_root (fold (stop_volume K) [0..<n] s) = drv_root s" if "n \<le> MAX_DRIVE" for n
    using that
  proof (induction n)
    case (Suc n)
    let ?s = "fold (stop_volume K) [0..<n] s"
    have "mounted s - {..<n} - {n} = mounted s - {..<Suc n}"
      by (auto simp: less_Suc_eq)
    then show ?case
      using Suc stop_volume_ok [OF assms(1), of L base ?s n] by simp
  qed (simp add: assms(2))
  from this [of MAX_DRIVE] show "drv_ok L opened base (stop_all K s)" "mounted (stop_all K s) = {}"
    "drv_last_volume_id (stop_all K s) = drv_last_volume_id s" "drv_root (stop_all K s) = drv_root s"
    by (auto simp: stop_all_def mounted_def)
qed

lemma unmount_rounds_ok:
  assumes "handles_ok K opened"
  shows "drv_ok L opened base s \<Longrightarrow> unmount_rounds dbg K ids n s = (Ok (), s') \<Longrightarrow>
    drv_ok L opened base s' \<and> drv_last_volume_id s' = drv_last_volume_id s"
proof (induction n arbitrary: s)
  case (Suc n)
  obtain m x where h: "highest ids (drv_volumes s) = (m, x)"
    by fastforce
  show ?case
  proof (cases "x < MAX_DRIVE")
    case True
    then obtain s1 where u: "unmount_device dbg K x s = (Ok (), s1)" "unmount_rounds dbg K ids n s1 = (Ok (), s')"
      using Suc.prems(2) h by (auto simp: bindS_def split: prod.splits res.splits)
    then show ?thesis
      using Suc.IH [of s1] drv_ok_unmount [OF assms Suc.prems(1) True u(1)] by simp
  next
    case False
    then show ?thesis
      using Suc h by (simp add: bindS_def)
  qed
qed simp

lemma handle_mount_ok:
  assumes "handles_ok K opened" "drv_ok L opened base s" "drv_last_volume_id s + 1 < 2 ^ 31"
    "handle_mount_volume L dbg K irp s = (Ok st, irp', s')"
  shows "drv_ok L opened base s' \<and> drv_last_volume_id s' \<le> drv_last_volume_id s + 1"
proof (cases "s' = s")
  case False
  then obtain m d rc b where "d < MAX_DRIVE" "drv_volumes s ! d = None" "mount_device L dbg K m d s = (Ok (rc, b), s')"
    using assms(4)
    by (auto simp: handle_mount_volume_def Let_def done_irp_def is_drive_letter_available_def not_le
        split: if_splits option.splits prod.splits res.splits)
  then show ?thesis
    using drv_ok_mount(1,2) [OF assms(1,2) _ _ assms(3)] by blast
qed (use assms(2) in simp)

lemma handle_unmount_ok:
  assumes "handles_ok K opened" "drv_ok L opened base s" "handle_unmount_volume dbg K irp s = (Ok st, irp', s')"
  shows "drv_ok L opened base s' \<and> drv_last_volume_id s' = drv_last_volume_id s"
proof (cases "s' = s")
  case False
  then obtain d where "d < MAX_DRIVE" "unmount_device dbg K d s = (Ok (), s')"
    using assms(3) by (auto simp: handle_unmount_volume_def Let_def done_irp_def
        split: if_splits option.splits prod.splits res.splits)
  then show ?thesis
    using drv_ok_unmount(1,2) [OF assms(1,2)] by blast
qed (use assms(2) in simp)

lemma reply_bytes_state: "reply_bytes irp data s = (r, irp', s') \<Longrightarrow> s' = s"
  by (auto simp: reply_bytes_def done_irp_def split: option.splits if_splits)

lemma ioctl_ok:
  assumes "handles_ok K opened" "drv_ok L opened base s" "drv_last_volume_id s + 1 < 2 ^ 31"
    "process_root_device_ioctl L dbg K irp s = (Ok st, irp', s')"
  shows "drv_ok L opened base s' \<and> drv_last_volume_id s' \<le> drv_last_volume_id s + 1"
proof -
  consider "s' = s" | "handle_mount_volume L dbg K irp s = (Ok st, irp', s')"
    | "handle_unmount_volume dbg K irp s = (Ok st, irp', s')" | "handle_unmount_all_volumes dbg K irp s = (Ok st, irp', s')"
    using assms(4)
    by (auto simp: process_root_device_ioctl_def Let_def done_irp_def handle_get_mounted_volumes_def
        split: if_splits option.splits dest: reply_bytes_state)
  then show ?thesis
  proof cases
    case 1
    then show ?thesis
      using assms(2) by simp
  next
    case 2
    show ?thesis
      by (rule handle_mount_ok [OF assms(1-3) 2])
  next
    case 3
    show ?thesis
      using handle_unmount_ok [OF assms(1,2) 3] by simp
  next
    case 4
    then have "unmount_rounds dbg K (volume_ids (drv_volumes s)) MAX_DRIVE s = (Ok (), s')"
      by (auto simp: handle_unmount_all_volumes_def done_irp_def split: prod.splits res.splits)
    then show ?thesis
      using unmount_rounds_ok [OF assms(1,2)] by simp
  qed
qed

lemma dispatch_ok:
  assumes "handles_ok K opened" "drv_ok L opened base s" "drv_last_volume_id s + 1 < 2 ^ 31"
    "tc_dispatch_queue_irp L dbg K device_object irp s = (Ok st, irp', s')"
  shows "drv_ok L opened base s' \<and> drv_last_volume_id s' \<le> drv_last_volume_id s + 1"
proof -
  consider "s' = s" | "s' = stop_all K s" | "process_root_device_ioctl L dbg K irp s = (Ok st, irp', s')"
    using assms(4)
    by (auto simp: tc_dispatch_queue_irp_def dispatch_root_def process_root_device_irp_def Let_def done_irp_def split: if_splits)
  then show ?thesis
  proof cases
    case 1
    then show ?thesis
      using assms(2) by simp
  next
    case 2
    then show ?thesis
      using stop_all_ok(1,3) [OF assms(1,2)] by simp
  next
    case 3
    show ?thesis
      by (rule ioctl_ok [OF assms(1-3) 3])
  qed
qed

lemma driver_entry_ok:
  assumes "handles_ok K opened" "root_ops_ok R opened"
  shows "drv_ok L opened (opened h) (snd (driver_entry K R obj h))" "drv_last_volume_id (snd (driver_entry K R obj h)) = 0"
    "mounted (snd (driver_entry K R obj h)) = {}"
proof -
  let ?s = "snd (driver_entry K R obj h)"
  have v: "drv_volumes ?s = replicate MAX_DRIVE None" "drv_last_volume_id ?s = 0"
    by (auto simp: driver_entry_def create_root_device_def initial_driver_def Let_def split: prod.split)
  have "opened (drv_kernel ?s) = opened h"
    using assms by (simp add: driver_entry_def create_root_device_def initial_driver_def Let_def root_ops_ok_def
        case_prod_beta handles_frame [OF assms(1)])
  moreover show m: "mounted ?s = {}"
    using v by (simp add: mounted_def)
  ultimately show "drv_ok L opened (opened h) ?s" "drv_last_volume_id ?s = 0"
    using v by (simp_all add: drv_ok_def)
qed

lemma reach_invariant:
  assumes "handles_ok K opened" "root_ops_ok R opened"
  shows "drv_reach L dbg K R opened base n s \<Longrightarrow> n < 2 ^ 31 \<Longrightarrow> drv_ok L opened base s \<and> drv_last_volume_id s \<le> int n"
proof (induction rule: drv_reach.induct)
  case (reach_entry h obj)
  then show ?case
    using driver_entry_ok(1) [OF assms, where L = L and h = h and obj = obj] driver_entry_ok(2) [OF assms, where h = h and obj = obj] by simp
next
  case (reach_request n s device_object irp status irp' s')
  then have s: "drv_ok L opened base s" "drv_last_volume_id s \<le> int n" "int n + 1 < 2 ^ 31"
    by simp_all
  then have "drv_last_volume_id s + 1 < 2 ^ 31"
    by simp
  from dispatch_ok [OF assms(1) s(1) this reach_request.hyps(2)] show ?case
    using s(2) by simp
next
  case (reach_other n s h)
  then show ?case
    using drv_ok_frame(1) [of L opened base s "s \<lparr> drv_kernel := h \<rparr>"] by auto
qed

section \<open>Unloading and small replies\<close>

lemma unload_closes:
  assumes "handles_ok K opened" "root_ops_ok R opened" "drv_ok L opened base s"
  shows "mounted (tc_unload_driver K R s) = {}" "opened (drv_kernel (tc_unload_driver K R s)) = base"
    "drv_root (tc_unload_driver K R s) = None"
proof -
  note st = stop_all_ok [OF assms(1,3)]
  have b: "opened (drv_kernel (stop_all K s)) = base"
    using st(1,2) by (simp add: drv_ok_def)
  have "drv_volumes (tc_unload_driver K R s) = drv_volumes (stop_all K s)"
    by (simp add: tc_unload_driver_def Let_def split: option.split)
  then show "mounted (tc_unload_driver K R s) = {}"
    using st(2) by (simp add: mounted_def)
  show "opened (drv_kernel (tc_unload_driver K R s)) = base" "drv_root (tc_unload_driver K R s) = None"
    using b assms(2) handles_frame(13) [OF assms(1)]
    by (auto simp: tc_unload_driver_def Let_def root_ops_ok_def split: option.split)
qed

text \<open>A request with a buffer of one to three bytes for a four-byte reply is written past its end.\<close>

lemma short_version_reply_overflows:
  assumes "irp_ioctl irp = TC_IOCTL_GET_DRIVER_VERSION" "irp_system_buffer irp = Some buf" "length buf < 4"
  shows "process_root_device_ioctl L dbg K irp s = (Panic, irp, s)"
  using assms by (simp add: process_root_device_ioctl_def reply_bytes_def Let_def)

section \<open>An instance\<close>

text \<open>A kernel whose state is the list of its open handles, and that never refuses.\<close>

definition toy_mount_kernel :: "nat list mount_kernel" where
  "toy_mount_kernel = \<lparr> k_alloc = \<lambda>n h. (True, h), k_read = \<lambda>x off n h. ((STATUS_SUCCESS, replicate n 0), h),
     k_write = \<lambda>x off buf h. (STATUS_SUCCESS, h), k_flush = \<lambda>x h. (STATUS_SUCCESS, h),
     k_create = \<lambda>path access share h. ((STATUS_SUCCESS, Suc (sum_list h)), Suc (sum_list h) # h),
     k_query_times = \<lambda>x h. ((STATUS_SUCCESS, [1, 2, 3, 4]), h), k_set_times = \<lambda>x times n h. (STATUS_SUCCESS, h),
     k_query_size = \<lambda>x h. ((STATUS_SUCCESS, 2097152), h), k_reference = \<lambda>x h. ((STATUS_SUCCESS, 9), h),
     k_dereference = \<lambda>obj h. h, k_close = \<lambda>x h. filter (\<lambda>y. x \<noteq> Some y) h,
     k_mountmgr = \<lambda>code input h. (Some STATUS_SUCCESS, h),
     k_create_device = \<lambda>name c h. ((STATUS_SUCCESS, if name = ROOT_DEVICE_NAME then 1 else 2), h),
     k_delete_device = \<lambda>address h. h, k_create_thread = \<lambda>h. (STATUS_SUCCESS, h),
     k_reference_thread = \<lambda>h. (Some 3, h) \<rparr>"

definition toy_root_ops :: "nat list root_ops" where
  "toy_root_ops = \<lparr> r_create_symlink = \<lambda>a b h. (STATUS_SUCCESS, h), r_delete_symlink = \<lambda>a h. h,
     r_register_shutdown = \<lambda>a h. h, r_unregister_shutdown = \<lambda>a h. h \<rparr>"

abbreviation (input) "toy_print \<equiv> (\<lambda>msg st. Ok []) :: debug_print"

lemma toy_fresh: "Suc (sum_list h) \<notin> set (h :: nat list)"
proof
  assume "Suc (sum_list h) \<in> set h"
  then have "Suc (sum_list h) \<le> sum_list h"
    by (rule member_le_sum_list) simp
  then show False
    by simp
qed

lemma toy_handles: "handles_ok toy_mount_kernel set"
  using toy_fresh by (auto simp: handles_ok_def toy_mount_kernel_def)

lemma toy_root: "root_ops_ok toy_root_ops set"
  by (simp add: root_ops_ok_def toy_root_ops_def)

definition toy_request_result :: OpenResult where
  "toy_request_result = open_result Aes (header_new \<lparr> vh_encrypted_area_start := 262144, vh_encrypted_area_length := 1048576,
     vh_master_keydata := replicate 256 1 \<rparr>) [] (make_kdf_candidate Pbkdf2Sha256 0) False"

text \<open>A request that is right when it is read twelve bytes further on.\<close>

definition toy_mount :: bytes where
  "toy_mount = replicate 12 0 @ take 1098 (mount_request toy_request_result 0 False [0x76])"

lemma toy_volume_fields:
  "or_master_key toy_request_result = replicate 64 1" "or_data_cipher toy_request_result = Aes" "or_data_length toy_request_result = 1048576"
  by (simp_all add: toy_request_result_def open_result_def)

lemma toy_request_bytes:
  "length (mount_request toy_request_result 0 False [0x76]) = 1110"
  "sub (mount_request toy_request_result 0 False [0x76]) 1098 1110 = replicate 12 0"
  "sub (mount_request toy_request_result 0 False [0x76]) 795 799 = replicate 4 0"
  using request_bytes(1) [of toy_request_result 0 False "[0x76]"]
  by (simp_all add: toy_volume_fields mount_request_def Let_def MASTER_KEY_MAX_def CLI_MAX_PATH_def buf_simps)
    (simp_all add: sub_def)

lemma toy_thread_block: "block_mount (thread_block a toy_mount) = mount_request toy_request_result 0 False [0x76]"
proof -
  let ?g = "mount_request toy_request_result 0 False [0x76]"
  have "sub (blit (replicate 1128 0) 0 toy_mount) 12 1122 = take 1098 ?g @ replicate 12 0"
    using toy_request_bytes(1) by (simp add: sub_def blit_def toy_mount_def)
  also have "\<dots> = take 1098 ?g @ drop 1098 ?g"
    using toy_request_bytes(1,2) by (simp add: sub_def)
  finally show ?thesis
    using toy_request_bytes(1)
    by (simp add: block_mount_def thread_block_def Let_def THREAD_BLOCK_SIZE_def THREAD_BLOCK_MOUNT_def toy_mount_def buf_simps)
qed

lemma toy_drive: "read_packed_i32 toy_mount 807 = 0"
proof -
  have "sub toy_mount 807 811 = replicate 4 0"
    using toy_request_bytes(1,3) by (simp add: toy_mount_def sub_def drop_take)
  moreover have "from_le (replicate 4 (0 :: u8)) = (0 :: u32)"
    by (simp add: eval_nat_numeral)
  ultimately have "read_packed_u32 toy_mount 807 = 0"
    using toy_request_bytes(1) read_packed_bytes(1) [of 807 toy_mount]
    by (simp add: toy_mount_def)
  then show ?thesis
    by (simp add: read_packed_i32_def)
qed

text \<open>Mounting it succeeds.\<close>

lemma toy_open:
  "\<exists>ext' h'. tc_open_volume toy_lib toy_print (nt_kernel.truncate toy_mount_kernel) ext
     (thread_params (mount_request toy_request_result 0 False [0x76])) True True h = (Ok STATUS_SUCCESS, ext', h')"
proof -
  obtain c where c: "kernel_new toy_lib Aes (replicate 64 1) = Ok c"
    using kernel_new_refines [OF toy_lib_ok, of "replicate 64 1" Aes] by auto
  have "init_cipher_from_ea_and_key toy_lib (cipher_to_ea Aes) (replicate 64 1) = Some c"
    using c init_cipher_of_request [of "replicate 64 1" Aes toy_lib] by simp
  moreover have "path_of (nt_path_of [0x76]) = [0x5C, 0x3F, 0x3F, 0x5C, 0x76]"
  proof -
    have "replicate 263 (0 :: u16) = 0 # replicate 262 0"
      by (simp flip: replicate_Suc)
    then show ?thesis
      by (simp add: path_of_def nt_path_of_def TC_MAX_PATH_def blit_def)
  qed
  moreover have "thread_params (mount_request toy_request_result 0 False [0x76]) = \<lparr> tp_drive_no = 0, tp_nt_path = nt_path_of [0x76],
     tp_ea = cipher_to_ea Aes, tp_key = replicate 64 1, tp_data_offset = or_data_offset toy_request_result,
     tp_disk_length = 1048576, tp_bytes_per_sector = 512, tp_read_only = False, tp_removable = True, tp_preserve_ts = False \<rparr>"
    using thread_params_of_request [of toy_request_result "[0x76]" 0 False] by (simp add: toy_volume_fields)
  ultimately show ?thesis
    by (simp add: tc_open_volume_def open_host_file_def toy_mount_kernel_def file_opened_def nt_kernel.defs
        query_timestamps_def compute_virtual_geometry_def MAX_SECTOR_SIZE_def TC_MIN_VOLUME_SIZE_LEGACY_def
        TC_MAX_VOLUME_SIZE_def Let_def)
qed

lemma toy_start:
  "\<exists>dev' h'. tc_start_volume_thread toy_lib toy_print toy_mount_kernel dev toy_mount h = (Ok STATUS_SUCCESS, dev', h')"
proof -
  obtain ext' h' where o: "tc_open_volume toy_lib toy_print (nt_kernel.truncate toy_mount_kernel) (dev_ext dev)
     (thread_params (mount_request toy_request_result 0 False [0x76])) True True h = (Ok STATUS_SUCCESS, ext', h')"
    using toy_open by blast
  have "k_create_thread toy_mount_kernel h = (STATUS_SUCCESS, h)" for h
    by (simp add: toy_mount_kernel_def)
  then show ?thesis
    by (simp add: tc_start_volume_thread_def volume_thread_start_def Let_def toy_thread_block o io_queue_start_def case_prod_beta)
qed

lemma toy_mount_device:
  assumes "drv_root s = Some root" "rd_driver_object root = Some obj"
  shows "\<exists>s'. mount_device toy_lib toy_print toy_mount_kernel toy_mount d s = (Ok (ERR_SUCCESS, False), s')"
proof -
  have k: "k_create_device toy_mount_kernel name c h = ((STATUS_SUCCESS, if name = ROOT_DEVICE_NAME then 1 else 2), h)"
    "k_alloc toy_mount_kernel n h = (True, h)" "k_mountmgr toy_mount_kernel code input h = (Some STATUS_SUCCESS, h)"
    for name c h n code input
    by (simp_all add: toy_mount_kernel_def)
  have an: "fst (announce toy_print toy_mount_kernel dev d h) = Ok ()" for dev h
    by (simp add: announce_def bindS_def notify_volume_arrival_def create_mount_point_def send_mountmgr_ioctl_def k)
  obtain n s1 where nx: "next_volume_id (s \<lparr> drv_kernel := drv_kernel s \<rparr>) = (n, s1)"
    by fastforce
  define chars where "chars = FILE_DEVICE_SECURE_OPEN
      OR (if read_packed_u8 toy_mount (mount_offset ''mount_read_only'') \<noteq> 0 then FILE_READ_ONLY_DEVICE else 0)
      OR (if read_packed_u8 toy_mount (mount_offset ''mount_removable'') \<noteq> 0 then FILE_REMOVABLE_MEDIA else 0)"
  define addr :: u64 where "addr = (if volume_nt_name d = ROOT_DEVICE_NAME then 1 else 2)"
  obtain dev' h' where st: "tc_start_volume_thread toy_lib toy_print toy_mount_kernel (new_device addr chars n) toy_mount
      (drv_kernel s1) = (Ok STATUS_SUCCESS, dev', h')"
    using toy_start by blast
  obtain h2 where "announce toy_print toy_mount_kernel dev' d h' = (Ok (), h2)"
    using an [of dev' h'] by (metis prod.collapse)
  then show ?thesis
    unfolding mount_device_def Let_def assms(1) option.case k(1) prod.case addr_def [symmetric] chars_def [symmetric]
      nx k(2) st
    using assms(2) by simp
qed

definition toy_irp :: "u32 \<Rightarrow> bytes \<Rightarrow> IRP" where
  "toy_irp ioctl buf = \<lparr> irp_major = IRP_MJ_DEVICE_CONTROL, irp_byte_offset = 0, irp_length = 0, irp_mdl = None,
     irp_system_buffer = Some buf, irp_ioctl = ioctl, irp_in_len = of_nat (length buf), irp_out_len = of_nat (length buf),
     irp_io_status = None, irp_boosts = [] \<rparr>"

abbreviation "toy_reach \<equiv> drv_reach toy_lib toy_print toy_mount_kernel toy_root_ops set {}"

lemma toy_reached: "\<exists>s. toy_reach 1 s \<and> drv_ok toy_lib set {} s \<and> mounted s = {0}"
proof -
  define s0 where "s0 = snd (driver_entry toy_mount_kernel toy_root_ops 5 [])"
  have r0: "toy_reach 0 s0"
    unfolding s0_def by (rule reach_entry) simp
  have s0: "drv_volumes s0 = replicate MAX_DRIVE None" "drv_last_volume_id s0 = 0"
    "drv_root s0 = Some \<lparr> rd_address = 1, rd_reference_count = 0, rd_driver_object = Some 5,
       rd_flags = (DO_DEVICE_INITIALIZING OR DO_DIRECT_IO) AND NOT DO_DEVICE_INITIALIZING \<rparr>"
    by (simp_all add: s0_def driver_entry_def create_root_device_def initial_driver_def toy_mount_kernel_def
        toy_root_ops_def Let_def)
  have ok0: "drv_ok toy_lib set {} s0" "mounted s0 = {}"
    using driver_entry_ok(1) [OF toy_handles toy_root, where L = toy_lib and h = "[]" and obj = 5]
      driver_entry_ok(3) [OF toy_handles toy_root, where h = "[]" and obj = 5]
    by (simp_all add: s0_def)
  obtain s1 where m: "mount_device toy_lib toy_print toy_mount_kernel toy_mount 0 s0 = (Ok (ERR_SUCCESS, False), s1)"
    using toy_mount_device [of s0] s0(3) by fastforce
  have free: "drv_volumes s0 ! 0 = None" "0 < MAX_DRIVE" "drv_last_volume_id s0 + 1 < 2 ^ 31"
    by (simp_all add: s0 MAX_DRIVE_def)
  have "length toy_mount = 1110" "take 1110 toy_mount = toy_mount"
    using toy_request_bytes(1) by (simp_all add: toy_mount_def)
  then have "\<exists>irp'. handle_mount_volume toy_lib toy_print toy_mount_kernel (toy_irp TC_IOCTL_MOUNT_VOLUME toy_mount) s0 =
      (Ok STATUS_SUCCESS, irp', s1)"
    using m toy_drive free
    by (simp add: handle_mount_volume_def toy_irp_def Let_def is_drive_letter_available_def done_irp_def MAX_DRIVE_def)
  then have "\<exists>irp'. tc_dispatch_queue_irp toy_lib toy_print toy_mount_kernel 1 (toy_irp TC_IOCTL_MOUNT_VOLUME toy_mount) s0 =
      (Ok STATUS_SUCCESS, irp', s1)"
    by (simp add: tc_dispatch_queue_irp_def s0(3) dispatch_root_def process_root_device_irp_def
        process_root_device_ioctl_def toy_irp_def Let_def IRP_MJ_DEVICE_CONTROL_def IRP_MJ_CREATE_def IRP_MJ_CLOSE_def
        IRP_MJ_CLEANUP_def IRP_MJ_SHUTDOWN_def tc_ioctl_defs)
  then have "toy_reach (Suc 0) s1"
    using reach_request [OF r0] by blast
  then show ?thesis
    using drv_ok_mount(1,3) [OF toy_handles ok0(1) free(2,1,3) m] ok0(2) by auto
qed

definition toy_listed :: "unit driver" where
  "toy_listed = (initial_driver ()) \<lparr> drv_volumes := (replicate 26 None) [3 := Some (new_device 2 0 1)] \<rparr>"

section \<open>Properties\<close>

text \<open>
  C28: In every state the driver reaches within \<open>2^31\<close> requests, the drive table
  has 26 entries, each mounted volume is completely set up (its thread runs,
  its cipher is built, its geometry is in bounds), the volume numbers are
  positive and pairwise different, and the container handles that are open are
  those open at the start plus one of its own for each mounted volume: no
  request, failed or successful, leaks or shares a handle.
\<close>

theorem driver_state_invariant:
  assumes "handles_ok K opened" "root_ops_ok R opened" "drv_reach L dbg K R opened base n s" "n < 2 ^ 31"
  shows "length (drv_volumes s) = 26
    \<and> (\<forall>d \<in> mounted s. mounted_ok L (the (drv_volumes s ! d)) \<and> 0 < vid s d \<and> holds s d \<noteq> None)
    \<and> inj_on (vid s) (mounted s) \<and> inj_on (holds s) (mounted s)
    \<and> opened (drv_kernel s) = base \<union> {a. \<exists>d \<in> mounted s. holds s d = Some a}
    \<and> (\<forall>d \<in> mounted s. \<forall>a \<in> base. holds s d \<noteq> Some a)"
proof -
  have ok: "drv_ok L opened base s"
    using reach_invariant [OF assms] by blast
  moreover have "holds s d \<noteq> None" if "d \<in> mounted s" for d
    using ok that by (auto simp: drv_ok_def mounted_ok_def holds_def opened_ok_def)
  ultimately show ?thesis
    by (simp add: drv_ok_def MAX_DRIVE_def)
qed

theorem driver_state_invariant_witness:
  "\<exists>s a. toy_reach 1 s \<and> mounted s = {0} \<and> holds s 0 = Some a \<and> set (drv_kernel s) = {a}
    \<and> mounted_ok toy_lib (the (drv_volumes s ! 0))"
proof -
  obtain s where s: "toy_reach 1 s" "mounted s = {0}"
    using toy_reached by blast
  from driver_state_invariant [OF toy_handles toy_root s(1)] s show ?thesis
    by auto
qed

text \<open>
  C29: Unmounting all volumes takes 26 rounds and unmounts every mounted volume,
  the one mounted last first: the effect is that of unmounting the drives one
  by one in descending order of their volume numbers. When the request
  returns, no volume is mounted and only the handles open at the start are open.
\<close>

theorem unmount_all_descending:
  assumes "handles_ok K opened" "drv_ok L opened base s"
  shows "(\<exists>ds. set ds = mounted s \<and> distinct ds \<and> sorted_wrt (\<lambda>a b. vid s b < vid s a) ds
      \<and> unmount_rounds dbg K (volume_ids (drv_volumes s)) MAX_DRIVE s = unmount_each dbg K ds s)
    \<and> (\<forall>irp st irp' s'. handle_unmount_all_volumes dbg K irp s = (Ok st, irp', s') \<longrightarrow>
        mounted s' = {} \<and> opened (drv_kernel s') = base)"
proof -
  have len: "length (drv_volumes s) = MAX_DRIVE"
    using assms(2) by (simp add: drv_ok_def)
  have v: "volume_ids (drv_volumes s) ! d = vid s d" if "d \<in> mounted s" for d
    using that len by (auto simp: mounted_def volume_ids_def vid_def)
  have "card (mounted s) \<le> MAX_DRIVE"
    using card_mono [of "{..<MAX_DRIVE}" "mounted s"] by (auto simp: mounted_def)
  moreover have "inj_on ((!) (volume_ids (drv_volumes s))) (mounted s)" "\<forall>d \<in> mounted s. 0 \<le> volume_ids (drv_volumes s) ! d"
    using assms(2) v by (auto simp: drv_ok_def inj_on_def)
  ultimately obtain ds where ds: "set ds = mounted s" "distinct ds"
    "sorted_wrt (\<lambda>a b. volume_ids (drv_volumes s) ! b < volume_ids (drv_volumes s) ! a) ds"
    "unmount_rounds dbg K (volume_ids (drv_volumes s)) MAX_DRIVE s = unmount_each dbg K ds s"
    using unmount_rounds_descending [OF len] by blast
  have "sorted_wrt (\<lambda>a b. vid s b < vid s a) ds"
    by (rule sorted_wrt_mono_rel [OF _ ds(3)]) (use ds(1) v in auto)
  moreover have "mounted s' = {} \<and> opened (drv_kernel s') = base"
    if "handle_unmount_all_volumes dbg K irp s = (Ok st, irp', s')" for irp st irp' s'
  proof -
    from that have r: "unmount_rounds dbg K (volume_ids (drv_volumes s)) MAX_DRIVE s = (Ok (), s')"
      by (auto simp: handle_unmount_all_volumes_def done_irp_def split: prod.splits res.splits)
    then have "mounted s' = {}"
      using unmount_each_table [of dbg K ds s s'] ds(1,4) len by simp
    moreover have "drv_ok L opened base s'"
      using unmount_rounds_ok [OF assms r] by blast
    ultimately show ?thesis
      by (simp add: drv_ok_def)
  qed
  ultimately show ?thesis
    using ds by blast
qed

theorem unmount_all_descending_witness:
  "\<exists>s. toy_reach 1 s \<and> mounted s = {0} \<and> (\<forall>irp st irp' s'.
     handle_unmount_all_volumes toy_print toy_mount_kernel irp s = (Ok st, irp', s') \<longrightarrow> mounted s' = {} \<and> drv_kernel s' = [])"
proof -
  obtain s where s: "toy_reach 1 s" "drv_ok toy_lib set {} s" "mounted s = {0}"
    using toy_reached by blast
  from unmount_all_descending [OF toy_handles s(2), of toy_print] s(1,3) show ?thesis
    by auto
qed

text \<open>With the printing routine as it stands, no request fills the drive table.\<close>

lemma kdbg_table_empty:
  assumes "drv_reach L kdbg_status K R opened base n s"
  shows "mounted s = {}"
proof -
  have tbl: "unmount_rounds dbg K ids k s = (r, s') \<Longrightarrow> drv_volumes s = replicate MAX_DRIVE None \<Longrightarrow>
      drv_volumes s' = replicate MAX_DRIVE None" for dbg ids k r s s'
    using unmount_rounds_idle [of s dbg K ids k] by (auto simp: mounted_def)
  have stop: "fold (stop_volume K) xs s = s" if "drv_volumes s = replicate MAX_DRIVE None" "set xs \<subseteq> {..<MAX_DRIVE}" for xs s
    using that by (induction xs) (auto simp: stop_volume_def)
  have "drv_volumes s = replicate MAX_DRIVE None"
    using assms
  proof (induction rule: drv_reach.induct)
    case (reach_entry h obj)
    then show ?case
      by (auto simp: driver_entry_def create_root_device_def initial_driver_def Let_def split: prod.split)
  next
    case (reach_request n s device_object irp status irp' s')
    note v = reach_request.IH
    have "drv_volumes s' = drv_volumes s" if "handle_mount_volume L kdbg_status K irp s = (Ok status, irp', s')"
      using that by (auto simp: handle_mount_volume_def Let_def done_irp_def split: if_splits option.splits prod.splits
          res.splits dest: mount_device_kdbg)
    moreover have "drv_volumes s' = drv_volumes s" if "handle_unmount_volume kdbg_status K irp s = (Ok status, irp', s')"
      using that v by (auto simp: handle_unmount_volume_def Let_def done_irp_def unmount_device_def
          split: if_splits option.splits prod.splits res.splits)
    moreover have "drv_volumes s' = drv_volumes s" if "handle_unmount_all_volumes kdbg_status K irp s = (Ok status, irp', s')"
      using that v by (auto simp: handle_unmount_all_volumes_def done_irp_def split: prod.splits res.splits dest: tbl)
    moreover have "stop_all K s = s"
      using v stop [of s "[0..<MAX_DRIVE]"] by (simp add: stop_all_def atLeast0LessThan)
    ultimately show ?case
      using reach_request.hyps(2) v
      by (auto simp: tc_dispatch_queue_irp_def dispatch_root_def process_root_device_irp_def
          process_root_device_ioctl_def handle_get_mounted_volumes_def Let_def done_irp_def
          split: if_splits option.splits dest: reply_bytes_state)
  qed simp
  then show ?thesis
    by (auto simp: mounted_def)
qed

text \<open>
  C32: As the code stands, no volume is ever mounted: whatever the kernel
  answers and whatever requests arrive, the drive table stays empty, because
  mounting prints a status and the status printer panics.
\<close>

theorem no_volume_ever_mounted:
  assumes "drv_reach L kdbg_status K R opened base n s"
  shows "mounted s = {} \<and> (\<forall>m d rc b s'. mount_device L kdbg_status K m d s = (Ok (rc, b), s') \<longrightarrow> rc \<noteq> ERR_SUCCESS)"
  using kdbg_table_empty [OF assms] mount_device_kdbg by blast

theorem no_volume_ever_mounted_witness:
  "mounted (snd (driver_entry toy_mount_kernel toy_root_ops 5 [])) = {}"
proof -
  have "drv_reach toy_lib kdbg_status toy_mount_kernel toy_root_ops set {} 0
      (snd (driver_entry toy_mount_kernel toy_root_ops 5 []))"
    by (rule reach_entry) simp
  then show ?thesis
    using no_volume_ever_mounted by blast
qed

text \<open>
  C33: The list of mounted volumes is right: bit \<open>d\<close> of its mask is set exactly
  when drive \<open>d\<close> is mounted, whatever the buffer held before, the entry of a
  mounted drive holds the length of its disk, and the state does not change.
\<close>

theorem mounted_list_correct:
  assumes "irp_system_buffer irp = Some buf" "MOUNT_LIST_SIZE \<le> length buf" "MOUNT_LIST_SIZE \<le> unat (irp_out_len irp)"
    "\<forall>d \<in> mounted s. length (volume_id (dev_ext (the (drv_volumes s ! d)))) = 32"
  shows "\<exists>irp' buf'. handle_get_mounted_volumes irp s = (Ok STATUS_SUCCESS, irp', s) \<and> irp_system_buffer irp' = Some buf'
    \<and> length buf' = length buf \<and> {d. d < 26 \<and> bit (list_mask buf') d} = mounted s
    \<and> (\<forall>d \<in> mounted s. list_length_at buf' d = disk_length (dev_ext (the (drv_volumes s ! d))))"
proof -
  let ?buf = "fold (list_entry (drv_volumes s)) [0..<MAX_DRIVE] buf"
  have "\<forall>i < MAX_DRIVE. \<forall>dev. drv_volumes s ! i = Some dev \<longrightarrow> length (volume_id (dev_ext dev)) \<le> 32"
    using assms(4) by (force simp: mounted_def)
  note e = list_entries_effect [OF order_refl assms(2) this]
  have "handle_get_mounted_volumes irp s =
      (Ok STATUS_SUCCESS, complete_irp (irp \<lparr> irp_system_buffer := Some ?buf \<rparr>) STATUS_SUCCESS MOUNT_LIST_SIZE, s)"
    using assms(1,3) by (simp add: handle_get_mounted_volumes_def done_irp_def Let_def)
  moreover have "{d. d < 26 \<and> bit (list_mask ?buf) d} = mounted s"
    using e(2) by (auto simp: mounted_def MAX_DRIVE_def)
  moreover have "list_length_at ?buf d = disk_length (dev_ext (the (drv_volumes s ! d)))" if "d \<in> mounted s" for d
    using that e(3) by (auto simp: mounted_def)
  ultimately show ?thesis
    using e(1) by (auto simp: complete_irp_def)
qed

theorem mounted_list_correct_witness:
  "\<exists>irp' buf'. handle_get_mounted_volumes (toy_irp 0 (replicate 16520 255)) toy_listed =
      (Ok STATUS_SUCCESS, irp', toy_listed) \<and> irp_system_buffer irp' = Some buf' \<and> {d. d < 26 \<and> bit (list_mask buf') d} = {3}"
proof -
  have m: "mounted toy_listed = {3}" "drv_volumes toy_listed ! 3 = Some (new_device 2 0 1)"
    by (auto simp: mounted_def toy_listed_def MAX_DRIVE_def nth_list_update split: if_splits)
  have "length (volume_id (dev_ext (new_device 2 0 1))) = 32"
    by (simp add: new_device_def zero_device_def zero_extension_def Let_def)
  with m mounted_list_correct [of "toy_irp 0 (replicate 16520 255)" "replicate 16520 255" toy_listed]
  show ?thesis
    by (auto simp: toy_irp_def MOUNT_LIST_SIZE_def)
qed

end
