(* ===== verification/VolIoctl.thy ===== *)
theory VolIoctl
  imports VolThread
begin

text \<open>
  Control requests to a volume device (\<open>volume_ioctl.rs\<close>): geometry, partition,
  storage and mount-device queries. The replies are built in the system buffer,
  field by field at the offsets of the C structures.
\<close>

section \<open>Codes\<close>

definition IOCTL_DISK_GET_DRIVE_GEOMETRY :: u32 where "IOCTL_DISK_GET_DRIVE_GEOMETRY = 0x00070000"
definition IOCTL_DISK_GET_DRIVE_GEOMETRY_EX :: u32 where "IOCTL_DISK_GET_DRIVE_GEOMETRY_EX = 0x00070070"
definition IOCTL_DISK_GET_LENGTH_INFO :: u32 where "IOCTL_DISK_GET_LENGTH_INFO = 0x00074050"
definition IOCTL_DISK_GET_PARTITION_INFO :: u32 where "IOCTL_DISK_GET_PARTITION_INFO = 0x00074004"
definition IOCTL_DISK_IS_WRITABLE :: u32 where "IOCTL_DISK_IS_WRITABLE = 0x00070054"
definition IOCTL_DISK_UPDATE_PROPERTIES :: u32 where "IOCTL_DISK_UPDATE_PROPERTIES = 0x00070060"
definition IOCTL_DISK_UPDATE_DRIVE_SIZE :: u32 where "IOCTL_DISK_UPDATE_DRIVE_SIZE = 0x000703F0"
definition IOCTL_STORAGE_CHECK_VERIFY :: u32 where "IOCTL_STORAGE_CHECK_VERIFY = 0x002d4800"
definition IOCTL_STORAGE_CHECK_VERIFY2 :: u32 where "IOCTL_STORAGE_CHECK_VERIFY2 = 0x002d1080"
definition IOCTL_DISK_CHECK_VERIFY :: u32 where "IOCTL_DISK_CHECK_VERIFY = 0x00074004"
definition IOCTL_STORAGE_GET_DEVICE_NUMBER :: u32 where "IOCTL_STORAGE_GET_DEVICE_NUMBER = 0x002d1080"
definition IOCTL_VOLUME_GET_VOLUME_DISK_EXTENTS :: u32 where "IOCTL_VOLUME_GET_VOLUME_DISK_EXTENTS = 0x00560000"
definition IOCTL_VOLUME_ONLINE :: u32 where "IOCTL_VOLUME_ONLINE = 0x0056C000"
definition IOCTL_VOLUME_POST_ONLINE :: u32 where "IOCTL_VOLUME_POST_ONLINE = 0x0056C008"
definition IOCTL_DISK_VERIFY :: u32 where "IOCTL_DISK_VERIFY = 0x00070014"
definition IOCTL_DISK_GET_PARTITION_INFO_EX :: u32 where "IOCTL_DISK_GET_PARTITION_INFO_EX = 0x00074008"
definition IOCTL_STORAGE_QUERY_PROPERTY :: u32 where "IOCTL_STORAGE_QUERY_PROPERTY = 0x002D1400"
definition FSCTL_DISMOUNT_VOLUME :: u32 where "FSCTL_DISMOUNT_VOLUME = 0x00090020"
definition FSCTL_LOCK_VOLUME :: u32 where "FSCTL_LOCK_VOLUME = 0x00090018"
definition FSCTL_UNLOCK_VOLUME :: u32 where "FSCTL_UNLOCK_VOLUME = 0x0009001C"
definition FSCTL_IS_VOLUME_MOUNTABLE :: u32 where "FSCTL_IS_VOLUME_MOUNTABLE = 0x00090028"
definition IOCTL_DISK_GET_MEDIA_TYPES_EX :: u32 where "IOCTL_DISK_GET_MEDIA_TYPES_EX = 0x0007007C"
definition IOCTL_DISK_GET_DRIVE_LAYOUT :: u32 where "IOCTL_DISK_GET_DRIVE_LAYOUT = 0x0007400C"
definition IOCTL_DISK_MEDIA_REMOVAL :: u32 where "IOCTL_DISK_MEDIA_REMOVAL = 0x000D0E00"
definition IOCTL_STORAGE_MEDIA_REMOVAL :: u32 where "IOCTL_STORAGE_MEDIA_REMOVAL = 0x002D0C10"
definition IOCTL_VOLUME_GET_VOLUME_DISK_EXTENTS_EX :: u32 where "IOCTL_VOLUME_GET_VOLUME_DISK_EXTENTS_EX = 0x00560010"
definition IOCTL_VOLUME_QUERY_VOLUME_INFORMATION :: u32 where "IOCTL_VOLUME_QUERY_VOLUME_INFORMATION = 0x00560008"
definition IOCTL_VOLUME_LOGICAL_TO_PHYSICAL :: u32 where "IOCTL_VOLUME_LOGICAL_TO_PHYSICAL = 0x00560004"
definition IOCTL_VOLUME_PHYSICAL_TO_LOGICAL :: u32 where "IOCTL_VOLUME_PHYSICAL_TO_LOGICAL = 0x0056000C"
definition IOCTL_VOLUME_IS_CLUSTER_CAPABLE :: u32 where "IOCTL_VOLUME_IS_CLUSTER_CAPABLE = 0x00560018"
definition IOCTL_MOUNTDEV_QUERY_DEVICE_NAME :: u32 where "IOCTL_MOUNTDEV_QUERY_DEVICE_NAME = 0x004D0008"
definition IOCTL_MOUNTDEV_QUERY_UNIQUE_ID :: u32 where "IOCTL_MOUNTDEV_QUERY_UNIQUE_ID = 0x004D0000"
definition IOCTL_MOUNTDEV_QUERY_SUGGESTED_LINK_NAME :: u32 where "IOCTL_MOUNTDEV_QUERY_SUGGESTED_LINK_NAME = 0x004D0010"
definition IOCTL_DISK_GET_CLUSTER_INFO :: u32 where "IOCTL_DISK_GET_CLUSTER_INFO = 0x000703EC"
definition IOCTL_STORAGE_MANAGE_DATA_SET_ATTRIBUTES :: u32 where "IOCTL_STORAGE_MANAGE_DATA_SET_ATTRIBUTES = 0x002d2044"
definition StorageDeviceProperty :: u32 where "StorageDeviceProperty = 0"
definition StorageDeviceSeekPenaltyProperty :: u32 where "StorageDeviceSeekPenaltyProperty = 4"
definition StorageAccessAlignmentProperty :: u32 where "StorageAccessAlignmentProperty = 5"
definition StorageDeviceTrimProperty :: u32 where "StorageDeviceTrimProperty = 8"
definition PropertyExistsQuery :: u32 where "PropertyExistsQuery = 1"
definition BusTypeFileBackedVirtual :: u32 where "BusTypeFileBackedVirtual = 0x15"
definition FixedMedia :: u32 where "FixedMedia = 12"
definition RemovableMedia :: u32 where "RemovableMedia = 11"
definition PARTITION_STYLE_MBR :: u32 where "PARTITION_STYLE_MBR = 0"
definition STATUS_BUFFER_OVERFLOW :: u32 where "STATUS_BUFFER_OVERFLOW = 0x80000005"
definition STATUS_NOT_IMPLEMENTED :: u32 where "STATUS_NOT_IMPLEMENTED = 0xC0000002"
definition STATUS_NOT_SUPPORTED :: u32 where "STATUS_NOT_SUPPORTED = 0xC000003B"
definition FILE_DEVICE_DISK :: u32 where "FILE_DEVICE_DISK = 0x07"

lemmas volume_code_defs = IOCTL_DISK_GET_DRIVE_GEOMETRY_def IOCTL_DISK_GET_DRIVE_GEOMETRY_EX_def IOCTL_DISK_GET_LENGTH_INFO_def IOCTL_DISK_GET_PARTITION_INFO_def
  IOCTL_DISK_IS_WRITABLE_def IOCTL_DISK_UPDATE_PROPERTIES_def IOCTL_DISK_UPDATE_DRIVE_SIZE_def IOCTL_STORAGE_CHECK_VERIFY_def
  IOCTL_STORAGE_CHECK_VERIFY2_def IOCTL_DISK_CHECK_VERIFY_def IOCTL_STORAGE_GET_DEVICE_NUMBER_def IOCTL_VOLUME_GET_VOLUME_DISK_EXTENTS_def
  IOCTL_VOLUME_ONLINE_def IOCTL_VOLUME_POST_ONLINE_def IOCTL_DISK_VERIFY_def IOCTL_DISK_GET_PARTITION_INFO_EX_def
  IOCTL_STORAGE_QUERY_PROPERTY_def FSCTL_DISMOUNT_VOLUME_def FSCTL_LOCK_VOLUME_def FSCTL_UNLOCK_VOLUME_def
  FSCTL_IS_VOLUME_MOUNTABLE_def IOCTL_DISK_GET_MEDIA_TYPES_EX_def IOCTL_DISK_GET_DRIVE_LAYOUT_def IOCTL_DISK_MEDIA_REMOVAL_def
  IOCTL_STORAGE_MEDIA_REMOVAL_def IOCTL_VOLUME_GET_VOLUME_DISK_EXTENTS_EX_def IOCTL_VOLUME_QUERY_VOLUME_INFORMATION_def IOCTL_VOLUME_LOGICAL_TO_PHYSICAL_def
  IOCTL_VOLUME_PHYSICAL_TO_LOGICAL_def IOCTL_VOLUME_IS_CLUSTER_CAPABLE_def IOCTL_MOUNTDEV_QUERY_DEVICE_NAME_def IOCTL_MOUNTDEV_QUERY_UNIQUE_ID_def
  IOCTL_MOUNTDEV_QUERY_SUGGESTED_LINK_NAME_def IOCTL_DISK_GET_CLUSTER_INFO_def IOCTL_STORAGE_MANAGE_DATA_SET_ATTRIBUTES_def StorageDeviceProperty_def
  StorageDeviceSeekPenaltyProperty_def StorageAccessAlignmentProperty_def StorageDeviceTrimProperty_def PropertyExistsQuery_def
  BusTypeFileBackedVirtual_def FixedMedia_def RemovableMedia_def PARTITION_STYLE_MBR_def
  STATUS_BUFFER_OVERFLOW_def STATUS_NOT_IMPLEMENTED_def STATUS_NOT_SUPPORTED_def FILE_DEVICE_DISK_def

section \<open>Replies\<close>

text \<open>
  A reply of \<open>sz\<close> bytes, refused with the status for small buffers when the
  caller's buffer is shorter; \<open>need\<close> is where the writes end, and a system
  buffer that does not reach so far is a memory fault.
\<close>

definition fill :: "IRP \<Rightarrow> nat \<Rightarrow> nat \<Rightarrow> (bytes \<Rightarrow> bytes) \<Rightarrow> (unit, IRP) res" where
  "fill irp sz need write =
     (if unat (irp_out_len irp) < sz then Ok (complete_disk_irp irp STATUS_BUFFER_TOO_SMALL sz)
      else (case irp_system_buffer irp of
          None \<Rightarrow> Panic
        | Some buf \<Rightarrow> if length buf < need then Panic
            else Ok (complete_disk_irp (irp \<lparr> irp_system_buffer := Some (write buf) \<rparr>) STATUS_SUCCESS sz)))"

definition finish_irp :: "IRP \<Rightarrow> NTSTATUS \<Rightarrow> (unit, IRP) res" where
  "finish_irp irp status = Ok (complete_disk_irp irp status 0)"

definition media_type :: "Extension \<Rightarrow> u32" where
  "media_type ext = (if b_removable ext then RemovableMedia else FixedMedia)"

text \<open>\<open>DISK_GEOMETRY\<close>: cylinders, media type, tracks per cylinder, sectors per track, bytes per sector.\<close>

definition put_geometry :: "Extension \<Rightarrow> bytes \<Rightarrow> bytes" where
  "put_geometry ext buf =
     (let buf = blit buf 8 (le_bytes 4 (media_type ext));
          buf = blit buf 0 (le_bytes 8 (number_of_cylinders ext));
          buf = blit buf 12 (le_bytes 4 (tracks_per_cylinder ext));
          buf = blit buf 16 (le_bytes 4 (sectors_per_track ext))
      in blit buf 20 (le_bytes 4 (bytes_per_sector ext)))"

definition put_geometry_ex :: "Extension \<Rightarrow> bytes \<Rightarrow> bytes" where
  "put_geometry_ex ext buf =
     (let buf = blit buf 0 (replicate 32 0); buf = put_geometry ext buf
      in blit buf 24 (le_bytes 8 (disk_length ext + 1024 * 1024)))"

text \<open>\<open>PARTITION_INFORMATION\<close> at an offset.\<close>

definition put_partition :: "Extension \<Rightarrow> nat \<Rightarrow> bytes \<Rightarrow> bytes" where
  "put_partition ext a buf =
     (let buf = blit buf a (le_bytes 8 (0 :: u64));
          buf = blit buf (a + 8) (le_bytes 8 (disk_length ext));
          buf = blit buf (a + 16) (le_bytes 4 (0 :: u32));
          buf = blit buf (a + 20) (le_bytes 4 (1 :: u32))
      in blit buf (a + 24) [7, 0, 1, 0])"

definition put_partition_ex :: "Extension \<Rightarrow> bytes \<Rightarrow> bytes" where
  "put_partition_ex ext buf =
     (let buf = blit buf 0 (replicate 64 0);
          buf = blit buf 0 (le_bytes 4 PARTITION_STYLE_MBR);
          buf = blit buf 8 (le_bytes 8 (0 :: u64));
          buf = blit buf 16 (le_bytes 8 (disk_length ext));
          buf = blit buf 24 (le_bytes 4 (1 :: u32));
          buf = blit buf 28 [0, 0];
          buf = blit buf 32 (le_bytes 4 (7 :: u32));
          buf = blit buf 36 [0, 1]
      in blit buf 40 (le_bytes 4 (0 :: u32)))"

definition put_device_number :: "Extension \<Rightarrow> bytes \<Rightarrow> bytes" where
  "put_device_number ext buf =
     (let buf = blit buf 0 (le_bytes 4 FILE_DEVICE_DISK); buf = blit buf 4 (le_bytes 4 (host_device_number ext))
      in blit buf 8 (le_bytes 4 (0xFFFFFFFF :: u32)))"

definition put_extents :: "Extension \<Rightarrow> bytes \<Rightarrow> bytes" where
  "put_extents ext buf =
     (let buf = blit buf 0 (le_bytes 4 (1 :: u32));
          buf = blit buf 8 (le_bytes 4 (host_device_number ext));
          buf = blit buf 16 (le_bytes 8 (1024 * 1024 :: u64))
      in blit buf 24 (le_bytes 8 (disk_length ext)))"

definition put_layout :: "Extension \<Rightarrow> bytes \<Rightarrow> bytes" where
  "put_layout ext buf =
     (let buf = blit buf 0 (le_bytes 4 (1 :: u32)); buf = blit buf 4 (le_bytes 4 (0 :: u32))
      in put_partition ext 8 buf)"

definition put_device_descriptor :: "Extension \<Rightarrow> bytes \<Rightarrow> bytes" where
  "put_device_descriptor ext buf =
     (let sz = 36; buf = blit buf 0 (replicate sz 0);
          buf = blit buf 0 (le_bytes 4 (of_nat sz :: u32));
          buf = blit buf 4 (le_bytes 4 (of_nat sz :: u32));
          buf = blit buf 8 [ucast FILE_DEVICE_DISK, 0, if b_removable ext then 1 else 0]
      in blit buf 28 (le_bytes 4 BusTypeFileBackedVirtual))"

definition put_alignment :: "Extension \<Rightarrow> bytes \<Rightarrow> bytes" where
  "put_alignment ext buf =
     (let buf = blit buf 0 (le_bytes 4 (24 :: u32)); buf = blit buf 4 (le_bytes 4 (24 :: u32));
          buf = blit buf 8 (le_bytes 4 (bytes_per_sector ext));
          buf = blit buf 12 (le_bytes 4 (host_bytes_per_physical_sector ext))
      in blit buf 16 (le_bytes 4 (0 :: u32)))"

definition put_flag :: "u32 \<Rightarrow> bool \<Rightarrow> bytes \<Rightarrow> bytes" where
  "put_flag sz flag buf =
     (let buf = blit buf 0 (le_bytes 4 sz); buf = blit buf 4 (le_bytes 4 sz) in blit buf 8 [of_bool flag])"

section \<open>Storage properties\<close>

definition query_property :: "Extension \<Rightarrow> IRP \<Rightarrow> (unit, IRP) res" where
  "query_property ext irp = (case irp_system_buffer irp of
      None \<Rightarrow> finish_irp irp STATUS_INVALID_PARAMETER
    | Some buf \<Rightarrow>
      if unat (irp_in_len irp) < 12 then finish_irp irp STATUS_INVALID_PARAMETER
      else
        let prop_id = from_le (sub buf 0 4) :: u32; query_type = from_le (sub buf 4 8) :: u32 in
        if prop_id = StorageDeviceProperty then fill irp 36 36 (put_device_descriptor ext)
        else if prop_id = StorageAccessAlignmentProperty then fill irp 24 20 (put_alignment ext)
        else if prop_id = StorageDeviceSeekPenaltyProperty then fill irp 12 9 (put_flag 12 (host_incurs_seek_penalty ext))
        else if prop_id = StorageDeviceTrimProperty then fill irp 8 9 (put_flag 8 (host_trim_enabled ext))
        else if query_type = PropertyExistsQuery then finish_irp irp STATUS_SUCCESS
        else finish_irp irp STATUS_NOT_IMPLEMENTED)"

section \<open>Mount-device names\<close>

text \<open>A variable-length reply: \<open>head\<close> bytes, then the name; both checks fail with their own status.\<close>

definition fill_name :: "IRP \<Rightarrow> nat \<Rightarrow> NTSTATUS \<times> nat \<Rightarrow> bytes \<Rightarrow> bytes \<Rightarrow> (unit, IRP) res" where
  "fill_name irp minsz short head name =
     (let out_len = unat (irp_out_len irp); out_sz = length head + length name in
      if out_len < minsz then Ok (complete_disk_irp irp (fst short) (snd short))
      else if out_len < out_sz then Ok (complete_disk_irp irp STATUS_BUFFER_OVERFLOW minsz)
      else (case irp_system_buffer irp of
          None \<Rightarrow> Panic
        | Some buf \<Rightarrow> if length buf < out_sz then Panic
            else Ok (complete_disk_irp (irp \<lparr> irp_system_buffer := Some (blit (blit buf 0 head) (length head) name) \<rparr>)
                   STATUS_SUCCESS out_sz)))"

definition drive_index :: "Extension \<Rightarrow> nat" where
  "drive_index ext = unat (word_of_int (n_dos_drive_no ext) :: u64)"

definition query_device_name :: "Extension \<Rightarrow> IRP \<Rightarrow> (unit, IRP) res" where
  "query_device_name ext irp =
     (let nt_name = volume_nt_name (drive_index ext); name_len = wcslen nt_name
      in fill_name irp 4 (STATUS_BUFFER_OVERFLOW, 4) (le_bytes 2 (of_nat (name_len * 2) :: u16))
           (wide_bytes (take name_len nt_name)))"

definition query_unique_id :: "Extension \<Rightarrow> IRP \<Rightarrow> (unit, IRP) res" where
  "query_unique_id ext irp =
     (let drive_letter = of_char (CHR ''A'') + word_of_int (n_dos_drive_no ext) :: u8;
          ident = ascii ''OxhideVolume'' @ [drive_letter]; id_len = length ident
      in fill_name irp 4 (STATUS_BUFFER_OVERFLOW, 4) (le_bytes 2 (of_nat id_len :: u16)) ident)"

definition query_suggested_link :: "Extension \<Rightarrow> IRP \<Rightarrow> (unit, IRP) res" where
  "query_suggested_link ext irp =
     (let dos_name = volume_dos_name (drive_index ext); name_len = wcslen dos_name;
          keep = (case irp_system_buffer irp of Some buf \<Rightarrow> sub buf 1 2 | None \<Rightarrow> [0])
      in fill_name irp 6 (STATUS_INVALID_PARAMETER, 0) ([0] @ keep @ le_bytes 2 (of_nat (name_len * 2) :: u16))
           (wide_bytes (take name_len dos_name)))"
section \<open>The dispatcher\<close>

text \<open>
  The arms of \<open>process_volume_device_control\<close> in their order. Two pairs of
  constants have the same value, so the check-verify arm takes the requests for
  the device number and the partition arm those for a disk's check-verify.
\<close>

definition process_volume_device_control :: "Extension \<Rightarrow> IRP \<Rightarrow> (unit, IRP) res" where
  "process_volume_device_control ext irp =
     (let ioctl = irp_ioctl irp in
      if ioctl = IOCTL_DISK_GET_DRIVE_GEOMETRY then fill irp 24 24 (put_geometry ext)
      else if ioctl = IOCTL_DISK_GET_DRIVE_GEOMETRY_EX then fill irp 32 32 (put_geometry_ex ext)
      else if ioctl = IOCTL_DISK_GET_LENGTH_INFO then fill irp 8 8 (\<lambda>buf. blit buf 0 (le_bytes 8 (disk_length ext)))
      else if ioctl = IOCTL_DISK_GET_PARTITION_INFO then fill irp 32 28 (put_partition ext 0)
      else if ioctl = IOCTL_DISK_IS_WRITABLE
        then finish_irp irp (if b_read_only ext then STATUS_MEDIA_WRITE_PROTECTED else STATUS_SUCCESS)
      else if ioctl \<in> {IOCTL_DISK_UPDATE_PROPERTIES, IOCTL_DISK_UPDATE_DRIVE_SIZE} then finish_irp irp STATUS_SUCCESS
      else if ioctl \<in> {IOCTL_STORAGE_CHECK_VERIFY, IOCTL_STORAGE_CHECK_VERIFY2, IOCTL_DISK_CHECK_VERIFY}
        then finish_irp irp STATUS_SUCCESS
      else if ioctl = IOCTL_STORAGE_GET_DEVICE_NUMBER then fill irp 12 12 (put_device_number ext)
      else if ioctl = IOCTL_VOLUME_GET_VOLUME_DISK_EXTENTS then fill irp 32 32 (put_extents ext)
      else if ioctl \<in> {IOCTL_VOLUME_ONLINE, IOCTL_VOLUME_POST_ONLINE} then finish_irp irp STATUS_SUCCESS
      else if ioctl = IOCTL_DISK_VERIFY then finish_irp irp STATUS_SUCCESS
      else if ioctl = IOCTL_DISK_GET_PARTITION_INFO_EX then fill irp 64 64 (put_partition_ex ext)
      else if ioctl = IOCTL_STORAGE_QUERY_PROPERTY then query_property ext irp
      else if ioctl \<in> {FSCTL_DISMOUNT_VOLUME, FSCTL_LOCK_VOLUME, FSCTL_UNLOCK_VOLUME, FSCTL_IS_VOLUME_MOUNTABLE}
        then finish_irp irp STATUS_SUCCESS
      else if ioctl = IOCTL_DISK_GET_MEDIA_TYPES_EX then finish_irp irp STATUS_SUCCESS
      else if ioctl = IOCTL_DISK_GET_DRIVE_LAYOUT then fill irp 40 36 (put_layout ext)
      else if ioctl \<in> {IOCTL_DISK_MEDIA_REMOVAL, IOCTL_STORAGE_MEDIA_REMOVAL}
        then finish_irp irp (if b_removable ext then STATUS_SUCCESS else STATUS_INVALID_DEVICE_REQUEST)
      else if ioctl \<in> {IOCTL_VOLUME_GET_VOLUME_DISK_EXTENTS_EX, IOCTL_VOLUME_QUERY_VOLUME_INFORMATION,
          IOCTL_VOLUME_LOGICAL_TO_PHYSICAL, IOCTL_VOLUME_PHYSICAL_TO_LOGICAL, IOCTL_VOLUME_IS_CLUSTER_CAPABLE}
        then finish_irp irp STATUS_SUCCESS
      else if ioctl = IOCTL_MOUNTDEV_QUERY_DEVICE_NAME then query_device_name ext irp
      else if ioctl = IOCTL_MOUNTDEV_QUERY_UNIQUE_ID then query_unique_id ext irp
      else if ioctl = IOCTL_MOUNTDEV_QUERY_SUGGESTED_LINK_NAME then query_suggested_link ext irp
      else if ioctl = IOCTL_DISK_GET_CLUSTER_INFO then finish_irp irp STATUS_NOT_SUPPORTED
      else if ioctl = IOCTL_STORAGE_MANAGE_DATA_SET_ATTRIBUTES then finish_irp irp STATUS_SUCCESS
      else finish_irp irp STATUS_INVALID_DEVICE_REQUEST)"

section \<open>Every control request is completed once\<close>

text \<open>
  A trim query with room for eight bytes: its flag is the ninth byte of the
  reply, past the room the caller gave.
\<close>

definition short_trim_query :: "IRP \<Rightarrow> bool" where
  "short_trim_query irp \<longleftrightarrow> irp_ioctl irp = IOCTL_STORAGE_QUERY_PROPERTY \<and> irp_out_len irp = 8 \<and>
     (\<exists>buf. irp_system_buffer irp = Some buf \<and> from_le (sub buf 0 4) = StorageDeviceTrimProperty)"

definition reply_room :: "IRP \<Rightarrow> nat" where
  "reply_room irp = (if short_trim_query irp then 9 else unat (irp_out_len irp))"

lemma reply_room_ge: "unat (irp_out_len irp) \<le> reply_room irp"
  by (simp add: reply_room_def short_trim_query_def)

text \<open>
  \<open>answered irp r\<close>: the handler returned, and the packet was completed exactly
  once, with the boost that fits its status; a success returns no more bytes
  than the caller has room for and leaves the buffer past that room as it was,
  a failure writes nothing.
\<close>

definition answered :: "IRP \<Rightarrow> (unit, IRP) res \<Rightarrow> bool" where
  "answered irp r \<longleftrightarrow> (\<exists>irp' status info. r = Ok irp' \<and> irp_io_status irp' = Some (status, info) \<and>
     irp_boosts irp' = (if NT_SUCCESS status then IO_DISK_INCREMENT else IO_NO_INCREMENT) # irp_boosts irp \<and>
     map_option length (irp_system_buffer irp') = map_option length (irp_system_buffer irp) \<and>
     (NT_SUCCESS status \<longrightarrow> info \<le> unat (irp_out_len irp) \<and>
        map_option (drop (reply_room irp)) (irp_system_buffer irp') = map_option (drop (reply_room irp)) (irp_system_buffer irp)) \<and>
     (\<not> NT_SUCCESS status \<longrightarrow> irp_system_buffer irp' = irp_system_buffer irp))"

text \<open>The buffered-I/O contract: the system buffer is as large as the longer of the two lengths.\<close>

definition buffered :: "IRP \<Rightarrow> bool" where
  "buffered irp \<longleftrightarrow> (case irp_system_buffer irp of
      None \<Rightarrow> irp_in_len irp = 0 \<and> irp_out_len irp = 0
    | Some buf \<Rightarrow> unat (irp_in_len irp) \<le> length buf \<and> unat (irp_out_len irp) \<le> length buf)"

lemma volume_status_failures [simp]:
  "\<not> NT_SUCCESS STATUS_BUFFER_OVERFLOW" "\<not> NT_SUCCESS STATUS_NOT_IMPLEMENTED" "\<not> NT_SUCCESS STATUS_NOT_SUPPORTED"
  by (simp_all add: NT_SUCCESS_def volume_code_defs)

lemma answered_finish [simp]: "answered irp (finish_irp irp status)"
  by (simp add: answered_def finish_irp_def complete_disk_irp_def)

lemma answered_failure [simp]: "\<not> NT_SUCCESS status \<Longrightarrow> answered irp (Ok (complete_disk_irp irp status n))"
  by (simp add: answered_def complete_disk_irp_def)

text \<open>A writer that changes only the first \<open>n\<close> bytes of a buffer that has them.\<close>

definition writes :: "nat \<Rightarrow> (bytes \<Rightarrow> bytes) \<Rightarrow> bool" where
  "writes n write \<longleftrightarrow> (\<forall>buf. n \<le> length buf \<longrightarrow> length (write buf) = length buf \<and> drop n (write buf) = drop n buf)"

lemma writes_id: "writes n (\<lambda>buf. buf)"
  by (simp add: writes_def)

lemma writes_blit: "writes n f \<Longrightarrow> a + length ys \<le> n \<Longrightarrow> writes n (\<lambda>buf. blit (f buf) a ys)"
  by (auto simp: writes_def blit_def)

lemma writes_comp: "writes m g \<Longrightarrow> m \<le> n \<Longrightarrow> writes n f \<Longrightarrow> writes n (\<lambda>buf. g (f buf))"
  unfolding writes_def by (metis (no_types, lifting) drop_drop le_add_diff_inverse2 order_trans)

lemmas writes_intros = writes_id writes_blit

text \<open>A reply is answered when the buffer is there for what it writes.\<close>

lemma answered_fill_gen:
  assumes "sz \<le> unat (irp_out_len irp) \<Longrightarrow> \<exists>buf. irp_system_buffer irp = Some buf \<and> need \<le> length buf \<and> need \<le> reply_room irp"
    and "writes need write"
  shows "answered irp (fill irp sz need write)"
proof (cases "unat (irp_out_len irp) < sz")
  case False
  then obtain buf where buf: "irp_system_buffer irp = Some buf" "need \<le> length buf" "need \<le> reply_room irp"
    using assms(1) by auto
  have w: "length (write buf) = length buf" "drop need (write buf) = drop need buf"
    using assms(2) buf(2) by (simp_all add: writes_def)
  have "drop (reply_room irp) (write buf) = drop (reply_room irp - need) (drop need (write buf))"
    using buf(3) by simp
  then have "drop (reply_room irp) (write buf) = drop (reply_room irp) buf"
    using buf(3) by (simp add: w(2))
  then show ?thesis
    using False buf w(1) by (simp add: fill_def answered_def complete_disk_irp_def)
qed (simp add: fill_def)

lemma answered_fill:
  assumes "buffered irp" "0 < sz" "need \<le> sz" "writes need write"
  shows "answered irp (fill irp sz need write)"
  using assms reply_room_ge [of irp]
  by (intro answered_fill_gen) (auto simp: buffered_def split: option.splits)

lemma answered_fill_name:
  assumes "buffered irp" "head \<noteq> []" "\<not> NT_SUCCESS (fst short)"
  shows "answered irp (fill_name irp minsz short head name)"
proof (cases "unat (irp_out_len irp) < minsz \<or> unat (irp_out_len irp) < length head + length name")
  case False
  then obtain buf where buf: "irp_system_buffer irp = Some buf" "unat (irp_out_len irp) \<le> length buf"
    using assms(1,2) by (auto simp: buffered_def split: option.splits)
  moreover from this have "length name \<le> reply_room irp - length head"
    using False reply_room_ge [of irp] by linarith
  ultimately show ?thesis
    using False reply_room_ge [of irp] by (simp add: fill_name_def answered_def complete_disk_irp_def Let_def blit_def)
qed (use assms(3) in \<open>auto simp: fill_name_def Let_def\<close>)

lemma writes_puts:
  "writes 24 (put_geometry ext)" "writes 32 (put_geometry_ex ext)" "writes 28 (put_partition ext 0)"
  "writes 64 (put_partition_ex ext)" "writes 32 (put_extents ext)" "writes 36 (put_layout ext)"
  "writes 36 (put_device_descriptor ext)" "writes 20 (put_alignment ext)" "writes 9 (put_flag sz flag)"
  "writes 12 (put_device_number ext)" "writes 8 (\<lambda>buf. blit buf 0 (le_bytes 8 (disk_length ext)))"
proof -
  show g: "writes 24 (put_geometry ext)"
    unfolding put_geometry_def Let_def by (intro writes_intros) simp_all
  have "writes 32 (\<lambda>buf. put_geometry ext (blit buf 0 (replicate 32 0)))"
    by (rule writes_comp [OF g]) (intro writes_intros | simp)+
  then show "writes 32 (put_geometry_ex ext)"
    unfolding put_geometry_ex_def Let_def by (rule writes_blit) simp
qed (unfold put_partition_def put_layout_def put_partition_ex_def put_extents_def put_device_descriptor_def
    put_alignment_def put_flag_def put_device_number_def Let_def, (intro writes_intros; simp)+)

lemma answered_query_property:
  assumes "buffered irp" "irp_ioctl irp = IOCTL_STORAGE_QUERY_PROPERTY"
  shows "answered irp (query_property ext irp)"
proof (cases "irp_system_buffer irp")
  case (Some buf)
  show ?thesis
  proof (cases "unat (irp_in_len irp) < 12")
    case False
    then have l: "9 \<le> length buf"
      using Some assms(1) by (simp add: buffered_def)
    have t: "answered irp (fill irp 8 9 (put_flag 8 flag))" if "from_le (sub buf 0 4) = StorageDeviceTrimProperty" for flag
    proof (rule answered_fill_gen [OF _ writes_puts(9)])
      assume "8 \<le> unat (irp_out_len irp)"
      moreover have "reply_room irp = 9" if "unat (irp_out_len irp) = 8"
      proof -
        have "irp_out_len irp = 8"
          using that by (simp add: word_unat_eq_iff)
        then show ?thesis
          using Some assms(2) \<open>from_le (sub buf 0 4) = StorageDeviceTrimProperty\<close>
          by (simp add: reply_room_def short_trim_query_def)
      qed
      ultimately have "9 \<le> reply_room irp"
        using reply_room_ge [of irp] by (cases "unat (irp_out_len irp) = 8") simp_all
      then show "\<exists>buf. irp_system_buffer irp = Some buf \<and> 9 \<le> length buf \<and> 9 \<le> reply_room irp"
        using Some l by simp
    qed
    show ?thesis
      using False Some assms(1) t unfolding query_property_def option.case Let_def
      by (simp add: answered_fill writes_puts)
  qed (simp add: query_property_def Some)
qed (simp add: query_property_def)

lemma answered_names:
  assumes "buffered irp"
  shows "answered irp (query_device_name ext irp)"
    "answered irp (query_unique_id ext irp)"
    "answered irp (query_suggested_link ext irp)"
  unfolding query_device_name_def query_unique_id_def query_suggested_link_def Let_def
  using assms by (auto intro!: answered_fill_name dest: arg_cong [of _ _ length])

lemma control_request_answered:
  assumes "buffered irp"
  shows "answered irp (process_volume_device_control ext irp)"
  unfolding process_volume_device_control_def Let_def
  using assms by (simp add: answered_names answered_query_property answered_fill writes_puts)

text \<open>
  C34: Every control request to a volume is completed exactly once, whatever its
  code, with the priority boost that fits its status. A success returns no
  more bytes than the caller's output length and leaves the system buffer past
  that length as it was, with one exception: a trim query with room for eight
  bytes writes its flag into the ninth and nothing after it. A failure writes
  nothing. The caller has to keep the contract of buffered I/O, a system buffer
  as large as the longer of its input and output.
\<close>

theorem control_request_completed_once:
  assumes "buffered irp"
  shows "\<exists>irp' status info. process_volume_device_control ext irp = Ok irp'
    \<and> irp_io_status irp' = Some (status, info)
    \<and> irp_boosts irp' = (if NT_SUCCESS status then IO_DISK_INCREMENT else IO_NO_INCREMENT) # irp_boosts irp
    \<and> map_option length (irp_system_buffer irp') = map_option length (irp_system_buffer irp)
    \<and> (NT_SUCCESS status \<longrightarrow> info \<le> unat (irp_out_len irp)
        \<and> map_option (drop (reply_room irp)) (irp_system_buffer irp') = map_option (drop (reply_room irp)) (irp_system_buffer irp))
    \<and> (\<not> NT_SUCCESS status \<longrightarrow> irp_system_buffer irp' = irp_system_buffer irp)"
  using control_request_answered [OF assms, of ext] by (simp only: answered_def)

definition toy_control :: "u32 \<Rightarrow> nat \<Rightarrow> IRP" where
  "toy_control code n = \<lparr> irp_major = IRP_MJ_DEVICE_CONTROL, irp_byte_offset = 0, irp_length = 0, irp_mdl = None,
     irp_system_buffer = Some (replicate n 0), irp_ioctl = code, irp_in_len = of_nat n, irp_out_len = of_nat n,
     irp_io_status = None, irp_boosts = [] \<rparr>"

theorem control_request_completed_once_witness:
  "buffered (toy_control IOCTL_DISK_GET_LENGTH_INFO 8)
   \<and> (\<exists>irp' status info. process_volume_device_control zero_extension (toy_control IOCTL_DISK_GET_LENGTH_INFO 8) = Ok irp'
       \<and> irp_io_status irp' = Some (status, info) \<and> length (irp_boosts irp') = 1)"
proof -
  let ?irp = "toy_control IOCTL_DISK_GET_LENGTH_INFO 8"
  have b: "buffered ?irp"
    by (simp add: buffered_def toy_control_def)
  have e: "irp_boosts ?irp = []"
    by (simp add: toy_control_def)
  show ?thesis
    using b control_request_completed_once [OF b, of zero_extension] unfolding e by fastforce
qed

section \<open>The device number\<close>

text \<open>
  A volume never tells its device number. The code of that request is also
  the code of the check-verify request, whose arm comes first: every such
  request succeeds with no bytes, even into a buffer that could not hold the
  answer, and the buffer keeps its contents.
\<close>

theorem device_number_never_told:
  assumes "irp_ioctl irp = IOCTL_STORAGE_GET_DEVICE_NUMBER"
  shows "process_volume_device_control ext irp = Ok (complete_disk_irp irp STATUS_SUCCESS 0)
    \<and> irp_system_buffer (complete_disk_irp irp STATUS_SUCCESS 0) = irp_system_buffer irp"
  using assms
  by (simp add: process_volume_device_control_def finish_irp_def complete_disk_irp_def volume_code_defs)

theorem device_number_never_told_witness:
  "process_volume_device_control zero_extension (toy_control IOCTL_STORAGE_GET_DEVICE_NUMBER 12) =
     Ok (complete_disk_irp (toy_control IOCTL_STORAGE_GET_DEVICE_NUMBER 12) STATUS_SUCCESS 0)"
  using device_number_never_told [of "toy_control IOCTL_STORAGE_GET_DEVICE_NUMBER 12" zero_extension]
  by (simp add: toy_control_def)

section \<open>What the replies say\<close>

text \<open>Every geometry request reports the same disk: its length, its geometry and one partition that fills it.\<close>

lemma fill_success:
  assumes "sz \<le> unat (irp_out_len irp)" "irp_system_buffer irp = Some buf" "need \<le> length buf"
  shows "fill irp sz need write = Ok (complete_disk_irp (irp \<lparr> irp_system_buffer := Some (write buf) \<rparr>) STATUS_SUCCESS sz)"
  using assms by (simp add: fill_def)

definition reply_at :: "Extension \<Rightarrow> IRP \<Rightarrow> u32 \<Rightarrow> nat \<Rightarrow> nat \<Rightarrow> bytes option" where
  "reply_at ext irp code a b = (case process_volume_device_control ext (irp \<lparr> irp_ioctl := code \<rparr>) of
      Ok irp' \<Rightarrow> if map_option fst (irp_io_status irp') = Some STATUS_SUCCESS
        then map_option (\<lambda>buf. sub buf a b) (irp_system_buffer irp') else None
    | _ \<Rightarrow> None)"

lemma complete_reply [simp]:
  "irp_io_status (complete_disk_irp irp status n) = Some (status, n)"
  "irp_system_buffer (complete_disk_irp irp status n) = irp_system_buffer irp"
  by (simp_all add: complete_disk_irp_def Let_def)

lemma reply_lengths:
  assumes "irp_system_buffer irp = Some buf" "64 \<le> length buf" "64 \<le> unat (irp_out_len irp)"
  shows "reply_at ext irp IOCTL_DISK_GET_LENGTH_INFO 0 8 = Some (le_bytes 8 (disk_length ext))"
    "reply_at ext irp IOCTL_DISK_GET_PARTITION_INFO 8 16 = Some (le_bytes 8 (disk_length ext))"
    "reply_at ext irp IOCTL_DISK_GET_PARTITION_INFO_EX 16 24 = Some (le_bytes 8 (disk_length ext))"
    "reply_at ext irp IOCTL_DISK_GET_DRIVE_LAYOUT 16 24 = Some (le_bytes 8 (disk_length ext))"
    "reply_at ext irp IOCTL_VOLUME_GET_VOLUME_DISK_EXTENTS 24 32 = Some (le_bytes 8 (disk_length ext))"
    "reply_at ext irp IOCTL_DISK_GET_DRIVE_GEOMETRY_EX 24 32 = Some (le_bytes 8 (disk_length ext + 1024 * 1024))"
    "reply_at ext irp IOCTL_DISK_GET_DRIVE_GEOMETRY 20 24 = Some (le_bytes 4 (bytes_per_sector ext))"
    "reply_at ext irp IOCTL_DISK_GET_DRIVE_GEOMETRY_EX 20 24 = Some (le_bytes 4 (bytes_per_sector ext))"
  using assms
  by (simp_all add: reply_at_def process_volume_device_control_def volume_code_defs fill_success buf_simps
      put_partition_def put_partition_ex_def put_layout_def put_extents_def put_geometry_ex_def put_geometry_def Let_def)

text \<open>A name reply is the length of the name in bytes and the name.\<close>

lemma reply_device_name:
  assumes "irp_system_buffer irp = Some buf" "64 \<le> length buf" "64 \<le> unat (irp_out_len irp)"
    "0 \<le> n_dos_drive_no ext" "n_dos_drive_no ext < 26"
  shows "reply_at ext irp IOCTL_MOUNTDEV_QUERY_DEVICE_NAME 0 2 = Some (le_bytes 2 (42 :: u16))"
    "reply_at ext irp IOCTL_MOUNTDEV_QUERY_DEVICE_NAME 2 44 =
       Some (wide_bytes (take 21 (volume_nt_name (nat (n_dos_drive_no ext)))))"
proof -
  have d: "drive_index ext = nat (n_dos_drive_no ext)"
    using assms(4,5) by (simp add: drive_index_def unsigned_of_int take_bit_int_eq_self)
  have "length (wide_bytes (take 21 (volume_nt_name (nat (n_dos_drive_no ext))))) = 42"
    by simp
  then show "reply_at ext irp IOCTL_MOUNTDEV_QUERY_DEVICE_NAME 0 2 = Some (le_bytes 2 (42 :: u16))"
    "reply_at ext irp IOCTL_MOUNTDEV_QUERY_DEVICE_NAME 2 44 =
       Some (wide_bytes (take 21 (volume_nt_name (nat (n_dos_drive_no ext)))))"
    using assms(1-3) wcslen_names(1) [of "nat (n_dos_drive_no ext)"] assms(4,5)
    by (simp_all add: reply_at_def process_volume_device_control_def volume_code_defs query_device_name_def d
        fill_name_def buf_simps Let_def)
qed
text \<open>
  The requests that ask how large a volume is get the same answer: length,
  partition (in both forms), drive layout and disk extents all carry the length
  of the volume, the extended geometry reports the disk one megabyte longer, and
  both geometries the sector size; the mount manager is told the device name
  under which the drive was created.
\<close>

theorem volume_replies_agree:
  assumes "irp_system_buffer irp = Some buf" "64 \<le> length buf" "64 \<le> unat (irp_out_len irp)"
    "0 \<le> n_dos_drive_no ext" "n_dos_drive_no ext < 26"
  shows "(\<forall>(code, a) \<in> {(IOCTL_DISK_GET_LENGTH_INFO, 0), (IOCTL_DISK_GET_PARTITION_INFO, 8),
        (IOCTL_DISK_GET_PARTITION_INFO_EX, 16), (IOCTL_DISK_GET_DRIVE_LAYOUT, 16),
        (IOCTL_VOLUME_GET_VOLUME_DISK_EXTENTS, 24)}.
      reply_at ext irp code a (a + 8) = Some (le_bytes 8 (disk_length ext)))
    \<and> reply_at ext irp IOCTL_DISK_GET_DRIVE_GEOMETRY_EX 24 32 = Some (le_bytes 8 (disk_length ext + 1024 * 1024))
    \<and> reply_at ext irp IOCTL_DISK_GET_DRIVE_GEOMETRY 20 24 = Some (le_bytes 4 (bytes_per_sector ext))
    \<and> reply_at ext irp IOCTL_DISK_GET_DRIVE_GEOMETRY_EX 20 24 = Some (le_bytes 4 (bytes_per_sector ext))
    \<and> reply_at ext irp IOCTL_MOUNTDEV_QUERY_DEVICE_NAME 0 2 = Some (le_bytes 2 (42 :: u16))
    \<and> reply_at ext irp IOCTL_MOUNTDEV_QUERY_DEVICE_NAME 2 44 =
        Some (wide_bytes (take 21 (volume_nt_name (nat (n_dos_drive_no ext)))))"
  using reply_lengths [OF assms(1-3), of ext] reply_device_name [OF assms] by simp

theorem volume_replies_agree_witness:
  "reply_at (zero_extension \<lparr> disk_length := 5000, n_dos_drive_no := 3 \<rparr>) (toy_control 0 64) IOCTL_DISK_GET_LENGTH_INFO 0 8 =
     Some (le_bytes 8 (5000 :: u64))"
  using volume_replies_agree [of "toy_control 0 64" "replicate 64 0" "zero_extension \<lparr> disk_length := 5000, n_dos_drive_no := 3 \<rparr>"]
  by (simp add: toy_control_def)

text \<open>
  Two replies that break the conventions of the requests they answer: the trim
  property is refused to nobody with room for eight bytes, but its flag is the
  ninth; and a name query with too little room reports four bytes it has not
  written, which leaves the caller without the length it would need.
\<close>

lemma trim_reply_writes_past_its_size:
  assumes "irp_ioctl irp = IOCTL_STORAGE_QUERY_PROPERTY" "irp_system_buffer irp = Some buf" "length buf = 12"
    "irp_in_len irp = 12" "irp_out_len irp = 8" "from_le (sub buf 0 4) = StorageDeviceTrimProperty"
  shows "\<exists>irp' buf'. process_volume_device_control ext irp = Ok irp' \<and> irp_io_status irp' = Some (STATUS_SUCCESS, 8)
    \<and> irp_system_buffer irp' = Some buf' \<and> buf' ! 8 = of_bool (host_trim_enabled ext)"
proof -
  have "process_volume_device_control ext irp = query_property ext irp"
    using assms(1) by (simp add: process_volume_device_control_def volume_code_defs)
  also have "\<dots> = fill irp 8 9 (put_flag 8 (host_trim_enabled ext))"
    using assms(2-6) unfolding query_property_def
    by (simp add: volume_code_defs)
  finally show ?thesis
    using assms(2-5) by (simp add: fill_success put_flag_def Let_def blit_nth)
qed

lemma short_name_query_tells_nothing:
  assumes "irp_ioctl irp = IOCTL_MOUNTDEV_QUERY_DEVICE_NAME" "unat (irp_out_len irp) < 44"
    "0 \<le> n_dos_drive_no ext" "n_dos_drive_no ext < 26"
  shows "process_volume_device_control ext irp = Ok (complete_disk_irp irp STATUS_BUFFER_OVERFLOW 4)"
proof -
  have d: "drive_index ext = nat (n_dos_drive_no ext)"
    using assms(3,4) by (simp add: drive_index_def unsigned_of_int take_bit_int_eq_self)
  show ?thesis
    using assms wcslen_names(1) [of "nat (n_dos_drive_no ext)"]
    by (simp add: process_volume_device_control_def volume_code_defs query_device_name_def d fill_name_def Let_def)
qed

end
