(* ===== verification/VolRequests.thy ===== *)
theory VolRequests
  imports VolIoctl DriverDispatch "HOL-Library.Multiset"
begin

text \<open>
  The worker thread of a volume and its request queue (\<open>volume_thread.rs\<close>) as
  a concurrent system: dispatchers append control requests to the list of the
  device and release its semaphore, the thread waits on the semaphore and serves
  the list until it is empty, and a stop request raises the quit flag. Every
  step is one call of the code on the shared state.
\<close>

section \<open>Submitting\<close>

text \<open>A queued request is a wrapper of 24 bytes from the pool; without memory the packet is completed at once.\<close>

definition QUEUED_IRP_SIZE :: nat where "QUEUED_IRP_SIZE = 24"

definition insert_request :: "'h kernel \<Rightarrow> device \<Rightarrow> IRP \<Rightarrow> 'h \<Rightarrow> IRP option \<times> device \<times> 'h" where
  "insert_request K dev irp h = (case k_alloc K QUEUED_IRP_SIZE h of
      (False, h) \<Rightarrow> (Some (complete_disk_irp irp STATUS_INSUFFICIENT_RESOURCES 0), dev, h)
    | (True, h) \<Rightarrow> (None, dev \<lparr> dev_requests := dev_requests dev @ [irp] \<rparr>, h))"

definition release_semaphore :: "device \<Rightarrow> device" where
  "release_semaphore dev = dev \<lparr> dev_semaphore := dev_semaphore dev + 1 \<rparr>"

definition enqueue_device_control_irp :: "'h kernel \<Rightarrow> device \<Rightarrow> IRP \<Rightarrow> 'h \<Rightarrow> IRP option \<times> device \<times> 'h" where
  "enqueue_device_control_irp K dev irp h = (case insert_request K dev irp h of
      (Some irp, dev, h) \<Rightarrow> (Some irp, dev, h)
    | (None, dev, h) \<Rightarrow> (None, release_semaphore dev, h))"

section \<open>The worker thread\<close>

datatype phase = Waiting | Draining | Stopping | Exited | Crashed

text \<open>
  \<open>w_pending\<close> counts the dispatchers between their insertion and their release
  of the semaphore, \<open>w_submitted\<close> are the packets handed over so far and
  \<open>w_done\<close> the completed ones, each with the packet it was.
\<close>

record 'h worker =
  w_dev :: device
  w_kernel :: 'h
  w_phase :: phase
  w_pending :: nat
  w_submitted :: "IRP list"
  w_done :: "(IRP \<times> IRP) list"

definition submit :: "'h kernel \<Rightarrow> IRP \<Rightarrow> 'h worker \<Rightarrow> 'h worker" where
  "submit K irp s = (case insert_request K (w_dev s) irp (w_kernel s) of
      (Some irp', dev, h) \<Rightarrow> s \<lparr> w_dev := dev, w_kernel := h, w_submitted := irp # w_submitted s,
        w_done := (irp, irp') # w_done s \<rparr>
    | (None, dev, h) \<Rightarrow> s \<lparr> w_dev := dev, w_kernel := h, w_submitted := irp # w_submitted s,
        w_pending := w_pending s + 1 \<rparr>)"

definition release :: "'h worker \<Rightarrow> 'h worker" where
  "release s = s \<lparr> w_dev := release_semaphore (w_dev s), w_pending := w_pending s - 1 \<rparr>"

definition ask_to_quit :: "'h worker \<Rightarrow> 'h worker" where
  "ask_to_quit s = s \<lparr> w_dev := release_semaphore ((w_dev s) \<lparr> dev_ext := (dev_ext (w_dev s)) \<lparr> b_thread_should_quit := True \<rparr> \<rparr>) \<rparr>"

text \<open>The thread: woken by the semaphore, taking one request, finding the list empty, cleaning up.\<close>

definition quitting :: "'h worker \<Rightarrow> bool" where
  "quitting s \<longleftrightarrow> b_thread_should_quit (dev_ext (w_dev s))"

definition wake :: "'h worker \<Rightarrow> 'h worker" where
  "wake s = s \<lparr> w_dev := (w_dev s) \<lparr> dev_semaphore := dev_semaphore (w_dev s) - 1 \<rparr>,
     w_phase := (if quitting s then Stopping else Draining) \<rparr>"

definition serve :: "'h worker \<Rightarrow> 'h worker" where
  "serve s = (case dev_requests (w_dev s) of
      [] \<Rightarrow> s \<lparr> w_phase := (if quitting s then Stopping else Waiting) \<rparr>
    | irp # rest \<Rightarrow>
      let s = s \<lparr> w_dev := (w_dev s) \<lparr> dev_requests := rest \<rparr> \<rparr> in
      (case process_volume_device_control (dev_ext (w_dev s)) irp of
        Ok irp' \<Rightarrow> s \<lparr> w_done := (irp, irp') # w_done s \<rparr>
      | _ \<Rightarrow> s \<lparr> w_phase := Crashed \<rparr>))"

definition clean_up :: "'h mount_kernel \<Rightarrow> 'h worker \<Rightarrow> 'h worker" where
  "clean_up K s = (let (dev, h) = tc_close_and_cleanup K (w_dev s) (w_kernel s)
     in s \<lparr> w_dev := dev, w_kernel := h, w_phase := Exited \<rparr>)"

text \<open>
  Steps of the system itself: a dispatcher finishing its release, the thread.
  Steps from outside: a new request, a stop request.
\<close>

inductive own_step :: "'h mount_kernel \<Rightarrow> 'h worker \<Rightarrow> 'h worker \<Rightarrow> bool" for K where
  release: "0 < w_pending s \<Longrightarrow> own_step K s (release s)"
| wake: "w_phase s = Waiting \<Longrightarrow> 0 < dev_semaphore (w_dev s) \<Longrightarrow> own_step K s (wake s)"
| serve: "w_phase s = Draining \<Longrightarrow> own_step K s (serve s)"
| clean_up: "w_phase s = Stopping \<Longrightarrow> own_step K s (clean_up K s)"

inductive worker_reach :: "'h mount_kernel \<Rightarrow> 'h worker \<Rightarrow> 'h worker \<Rightarrow> bool" for K s0 where
  start: "worker_reach K s0 s0"
| own: "worker_reach K s0 s \<Longrightarrow> own_step K s s' \<Longrightarrow> worker_reach K s0 s'"
| new_request: "worker_reach K s0 s \<Longrightarrow> worker_reach K s0 (submit (kernel.truncate K) irp s)"
| stop_request: "worker_reach K s0 s \<Longrightarrow> worker_reach K s0 (ask_to_quit s)"

inductive_cases own_stepE: "own_step K s s'"

text \<open>A thread that has just opened its volume.\<close>

definition fresh_worker :: "device \<Rightarrow> 'h \<Rightarrow> 'h worker" where
  "fresh_worker dev h = \<lparr> w_dev = dev \<lparr> dev_requests := [], dev_semaphore := 0 \<rparr>, w_kernel = h, w_phase = Waiting,
     w_pending = 0, w_submitted = [], w_done = [] \<rparr>"
section \<open>Frames\<close>

lemma clean_up_frame:
  "dev_requests (w_dev (clean_up K s)) = dev_requests (w_dev s)"
  "dev_semaphore (w_dev (clean_up K s)) = dev_semaphore (w_dev s)"
  "quitting (clean_up K s) = quitting s" "w_phase (clean_up K s) = Exited"
  "w_pending (clean_up K s) = w_pending s" "w_submitted (clean_up K s) = w_submitted s"
  "w_done (clean_up K s) = w_done s"
  by (simp_all add: clean_up_def tc_close_and_cleanup_def tc_close_volume_def quitting_def Let_def split: prod.split)

lemma serve_cases:
  assumes "dev_requests (w_dev s) = [] \<Longrightarrow> P (s \<lparr> w_phase := (if quitting s then Stopping else Waiting) \<rparr>)"
    and "\<And>irp rest irp'. dev_requests (w_dev s) = irp # rest \<Longrightarrow>
      process_volume_device_control (dev_ext (w_dev s)) irp = Ok irp' \<Longrightarrow>
      P (s \<lparr> w_dev := (w_dev s) \<lparr> dev_requests := rest \<rparr>, w_done := (irp, irp') # w_done s \<rparr>)"
    and "\<And>irp rest. dev_requests (w_dev s) = irp # rest \<Longrightarrow>
      \<not> is_ok (process_volume_device_control (dev_ext (w_dev s)) irp) \<Longrightarrow>
      P (s \<lparr> w_dev := (w_dev s) \<lparr> dev_requests := rest \<rparr>, w_phase := Crashed \<rparr>)"
  shows "P (serve s)"
proof (cases "dev_requests (w_dev s)")
  case (Cons irp rest)
  then show ?thesis
    using assms(2,3) [OF Cons]
    by (cases "process_volume_device_control (dev_ext (w_dev s)) irp") (simp_all add: serve_def Let_def)
qed (simp add: serve_def assms(1))

section \<open>Invariant\<close>

definition live_phase :: "phase \<Rightarrow> bool" where
  "live_phase p \<longleftrightarrow> p = Waiting \<or> p = Draining"

text \<open>
  No wake-up is lost: a waiting thread with something to do has a count on its
  semaphore, or a dispatcher is about to release it. No request is lost or
  answered twice: what was submitted is queued or done.
\<close>

definition worker_inv :: "'h worker \<Rightarrow> bool" where
  "worker_inv s \<longleftrightarrow> w_phase s \<noteq> Crashed
     \<and> (w_phase s = Waiting \<longrightarrow> length (dev_requests (w_dev s)) \<le> dev_semaphore (w_dev s) + w_pending s)
     \<and> (w_phase s = Draining \<longrightarrow> length (dev_requests (w_dev s)) \<le> dev_semaphore (w_dev s) + w_pending s + 1)
     \<and> (w_phase s = Waiting \<longrightarrow> quitting s \<longrightarrow> 0 < dev_semaphore (w_dev s))
     \<and> (\<not> live_phase (w_phase s) \<longrightarrow> quitting s)
     \<and> mset (w_submitted s) = mset (dev_requests (w_dev s)) + mset (map fst (w_done s))
     \<and> (\<forall>(irp, irp') \<in> set (w_done s). answered irp (Ok irp'))"

lemma worker_inv_submit:
  assumes "worker_inv s"
  shows "worker_inv (submit K irp s)"
proof -
  obtain got h where a: "k_alloc K QUEUED_IRP_SIZE (w_kernel s) = (got, h)"
    by fastforce
  show ?thesis
    using assms by (cases got) (auto simp: submit_def insert_request_def a worker_inv_def quitting_def)
qed

lemma worker_inv_release: "worker_inv s \<Longrightarrow> 0 < w_pending s \<Longrightarrow> worker_inv (release s)"
  by (auto simp: worker_inv_def release_def release_semaphore_def quitting_def)

lemma worker_inv_quit: "worker_inv s \<Longrightarrow> worker_inv (ask_to_quit s)"
  by (auto simp: worker_inv_def ask_to_quit_def release_semaphore_def quitting_def)

lemma worker_inv_wake:
  "worker_inv s \<Longrightarrow> w_phase s = Waiting \<Longrightarrow> 0 < dev_semaphore (w_dev s) \<Longrightarrow> worker_inv (wake s)"
  by (auto simp: worker_inv_def wake_def quitting_def live_phase_def)

lemma worker_inv_clean_up: "worker_inv s \<Longrightarrow> w_phase s = Stopping \<Longrightarrow> worker_inv (clean_up K s)"
  by (simp add: worker_inv_def clean_up_frame live_phase_def)

lemma worker_inv_serve:
  assumes "worker_inv s" "w_phase s = Draining" "\<forall>irp \<in> set (w_submitted s). buffered irp"
  shows "worker_inv (serve s)"
proof (rule serve_cases)
  assume "dev_requests (w_dev s) = []"
  then show "worker_inv (s \<lparr> w_phase := (if quitting s then Stopping else Waiting) \<rparr>)"
    using assms by (auto simp: worker_inv_def live_phase_def quitting_def)
next
  fix irp rest irp'
  assume r: "dev_requests (w_dev s) = irp # rest"
    "process_volume_device_control (dev_ext (w_dev s)) irp = Ok irp'"
  have "irp \<in> set (w_submitted s)"
    using assms(1) r(1) by (auto simp: worker_inv_def dest: arg_cong [of _ _ set_mset])
  then have "answered irp (Ok irp')"
    using control_request_answered [of irp "dev_ext (w_dev s)"] assms(3) r(2) by auto
  then show "worker_inv (s \<lparr> w_dev := (w_dev s) \<lparr> dev_requests := rest \<rparr>, w_done := (irp, irp') # w_done s \<rparr>)"
    using assms(1,2) r by (auto simp: worker_inv_def quitting_def)
next
  fix irp rest
  assume r: "dev_requests (w_dev s) = irp # rest"
    "\<not> is_ok (process_volume_device_control (dev_ext (w_dev s)) irp)"
  have "irp \<in> set (w_submitted s)"
    using assms(1) r(1) by (auto simp: worker_inv_def dest: arg_cong [of _ _ set_mset])
  then have "answered irp (process_volume_device_control (dev_ext (w_dev s)) irp)"
    using control_request_answered assms(3) by blast
  then show "worker_inv (s \<lparr> w_dev := (w_dev s) \<lparr> dev_requests := rest \<rparr>, w_phase := Crashed \<rparr>)"
    using r(2) by (auto simp: answered_def)
qed

lemma submitted_frame:
  "w_submitted (release s) = w_submitted s" "w_submitted (wake s) = w_submitted s"
  "w_submitted (serve s) = w_submitted s" "w_submitted (ask_to_quit s) = w_submitted s"
  by (auto simp: release_def wake_def ask_to_quit_def intro: serve_cases)

lemma own_step_submitted: "own_step K s s' \<Longrightarrow> w_submitted s' = w_submitted s"
  by (auto elim: own_stepE simp: submitted_frame clean_up_frame)

lemma own_step_inv:
  assumes "own_step K s s'" "worker_inv s" "\<forall>irp \<in> set (w_submitted s). buffered irp"
  shows "worker_inv s'"
  using assms by (cases rule: own_stepE)
    (auto intro: worker_inv_release worker_inv_wake worker_inv_serve worker_inv_clean_up)

lemma submit_submitted: "w_submitted (submit K irp s) = irp # w_submitted s"
  by (simp add: submit_def split: prod.split option.split)

lemma worker_inv_fresh: "\<not> b_thread_should_quit (dev_ext dev) \<Longrightarrow> worker_inv (fresh_worker dev h)"
  by (simp add: worker_inv_def fresh_worker_def quitting_def live_phase_def)

lemma worker_reach_inv:
  assumes "worker_reach K s0 s" "worker_inv s0" "\<forall>irp \<in> set (w_submitted s). buffered irp"
  shows "worker_inv s"
  using assms
proof (induction rule: worker_reach.induct)
  case (own s s')
  then show ?case
    using own_step_inv own_step_submitted by metis
qed (auto simp: worker_inv_submit worker_inv_quit submitted_frame submit_submitted)

text \<open>
  C31: From the moment a volume is open, however dispatchers, the thread and a
  stop request interleave, no wake-up is lost: while the thread waits, every
  queued request has a count on the semaphore or a dispatcher about to release
  it. No request is lost or served twice: what was submitted is queued or
  completed, and every completed packet was completed exactly once.
\<close>

theorem worker_loses_nothing:
  assumes "worker_reach K (fresh_worker dev h) s" "\<not> b_thread_should_quit (dev_ext dev)"
    "\<forall>irp \<in> set (w_submitted s). buffered irp"
  shows "(w_phase s = Waiting \<longrightarrow> length (dev_requests (w_dev s)) \<le> dev_semaphore (w_dev s) + w_pending s)
    \<and> mset (w_submitted s) = mset (dev_requests (w_dev s)) + mset (map fst (w_done s))
    \<and> (\<forall>(irp, irp') \<in> set (w_done s). answered irp (Ok irp'))"
  using worker_reach_inv [OF assms(1) worker_inv_fresh [OF assms(2)] assms(3)]
  unfolding worker_inv_def by blast

section \<open>Progress\<close>

fun phase_weight :: "phase \<Rightarrow> nat" where
  "phase_weight Draining = 2"
| "phase_weight Stopping = 1"
| "phase_weight _ = 0"

text \<open>What is left to do without anything new from outside.\<close>

definition work_left :: "'h worker \<Rightarrow> nat" where
  "work_left s = 4 * w_pending s + 3 * dev_semaphore (w_dev s) + length (dev_requests (w_dev s)) + phase_weight (w_phase s)"

lemma own_step_less:
  assumes "own_step K s s'"
  shows "work_left s' < work_left s"
  using assms
proof (cases rule: own_step.cases)
  case serve
  have "work_left (serve s) < work_left s"
    using serve(2) by (intro serve_cases [where P = "\<lambda>t. work_left t < work_left s" and s = s]) (simp_all add: work_left_def)
  then show ?thesis
    using serve(1) by simp
qed (auto simp: work_left_def release_def release_semaphore_def wake_def clean_up_frame)

lemma no_endless_run: "\<not> (\<forall>i. own_step K (f i) (f (Suc i)))"
proof
  assume r: "\<forall>i. own_step K (f i) (f (Suc i))"
  have "work_left (f i) + i \<le> work_left (f 0)" for i
  proof (induction i)
    case (Suc i)
    then show ?case
      using own_step_less [of K "f i" "f (Suc i)"] r by simp
  qed simp
  from this [of "Suc (work_left (f 0))"] show False
    by simp
qed

lemma quitting_frame:
  "quitting (release s) = quitting s" "quitting (wake s) = quitting s" "quitting (serve s) = quitting s"
proof -
  show "quitting (serve s) = quitting s"
    by (rule serve_cases [where P = "\<lambda>t. quitting t = quitting s" and s = s]) (simp_all add: quitting_def)
qed (simp_all add: quitting_def release_def release_semaphore_def wake_def)

lemma own_run:
  assumes "(own_step K)\<^sup>*\<^sup>* s s'" "worker_inv s" "\<forall>irp \<in> set (w_submitted s). buffered irp"
  shows "worker_inv s' \<and> w_submitted s' = w_submitted s \<and> quitting s' = quitting s"
  using assms
proof (induction rule: rtranclp_induct)
  case (step s1 s2)
  have "quitting s2 = quitting s1"
    using step(2) by (auto elim: own_stepE simp: clean_up_frame quitting_frame)
  then show ?case
    using step own_step_inv own_step_submitted by metis
qed simp

lemma at_rest:
  assumes "worker_inv s" "\<not> (\<exists>s'. own_step K s s')" "\<not> quitting s"
  shows "w_phase s = Waiting" "dev_requests (w_dev s) = []"
proof -
  have "w_phase s \<noteq> Draining" "w_phase s \<noteq> Stopping" "w_pending s = 0"
    using assms(2) own_step.intros by blast+
  moreover from this show "w_phase s = Waiting"
    using assms(1,3) by (auto simp: worker_inv_def live_phase_def)
  ultimately have "dev_semaphore (w_dev s) = 0" "w_pending s = 0"
    using assms(2) own_step.wake by blast+
  then show "dev_requests (w_dev s) = []"
    using assms(1) \<open>w_phase s = Waiting\<close> by (simp add: worker_inv_def)
qed

text \<open>
  C30: Every control request is answered in the end. From any reachable state in
  which nobody has asked the volume to stop, the thread and the dispatchers
  cannot go on for ever without new requests, and whenever they come to rest the
  thread waits and every request submitted so far has been completed.
\<close>

theorem requests_answered_in_the_end:
  assumes "worker_reach K (fresh_worker dev h) s" "\<not> b_thread_should_quit (dev_ext dev)"
    "\<forall>irp \<in> set (w_submitted s). buffered irp" "\<not> quitting s"
  shows "\<not> (\<exists>f. f 0 = s \<and> (\<forall>i. own_step K (f i) (f (Suc i))))
    \<and> (\<forall>s'. (own_step K)\<^sup>*\<^sup>* s s' \<longrightarrow> \<not> (\<exists>s''. own_step K s' s'') \<longrightarrow>
         w_phase s' = Waiting \<and> mset (map fst (w_done s')) = mset (w_submitted s)
       \<and> (\<forall>(irp, irp') \<in> set (w_done s'). answered irp (Ok irp')))"
proof (intro conjI allI impI)
  show "\<not> (\<exists>f. f 0 = s \<and> (\<forall>i. own_step K (f i) (f (Suc i))))"
    using no_endless_run by blast
next
  fix s'
  assume run: "(own_step K)\<^sup>*\<^sup>* s s'" and rest: "\<not> (\<exists>s''. own_step K s' s'')"
  have "worker_inv s"
    using worker_reach_inv [OF assms(1) worker_inv_fresh [OF assms(2)] assms(3)] .
  then have i: "worker_inv s'" "w_submitted s' = w_submitted s" "\<not> quitting s'"
    using own_run [OF run _ assms(3)] assms(4) by auto
  show "w_phase s' = Waiting"
    using at_rest(1) [OF i(1) rest i(3)] .
  show "mset (map fst (w_done s')) = mset (w_submitted s)" "\<forall>(irp, irp') \<in> set (w_done s'). answered irp (Ok irp')"
    using i(1,2) at_rest(2) [OF i(1) rest i(3)] by (simp_all add: worker_inv_def)
qed

section \<open>Stopping\<close>

text \<open>A thread on its way out leaves the queue as it is.\<close>

lemma leaving_step:
  assumes "own_step K s s'" "\<not> live_phase (w_phase s)"
  shows "\<not> live_phase (w_phase s') \<and> dev_requests (w_dev s') = dev_requests (w_dev s)"
  using assms by (cases rule: own_stepE)
    (auto simp: live_phase_def clean_up_frame release_def release_semaphore_def)

lemma leaving:
  assumes "worker_reach K s s'" "\<not> live_phase (w_phase s)"
  shows "\<not> live_phase (w_phase s') \<and> (\<exists>more. dev_requests (w_dev s') = dev_requests (w_dev s) @ more)"
  using assms
proof (induction rule: worker_reach.induct)
  case (own s1 s2)
  then show ?case
    using leaving_step by metis
next
  case (new_request s1 irp)
  then show ?case
    by (auto simp: submit_def insert_request_def split: prod.split bool.split)
qed (auto simp: ask_to_quit_def release_semaphore_def)

text \<open>
  C35: Stopping a volume strands its queued requests. A thread woken to quit goes
  straight to its cleanup: the packets on the list when the stop is asked for,
  and all that are queued later, are never completed, whatever happens next.
\<close>

theorem stop_strands_requests:
  assumes "w_phase s = Waiting" "s1 = clean_up K (wake (ask_to_quit s))"
  shows "own_step K (ask_to_quit s) (wake (ask_to_quit s)) \<and> own_step K (wake (ask_to_quit s)) s1
    \<and> w_phase s1 = Exited \<and> w_done s1 = w_done s
    \<and> (\<forall>s2. worker_reach K s1 s2 \<longrightarrow> (\<exists>more. dev_requests (w_dev s2) = dev_requests (w_dev s) @ more))"
proof (intro conjI allI impI)
  let ?q = "ask_to_quit s"
  show "own_step K ?q (wake ?q)"
    using assms(1) by (intro own_step.wake) (auto simp: ask_to_quit_def release_semaphore_def)
  have "w_phase (wake ?q) = Stopping"
    by (simp add: wake_def ask_to_quit_def quitting_def release_semaphore_def)
  then show "own_step K (wake ?q) s1"
    using assms(2) own_step.clean_up by metis
  have f: "w_phase s1 = Exited" "w_done s1 = w_done s" "dev_requests (w_dev s1) = dev_requests (w_dev s)"
    by (simp_all add: assms(2) clean_up_frame wake_def ask_to_quit_def release_semaphore_def)
  then show "w_phase s1 = Exited" "w_done s1 = w_done s"
    by simp_all
  fix s2
  assume "worker_reach K s1 s2"
  from leaving [OF this] show "\<exists>more. dev_requests (w_dev s2) = dev_requests (w_dev s) @ more"
    using f by (simp add: live_phase_def)
qed

text \<open>
  The sequential account of stopping in \<open>tc_stop_volume_thread\<close> is this run:
  the device ends up the same, but for the pointer to the thread.
\<close>

lemma stop_is_a_run:
  assumes "dev_pe_thread (w_dev s) = Some t" "s1 = clean_up K (wake (ask_to_quit s))"
  shows "fst (tc_stop_volume_thread K (w_dev s) (w_kernel s)) = (w_dev s1) \<lparr> dev_pe_thread := None \<rparr>
    \<and> snd (tc_stop_volume_thread K (w_dev s) (w_kernel s)) = k_dereference K t (w_kernel s1)"
  using assms
  by (simp add: tc_stop_volume_thread_def clean_up_def wake_def ask_to_quit_def release_semaphore_def Let_def split: prod.split)

text \<open>Queueing a request is an insertion and a release, unless the pool is exhausted.\<close>

lemma enqueue_is_submit_release:
  assumes "w_pending s = 0"
  shows "enqueue_device_control_irp (kernel.truncate K) (w_dev s) irp (w_kernel s) = (r, dev, h) \<longleftrightarrow>
    (let s' = submit (kernel.truncate K) irp s; s'' = (if w_pending s' = 0 then s' else release s') in
     r = (if w_pending s' = 0 then Some (complete_disk_irp irp STATUS_INSUFFICIENT_RESOURCES 0) else None)
     \<and> dev = w_dev s'' \<and> h = w_kernel s'')"
  using assms
  by (auto simp: enqueue_device_control_irp_def submit_def insert_request_def release_def Let_def
      split: prod.splits bool.splits)

section \<open>Witnesses\<close>

text \<open>One request for the length of the volume, submitted to a fresh thread.\<close>

definition toy_worker :: "nat list worker" where
  "toy_worker = submit (kernel.truncate toy_mount_kernel) (toy_control IOCTL_DISK_GET_LENGTH_INFO 8)
     (fresh_worker (zero_device 1 0) [])"

lemma toy_worker_reached: "worker_reach toy_mount_kernel (fresh_worker (zero_device 1 0) []) toy_worker"
  unfolding toy_worker_def by (intro worker_reach.new_request worker_reach.start)

lemma toy_worker_eq:
  "w_submitted toy_worker = [toy_control IOCTL_DISK_GET_LENGTH_INFO 8]"
  "dev_requests (w_dev toy_worker) = [toy_control IOCTL_DISK_GET_LENGTH_INFO 8]"
  "w_phase toy_worker = Waiting" "\<not> quitting toy_worker" "w_done toy_worker = []"
  "\<not> b_thread_should_quit (dev_ext (zero_device 1 0))"
  by (simp_all add: toy_worker_def submit_def insert_request_def fresh_worker_def toy_mount_kernel_def
      kernel.truncate_def quitting_def zero_device_def zero_extension_def)

lemma toy_control_buffered: "\<forall>irp \<in> set (w_submitted toy_worker). buffered irp"
  by (simp add: toy_worker_eq buffered_def toy_control_def)

theorem worker_loses_nothing_witness:
  "w_phase toy_worker = Waiting \<and> length (dev_requests (w_dev toy_worker)) = 1
   \<and> length (dev_requests (w_dev toy_worker)) \<le> dev_semaphore (w_dev toy_worker) + w_pending toy_worker"
  using worker_loses_nothing [OF toy_worker_reached toy_worker_eq(6) toy_control_buffered] by (simp add: toy_worker_eq)

definition toy_rest :: "nat list worker" where
  "toy_rest = serve (serve (wake (release toy_worker)))"

lemma toy_serves:
  "process_volume_device_control (dev_ext (w_dev toy_worker)) (toy_control IOCTL_DISK_GET_LENGTH_INFO 8) =
     Ok (complete_disk_irp ((toy_control IOCTL_DISK_GET_LENGTH_INFO 8) \<lparr> irp_system_buffer := Some (blit (replicate 8 0) 0
       (le_bytes 8 (disk_length (dev_ext (w_dev toy_worker))))) \<rparr>) STATUS_SUCCESS 8)"
  by (simp add: process_volume_device_control_def volume_code_defs toy_control_def fill_def)

lemma toy_semaphore: "dev_semaphore (w_dev toy_worker) = 0" "w_pending toy_worker = 1"
  by (simp_all add: toy_worker_def submit_def insert_request_def fresh_worker_def toy_mount_kernel_def kernel.truncate_def)

lemma toy_rest_eq:
  "w_phase toy_rest = Waiting" "dev_semaphore (w_dev toy_rest) = 0" "w_pending toy_rest = 0" "length (w_done toy_rest) = 1"
  using toy_worker_eq toy_serves toy_semaphore
  by (simp_all add: toy_rest_def serve_def wake_def release_def release_semaphore_def quitting_def)

lemma toy_run: "(own_step toy_mount_kernel)\<^sup>*\<^sup>* toy_worker toy_rest"
proof -
  let ?K = toy_mount_kernel and ?s1 = "release toy_worker"
  have "own_step ?K toy_worker ?s1"
    by (intro own_step.release) (simp add: toy_semaphore)
  moreover have "own_step ?K ?s1 (wake ?s1)"
    by (intro own_step.wake) (simp_all add: release_def release_semaphore_def toy_worker_eq)
  moreover have "own_step ?K (wake ?s1) (serve (wake ?s1))"
    by (intro own_step.serve) (use toy_worker_eq in \<open>simp add: wake_def release_def release_semaphore_def quitting_def\<close>)
  moreover have "own_step ?K (serve (wake ?s1)) toy_rest"
    unfolding toy_rest_def
    by (intro own_step.serve)
      (use toy_worker_eq toy_serves in \<open>simp add: serve_def wake_def release_def release_semaphore_def quitting_def\<close>)
  ultimately show ?thesis
    by (meson converse_rtranclp_into_rtranclp r_into_rtranclp)
qed

lemma toy_at_rest: "\<not> (\<exists>s'. own_step toy_mount_kernel toy_rest s')"
  by (auto elim!: own_stepE simp: toy_rest_eq)

theorem requests_answered_in_the_end_witness:
  "mset (map fst (w_done toy_rest)) = {# toy_control IOCTL_DISK_GET_LENGTH_INFO 8 #}
   \<and> \<not> (\<exists>f. f 0 = toy_worker \<and> (\<forall>i. own_step toy_mount_kernel (f i) (f (Suc i))))"
  using requests_answered_in_the_end [OF toy_worker_reached toy_worker_eq(6) toy_control_buffered toy_worker_eq(4)]
    toy_run toy_at_rest toy_worker_eq(1) by auto

theorem stop_strands_requests_witness:
  "\<exists>more. dev_requests (w_dev (clean_up toy_mount_kernel (wake (ask_to_quit toy_worker)))) =
     toy_control IOCTL_DISK_GET_LENGTH_INFO 8 # more"
  using stop_strands_requests [of toy_worker "clean_up toy_mount_kernel (wake (ask_to_quit toy_worker))" toy_mount_kernel]
    worker_reach.start [of toy_mount_kernel "clean_up toy_mount_kernel (wake (ask_to_quit toy_worker))"]
  by (simp add: toy_worker_eq)
end
