(* ===== verification/Cli.thy ===== *)
theory Cli
  imports RestoreVol Volume MountWire
begin

text \<open>
  The command-line tool (\<open>vcrypt-cli/src/main.rs\<close>): how it reads names and sizes,
  and one function per command, over a console that holds the host's files, the
  random source, what the user types and the lines printed. The parser of the
  command line is a library; the model starts from the parsed command.
  Arguments are ASCII, where Rust's case conversions are those below.
\<close>

section \<open>The console\<close>

text \<open>
  \<open>c_create\<close> is what \<open>File::create\<close> returns for a path, \<open>c_typed\<close> what is typed at
  a password prompt. A command that ends the process gives its exit code as the
  error of its result.
\<close>

record console =
  c_host :: host
  c_create :: "string \<Rightarrow> string + vfile"
  c_typed :: "string \<Rightarrow> string + string"
  c_rng :: rng
  c_out :: "string list"
  c_err :: "string list"

type_synonym 'a cmd = "(console, int, 'a) sm"

definition println :: "string \<Rightarrow> unit cmd" where
  "println line = (\<lambda>s. (Ok (), s \<lparr> c_out := c_out s @ [line] \<rparr>))"

definition eprintln :: "string \<Rightarrow> unit cmd" where
  "eprintln line = (\<lambda>s. (Ok (), s \<lparr> c_err := c_err s @ [line] \<rparr>))"

definition exit_process :: "int \<Rightarrow> 'a cmd" where
  "exit_process code = (\<lambda>s. (Err code, s))"

text \<open>Lines in order, for commands that print several.\<close>

fun print_lines :: "string list \<Rightarrow> unit cmd" where
  "print_lines [] = ret ()"
| "print_lines (l # ls) = bindS (println l) (\<lambda>_. print_lines ls)"

text \<open>A file a command has worked on is what later reads and opens of its path see.\<close>

definition kept :: "string \<Rightarrow> vfile \<Rightarrow> console \<Rightarrow> console" where
  "kept path f s = s \<lparr> c_host :=
     \<lparr> h_read = (h_read (c_host s)) (path := Inr (f_bytes f)),
       h_open = (\<lambda>w p. if p = path then Inr (f \<lparr> f_pos := 0 \<rparr>) else h_open (c_host s) w p) \<rparr> \<rparr>"

definition keep :: "string \<Rightarrow> vfile \<Rightarrow> unit cmd" where
  "keep path f = (\<lambda>s. (Ok (), kept path f s))"

definition read_password :: "string \<Rightarrow> string cmd" where
  "read_password prompt = (\<lambda>s. case c_typed s prompt of
      Inr pw \<Rightarrow> (Ok pw, s)
    | Inl e \<Rightarrow> bindS (eprintln (''Error reading password: '' @ e)) (\<lambda>_. exit_process 1) s)"

definition given_password :: "string option \<Rightarrow> string \<Rightarrow> string cmd" where
  "given_password password prompt = (case password of Some pw \<Rightarrow> ret pw | None \<Rightarrow> read_password prompt)"

section \<open>Names and sizes\<close>

definition lower_char :: "char \<Rightarrow> char" where
  "lower_char c = (let n = of_char c :: nat in if 65 \<le> n \<and> n \<le> 90 then char_of (n + 32) else c)"

definition upper_char :: "char \<Rightarrow> char" where
  "upper_char c = (let n = of_char c :: nat in if 97 \<le> n \<and> n \<le> 122 then char_of (n - 32) else c)"

definition to_lowercase :: "string \<Rightarrow> string" where
  "to_lowercase s = map lower_char s"

definition to_uppercase :: "string \<Rightarrow> string" where
  "to_uppercase s = map upper_char s"

definition parse_cipher :: "string \<Rightarrow> CipherType option" where
  "parse_cipher s = map_of
     [(''aes'', Aes), (''serpent'', Serpent), (''twofish'', Twofish), (''aes-twofish'', AesTwofish),
      (''aes-twofish-serpent'', AesTwofishSerpent), (''serpent-aes'', SerpentAes),
      (''serpent-twofish-aes'', SerpentTwofishAes), (''twofish-serpent'', TwofishSerpent),
      (''camellia-kuznyechik'', CamelliaKuznyechik), (''camellia-serpent'', CamelliaSerpent),
      (''kuznyechik-aes'', KuznyechikAes), (''kuznyechik-serpent-camellia'', KuznyechikSerpentCamellia),
      (''kuznyechik-twofish'', KuznyechikTwofish)] (to_lowercase s)"

definition parse_kdf :: "string \<Rightarrow> KdfAlgorithm option" where
  "parse_kdf s = map_of
     [(''sha512'', Pbkdf2Sha512), (''sha256'', Pbkdf2Sha256), (''blake2s'', Pbkdf2Blake2s),
      (''whirlpool'', Pbkdf2Whirlpool), (''streebog'', Pbkdf2Streebog), (''argon2'', Argon2id), (''argon2id'', Argon2id)]
     (to_lowercase s)"

definition is_digit :: "char \<Rightarrow> bool" where
  "is_digit c \<longleftrightarrow> 48 \<le> (of_char c :: nat) \<and> (of_char c :: nat) \<le> 57"

definition digits_value :: "string \<Rightarrow> nat" where
  "digits_value = foldl (\<lambda>n c. n * 10 + (of_char c - 48)) 0"

text \<open>\<open>parse::<u64>\<close> of a string of digits fails when it is empty or the number is too large.\<close>

definition parse_u64 :: "string \<Rightarrow> nat option" where
  "parse_u64 ds = (if ds = [] \<or> digits_value ds \<ge> 2 ^ 64 then None else Some (digits_value ds))"

definition saturating_mul :: "nat \<Rightarrow> nat \<Rightarrow> nat" where
  "saturating_mul a b = min (a * b) (2 ^ 64 - 1)"

definition ends_with :: "string \<Rightarrow> string \<Rightarrow> bool" where
  "ends_with s suffix \<longleftrightarrow> drop (length s - length suffix) s = suffix"

definition parse_size :: "string \<Rightarrow> u64" where
  "parse_size s =
     (let s = to_uppercase s; num = takeWhile is_digit s;
          n = (case parse_u64 num of Some n \<Rightarrow> n | None \<Rightarrow> 100)
      in of_nat (if ends_with s ''G'' \<or> ends_with s ''GB'' then saturating_mul n (1024 * 1024 * 1024)
                 else if ends_with s ''M'' \<or> ends_with s ''MB'' then saturating_mul n (1024 * 1024)
                 else if ends_with s ''K'' \<or> ends_with s ''KB'' then saturating_mul n 1024
                 else n))"

text \<open>The derivation and the iteration count the two creating commands use.\<close>

definition kdf_for :: "KdfAlgorithm \<Rightarrow> int \<Rightarrow> KeyDerivation \<times> u32" where
  "kdf_for kdf pim = (case kdf of
      Argon2id \<Rightarrow> (let (mem, t) = params_for_pim pim in (KdArgon2id mem t 1, t))
    | Pbkdf2Sha512 \<Rightarrow> (KdSha512, get_iteration_count KdSha512 pim)
    | Pbkdf2Sha256 \<Rightarrow> (KdSha256, get_iteration_count KdSha256 pim)
    | Pbkdf2Blake2s \<Rightarrow> (KdBlake2s, get_iteration_count KdBlake2s pim)
    | Pbkdf2Whirlpool \<Rightarrow> (KdWhirlpool, get_iteration_count KdWhirlpool pim)
    | Pbkdf2Streebog \<Rightarrow> (KdStreebog, get_iteration_count KdStreebog pim))"
section \<open>Printing\<close>

definition show_int :: "int \<Rightarrow> string" where
  "show_int n = (if n < 0 then ''-'' @ show_nat (nat (- n)) else show_nat (nat n))"

definition quoted :: "string \<Rightarrow> string" where
  "quoted s = [CHR 0x27] @ s @ [CHR 0x27]"

fun kdf_debug :: "KdfAlgorithm \<Rightarrow> string" where
  "kdf_debug Pbkdf2Sha256 = ''Pbkdf2Sha256''"
| "kdf_debug Pbkdf2Sha512 = ''Pbkdf2Sha512''"
| "kdf_debug Pbkdf2Blake2s = ''Pbkdf2Blake2s''"
| "kdf_debug Pbkdf2Whirlpool = ''Pbkdf2Whirlpool''"
| "kdf_debug Pbkdf2Streebog = ''Pbkdf2Streebog''"
| "kdf_debug Argon2id = ''Argon2id''"

definition hex_byte :: "u8 \<Rightarrow> string" where
  "hex_byte b = [digit_char (unat b div 16), digit_char (unat b mod 16)]"

text \<open>\<open>hex::encode(..).to_uppercase()\<close>\<close>

definition hex_upper :: "bytes \<Rightarrow> string" where
  "hex_upper bs = to_uppercase (concat (map hex_byte bs))"

text \<open>\<open>{:08x}\<close> of an address: at least eight digits.\<close>

fun show_hex :: "nat \<Rightarrow> string" where
  "show_hex n = (if n < 16 then [digit_char n] else show_hex (n div 16) @ [digit_char (n mod 16)])"

declare show_hex.simps [simp del]

definition pad8 :: "string \<Rightarrow> string" where
  "pad8 s = replicate (8 - length s) (CHR ''0'') @ s"

definition is_graphic :: "u8 \<Rightarrow> bool" where
  "is_graphic b \<longleftrightarrow> 0x21 \<le> b \<and> b \<le> 0x7E"

text \<open>One line of the dump: address, sixteen columns with a gap after the eighth, the characters.\<close>

definition hex_column :: "bytes \<Rightarrow> nat \<Rightarrow> string" where
  "hex_column chunk j = (if j < length chunk then hex_byte (chunk ! j) @ '' '' else ''   '') @ (if j = 7 then '' '' else '''')"

definition text_column :: "bytes \<Rightarrow> string" where
  "text_column chunk = map (\<lambda>b. if is_graphic b \<or> b = of_char (CHR '' '') then char_of (unat b) else CHR ''.'') chunk
     @ replicate (16 - length chunk) (CHR '' '')"

definition hexdump_line :: "u64 \<Rightarrow> nat \<Rightarrow> bytes \<Rightarrow> string" where
  "hexdump_line offset i chunk =
     ''    '' @ pad8 (show_hex (unat (offset + of_nat i * 16))) @ ''  '' @ concat (map (hex_column chunk) [0..<16])
     @ '' |'' @ text_column chunk @ ''|''"

definition hexdump_lines :: "bytes \<Rightarrow> u64 \<Rightarrow> string list" where
  "hexdump_lines data offset =
     (let cs = chunks 16 data in map (\<lambda>i. hexdump_line offset i (cs ! i)) [0..<length cs])"

definition hexdump :: "bytes \<Rightarrow> u64 \<Rightarrow> unit cmd" where
  "hexdump data offset = print_lines (hexdump_lines data offset)"

section \<open>Creating\<close>

definition set_len :: "nat \<Rightarrow> (vfile, string, unit) sm" where
  "set_len n = bindS io_guard (\<lambda>_ f.
     (Ok (), f \<lparr> f_bytes := take n (f_bytes f) @ replicate (n - length (f_bytes f)) 0 \<rparr>))"

text \<open>
  Running a library call on a file and the random source: its progress messages
  are printed, indented, and the file keeps what the call has written, also when
  it fails.
\<close>

definition indented :: "string \<Rightarrow> string" where
  "indented msg = ''    '' @ msg"

definition in_world :: "string \<Rightarrow> vfile \<Rightarrow> (world, VolumeError, unit) sm \<Rightarrow> (VolumeError, unit) res cmd" where
  "in_world path f m = (\<lambda>s. case m \<lparr> w_file = f, w_rng = c_rng s, w_log = [] \<rparr> of (r, w) \<Rightarrow>
     bindS (print_lines (map indented (w_log w))) (\<lambda>_.
     bindS (keep path (w_file w)) (\<lambda>_. liftR (case r of Panic \<Rightarrow> Panic | _ \<Rightarrow> Ok r))) (s \<lparr> c_rng := w_rng w \<rparr>))"

text \<open>\<open>Ok (Some ..)\<close> when a command goes on with the value, \<open>Ok None\<close> when it has printed why it stops.\<close>

definition or_stop :: "'a option \<Rightarrow> string list \<Rightarrow> ('a \<Rightarrow> unit cmd) \<Rightarrow> unit cmd" where
  "or_stop r msg k = (case r of Some x \<Rightarrow> k x | None \<Rightarrow> print_lines msg)"

text \<open>The password as bytes, with the keyfiles mixed in.\<close>

definition keyed_password :: "crypto_lib \<Rightarrow> string \<Rightarrow> string list \<Rightarrow> (bytes \<Rightarrow> unit cmd) \<Rightarrow> unit cmd" where
  "keyed_password L pw keyfile k = (\<lambda>s.
     if keyfile = [] then k (ascii pw) s
     else (case apply_keyfiles L (h_read (c_host s)) (ascii pw) keyfile of
         Ok b \<Rightarrow> k b s
       | Err e \<Rightarrow> println (''    Error: keyfile: '' @ e) s
       | Panic \<Rightarrow> (Panic, s)))"

definition cmd_create ::
  "crypto_lib \<Rightarrow> string \<Rightarrow> string option \<Rightarrow> string \<Rightarrow> string \<Rightarrow> int \<Rightarrow> string option \<Rightarrow> string list \<Rightarrow> unit cmd" where
  "cmd_create L volume size_arg cipher_str kdf_str pim password keyfile =
     (let size_str = (case size_arg of Some s \<Rightarrow> s | None \<Rightarrow> ''100M''); volume_size = parse_size size_str in
      bindS (print_lines [''==> Creating volume: '' @ volume,
        ''    Size:     '' @ size_str @ '' ('' @ show_nat (unat volume_size) @ '' bytes)'',
        ''    Cipher:   '' @ cipher_str, ''    KDF:      '' @ kdf_str, ''    PIM:      '' @ show_int pim]) (\<lambda>_.
      or_stop (parse_cipher cipher_str) [''    Error: unknown cipher '' @ quoted cipher_str] (\<lambda>cipher.
      or_stop (parse_kdf kdf_str) [''    Error: unknown KDF '' @ quoted kdf_str] (\<lambda>kdf.
      bindS (given_password password ''Password: '') (\<lambda>pw.
      if pw = [] then println ''    Error: empty password not allowed''
      else keyed_password L pw keyfile (\<lambda>pw_bytes s. (case c_create s volume of
          Inl e \<Rightarrow> println (''    Error: '' @ e) s
        | Inr f0 \<Rightarrow>
          let total_size = volume_size + of_nat (VOLUME_HEADER_SIZE * 4);
              (r, f) = set_len (unat total_size) (f0 \<lparr> f_bytes := [], f_pos := 0 \<rparr>) in
          (case r of
            Err e \<Rightarrow> bindS (keep volume f) (\<lambda>_. println (''    Error setting size: '' @ e)) s
          | Panic \<Rightarrow> (Panic, s)
          | Ok _ \<Rightarrow>
            let (kdf_impl, kdf_iterations) = kdf_for kdf pim in
            bindS (in_world volume f (create_volume_full L volume_size pw_bytes cipher kdf_impl kdf_iterations True)) (\<lambda>r.
            case r of
              Ok _ \<Rightarrow> println ''    Status:   Volume created successfully''
            | Err e \<Rightarrow> println (''    Error:   '' @ display_volume_error e)
            | Panic \<Rightarrow> liftR Panic) s))))))))"

definition cmd_create_hidden ::
  "crypto_lib \<Rightarrow> string \<Rightarrow> string option \<Rightarrow> string \<Rightarrow> string \<Rightarrow> int \<Rightarrow> string option \<Rightarrow> string list \<Rightarrow> unit cmd" where
  "cmd_create_hidden L outer size_arg cipher_str kdf_str pim password keyfile =
     (let size_str = (case size_arg of Some s \<Rightarrow> s | None \<Rightarrow> ''10M''); hidden_size = parse_size size_str in
      bindS (print_lines [''==> Creating hidden volume inside: '' @ outer,
        ''    Hidden size: '' @ size_str @ '' ('' @ show_nat (unat hidden_size) @ '' bytes)'',
        ''    Cipher:      '' @ cipher_str, ''    KDF:         '' @ kdf_str, ''    PIM:         '' @ show_int pim]) (\<lambda>_.
      or_stop (parse_cipher cipher_str) [''    Error: unknown cipher '' @ quoted cipher_str] (\<lambda>cipher.
      or_stop (parse_kdf kdf_str) [''    Error: unknown KDF '' @ quoted kdf_str] (\<lambda>kdf.
      bindS (given_password password ''Hidden volume password: '') (\<lambda>pw.
      if pw = [] then println ''    Error: empty password not allowed''
      else keyed_password L pw keyfile (\<lambda>pw_bytes s. (case h_open (c_host s) True outer of
          Inl e \<Rightarrow> println (''    Error: cannot open outer volume: '' @ e) s
        | Inr f \<Rightarrow>
          let (kdf_impl, kdf_iterations) = kdf_for kdf pim in
          bindS (in_world outer f (create_hidden_volume L hidden_size pw_bytes cipher kdf_impl kdf_iterations True)) (\<lambda>r.
          case r of
            Ok _ \<Rightarrow> println ''    Status:   Hidden volume created successfully''
          | Err e \<Rightarrow> println (''    Error:    '' @ display_volume_error e)
          | Panic \<Rightarrow> liftR Panic) s)))))))"

section \<open>Looking at volumes\<close>

text \<open>\<open>&data[a..b]\<close> inside a command.\<close>

definition sliced :: "bytes \<Rightarrow> nat \<Rightarrow> nat \<Rightarrow> bytes cmd" where
  "sliced data a b = liftR (slice data a b)"

definition cmd_info :: "crypto_lib \<Rightarrow> string \<Rightarrow> bool \<Rightarrow> unit cmd" where
  "cmd_info L volume backup =
     bindS (println (''==> Volume info: '' @ volume)) (\<lambda>_ s. (case h_read (c_host s) volume of
       Inl e \<Rightarrow> println (''    Error: Cannot read volume: '' @ e)
     | Inr data \<Rightarrow>
       if length data < VOLUME_HEADER_EFFECTIVE_SIZE then println ''    Error: File too small''
       else
         let offset = if backup then VOLUME_HEADER_SIZE else 0 in
         bindS (sliced data offset (offset + VOLUME_HEADER_EFFECTIVE_SIZE)) (\<lambda>hdr.
         bindS (sliced hdr 0 PKCS5_SALT_SIZE) (\<lambda>salt.
         bindS (println (''    File size: '' @ show_nat (length data) @ '' bytes'')) (\<lambda>_.
         bindS (sliced salt 0 16) (\<lambda>shown.
         bindS (println (''    Salt:      '' @ hex_upper shown @ ''...'')) (\<lambda>_.
         case deserialize_header L hdr of
           Ok h \<Rightarrow> println (''    Header:    v'' @ show_nat (unat (vh_header_version h)) @ '', sector='' @
               show_nat (unat (vh_sector_size h)) @ '', size='' @ show_nat (unat (vh_volume_size h)) @ '' (decrypted)'')
         | Err _ \<Rightarrow> println (''    Header:    encrypted (CRC fail '' @ [CHR 0xE2, CHR 0x80, CHR 0x94] @ '' needs password)'')
         | Panic \<Rightarrow> liftR Panic)))))) s)"

definition print_probe_result :: "OpenResult vres \<Rightarrow> unit cmd" where
  "print_probe_result result = (case result of
      Ok r \<Rightarrow> print_lines
        ([''    Status:    success'', ''    KDF:       '' @ kdf_debug (or_kdf r), ''    PIM:       '' @ show_int (or_pim r),
          ''    Cipher:    '' @ ct_name (or_header_cipher r), ''    Iter:      '' @ show_nat (unat (or_iterations r))]
         @ (case or_memory_cost_kib r of Some m \<Rightarrow> [''    Argon2Mem: '' @ show_nat (unat m) @ '' KiB''] | None \<Rightarrow> [])
         @ (if or_used_backup_header r then [''    Header:    backup''] else [])
         @ [''    Data off:  '' @ show_nat (unat (or_data_offset r)), ''    Data len:  '' @ show_nat (unat (or_data_length r)),
            ''    Key bytes: '' @ show_nat (length (or_master_key r))])
    | Err e \<Rightarrow> print_lines [''    Status:    failed'', ''    Error:     '' @ display_volume_error e]
    | Panic \<Rightarrow> liftR Panic)"

definition cmd_probe :: "crypto_lib \<Rightarrow> string \<Rightarrow> string option \<Rightarrow> string option \<Rightarrow> int option \<Rightarrow> string list \<Rightarrow> unit cmd" where
  "cmd_probe L volume password kdf pim keyfile =
     bindS (println (''==> Probing volume: '' @ volume)) (\<lambda>_.
     bindS (given_password password ''Password: '') (\<lambda>pw s. (case kdf of
       Some kdf_str \<Rightarrow> or_stop (parse_kdf kdf_str) [''    Error: unknown KDF '' @ quoted kdf_str @
           '' (try sha512/sha256/blake2s/whirlpool/streebog/argon2)''] (\<lambda>k.
         print_probe_result (open_volume_file_with_kdf L (h_read (c_host s)) volume (ascii pw) keyfile k
           (case pim of Some p \<Rightarrow> p | None \<Rightarrow> 0)))
     | None \<Rightarrow> print_probe_result (open_volume_file L (h_read (c_host s)) volume (ascii pw) keyfile pim)) s))"

text \<open>
  Dumping sectors. Sums are \<open>u64\<close> with the wrap-around of a release build; a
  buffer of more than \<open>2^63 - 1\<close> bytes is a capacity panic.
\<close>

fun dump_sectors :: "bytes \<Rightarrow> u64 \<Rightarrow> nat list \<Rightarrow> unit cmd" where
  "dump_sectors buf sector [] = ret ()"
| "dump_sectors buf sector (i # is) =
     bindS (sliced buf (i * 512) (i * 512 + 512)) (\<lambda>part.
     bindS (hexdump part ((sector + of_nat i) * 512)) (\<lambda>_. dump_sectors buf sector is))"

definition dump_volume :: "crypto_lib \<Rightarrow> u64 \<Rightarrow> u64 \<Rightarrow> OpenVolume \<Rightarrow> unit cmd" where
  "dump_volume L sector count vol =
     (let mx = max_sector vol in
      if sector \<ge> mx then
        println (''    Error: sector '' @ show_nat (unat sector) @ '' out of range (max '' @ show_nat (unat mx) @ '')'')
      else
        let end_sector = min (sector + count) mx; actual_count = end_sector - sector; len = unat (512 * actual_count) in
        if len \<ge> 2 ^ 63 then liftR Panic
        else (case fst (volume_read L sector len vol) of
          Err e \<Rightarrow> println (''    Error reading: '' @ display_volume_error e)
        | Panic \<Rightarrow> liftR Panic
        | Ok buf \<Rightarrow> dump_sectors buf sector [0..<unat actual_count]))"

definition cmd_dump ::
  "crypto_lib \<Rightarrow> string \<Rightarrow> string option \<Rightarrow> string option \<Rightarrow> int option \<Rightarrow> string list \<Rightarrow> u64 \<Rightarrow> u64 \<Rightarrow> unit cmd" where
  "cmd_dump L volume password kdf pim keyfile sector count =
     bindS (print_lines [''==> Dumping volume: '' @ volume, ''    Sector:    '' @ show_nat (unat sector),
       ''    Count:     '' @ show_nat (unat count)]) (\<lambda>_.
     bindS (given_password password ''Password: '') (\<lambda>pw s.
       (case open_vol L (c_host s) volume (ascii pw) keyfile (Option.bind kdf parse_kdf) pim of
         Err e \<Rightarrow> println (''    Error: '' @ display_volume_error e)
       | Panic \<Rightarrow> liftR Panic
       | Ok vol \<Rightarrow> dump_volume L sector count vol) s))"

section \<open>Changing and restoring headers\<close>

definition cmd_change ::
  "crypto_lib \<Rightarrow> string \<Rightarrow> string option \<Rightarrow> string option \<Rightarrow> string option \<Rightarrow> int option \<Rightarrow> string list \<Rightarrow> string list \<Rightarrow> unit cmd" where
  "cmd_change L volume password new_password kdf pim keyfile new_keyfile =
     bindS (println (''==> Changing password: '' @ volume)) (\<lambda>_.
     bindS (given_password password ''Old password: '') (\<lambda>pw.
     bindS (given_password new_password ''New password: '') (\<lambda>new_pw.
     if new_pw = [] then println ''    Error: empty password not allowed''
     else
       bindS (case kdf of
           None \<Rightarrow> ret None
         | Some s \<Rightarrow> (case parse_kdf s of
               Some k \<Rightarrow> ret (Some k)
             | None \<Rightarrow> bindS (eprintln (''Error: unknown KDF '' @ quoted s)) (\<lambda>_. exit_process 1))) (\<lambda>new_kdf s.
         (case open_volume_file L (h_read (c_host s)) volume (ascii pw) keyfile pim of
           Err e \<Rightarrow> println (''    Error opening: '' @ display_volume_error e) s
         | Panic \<Rightarrow> (Panic, s)
         | Ok r \<Rightarrow>
           let actual_new_kdf = (case new_kdf of Some k \<Rightarrow> k | None \<Rightarrow> or_kdf r);
               actual_new_pim = (case pim of Some p \<Rightarrow> p | None \<Rightarrow> 0) in
           (case h_open (c_host s) True volume of
             Inl e \<Rightarrow> println (''    Error: '' @ e) s
           | Inr f \<Rightarrow>
             bindS (in_world volume f (change_volume_password L (h_read (c_host s)) r (ascii new_pw) new_keyfile
               actual_new_kdf actual_new_pim)) (\<lambda>res. case res of
               Ok _ \<Rightarrow> println ''    Status:    password changed successfully''
             | Err e \<Rightarrow> println (''    Error:     '' @ display_volume_error e)
             | Panic \<Rightarrow> liftR Panic) s))))))"

definition cmd_restore :: "crypto_lib \<Rightarrow> string \<Rightarrow> string option \<Rightarrow> string option \<Rightarrow> int option \<Rightarrow> string list \<Rightarrow> unit cmd" where
  "cmd_restore L volume password kdf pim keyfile =
     bindS (println (''==> Restoring header: '' @ volume)) (\<lambda>_.
     bindS (given_password password ''Password: '') (\<lambda>pw s. (case h_open (c_host s) True volume of
       Inl e \<Rightarrow> println (''    Error: '' @ e) s
     | Inr f \<Rightarrow>
       bindS (in_world volume f (fileS (restore_volume_header L (h_read (c_host s)) (ascii pw) keyfile
         (Option.bind kdf parse_kdf) pim))) (\<lambda>res. case res of
         Ok _ \<Rightarrow> println ''    Status:    header restored from backup''
       | Err e \<Rightarrow> println (''    Error:     '' @ display_volume_error e)
       | Panic \<Rightarrow> liftR Panic) s)))"

section \<open>The driver's commands\<close>

text \<open>
  The driver as the tool sees it: whether its device opens, its answer to each
  control code (\<open>None\<close> for a failed call) and the text of the last OS error. The
  version request that \<open>open_driver\<close> sends is for its debug output only.
\<close>

record driver_device =
  dd_loaded :: bool
  dd_control :: "u32 \<Rightarrow> bytes \<Rightarrow> bytes option"
  dd_last_error :: string

definition CLI_IOCTL_MOUNT :: u32 where "CLI_IOCTL_MOUNT = 0x0022200C"
definition CLI_IOCTL_UNMOUNT :: u32 where "CLI_IOCTL_UNMOUNT = 0x00222010"

definition unmount_request :: "u8 \<Rightarrow> bytes" where
  "unmount_request drive_no = blit (replicate 8 0) 4 (le_bytes 4 (ucast drive_no :: u32))"

definition send_unmount_ioctl :: "(bytes \<Rightarrow> bytes option) \<Rightarrow> bytes \<Rightarrow> (cli_error, unit) res" where
  "send_unmount_ioctl device_io_control u = (case device_io_control u of
      None \<Rightarrow> Err IoctlFailed
    | Some reply \<Rightarrow> let code = read_packed_i32 reply 0 in if code = 0 then Ok () else Err (DriverError code))"

definition unmount_via_driver :: "driver_device \<Rightarrow> nat \<Rightarrow> (cli_error, unit) res" where
  "unmount_via_driver D drive_letter =
     (let drive_no = drive_number drive_letter in
      if drive_no > 25 then Err (InvalidDriveLetter drive_letter)
      else if \<not> dd_loaded D then Err DriverNotLoaded
      else send_unmount_ioctl (dd_control D CLI_IOCTL_UNMOUNT) (unmount_request drive_no))"

fun display_cli_error :: "string \<Rightarrow> cli_error \<Rightarrow> string" where
  "display_cli_error os (OpenFailed e) = ''Failed to open volume: '' @ display_volume_error e"
| "display_cli_error os (InvalidDriveLetter c) = ''Invalid drive letter: '' @ [char_of c]"
| "display_cli_error os DriverNotLoaded =
     ''Cannot open '' @ [CHR 0x5C, CHR 0x5C, CHR ''.'', CHR 0x5C] @ ''Oxhide '' @ [CHR 0xE2, CHR 0x80, CHR 0x94] @ '' driver loaded?''"
| "display_cli_error os IoctlFailed = ''IOCTL failed: '' @ os"
| "display_cli_error os DriveLetterInUse = ''Drive letter in use''"
| "display_cli_error os CannotOpenContainer = ''Cannot open container file''"
| "display_cli_error os UnsupportedDriverCipher = ''Unsupported cipher''"
| "display_cli_error os (DriverError code) = ''Driver error: '' @ show_int code"

definition first_char :: "string \<Rightarrow> nat" where
  "first_char drive = (case drive of [] \<Rightarrow> of_char (CHR ''X'') | c # _ \<Rightarrow> of_char c)"

definition cmd_mount_kernel ::
  "crypto_lib \<Rightarrow> driver_device \<Rightarrow> string \<Rightarrow> string \<Rightarrow> string option \<Rightarrow> string option \<Rightarrow> int option \<Rightarrow> string list \<Rightarrow> bool \<Rightarrow> unit cmd" where
  "cmd_mount_kernel L D volume drive password kdf pim keyfile read_only =
     bindS (print_lines [''==> Mounting (kernel): '' @ volume, ''    Drive:     '' @ drive]) (\<lambda>_.
     bindS (given_password password ''Password: '') (\<lambda>pw s. (case mount_via_driver L (h_read (c_host s)) (dd_loaded D)
         (dd_control D CLI_IOCTL_MOUNT) volume (map of_char volume) (first_char drive) (ascii pw) keyfile
         (Option.bind kdf parse_kdf) pim read_only of
       Ok _ \<Rightarrow> println (''    Status:    mounted as '' @ drive @ '':'') s
     | Err e \<Rightarrow> println (''    Error:     '' @ display_cli_error (dd_last_error D) e) s
     | Panic \<Rightarrow> (Panic, s))))"

definition cmd_unmount_kernel :: "driver_device \<Rightarrow> string \<Rightarrow> unit cmd" where
  "cmd_unmount_kernel D drive =
     bindS (println (''==> Unmounting (kernel): '' @ drive)) (\<lambda>_. case unmount_via_driver D (first_char drive) of
       Ok _ \<Rightarrow> println ''    Status:    unmounted''
     | Err e \<Rightarrow> println (''    Error:     '' @ display_cli_error (dd_last_error D) e)
     | Panic \<Rightarrow> liftR Panic)"

section \<open>Self-test\<close>

definition assert :: "bool \<Rightarrow> unit cmd" where
  "assert b = (if b then ret () else liftR Panic)"

definition unwrap :: "('e, 'a) res \<Rightarrow> 'a cmd" where
  "unwrap r = (case r of Ok x \<Rightarrow> ret x | _ \<Rightarrow> liftR Panic)"

definition cmd_test :: "crypto_lib \<Rightarrow> unit cmd" where
  "cmd_test L =
     bindS (println ''==> Cryptographic Self-Tests'') (\<lambda>_.
     bindS (unwrap (aes_new L (replicate 32 0))) (\<lambda>cipher.
     let orig = replicate 16 0x12 in
     bindS (unwrap (bc_encrypt_block (AesCipher L) cipher orig)) (\<lambda>data.
     bindS (assert (data \<noteq> orig)) (\<lambda>_.
     bindS (unwrap (bc_decrypt_block (AesCipher L) cipher data)) (\<lambda>data.
     bindS (assert (data = orig)) (\<lambda>_.
     bindS (println ''  ok AES-256 encrypt/decrypt'') (\<lambda>_.
     let hash = hash_oneshot (Sha256Hash L) (ascii ''abc'') in
     bindS (assert (concat (map hex_byte hash) = ''ba7816bf8f01cfea414140de5dae2223b00361a396177a9cb410ff61f20015ad'')) (\<lambda>_.
     bindS (println ''  ok SHA-256 KAT'') (\<lambda>_.
     bindS (unwrap (derive L KdSha256 (ascii ''password'') (ascii ''salt'') 1000 (replicate 32 0))) (\<lambda>out.
     bindS (assert (out \<noteq> replicate 32 0)) (\<lambda>_.
     print_lines [''  ok PBKDF2-HMAC-SHA-256'', '''', ''All self-tests passed ok''])))))))))))"

section \<open>Commands\<close>

text \<open>
  The commands of the tool. The two of the driver exist on Windows only. What the
  benchmark prints is a parameter: it depends on the clock.
\<close>

datatype Commands =
    Create string "string option" string string int "string option" "string list"
  | Info string bool
  | Probe string "string option" "string option" "int option" "string list"
  | Dump string "string option" "string option" "int option" "string list" u64 u64
  | CreateHidden string "string option" string string int "string option" "string list"
  | SelfTest
  | Benchmark string
  | Change string "string option" "string option" "string option" "int option" "string list" "string list"
  | Restore string "string option" "string option" "int option" "string list"
  | Mount string string "string option" "string option" "int option" "string list" bool
  | Unmount string

fun run_command :: "crypto_lib \<Rightarrow> driver_device \<Rightarrow> (string \<Rightarrow> unit cmd) \<Rightarrow> Commands \<Rightarrow> unit cmd" where
  "run_command L D bench (Create volume sz cipher kdf pim password keyfile) = cmd_create L volume sz cipher kdf pim password keyfile"
| "run_command L D bench (CreateHidden outer sz cipher kdf pim password keyfile) =
     cmd_create_hidden L outer sz cipher kdf pim password keyfile"
| "run_command L D bench (Info volume backup) = cmd_info L volume backup"
| "run_command L D bench (Probe volume password kdf pim keyfile) = cmd_probe L volume password kdf pim keyfile"
| "run_command L D bench (Dump volume password kdf pim keyfile sector count) =
     cmd_dump L volume password kdf pim keyfile sector count"
| "run_command L D bench SelfTest = cmd_test L"
| "run_command L D bench (Benchmark kind) = bench kind"
| "run_command L D bench (Change volume password new_password kdf pim keyfile new_keyfile) =
     cmd_change L volume password new_password kdf pim keyfile new_keyfile"
| "run_command L D bench (Restore volume password kdf pim keyfile) = cmd_restore L volume password kdf pim keyfile"
| "run_command L D bench (Mount volume drive password kdf pim keyfile read_only) =
     cmd_mount_kernel L D volume drive password kdf pim keyfile read_only"
| "run_command L D bench (Unmount drive) = cmd_unmount_kernel D drive"

section \<open>Running commands\<close>

lemma println_run [simp]: "println l s = (Ok (), s \<lparr> c_out := c_out s @ [l] \<rparr>)"
  by (simp add: println_def)

lemma bind_println [simp]: "bindS (println l) k s = k () (s \<lparr> c_out := c_out s @ [l] \<rparr>)"
  by (simp add: bindS_def)

lemma print_lines_run [simp]: "print_lines ls s = (Ok (), s \<lparr> c_out := c_out s @ ls \<rparr>)"
  by (induction ls arbitrary: s) (simp_all add: ret_def)

lemma bind_print_lines [simp]: "bindS (print_lines ls) k s = k () (s \<lparr> c_out := c_out s @ ls \<rparr>)"
  by (simp add: bindS_def)

lemma bind_given_password [simp]: "bindS (given_password (Some pw) prompt) k s = k pw s"
  by (simp add: given_password_def bindS_def ret_def)

lemma bind_liftR_Ok [simp]: "bindS (liftR (Ok x)) k s = k x s"
  by (simp add: bindS_def liftR_def)

section \<open>Reading a dump back\<close>

text \<open>
  What a reader of the dump does: the hexadecimal columns stand at fixed places
  from the right end of a line, and a blank column is the end of the data.
\<close>

definition hex_value :: "char \<Rightarrow> nat" where
  "hex_value c = (let n = of_char c in if n < 58 then n - 48 else n - 87)"

definition undump_line :: "string \<Rightarrow> bytes" where
  "undump_line line =
     (let cols = drop (length line - 68) line
      in concat (map (\<lambda>j. let c = drop (3 * j + (if j < 8 then 0 else 1)) cols
           in if hd c = CHR '' '' then [] else [of_nat (hex_value (c ! 0) * 16 + hex_value (c ! 1))]) [0..<16]))"

lemma hex_value_digit:
  assumes "d < 16"
  shows "hex_value (digit_char d) = d" "digit_char d \<noteq> CHR '' ''"
proof -
  have "(of_char (digit_char d) :: nat) = (if d < 10 then 48 + d else 87 + d)"
    using assms by (simp add: digit_char_def)
  moreover have "(of_char (CHR '' '') :: nat) = 32"
    by simp
  ultimately show "hex_value (digit_char d) = d" "digit_char d \<noteq> CHR '' ''"
    using assms by (auto simp: hex_value_def split: if_splits)
qed

text \<open>The two characters of a column, and the columns one after the other.\<close>

definition col_chars :: "bytes \<Rightarrow> nat \<Rightarrow> char \<times> char" where
  "col_chars chunk j = (if j < length chunk then (digit_char (unat (chunk ! j) div 16), digit_char (unat (chunk ! j) mod 16))
     else (CHR '' '', CHR '' ''))"

lemma hex_column_alt:
  "hex_column chunk j = [fst (col_chars chunk j), snd (col_chars chunk j), CHR '' ''] @ (if j = 7 then '' '' else '''')"
  by (simp add: hex_column_def col_chars_def hex_byte_def)

definition columns :: "bytes \<Rightarrow> string" where
  "columns chunk = concat (map (hex_column chunk) [0..<16])"

definition triple :: "bytes \<Rightarrow> nat \<Rightarrow> string" where
  "triple chunk j = [fst (col_chars chunk j), snd (col_chars chunk j), CHR '' '']"

definition triples :: "bytes \<Rightarrow> nat \<Rightarrow> nat \<Rightarrow> string" where
  "triples chunk a n = concat (map (\<lambda>j. triple chunk (a + j)) [0..<n])"

lemma triples_Suc: "triples chunk a (Suc n) = triples chunk a n @ triple chunk (a + n)"
  by (simp add: triples_def)

lemma triples_length: "length (triples chunk a n) = 3 * n"
proof (induction n)
  case (Suc n)
  then show ?case
    by (simp add: triples_Suc triple_def)
qed (simp add: triples_def)

lemma triples_nth:
  assumes "i < 3" "j < n"
  shows "triples chunk a n ! (3 * j + i) = triple chunk (a + j) ! i"
  using assms(2)
proof (induction n)
  case (Suc n)
  show ?case
  proof (cases "j < n")
    case True
    then show ?thesis
      using Suc assms(1) by (simp add: triples_Suc nth_append triples_length)
  next
    case False
    then have "j = n"
      using Suc by simp
    then show ?thesis
      using assms(1) by (simp add: triples_Suc nth_append triples_length)
  qed
qed simp

lemma columns_low: "n \<le> 7 \<Longrightarrow> concat (map (hex_column chunk) [0..<n]) = triples chunk 0 n"
  by (induction n) (simp_all add: triples_Suc hex_column_alt triple_def, simp add: triples_def)

lemma columns_high: "concat (map (hex_column chunk) [0..<8 + n]) = triples chunk 0 8 @ '' '' @ triples chunk 8 n"
proof (induction n)
  case 0
  have u: "[0..<8] = [0..<7] @ [7 :: nat]"
    using upt_Suc [of 0 7] by (simp del: upt_Suc)
  have "concat (map (hex_column chunk) [0..<8]) = triples chunk 0 7 @ hex_column chunk 7"
    unfolding u using columns_low [of 7 chunk] by (simp only: map_append concat_append) simp
  also have "\<dots> = triples chunk 0 (Suc 7) @ '' ''"
    unfolding triples_Suc by (simp add: hex_column_alt triple_def)
  finally show ?case
    by (simp add: triples_def)
next
  case (Suc n)
  have u: "[0..<8 + Suc n] = [0..<8 + n] @ [8 + n]"
    using upt_Suc [of 0 "8 + n"] by (simp del: upt_Suc)
  have "concat (map (hex_column chunk) [0..<8 + Suc n]) = concat (map (hex_column chunk) [0..<8 + n]) @ hex_column chunk (8 + n)"
    unfolding u by simp
  moreover have "hex_column chunk (8 + n) = triple chunk (8 + n)"
    by (simp add: hex_column_alt triple_def)
  ultimately show ?case
    by (simp only: Suc triples_Suc append_assoc)
qed

lemma columns_alt: "columns chunk = triples chunk 0 8 @ '' '' @ triples chunk 8 8"
  using columns_high [of chunk 8] by (simp only: columns_def) simp

lemma columns_length: "length (columns chunk) = 49"
  by (simp add: columns_alt triples_length)

lemma columns_nth:
  assumes "j < 16" "i < 3"
  shows "(columns chunk @ rest) ! (3 * j + (if j < 8 then 0 else 1) + i) = triple chunk j ! i"
proof (cases "j < 8")
  case True
  then show ?thesis
    using triples_nth [of i j 8 chunk 0] assms(2) by (simp add: columns_alt nth_append triples_length)
next
  case False
  have p: "3 * j + (if j < 8 then 0 else 1) + i = 25 + (3 * (j - 8) + i)" "3 * (j - 8) + i < 24"
    using False assms by auto
  have "(columns chunk @ rest) ! (25 + k) = triples chunk 8 8 ! k" if "k < 24" for k
    using that by (simp add: columns_alt nth_append triples_length)
  from this [OF p(2)] show ?thesis
    unfolding p(1) using triples_nth [of i "j - 8" 8 chunk 8] assms False by simp
qed

lemma undump_dump_line:
  assumes "length chunk \<le> 16"
  shows "undump_line (hexdump_line offset i chunk) = chunk"
proof -
  let ?line = "hexdump_line offset i chunk" and ?rest = "'' |'' @ text_column chunk @ ''|''"
  have "length ?rest = 19"
    using assms by (simp add: text_column_def)
  moreover obtain pre where "?line = pre @ columns chunk @ ?rest"
    by (simp add: hexdump_line_def columns_def [symmetric])
  ultimately have d: "drop (length ?line - 68) ?line = columns chunk @ ?rest"
    using columns_length [of chunk] by simp
  define byte_at :: "nat \<Rightarrow> bytes" where "byte_at j = (if j < length chunk then [chunk ! j] else [])" for j
  have col: "(let c = drop (3 * j + (if j < 8 then 0 else 1)) (columns chunk @ ?rest)
      in if hd c = CHR '' '' then [] else [of_nat (hex_value (c ! 0) * 16 + hex_value (c ! 1))]) = byte_at j" if "j < 16" for j
  proof -
    define X p where "X = columns chunk @ ?rest" and "p = 3 * j + (if j < 8 then 0 else 1)"
    define c where "c = drop p X"
    have l: "p + 1 < length X"
      using that columns_length by (simp add: X_def p_def)
    have "X ! p = fst (col_chars chunk j)" "X ! (p + 1) = snd (col_chars chunk j)"
      using columns_nth [OF that, of 0 chunk ?rest] columns_nth [OF that, of 1 chunk ?rest]
      by (simp_all add: X_def p_def triple_def)
    then have c: "c ! 0 = fst (col_chars chunk j)" "c ! 1 = snd (col_chars chunk j)" "hd c = c ! 0"
      using l by (simp_all add: c_def hd_drop_conv_nth)
    have "unat (chunk ! j) < 2 ^ LENGTH(8)"
      by (rule unsigned_less)
    then have b: "unat (chunk ! j) div 16 < 16" "unat (chunk ! j) mod 16 < 16"
      by simp_all
    have "(of_nat (unat (chunk ! j) div 16 * 16 + unat (chunk ! j) mod 16) :: u8) = chunk ! j"
      by (simp only: div_mult_mod_eq) simp
    with c b show ?thesis
      unfolding X_def [symmetric] p_def [symmetric] c_def [symmetric] Let_def
      by (simp add: byte_at_def col_chars_def hex_value_digit)
  qed
  have "map byte_at [0..<16] = map (\<lambda>b. [b]) chunk @ replicate (16 - length chunk) []"
    using assms by (intro nth_equalityI) (auto simp: byte_at_def nth_append)
  moreover have "undump_line ?line = concat (map byte_at [0..<16])"
    unfolding undump_line_def d using col by (simp only: Let_def) (intro arg_cong [of _ _ concat] map_cong, auto simp: Let_def)
  ultimately show ?thesis
    by (simp add: concat_replicate_trivial)
qed
text \<open>A dump can be read back, whatever the address, a short last line included.\<close>

lemma hexdump_roundtrip:
  "concat (map undump_line (hexdump_lines data offset)) = data
   \<and> length (hexdump_lines data offset) = (length data + 15) div 16"
proof -
  let ?cs = "chunks 16 data"
  have short: "length c \<le> 16" if "c \<in> set (chunks 16 data)" for c
    using that
  proof (induction "16 :: nat" data rule: chunks.induct)
    case (1 data)
    then show ?case
      by (subst (asm) chunks.simps) (auto split: if_splits)
  qed
  have "map undump_line (hexdump_lines data offset) = map (\<lambda>i. ?cs ! i) [0..<length ?cs]"
    by (auto simp: hexdump_lines_def Let_def undump_dump_line short)
  then have "concat (map undump_line (hexdump_lines data offset)) = data"
    by (simp only: map_nth) (simp add: concat_chunks)
  moreover have "length (chunks 16 data) = (length data + 15) div 16"
  proof (induction "16 :: nat" data rule: chunks.induct)
    case (1 data)
    show ?case
    proof (cases "data = []")
      case False
      then have "(length data + 15) div 16 = Suc ((length (drop 16 data) + 15) div 16)"
        by (cases "length data \<le> 16") (auto simp: div_if Suc_diff_le)
      then show ?thesis
        using False 1 by (subst chunks.simps) simp
    qed simp
  qed
  ultimately show ?thesis
    by (simp add: hexdump_lines_def Let_def)
qed

text \<open>Dumping sector by sector is dumping at once, since a sector is whole lines.\<close>

lemma hexdump_lines_append:
  assumes "16 dvd length a"
  shows "hexdump_lines (a @ b) offset = hexdump_lines a offset @ hexdump_lines b (offset + of_nat (length a))"
proof -
  let ?n = "length (chunks 16 a)"
  have c: "chunks 16 (a @ b) = chunks 16 a @ chunks 16 b"
    by (rule chunks_append_dvd [OF _ assms]) simp
  have n: "?n * 16 = length a"
    using assms length_chunks [of 16 a] by simp
  have "hexdump_line offset i chunk = hexdump_line (offset + of_nat (length a)) (i - ?n) chunk" if "\<not> i < ?n" for i chunk
    using that unfolding hexdump_line_def n [symmetric] by (simp add: algebra_simps of_nat_diff)
  then show ?thesis
    unfolding hexdump_lines_def Let_def c by (rule_tac nth_equalityI) (auto simp: nth_append)
qed

lemma hexdump_lines_Nil [simp]: "hexdump_lines [] offset = []"
  by (simp add: hexdump_lines_def)

lemma dump_sectors_run:
  assumes "512 * (a + n) \<le> length buf"
  shows "dump_sectors buf sector [a..<a + n] s = (Ok (), s \<lparr> c_out := c_out s @
    hexdump_lines (sub buf (512 * a) (512 * (a + n))) ((sector + of_nat a) * 512) \<rparr>)"
  using assms
proof (induction n arbitrary: a s)
  case 0
  then show ?case
    by (simp add: ret_def sub_def)
next
  case (Suc n)
  let ?o = "(sector + of_nat a) * 512" and ?part = "sub buf (a * 512) (a * 512 + 512)"
  have "sub buf (512 * a) (512 * (a + Suc n)) = ?part @ sub buf (512 * Suc a) (512 * (Suc a + n))"
    using Suc(2) by (intro nth_equalityI) (auto simp: sub_def nth_append algebra_simps)
  then have h: "hexdump_lines (sub buf (512 * a) (512 * (a + Suc n))) ?o =
      hexdump_lines ?part ?o @ hexdump_lines (sub buf (512 * Suc a) (512 * (Suc a + n))) ((sector + of_nat (Suc a)) * 512)"
    using Suc(2) by (simp add: hexdump_lines_append algebra_simps)
  have u: "[a..<a + Suc n] = a # [Suc a..<Suc a + n]"
    by (simp add: upt_conv_Cons)
  show ?case
    unfolding u h using Suc(1) [of "Suc a"] Suc(2)
    by (simp add: sliced_def hexdump_def algebra_simps del: upt_Suc)
qed

text \<open>
  C38: What \<open>dump\<close> prints are the sectors of the volume. On an open volume, for
  a first sector inside it and a count that does not overflow, the request is
  cut at the end of the volume, read, and printed sector by sector; the lines are
  those of one dump of everything read, thirty-two for each sector, with
  addresses counted from the start of the volume, and taking their columns gives
  back the bytes read.
\<close>

theorem dump_shows_sectors:
  assumes "lib_ok L" "vol_ok L vol" "reliable (ov_file vol)" "sector < max_sector vol" "0 < count"
    "unat sector + unat count < 2 ^ 64" "512 * n < 2 ^ 63"
    "n = min (unat count) (unat (max_sector vol) - unat sector)"
    "unat (host_pos (or_data_offset (ov_inner vol)) sector) + 512 * n \<le> length (f_bytes (ov_file vol))"
  shows "\<exists>buf lines. fst (volume_read L sector (512 * n) vol) = Ok buf
    \<and> dump_volume L sector count vol s = (Ok (), s \<lparr> c_out := c_out s @ lines \<rparr>)
    \<and> lines = hexdump_lines buf (sector * 512) \<and> length lines = 32 * n
    \<and> concat (map undump_line lines) = buf"
proof -
  let ?start = "unat (host_pos (or_data_offset (ov_inner vol)) sector)"
  let ?raw = "sub (f_bytes (ov_file vol)) ?start (?start + 512 * n)"
  have lt: "unat sector < unat (max_sector vol)"
    using assms(4) by (simp add: word_less_nat_alt)
  have "0 < n" "length ?raw = 512 * n"
    using assms(5,8,9) lt by (simp_all add: word_less_nat_alt)
  then have "16 dvd length ?raw" "?raw \<noteq> []"
    by (auto simp flip: length_0_conv)
  then obtain buf where buf: "obj_decrypt_sector L (ov_cipher vol) sector ?raw = Ok buf" "length buf = length ?raw"
    using assms(1,2) by (fastforce simp: vol_ok_def obj_refines_def sector_length)
  then have r: "fst (volume_read L sector (512 * n) vol) = Ok buf"
    using assms(3,9) by (simp add: volume_read_def fileV_parts read_sectors_run)
  have e: "unat (min (sector + count) (max_sector vol) - sector) = n"
  proof -
    have "unat (sector + count) = unat sector + unat count"
      using assms(6) by (simp add: unat_plus64)
    then have "unat (min (sector + count) (max_sector vol)) = min (unat sector + unat count) (unat (max_sector vol))"
      by (auto simp: min_def word_le_nat_alt)
    moreover from this have "sector \<le> min (sector + count) (max_sector vol)"
      using lt by (simp add: word_le_nat_alt)
    ultimately show ?thesis
      using assms(8) lt by (simp add: unat_sub)
  qed
  have "unat (512 * x) = 512 * unat x" if "512 * unat x < 2 ^ 64" for x :: u64
    using that by (simp add: unat_word_ariths)
  then have "unat (512 * (min (sector + count) (max_sector vol) - sector)) = 512 * n"
    using assms(7) e by (simp del: right_diff_distrib_numeral)
  then have "dump_volume L sector count vol s = dump_sectors buf sector [0..<0 + n] s"
    using assms(4,7) r e by (simp add: dump_volume_def Let_def not_le del: right_diff_distrib_numeral)
  then have "dump_volume L sector count vol s = (Ok (), s \<lparr> c_out := c_out s @ hexdump_lines buf (sector * 512) \<rparr>)"
    using dump_sectors_run [of 0 n buf sector s] buf(2) \<open>length ?raw = 512 * n\<close> by (simp add: sub_def)
  then show ?thesis
    using r hexdump_roundtrip [of buf "sector * 512"] buf(2) \<open>length ?raw = 512 * n\<close> by simp
qed

text \<open>
  A count so large that the last sector's number wraps is not cut at the end of
  the volume: the difference taken for the buffer is the count itself, and the
  buffer too large to allocate.
\<close>

lemma dump_overflow_panics:
  assumes "sector < max_sector vol" "2 ^ 64 \<le> unat sector + unat count" "unat sector \<le> 2 ^ 54"
  shows "dump_volume L sector count vol s = (Panic, s)"
proof -
  have c: "unat count < 2 ^ 64"
    using unsigned_less [of count] by simp
  have "unat (sector + count) = unat sector + unat count - 2 ^ 64"
    using assms(2,3) c by (simp add: unat_word_ariths mod_nat_eqI le_mod_geq)
  then have "sector + count \<le> max_sector vol"
    using assms(1) c by (simp add: word_le_nat_alt word_less_nat_alt)
  then have e: "min (sector + count) (max_sector vol) - sector = count"
    by (simp add: min_def)
  define k where "k = 2 ^ 64 - unat count"
  have "unat count = 2 ^ 64 - k" "0 < k" "k \<le> 2 ^ 54"
    using assms(2,3) c by (auto simp: k_def)
  then have "512 * unat count = (2 ^ 64 - 512 * k) + 511 * 2 ^ 64" "2 ^ 64 - 512 * k < (2 ^ 64 :: nat)" "(2 :: nat) ^ 63 \<le> 2 ^ 64 - 512 * k"
    by simp_all
  moreover have "(a + 511 * m) mod m = a" if "a < m" for a m :: nat
    using that by simp
  ultimately have "2 ^ 63 \<le> (512 * unat count) mod 2 ^ 64"
    by metis
  then have "2 ^ 63 \<le> unat (512 * count)"
    by (simp add: unat_word_ariths)
  with assms(1) e show ?thesis
    by (simp add: dump_volume_def Let_def not_le not_less liftR_def del: right_diff_distrib_numeral)
qed

section \<open>Sizes\<close>

text \<open>The decimal digits of a number, as the tool reads them and as Rust prints them.\<close>

lemma digits_value_snoc: "digits_value (ds @ [c]) = digits_value ds * 10 + (of_char c - 48)"
  by (simp add: digits_value_def)

lemma show_nat_digits:
  "digits_value (show_nat n) = n \<and> list_all is_digit (show_nat n) \<and> show_nat n \<noteq> []
   \<and> to_uppercase (show_nat n) = show_nat n"
proof (induction n rule: show_nat.induct)
  case (1 n)
  have d: "of_char (digit_char k) = 48 + k" "is_digit (digit_char k)" "upper_char (digit_char k) = digit_char k" if "k < 10" for k
    using that by (auto simp: digit_char_def is_digit_def upper_char_def Let_def)
  show ?case
  proof (cases "n < 10")
    case True
    then show ?thesis
      using d [of n] by (subst (1 2 3 4 5) show_nat.simps) (simp add: digits_value_def to_uppercase_def)
  next
    case False
    then show ?thesis
      using d [of "n mod 10"] 1
      by (subst (1 2 3 4 5) show_nat.simps) (simp add: digits_value_snoc to_uppercase_def)
  qed
qed

lemma takeWhile_digits: "list_all is_digit ds \<Longrightarrow> \<not> is_digit u \<Longrightarrow> takeWhile is_digit (ds @ u # rest) = ds"
  by (induction ds) simp_all

lemma takeWhile_all_digits: "list_all is_digit ds \<Longrightarrow> takeWhile is_digit ds = ds"
  by (induction ds) simp_all

lemma ends_with_last: "ends_with (xs @ [c]) [d] \<longleftrightarrow> c = d"
  by (simp add: ends_with_def)

lemma ends_with_two: "ends_with (xs @ [a, b]) [c, d] \<longleftrightarrow> a = c \<and> b = d" "ends_with (xs @ [a, b]) [d] \<longleftrightarrow> b = d"
  by (simp_all add: ends_with_def)

text \<open>A number of digits does not end in a unit.\<close>

lemma digits_no_unit:
  assumes "list_all is_digit ds" "ds \<noteq> []" "\<not> is_digit d"
  shows "\<not> ends_with ds [d]" "\<not> ends_with ds [c, d]"
proof -
  obtain xs x where x: "ds = xs @ [x]" "is_digit x"
    using assms(1,2) by (cases ds rule: rev_cases) auto
  then have n: "x \<noteq> d"
    using assms(3) by auto
  then show "\<not> ends_with ds [d]"
    by (simp add: x(1) ends_with_last)
  show "\<not> ends_with ds [c, d]"
  proof
    assume "ends_with ds [c, d]"
    then have "last ds = last [c, d]"
      unfolding ends_with_def by (metis last_drop last_ConsR list.distinct(1) drop_eq_Nil not_less list.simps(3))
    then show False
      using x(1) n by simp
  qed
qed

definition unit_factor :: "string \<Rightarrow> nat" where
  "unit_factor u = (if u \<in> {''G'', ''GB''} then 2 ^ 30 else if u \<in> {''M'', ''MB''} then 2 ^ 20
     else if u \<in> {''K'', ''KB''} then 2 ^ 10 else 1)"

lemma digit_chars: "\<not> is_digit (CHR ''G'')" "\<not> is_digit (CHR ''M'')" "\<not> is_digit (CHR ''K'')" "\<not> is_digit (CHR ''B'')"
  by (simp_all add: is_digit_def)

lemma ends_with_last_two: "c \<noteq> d \<Longrightarrow> \<not> ends_with (xs @ [c]) [e, d]"
proof
  assume "c \<noteq> d" "ends_with (xs @ [c]) [e, d]"
  then have "last (xs @ [c]) = last [e, d]"
    unfolding ends_with_def by (metis last_drop last_ConsR list.distinct(1) drop_eq_Nil not_less list.simps(3))
  then show False
    using \<open>c \<noteq> d\<close> by simp
qed

text \<open>
  C39: Sizes on the command line: a number without a unit or with K, M, G, KB, MB
  or GB in either case means that many bytes, KiB, MiB or GiB, capped at the
  largest 64-bit number; but a number that does not fit 64 bits silently means
  a hundred of the unit.
\<close>

theorem sizes_parsed:
  assumes "to_uppercase u \<in> {'''', ''K'', ''KB'', ''M'', ''MB'', ''G'', ''GB''}"
  shows "parse_size (show_nat n @ u) =
    of_nat (saturating_mul (if n < 2 ^ 64 then n else 100) (unit_factor (to_uppercase u)))"
proof -
  define U where "U = to_uppercase u"
  note d = show_nat_digits [of n]
  have up: "to_uppercase (show_nat n @ u) = show_nat n @ U"
    using d by (simp add: U_def to_uppercase_def)
  have tw: "takeWhile is_digit (show_nat n @ U) = show_nat n"
    using d assms takeWhile_all_digits [of "show_nat n"] takeWhile_digits [of "show_nat n"] digit_chars
    unfolding U_def [symmetric] by auto
  have pn: "(case parse_u64 (show_nat n) of Some n \<Rightarrow> n | None \<Rightarrow> 100) = (if n < 2 ^ 64 then n else 100)"
    using d by (simp add: parse_u64_def)
  have nu: "\<not> ends_with (show_nat n) [x]" "\<not> ends_with (show_nat n) [y, x]" if "\<not> is_digit x" for x y
    using digits_no_unit [of "show_nat n" x] d that by auto
  have sat: "saturating_mul 100 (Suc 0) = 100" "n < 2 ^ 64 \<Longrightarrow> saturating_mul n (Suc 0) = n"
    by (simp_all add: saturating_mul_def)
  show ?thesis
    using assms unfolding parse_size_def up tw pn Let_def U_def [symmetric]
    by (elim insertE emptyE)
      (simp_all add: unit_factor_def nu digit_chars ends_with_last ends_with_two ends_with_last_two sat)
qed

lemma upper_examples: "to_uppercase ''Mb'' = ''MB''" "to_uppercase ''G'' = ''G''" "to_uppercase ''big'' = ''BIG''"
  "takeWhile is_digit ''BIG'' = []" "ends_with ''BIG'' ''G''"
  by code_simp+

theorem sizes_parsed_witness:
  "parse_size (show_nat 10 @ ''Mb'') = 10485760 \<and> parse_size (show_nat (2 ^ 64) @ ''G'') = 107374182400"
  using sizes_parsed [of "''Mb''" 10] sizes_parsed [of "''G''" "2 ^ 64"]
  by (simp add: upper_examples unit_factor_def saturating_mul_def)

text \<open>A size that does not begin with a digit is a hundred, of the unit it may end in.\<close>

lemma size_without_number:
  assumes "\<not> is_digit (upper_char c)" "ends_with (to_uppercase (c # s)) ''G''"
  shows "parse_size (c # s) = 107374182400"
  using assms by (simp add: parse_size_def to_uppercase_def parse_u64_def saturating_mul_def)

section \<open>The backup flag of \<open>info\<close>\<close>

definition info_lines :: "crypto_lib \<Rightarrow> string \<Rightarrow> nat \<Rightarrow> bytes \<Rightarrow> unit cmd" where
  "info_lines L volume n hdr s =
     (let s = s \<lparr> c_out := c_out s @ [''==> Volume info: '' @ volume,
           ''    File size: '' @ show_nat n @ '' bytes'', ''    Salt:      '' @ hex_upper (sub (sub hdr 0 64) 0 16) @ ''...''] \<rparr>
      in (case deserialize_header L hdr of
           Ok h \<Rightarrow> println (''    Header:    v'' @ show_nat (unat (vh_header_version h)) @ '', sector='' @
               show_nat (unat (vh_sector_size h)) @ '', size='' @ show_nat (unat (vh_volume_size h)) @ '' (decrypted)'')
         | Err _ \<Rightarrow> println (''    Header:    encrypted (CRC fail '' @ [CHR 0xE2, CHR 0x80, CHR 0x94] @ '' needs password)'')
         | Panic \<Rightarrow> liftR Panic) s)"

lemma cmd_info_run:
  fixes backup :: bool
  assumes "h_read (c_host s) volume = Inr data" "512 \<le> length data"
  defines "offset \<equiv> (if backup then 65536 else 0)"
  shows "cmd_info L volume backup s = (if length data < offset + 512
    then (Panic, s \<lparr> c_out := c_out s @ [''==> Volume info: '' @ volume] \<rparr>)
    else info_lines L volume (length data) (sub data offset (offset + 512)) s)"
proof -
  have k: "(if backup then VOLUME_HEADER_SIZE else 0) = offset" "offset \<le> offset + VOLUME_HEADER_EFFECTIVE_SIZE"
    by (simp_all add: offset_def header_consts)
  show ?thesis
  proof (cases "length data < offset + 512")
    case True
    then show ?thesis
      using assms(1,2) by (simp add: cmd_info_def k header_consts sliced_def slice_def bindS_def liftR_def)
  next
    case False
    then show ?thesis
      using assms(1,2) by (simp add: cmd_info_def k header_consts sliced_def info_lines_def Let_def)
  qed
qed

text \<open>
  The backup flag of \<open>info\<close> does not look at the backup header. On a file of
  at least 512 bytes that ends before 66048 it panics; on a longer one what it
  prints depends on the 512 bytes at 64 KiB, where the hidden volume's header
  lives, whatever the 128 KiB at the end of the file hold.
\<close>

theorem info_backup_reads_hidden_slot:
  assumes "h_read (c_host s) volume = Inr data" "512 \<le> length data"
    "h_read (c_host t) volume = Inr other" "length other = length data" "c_out t = c_out s"
    "sub other 65536 66048 = sub data 65536 66048"
  shows "fst (cmd_info L volume True t) = fst (cmd_info L volume True s)
    \<and> c_out (snd (cmd_info L volume True t)) = c_out (snd (cmd_info L volume True s))
    \<and> (length data < 66048 \<longleftrightarrow> c_out (snd (cmd_info L volume True s)) = c_out s @ [''==> Volume info: '' @ volume])
    \<and> (length data < 66048 \<longrightarrow> fst (cmd_info L volume True s) = Panic)"
proof -
  have same: "fst (info_lines L volume n hdr t) = fst (info_lines L volume n hdr s)"
    "c_out (snd (info_lines L volume n hdr t)) = c_out (snd (info_lines L volume n hdr s))"
    "c_out (snd (info_lines L volume n hdr s)) \<noteq> c_out s @ [''==> Volume info: '' @ volume]" for n hdr
    using assms(5) by (simp_all add: info_lines_def liftR_def Let_def split: res.splits)
  show ?thesis
    using same assms cmd_info_run [OF assms(1,2), of L True] cmd_info_run [OF assms(3), of L True] by simp
qed

text \<open>An idle console over one file.\<close>

definition toy_console :: "string \<Rightarrow> bytes \<Rightarrow> console" where
  "toy_console path data = \<lparr> c_host = \<lparr> h_read = (\<lambda>p. if p = path then Inr data else Inl ''missing''),
      h_open = (\<lambda>w p. Inl ''busy'') \<rparr>, c_create = (\<lambda>p. Inr \<lparr> f_bytes = [], f_pos = 0, f_budget = None, f_short = 0, f_err = [] \<rparr>),
     c_typed = (\<lambda>p. Inr ''secret''), c_rng = \<lparr> rng_bytes = replicate 704 7, rng_error = [] \<rparr>, c_out = [], c_err = [] \<rparr>"

theorem dump_shows_sectors_witness:
  "\<exists>c buf lines. create_sector_cipher toy_lib Aes (replicate 64 1) = Ok c
    \<and> dump_volume toy_lib 1 5 (toy_volume c 2048 None) (toy_console ''v'' []) =
        (Ok (), (toy_console ''v'' []) \<lparr> c_out := lines \<rparr>)
    \<and> fst (volume_read toy_lib 1 512 (toy_volume c 2048 None)) = Ok buf \<and> length lines = 32 \<and> concat (map undump_line lines) = buf"
proof -
  obtain c where c: "create_sector_cipher toy_lib Aes (replicate 64 1) = Ok c"
    using toy_cipher by blast
  let ?v = "toy_volume c 2048 None"
  have "or_data_length (toy_inner 0 1024) = 1024"
    by (simp add: toy_inner_def open_result_def)
  then have m: "max_sector ?v = 2" "reliable (ov_file ?v)" "unat (host_pos (or_data_offset (ov_inner ?v)) 1) = 512"
    "length (f_bytes (ov_file ?v)) = 2048"
    by (simp_all add: max_sector_def toy_volume_def DATA_UNIT_SIZE_def reliable_def toy_inner_parts host_pos_def)
  have "\<exists>buf lines. fst (volume_read toy_lib 1 (512 * 1) ?v) = Ok buf
      \<and> dump_volume toy_lib 1 5 ?v (toy_console ''v'' []) = (Ok (), (toy_console ''v'' []) \<lparr> c_out := c_out (toy_console ''v'' []) @ lines \<rparr>)
      \<and> lines = hexdump_lines buf (1 * 512) \<and> length lines = 32 * 1 \<and> concat (map undump_line lines) = buf"
    by (rule dump_shows_sectors [OF toy_lib_ok toy_volume_ok [OF c]]) (simp_all add: m)
  then show ?thesis
    using c by (auto simp: toy_console_def)
qed

theorem info_backup_reads_hidden_slot_witness:
  "fst (cmd_info toy_lib ''v'' True (toy_console ''v'' (replicate 1000 0))) = Panic
   \<and> c_out (snd (cmd_info toy_lib ''v'' True (toy_console ''v'' (replicate 200000 0 @ replicate 131072 1)))) =
     c_out (snd (cmd_info toy_lib ''v'' True (toy_console ''v'' (replicate 200000 0 @ replicate 131072 2))))"
proof -
  have "sub (replicate 200000 0 @ replicate 131072 x) 65536 66048 = (replicate 512 0 :: bytes)" for x
    by (simp add: sub_def)
  then show ?thesis
    using info_backup_reads_hidden_slot [of "toy_console ''v'' (replicate 1000 0)" "''v''" "replicate 1000 0"
        "toy_console ''v'' (replicate 1000 0)" "replicate 1000 0" toy_lib]
      info_backup_reads_hidden_slot [of "toy_console ''v'' (replicate 200000 0 @ replicate 131072 2)" "''v''"
        "replicate 200000 0 @ replicate 131072 2" "toy_console ''v'' (replicate 200000 0 @ replicate 131072 1)"
        "replicate 200000 0 @ replicate 131072 1" toy_lib]
    by (simp add: toy_console_def)
qed
section \<open>Creating and probing\<close>

lemma kdf_for_candidate:
  "kdf_for kdf pim = (kc_implementation (make_kdf_candidate kdf pim), kc_iterations (make_kdf_candidate kdf pim))"
  by (cases kdf) (auto simp: kdf_for_def make_kdf_candidate_def Let_def split: prod.splits)

text \<open>Keyfiles are all that mixing reads.\<close>

lemma mix_files_cong: "\<forall>p \<in> set paths. fs p = fs' p \<Longrightarrow> mix_files L fs paths pool n = mix_files L fs' paths pool n"
proof (induction L fs paths pool n rule: mix_files.induct)
  case (2 L fs path paths pool tot)
  show ?case
  proof (cases "fs path")
    case (Inr data)
    moreover have "fs' path = Inr data"
      using Inr 2(2) by simp
    moreover have "min (length data) (MAX_READ - tot) \<noteq> 0 \<Longrightarrow>
        mix_files L fs paths (mix_file L (take (min (length data) (MAX_READ - tot)) data) pool) (tot + min (length data) (MAX_READ - tot)) =
        mix_files L fs' paths (mix_file L (take (min (length data) (MAX_READ - tot)) data) pool) (tot + min (length data) (MAX_READ - tot))"
      using 2(1) [OF Inr refl] 2(2) by simp
    ultimately show ?thesis
      unfolding mix_files.simps Let_def by (simp only: sum.case split: if_split) blast
  qed (use 2(2) in simp)
qed simp

lemma apply_keyfiles_cong: "\<forall>p \<in> set paths. fs p = fs' p \<Longrightarrow> apply_keyfiles L fs pw paths = apply_keyfiles L fs' pw paths"
  using mix_files_cong [of paths fs fs' L] by (simp add: apply_keyfiles_def)

definition mixed :: "crypto_lib \<Rightarrow> console \<Rightarrow> string \<Rightarrow> string list \<Rightarrow> bytes \<Rightarrow> bool" where
  "mixed L s pw keyfile b \<longleftrightarrow> mix_password L (h_read (c_host s)) (ascii pw) keyfile = Ok b"

lemma keyed_password_run:
  assumes "mixed L s pw keyfile b" "h_read (c_host t) = h_read (c_host s)"
  shows "keyed_password L pw keyfile k t = k b t"
  using assms by (auto simp: mixed_def mix_password_def keyed_password_def map_err_Ok_iff split: if_splits)

lemma set_len_run:
  "reliable f \<Longrightarrow> set_len n (f \<lparr> f_bytes := [], f_pos := 0 \<rparr>) = (Ok (), f \<lparr> f_bytes := replicate n 0, f_pos := 0 \<rparr>)"
  by (simp add: set_len_def bindS_def io_guard_def reliable_def)

lemma in_world_Ok:
  assumes "m \<lparr> w_file = f, w_rng = c_rng s, w_log = [] \<rparr> = (Ok (), w)"
  shows "bindS (in_world path f m) k s =
    k (Ok ()) (kept path (w_file w) (s \<lparr> c_rng := w_rng w, c_out := c_out s @ map indented (w_log w) \<rparr>))"
  using assms by (simp add: in_world_def bindS_def keep_def liftR_def)

definition success_lines :: "CipherType \<Rightarrow> KdfCandidate \<Rightarrow> u64 \<Rightarrow> u64 \<Rightarrow> string list" where
  "success_lines ct kc start len =
     [''    Status:    success'', ''    KDF:       '' @ kdf_debug (kc_algorithm kc), ''    PIM:       '' @ show_int (kc_pim kc),
      ''    Cipher:    '' @ ct_name ct, ''    Iter:      '' @ show_nat (unat (kc_iterations kc))]
     @ (case kc_memory_cost_kib kc of Some m \<Rightarrow> [''    Argon2Mem: '' @ show_nat (unat m) @ '' KiB''] | None \<Rightarrow> [])
     @ [''    Data off:  '' @ show_nat (unat start), ''    Data len:  '' @ show_nat (unat len),
        ''    Key bytes: '' @ show_nat (2 * ct_key_size ct)]"

lemma kept_reads [simp]:
  "h_read (c_host (kept path f s)) path = Inr (f_bytes f)"
  "p \<noteq> path \<Longrightarrow> h_read (c_host (kept path f s)) p = h_read (c_host s) p"
  "c_out (kept path f s) = c_out s"
  by (simp_all add: kept_def)

text \<open>The run of a successful \<open>create\<close>, from the library's creation.\<close>

lemma cmd_create_run:
  assumes "parse_cipher cipher_str = Some ct" "parse_kdf kdf_str = Some alg" "pw \<noteq> []" "mixed L s pw keyfile b"
    "c_create s volume = Inr f0" "reliable f0"
    "create_volume_full L (parse_size sz) b ct (kc_implementation (make_kdf_candidate alg pim)) (kc_iterations (make_kdf_candidate alg pim))
       True \<lparr> w_file = f0 \<lparr> f_bytes := replicate (unat (parse_size sz + 262144)) 0, f_pos := 0 \<rparr>, w_rng = c_rng s, w_log = [] \<rparr> = (Ok (), w)"
  obtains s' where "cmd_create L volume (Some sz) cipher_str kdf_str pim (Some pw) keyfile s = (Ok (), s')"
    "last (c_out s') = ''    Status:   Volume created successfully''"
    "h_read (c_host s') = (h_read (c_host s)) (volume := Inr (f_bytes (w_file w)))"
proof -
  define s0 where "s0 = s \<lparr> c_out := c_out s @ [''==> Creating volume: '' @ volume,
        ''    Size:     '' @ sz @ '' ('' @ show_nat (unat (parse_size sz)) @ '' bytes)'',
        ''    Cipher:   '' @ cipher_str, ''    KDF:      '' @ kdf_str, ''    PIM:      '' @ show_int pim] \<rparr>"
  define s1 where "s1 = kept volume (w_file w) (s0 \<lparr> c_rng := w_rng w, c_out := c_out s0 @ map indented (w_log w) \<rparr>)"
  have sz: "parse_size sz + of_nat (VOLUME_HEADER_SIZE * 4) = parse_size sz + 262144"
    by (simp add: header_consts)
  have rng: "c_rng s0 = c_rng s" "c_create s0 = c_create s" "h_read (c_host s0) = h_read (c_host s)"
    by (simp_all add: s0_def)
  note run = in_world_Ok [of "create_volume_full L (parse_size sz) b ct (kc_implementation (make_kdf_candidate alg pim))
        (kc_iterations (make_kdf_candidate alg pim)) True" _ s0, unfolded rng(1), OF assms(7)]
  have "cmd_create L volume (Some sz) cipher_str kdf_str pim (Some pw) keyfile s =
      println ''    Status:   Volume created successfully'' s1"
    unfolding cmd_create_def Let_def option.case bind_print_lines assms(1,2) or_stop_def bind_given_password
      s0_def [symmetric] if_not_P [OF assms(3)] keyed_password_run [OF assms(4) rng(3)] rng(2) assms(5) sum.case sz
      set_len_run [OF assms(6)] prod.case res.case kdf_for_candidate run s1_def ..
  then show ?thesis
    by (intro that [of "snd (println ''    Status:   Volume created successfully'' s1)"])
      (auto simp: s1_def kept_def rng(3))
qed

lemma print_success:
  assumes "or_header_cipher r = ct" "or_kdf r = kc_algorithm kc" "or_pim r = kc_pim kc" "or_iterations r = kc_iterations kc"
    "or_memory_cost_kib r = kc_memory_cost_kib kc" "\<not> or_used_backup_header r" "length (or_master_key r) = 2 * ct_key_size ct"
  shows "print_probe_result (Ok r) s =
    (Ok (), s \<lparr> c_out := c_out s @ success_lines ct kc (or_data_offset r) (or_data_length r) \<rparr>)"
  using assms by (simp add: print_probe_result_def success_lines_def)

lemma cmd_probe_run:
  assumes "parse_kdf kdf_str = Some alg"
    "open_volume_file_with_kdf L (h_read (c_host s)) volume (ascii pw) keyfile alg pim = Ok r"
  shows "cmd_probe L volume (Some pw) (Some kdf_str) (Some pim) keyfile s =
    print_probe_result (Ok r) (s \<lparr> c_out := c_out s @ [''==> Probing volume: '' @ volume] \<rparr>)"
  using assms by (simp add: cmd_probe_def or_stop_def)

text \<open>
  C36: What \<open>create\<close> makes, \<open>probe\<close> opens. With a known cipher and derivation, a
  password, keyfiles that can be read and are not the volume itself, and a
  random source and disk that do not fail, \<open>create\<close> reports success and leaves a
  file of the asked size and 256 KiB more; \<open>probe\<close> with the same password,
  keyfiles, derivation and PIM then reports success with the cipher, the
  derivation's parameters and the data area of the creation. The only proviso is
  that no cipher tried earlier accepts the header by accident.
\<close>

theorem create_then_probe:
  assumes "lib_ok L" "parse_cipher cipher_str = Some ct" "parse_kdf kdf_str = Some alg" "pw \<noteq> []"
    "mixed L s pw keyfile b" "volume \<notin> set keyfile" "c_create s volume = Inr f0" "reliable f0"
    "unat (parse_size sz) + 262144 < 2 ^ 64" "rng_for_creation ct (c_rng s) salt key"
    "derive L (kc_implementation (make_kdf_candidate alg pim)) b salt
       (kc_iterations (make_kdf_candidate alg pim)) (replicate 192 0) = Ok max_key"
  shows "\<exists>s' data. cmd_create L volume (Some sz) cipher_str kdf_str pim (Some pw) keyfile s = (Ok (), s')
    \<and> last (c_out s') = ''    Status:   Volume created successfully''
    \<and> h_read (c_host s') volume = Inr data \<and> length data = unat (parse_size sz) + 262144
    \<and> (no_earlier_cipher L data b (make_kdf_candidate alg pim) ct \<longrightarrow>
        cmd_probe L volume (Some pw) (Some kdf_str) (Some pim) keyfile s' =
          (Ok (), s' \<lparr> c_out := c_out s' @ [''==> Probing volume: '' @ volume]
             @ success_lines ct (make_kdf_candidate alg pim) 262144 (parse_size sz) \<rparr>))"
proof -
  let ?kc = "make_kdf_candidate alg pim" and ?n = "parse_size sz"
  define w0 where "w0 = \<lparr> w_file = f0 \<lparr> f_bytes := replicate (unat (?n + 262144)) 0, f_pos := 0 \<rparr>, w_rng = c_rng s, w_log = [] \<rparr>"
  have n: "unat (?n + 262144) = unat ?n + 262144"
    using assms(9) unat_plus64 [of ?n 262144] by simp
  have w: "reliable (w_file w0)" "f_pos (w_file w0) = 0" "262144 \<le> length (f_bytes (w_file w0))" "rng_for_creation ct (w_rng w0) salt key"
    and w0_length: "length (f_bytes (w_file w0)) = unat ?n + 262144"
    using assms(8,10) n by (simp_all add: reliable_def w0_def)
  obtain w' where c: "create_volume_full L ?n b ct (kc_implementation ?kc) (kc_iterations ?kc) True w0 = (Ok (), w')"
    and l: "length (f_bytes (w_file w')) = unat ?n + 262144"
    and o: "sub (f_bytes (w_file w')) 0 (0 + 64) = salt"
      "opens_at L (f_bytes (w_file w')) b [?kc] 0 ?kc ct (stored_form L (created_header ?n salt key))"
    using create_opens [OF assms(1) w assms(11), where volume_size = ?n and progress = True] unfolding w0_length by blast
  obtain s' where s: "cmd_create L volume (Some sz) cipher_str kdf_str pim (Some pw) keyfile s = (Ok (), s')"
    "last (c_out s') = ''    Status:   Volume created successfully''"
    "h_read (c_host s') = (h_read (c_host s)) (volume := Inr (f_bytes (w_file w')))"
    using cmd_create_run [OF assms(2,3,4,5,7,8) c [unfolded w0_def]] by blast
  let ?data = "f_bytes (w_file w')" and ?h = "stored_form L (created_header ?n salt key)"
  have m: "mix_password L (h_read (c_host s')) (ascii pw) keyfile = Ok b"
    using assms(5,6) s(3) apply_keyfiles_cong [of keyfile "h_read (c_host s')" "h_read (c_host s)" L "ascii pw"]
    by (auto simp: mixed_def mix_password_def)
  have "cmd_probe L volume (Some pw) (Some kdf_str) (Some pim) keyfile s' =
      (Ok (), s' \<lparr> c_out := c_out s' @ [''==> Probing volume: '' @ volume] @ success_lines ct ?kc 262144 ?n \<rparr>)"
    if "no_earlier_cipher L ?data b ?kc ct"
  proof -
    have "opens_first L ?data b ?kc ct ?h"
      using o(2) that by (auto simp: opens_first_def no_earlier_cipher_def opens_at_def)
    then have "open_volume_file_with_kdf L (h_read (c_host s')) volume (ascii pw) keyfile alg pim =
        Ok (open_result ct ?h (take 64 ?data) ?kc False)"
      using open_primary [OF assms(1) _ m, of volume ?data alg pim ct ?h] s(3) l by simp
    note probe = cmd_probe_run [OF assms(3) this]
    have "length key = 2 * ct_key_size ct"
      using assms(10) by (simp add: rng_for_creation_def)
    with created_result [OF this, of salt ?n L ?kc False] show ?thesis
      unfolding probe by (subst print_success) (auto simp: is_new_volume_def open_result_def)
  qed
  then show ?thesis
    using s l by (intro exI [of _ s'] exI [of _ ?data]) simp
qed

lemma toy_arguments:
  "parse_cipher ''aes'' = Some Aes" "parse_kdf ''SHA256'' = Some Pbkdf2Sha256" "to_uppercase ''512'' = ''512''"
  "takeWhile is_digit ''512'' = ''512''"
  by code_simp+

lemma toy_size: "parse_size ''512'' = 512"
  by (simp add: parse_size_def toy_arguments(3) toy_arguments(4) [simplified] parse_u64_def digits_value_def ends_with_def Let_def)

theorem create_then_probe_witness:
  "\<exists>s'. cmd_create toy_lib ''v'' (Some ''512'') ''aes'' ''SHA256'' 0 (Some ''x'') [] (toy_console ''v'' []) = (Ok (), s')
    \<and> cmd_probe toy_lib ''v'' (Some ''x'') (Some ''SHA256'') (Some 0) [] s' =
        (Ok (), s' \<lparr> c_out := c_out s' @ [''==> Probing volume: v'']
           @ success_lines Aes (make_kdf_candidate Pbkdf2Sha256 0) 262144 512 \<rparr>)"
proof -
  let ?f = "\<lparr> f_bytes = [], f_pos = 0, f_budget = None, f_short = 0, f_err = [] \<rparr>" and ?s = "toy_console ''v'' []"
  obtain max_key where d: "derive toy_lib (kc_implementation (make_kdf_candidate Pbkdf2Sha256 0)) (ascii ''x'') (replicate 64 7)
     (kc_iterations (make_kdf_candidate Pbkdf2Sha256 0)) (replicate 192 0) = Ok max_key"
    using toy_derive by blast
  have m: "mixed toy_lib ?s ''x'' [] (ascii ''x'')" "''v'' \<notin> set []" "c_create ?s ''v'' = Inr ?f" "reliable ?f"
    "unat (parse_size ''512'') + 262144 < 2 ^ 64" "rng_for_creation Aes (c_rng ?s) (replicate 64 7) (replicate 64 7)"
    using toy_world_ok(4) [of Aes 0]
    by (simp_all add: mixed_def mix_password_def toy_console_def reliable_def toy_size toy_world_def)
  have "no_earlier_cipher toy_lib x pw (make_kdf_candidate Pbkdf2Sha256 0) Aes" for x pw
    by (simp add: no_earlier_cipher_def all_supported_def)
  then show ?thesis
    using create_then_probe [OF toy_lib_ok toy_arguments(1,2) _ m d] by (auto simp: toy_size)
qed

end
