(* ===== verification/ToolDriver.thy ===== *)
theory ToolDriver
  imports Cli DriverDispatch
begin

text \<open>
  The command-line tool and the driver together: mount and unmount requests, from
  the structures the tool sends (\<open>vcrypt-cli/src/kernel_ioctl.rs\<close>) over the control
  request to the driver's handlers and its table of mounted volumes
  (\<open>vcrypt-driver/src/mount.rs\<close>), and the return code on its way back.
\<close>

section \<open>A buffered control request\<close>

text \<open>
  The I/O manager copies the caller's input to a system buffer, hands the request
  to the driver, and copies the buffer back when the status is a success; here
  input and output have the same length. A fault in the driver answers nothing.
\<close>

definition control_irp :: "u32 \<Rightarrow> bytes \<Rightarrow> IRP" where
  "control_irp code input = \<lparr> irp_major = IRP_MJ_DEVICE_CONTROL, irp_byte_offset = 0, irp_length = 0, irp_mdl = None,
     irp_system_buffer = Some input, irp_ioctl = code, irp_in_len = of_nat (length input), irp_out_len = of_nat (length input),
     irp_io_status = None, irp_boosts = [] \<rparr>"

definition buffered_control ::
  "crypto_lib \<Rightarrow> debug_print \<Rightarrow> 'h mount_kernel \<Rightarrow> u64 \<Rightarrow> u32 \<Rightarrow> bytes \<Rightarrow> 'h driver \<Rightarrow> bytes option \<times> 'h driver" where
  "buffered_control L dbg K device_object code input s =
     (case tc_dispatch_queue_irp L dbg K device_object (control_irp code input) s of
        (Ok status, irp, s) \<Rightarrow> (if NT_SUCCESS status then irp_system_buffer irp else None, s)
      | (_, irp, s) \<Rightarrow> (None, s))"

text \<open>A control request to the root device is handled by its control routine.\<close>

lemma buffered_control_root:
  assumes "drv_root s = Some root"
  shows "buffered_control L dbg K (rd_address root) code input s =
    (case process_root_device_ioctl L dbg K (control_irp code input) s of
       (Ok status, irp, s) \<Rightarrow> (if NT_SUCCESS status then irp_system_buffer irp else None, s)
     | (_, irp, s) \<Rightarrow> (None, s))"
  using assms
  by (simp add: buffered_control_def tc_dispatch_queue_irp_def dispatch_root_def process_root_device_irp_def Let_def
      control_irp_def IRP_MJ_DEVICE_CONTROL_def IRP_MJ_CREATE_def IRP_MJ_CLOSE_def IRP_MJ_CLEANUP_def IRP_MJ_SHUTDOWN_def)

text \<open>A drive number fits a signed 32-bit field.\<close>

lemma sint_drive: "sint (ucast (n :: u8) :: u32) = uint n"
proof -
  have "uint n < 256" "- (2 ^ 31) \<le> uint n"
    using uint_bounded [of n] order_trans [of "- (2 ^ 31)" 0 "uint n"] by simp_all
  then show ?thesis
    by (simp add: sint_uint unsigned_ucast_eq signed_take_bit_int_eq_self take_bit_int_eq_self)
qed

section \<open>Mounting\<close>

lemma mount_device_codes:
  "mount_device L dbg K m d s = (Ok (rc, b), s') \<Longrightarrow>
     rc \<in> {ERR_SUCCESS, ERR_OS_ERROR, ERR_OUTOFMEMORY, ERR_VOL_MOUNT_FAILED}"
  by (auto simp: mount_device_def Let_def split: option.splits if_splits prod.splits res.splits)

text \<open>The request as the driver's declaration reads it.\<close>

lemma request_in_driver_layout:
  fixes r :: OpenResult and d :: u8 and ro :: bool and wide :: "u16 list"
  assumes "length (or_master_key r) = 2 * ct_key_size (or_data_cipher r)"
  defines "m \<equiv> mount_request r d ro wide"
  shows "length m = MOUNT_STRUCT_SIZE" "read_packed_i32 m (mount_offset ''n_dos_drive_no'') = uint d"
    "(read_packed_u8 m (mount_offset ''mount_read_only'') \<noteq> 0) = ro"
    "read_packed_u8 m (mount_offset ''mount_removable'') \<noteq> 0"
    "cipher_type_from_ea (read_packed_u32 m (mount_offset ''ea'')) = Some (or_data_cipher r)"
    "read_packed_u64 m (mount_offset ''data_offset'') = or_data_offset r"
    "read_packed_u64 m (mount_offset ''disk_length'') = or_data_length r"
    "read_packed_u32 m (mount_offset ''bytes_per_sector'') = 512"
    "sub m (mount_offset ''master_key'') (mount_offset ''master_key'' + length (or_master_key r)) = or_master_key r"
proof -
  have k: "length (or_master_key r) \<le> 192"
    using assms(1) by (cases "or_data_cipher r") simp_all
  note b = request_bytes [OF k, of d ro wide, folded m_def]
  show "length m = MOUNT_STRUCT_SIZE"
    "sub m (mount_offset ''master_key'') (mount_offset ''master_key'' + length (or_master_key r)) = or_master_key r"
    using b(1,6) by simp_all
  show "read_packed_i32 m (mount_offset ''n_dos_drive_no'') = uint d"
    using b(1,2) by (simp add: read_packed_i32_def read_packed_bytes sint_drive)
  show "(read_packed_u8 m (mount_offset ''mount_read_only'') \<noteq> 0) = ro"
    "read_packed_u8 m (mount_offset ''mount_removable'') \<noteq> 0"
    using request_u8s [OF k, of d ro wide] by (simp_all add: m_def read_packed_u8_def)
  have "cipher_type_from_ea (cipher_to_ea (or_data_cipher r)) = Some (or_data_cipher r)"
    by (simp add: cipher_type_from_ea_iff)
  then show "cipher_type_from_ea (read_packed_u32 m (mount_offset ''ea'')) = Some (or_data_cipher r)"
    "read_packed_u64 m (mount_offset ''data_offset'') = or_data_offset r"
    "read_packed_u64 m (mount_offset ''disk_length'') = or_data_length r"
    "read_packed_u32 m (mount_offset ''bytes_per_sector'') = 512"
    using b(1,3-5,7) by (simp_all add: read_packed_bytes)
qed

lemma layouts_agree: "cli_mount_offset = mount_offset" "CLI_MOUNT_STRUCT_SIZE = MOUNT_STRUCT_SIZE"
  by (simp_all add: cli_mount_offset_def mount_offset_def mount_layout_defs)

text \<open>What the driver's handler makes of a request for a drive.\<close>

lemma driver_mounts:
  assumes "length m = MOUNT_STRUCT_SIZE" "read_packed_i32 m (mount_offset ''n_dos_drive_no'') = uint (d :: u8)" "d \<le> 25"
  shows "process_root_device_ioctl L dbg K (control_irp CLI_IOCTL_MOUNT m) s =
    (if unat d \<in> mounted s
     then done_irp (write_return_code (control_irp CLI_IOCTL_MOUNT m) ERR_VOL_ALREADY_MOUNTED) STATUS_SUCCESS MOUNT_STRUCT_SIZE s
     else (case mount_device L dbg K m (unat d) s of
         (Ok (rc, _), s') \<Rightarrow> done_irp (write_return_code (control_irp CLI_IOCTL_MOUNT m) rc) STATUS_SUCCESS MOUNT_STRUCT_SIZE s'
       | (_, s') \<Rightarrow> (Panic, control_irp CLI_IOCTL_MOUNT m, s')))"
proof -
  let ?irp = "control_irp CLI_IOCTL_MOUNT m"
  have d: "unat d < MAX_DRIVE"
    using assms(3) by (simp add: MAX_DRIVE_def word_le_nat_alt)
  have n: "nat (uint d) = unat d" "\<not> uint d < 0" "\<not> MAX_DRIVE \<le> unat d"
    using d by (simp_all add: not_le)
  have t: "take MOUNT_STRUCT_SIZE m = m"
    using assms(1) by simp
  have i: "irp_system_buffer ?irp = Some m" "unat (irp_in_len ?irp) = MOUNT_STRUCT_SIZE"
    "unat (irp_out_len ?irp) = MOUNT_STRUCT_SIZE"
    using assms(1) by (simp_all add: control_irp_def)
  have "process_root_device_ioctl L dbg K ?irp s = handle_mount_volume L dbg K ?irp s"
    by (simp add: process_root_device_ioctl_def control_irp_def CLI_IOCTL_MOUNT_def tc_ioctl_defs)
  also have "\<dots> = (if drv_volumes s ! unat d \<noteq> None
     then done_irp (write_return_code ?irp ERR_VOL_ALREADY_MOUNTED) STATUS_SUCCESS MOUNT_STRUCT_SIZE s
     else (case mount_device L dbg K m (unat d) s of
         (Ok (rc, _), s') \<Rightarrow> done_irp (write_return_code ?irp rc) STATUS_SUCCESS MOUNT_STRUCT_SIZE s'
       | (_, s') \<Rightarrow> (Panic, ?irp, s')))"
    unfolding handle_mount_volume_def Let_def i option.case t assms(2) n is_drive_letter_available_def
    by (simp only: less_irrefl HOL.simp_thms if_False n)
  finally show ?thesis
    using d by (simp add: mounted_def)
qed

text \<open>The return code in the reply is the one the tool reads.\<close>

lemma send_mount_code:
  assumes "control m = irp_system_buffer (complete_irp (write_return_code (control_irp code m) rc) st n)"
    "length m = MOUNT_STRUCT_SIZE" "0 \<le> rc" "rc < 2 ^ 31"
  shows "send_mount_ioctl control m = (if rc = ERR_SUCCESS then Ok () else Err (DriverError rc))"
proof -
  have "control m = Some (write_packed_i32 m 0 rc)"
    using assms(1) by (simp add: complete_irp_def write_return_code_def control_irp_def)
  moreover have "read_packed_i32 (write_packed_i32 m 0 rc) 0 = rc"
    using assms(2-4) by (intro read_write_packed_i32) simp_all
  ultimately show ?thesis
    using assms(3) by (simp add: send_mount_ioctl_def ERR_SUCCESS_def)
qed

lemma tool_mount_answer:
  fixes m :: bytes and d :: u8 and L :: crypto_lib and dbg :: debug_print and K :: "'h mount_kernel" and s :: "'h driver"
  assumes "length m = MOUNT_STRUCT_SIZE" "read_packed_i32 m (mount_offset ''n_dos_drive_no'') = uint d" "d \<le> 25"
    "drv_root s = Some root"
  defines "control \<equiv> \<lambda>input. fst (buffered_control L dbg K (rd_address root) CLI_IOCTL_MOUNT input s)"
    and "s1 \<equiv> snd (buffered_control L dbg K (rd_address root) CLI_IOCTL_MOUNT m s)"
  shows "unat d \<in> mounted s \<Longrightarrow> send_mount_ioctl control m = Err (DriverError ERR_VOL_ALREADY_MOUNTED) \<and> s1 = s"
    "unat d \<notin> mounted s \<Longrightarrow> mount_device L dbg K m (unat d) s = (Ok (rc, b), s') \<Longrightarrow>
       send_mount_ioctl control m = (if rc = ERR_SUCCESS then Ok () else Err (DriverError rc)) \<and> s1 = s'"
    "unat d \<notin> mounted s \<Longrightarrow> \<forall>rc b s'. mount_device L dbg K m (unat d) s \<noteq> (Ok (rc, b), s') \<Longrightarrow>
       send_mount_ioctl control m = Err IoctlFailed"
proof -
  note c = buffered_control_root [OF assms(4), of L dbg K CLI_IOCTL_MOUNT m, unfolded driver_mounts [OF assms(1-3)]]
  show "send_mount_ioctl control m = Err (DriverError ERR_VOL_ALREADY_MOUNTED) \<and> s1 = s" if "unat d \<in> mounted s"
  proof -
    have "control m = irp_system_buffer (complete_irp (write_return_code (control_irp CLI_IOCTL_MOUNT m)
        ERR_VOL_ALREADY_MOUNTED) STATUS_SUCCESS MOUNT_STRUCT_SIZE)" "s1 = s"
      using that by (simp_all add: control_def s1_def c done_irp_def)
    from send_mount_code [where control = control, OF this(1) assms(1)] this(2) show ?thesis
      by (simp add: ERR_VOL_ALREADY_MOUNTED_def ERR_SUCCESS_def)
  qed
  show "send_mount_ioctl control m = (if rc = ERR_SUCCESS then Ok () else Err (DriverError rc)) \<and> s1 = s'"
    if "unat d \<notin> mounted s" "mount_device L dbg K m (unat d) s = (Ok (rc, b), s')"
  proof -
    have "control m = irp_system_buffer (complete_irp (write_return_code (control_irp CLI_IOCTL_MOUNT m) rc)
        STATUS_SUCCESS MOUNT_STRUCT_SIZE)" "s1 = s'"
      using that by (simp_all add: control_def s1_def c done_irp_def)
    moreover have "0 \<le> rc" "rc < 2 ^ 31"
      using mount_device_codes [OF that(2)] by (auto simp: err_defs)
    ultimately show ?thesis
      using send_mount_code [where control = control, OF _ assms(1)] by blast
  qed
  show "send_mount_ioctl control m = Err IoctlFailed"
    if "unat d \<notin> mounted s" "\<forall>rc b s'. mount_device L dbg K m (unat d) s \<noteq> (Ok (rc, b), s')"
  proof -
    obtain x s' where x: "mount_device L dbg K m (unat d) s = (x, s')"
      by fastforce
    then have "control m = None"
      using that by (cases x) (auto simp: control_def c)
    then show ?thesis
      by (simp add: send_mount_ioctl_def)
  qed
qed

text \<open>
  C26: The tool's mount request reaches the driver's mount routine as the tool
  meant it. The two declarations of the packed structure put every field at
  the same place and have the same size, so the request, read by the driver's
  declaration, holds the drive number, the flags, the algorithm number, the
  geometry and the master key the tool put in; the dispatcher hands it to
  \<open>mount_device\<close> with the drive the user named, unless something is mounted
  there, and the code that comes back is the one the tool reports. With the
  driver's printing routine as it stands the tool never reports a mount. (What
  becomes of the request in the thread block is the next property.)
\<close>

theorem tool_mount_request:
  fixes r :: OpenResult and d :: u8 and ro :: bool and wide :: "u16 list"
    and L :: crypto_lib and dbg :: debug_print and K :: "'h mount_kernel" and s :: "'h driver" and root :: root_device
  assumes "length (or_master_key r) = 2 * ct_key_size (or_data_cipher r)" "d \<le> 25" "drv_root s = Some root"
  defines "m \<equiv> mount_request r d ro wide"
    and "answer \<equiv> send_mount_ioctl (\<lambda>input. fst (buffered_control L dbg K (rd_address root) CLI_IOCTL_MOUNT input s))
        (mount_request r d ro wide)"
    and "after \<equiv> snd (buffered_control L dbg K (rd_address root) CLI_IOCTL_MOUNT (mount_request r d ro wide) s)"
  shows "cli_mount_offset = mount_offset \<and> CLI_MOUNT_STRUCT_SIZE = MOUNT_STRUCT_SIZE \<and> length m = MOUNT_STRUCT_SIZE
    \<and> read_packed_i32 m (mount_offset ''n_dos_drive_no'') = uint d
    \<and> (read_packed_u8 m (mount_offset ''mount_read_only'') \<noteq> 0) = ro
    \<and> read_packed_u8 m (mount_offset ''mount_removable'') \<noteq> 0
    \<and> cipher_type_from_ea (read_packed_u32 m (mount_offset ''ea'')) = Some (or_data_cipher r)
    \<and> read_packed_u64 m (mount_offset ''data_offset'') = or_data_offset r
    \<and> read_packed_u64 m (mount_offset ''disk_length'') = or_data_length r
    \<and> read_packed_u32 m (mount_offset ''bytes_per_sector'') = 512
    \<and> sub m (mount_offset ''master_key'') (mount_offset ''master_key'' + length (or_master_key r)) = or_master_key r
    \<and> (unat d \<in> mounted s \<longrightarrow> answer = Err (DriverError ERR_VOL_ALREADY_MOUNTED) \<and> after = s)
    \<and> (\<forall>rc b s'. unat d \<notin> mounted s \<and> mount_device L dbg K m (unat d) s = (Ok (rc, b), s') \<longrightarrow>
        answer = (if rc = ERR_SUCCESS then Ok () else Err (DriverError rc)) \<and> after = s')
    \<and> (dbg = kdbg_status \<longrightarrow> answer \<noteq> Ok ())"
proof -
  note q = request_in_driver_layout [OF assms(1), of d ro wide, folded m_def]
  note a = tool_mount_answer [OF q(1,2) assms(2,3), of L dbg K, folded answer_def [folded m_def] after_def [folded m_def]]
  have "answer \<noteq> Ok ()" if "dbg = kdbg_status"
  proof (cases "unat d \<in> mounted s")
    case False
    show ?thesis
    proof (cases "\<exists>rc b s'. mount_device L dbg K m (unat d) s = (Ok (rc, b), s')")
      case True
      then obtain rc b s' where e: "mount_device L dbg K m (unat d) s = (Ok (rc, b), s')"
        by blast
      then show ?thesis
        using a(2) [OF False e] mount_device_kdbg [of L K m "unat d" s rc b s'] that by auto
    next
      case None: False
      then show ?thesis
        using a(3) [OF False] by simp
    qed
  qed (use a(1) in simp)
  then show ?thesis
    using layouts_agree q a(1,2) by blast
qed

lemma toy_rooted:
  obtains s root where "drv_ok toy_lib set {} s" "mounted s = {0}" "drv_root s = Some root"
proof -
  obtain s where s: "drv_ok toy_lib set {} s" "mounted s = {0}"
    using toy_reached by blast
  define root where "root = \<lparr> rd_address = 1, rd_reference_count = 0, rd_driver_object = Some 5, rd_flags = 0 \<rparr>"
  show ?thesis
    using s drv_ok_frame [OF s(1), of "s \<lparr> drv_root := Some root \<rparr>"]
    by (intro that [of "s \<lparr> drv_root := Some root \<rparr>" root]) (simp_all add: mounted_def)
qed

theorem tool_mount_request_witness:
  "\<exists>s (root :: root_device). mounted s = {0} \<and>
     send_mount_ioctl (\<lambda>input. fst (buffered_control toy_lib toy_print toy_mount_kernel (rd_address root) CLI_IOCTL_MOUNT input s))
       (mount_request toy_opened 0 True [0x43]) = Err (DriverError ERR_VOL_ALREADY_MOUNTED)
   \<and> sub (mount_request toy_opened 0 True [0x43]) (mount_offset ''master_key'') (mount_offset ''master_key'' + 64) =
       map of_nat [0..<64]"
proof -
  obtain s root where "drv_ok toy_lib set {} s" and s: "mounted s = {0}" "drv_root s = Some root"
    by (rule toy_rooted)
  have k: "length (or_master_key toy_opened) = 2 * ct_key_size (or_data_cipher toy_opened)"
    by (simp add: toy_opened_key)
  have d: "(0 :: u8) \<le> 25" "unat (0 :: u8) \<in> mounted s" "length (or_master_key toy_opened) = 64"
    by (simp_all add: s(1) toy_opened_key)
  note t = tool_mount_request [OF k d(1) s(2), of True "[0x43]" toy_lib toy_print toy_mount_kernel]
  have "sub (mount_request toy_opened 0 True [0x43]) (mount_offset ''master_key'') (mount_offset ''master_key'' + 64) =
      or_master_key toy_opened"
    using t unfolding d(3) by blast
  then show ?thesis
    using t d(2) s(1) unfolding toy_opened_key(1) by blast
qed

section \<open>Unmounting\<close>

text \<open>
  Unmounting a drive with nothing mounted changes nothing; on a mounted drive
  it fails only in the printing routine, when the mount manager refuses.
\<close>

definition mountmgr_refuses :: "'h mount_kernel \<Rightarrow> nat \<Rightarrow> 'h \<Rightarrow> NTSTATUS \<Rightarrow> bool" where
  "mountmgr_refuses K d h status \<longleftrightarrow> \<not> NT_SUCCESS status \<and>
     fst (k_mountmgr K IOCTL_MOUNTMGR_DELETE_POINTS (delete_point_input d) h) = Some status"

lemma unmount_device_idle: "d < MAX_DRIVE \<Longrightarrow> d \<notin> mounted s \<Longrightarrow> unmount_device dbg K d s = (Ok (), s)"
  by (simp add: mounted_def unmount_device_def)

lemma unmount_device_fails:
  assumes "d < MAX_DRIVE" "fst (unmount_device dbg K d s) \<noteq> Ok ()"
  shows "d \<in> mounted s" "\<exists>status. mountmgr_refuses K d (drv_kernel s) status
    \<and> (\<forall>out. dbg (ascii ''[Oxhide] mountmgr: ZwDeviceIoControlFile failed'') status \<noteq> Ok out)"
proof -
  show "d \<in> mounted s"
    using assms unmount_device_idle by fastforce
  have "fst (delete_mount_point dbg K d (drv_kernel s)) \<noteq> Ok ()"
    using assms(2) by (auto simp: unmount_device_def Let_def split: option.splits prod.splits res.splits if_splits)
  then show "\<exists>status. mountmgr_refuses K d (drv_kernel s) status
    \<and> (\<forall>out. dbg (ascii ''[Oxhide] mountmgr: ZwDeviceIoControlFile failed'') status \<noteq> Ok out)"
    by (auto simp: delete_mount_point_def send_mountmgr_ioctl_def mountmgr_refuses_def
        split: prod.splits option.splits if_splits)
qed

lemma unmount_request_bytes:
  "length (unmount_request n) = 8" "read_packed_i32 (unmount_request n) 4 = uint n"
proof -
  show l: "length (unmount_request n) = 8"
    by (simp add: unmount_request_def)
  have "from_le (sub (unmount_request n) 4 8) = (ucast n :: u32)"
    using le32.read_back [of 4 "replicate 8 0" "ucast n"] by (simp add: unmount_request_def)
  then show "read_packed_i32 (unmount_request n) 4 = uint n"
    using l by (simp add: read_packed_i32_def read_packed_bytes sint_drive)
qed

text \<open>The driver's side: the request is understood, the drive unmounted, success reported.\<close>

lemma driver_unmounts:
  assumes "drv_root s = Some root" "n \<le> 25" "unmount_device dbg K (unat n) s = (r, s')"
  shows "r = Ok () \<Longrightarrow> \<exists>reply. buffered_control L dbg K (rd_address root) CLI_IOCTL_UNMOUNT (unmount_request n) s = (Some reply, s')
      \<and> read_packed_i32 reply 0 = 0"
    "r \<noteq> Ok () \<Longrightarrow> fst (buffered_control L dbg K (rd_address root) CLI_IOCTL_UNMOUNT (unmount_request n) s) = None"
proof -
  have "uint n < 256"
    using uint_bounded [of n] by simp
  then have n1: "unat (word_of_int (uint n) :: u64) = unat n"
    by (simp only: unat_eq_nat_uint uint_word_of_int) simp
  have n2: "unat n < MAX_DRIVE"
    using assms(2) by (simp add: MAX_DRIVE_def word_le_nat_alt)
  let ?irp = "control_irp CLI_IOCTL_UNMOUNT (unmount_request n)"
  have h: "process_root_device_ioctl L dbg K ?irp s = (case r of
      Ok _ \<Rightarrow> done_irp (write_return_code ?irp ERR_SUCCESS) STATUS_SUCCESS 8 s' | _ \<Rightarrow> (Panic, ?irp, s'))"
    using assms(3) n1 n2 by (cases r)
      (simp_all add: process_root_device_ioctl_def CLI_IOCTL_UNMOUNT_def tc_ioctl_defs handle_unmount_volume_def
        control_irp_def Let_def UNMOUNT_STRUCT_SIZE_def unmount_request_bytes)
  note c = buffered_control_root [OF assms(1), of L dbg K CLI_IOCTL_UNMOUNT "unmount_request n", unfolded h]
  show "fst (buffered_control L dbg K (rd_address root) CLI_IOCTL_UNMOUNT (unmount_request n) s) = None" if "r \<noteq> Ok ()"
    using that by (cases r) (simp_all add: c)
  show "\<exists>reply. buffered_control L dbg K (rd_address root) CLI_IOCTL_UNMOUNT (unmount_request n) s = (Some reply, s')
      \<and> read_packed_i32 reply 0 = 0" if "r = Ok ()"
  proof -
    have "read_packed_i32 (write_packed_i32 (unmount_request n) 0 ERR_SUCCESS) 0 = 0"
      using read_write_packed_i32 [of 0 "unmount_request n" 0] by (simp add: unmount_request_bytes ERR_SUCCESS_def)
    then show ?thesis
      using that by (simp add: c done_irp_def complete_irp_def write_return_code_def control_irp_def)
  qed
qed

section \<open>The command\<close>

text \<open>
  C37: What an unmount command does, whatever the kernel and the printing routine
  do. When the driver answers, exactly the drive the user named has left the
  table of mounted volumes, the driver's invariant holds on, and the tool
  prints that the drive is unmounted. It always answers, and changes nothing,
  when nothing is mounted there; it fails to answer only when the mount manager
  refuses the request for a mounted drive and the printing of that status
  faults. In the driver as it stands nothing is ever mounted, so every such
  command changes nothing and reports an unmounted drive.
\<close>

theorem tool_unmounts_drive:
  fixes L :: crypto_lib and dbg :: debug_print and K :: "'h mount_kernel" and s :: "'h driver" and root :: root_device
    and drive :: string
  assumes "handles_ok K opened" "drv_ok L opened base s" "drv_root s = Some root"
    "drive_number (first_char drive) \<le> 25" "dd_loaded D"
    "\<And>input. dd_control D CLI_IOCTL_UNMOUNT input = fst (buffered_control L dbg K (rd_address root) CLI_IOCTL_UNMOUNT input s)"
  defines "n \<equiv> unat (drive_number (first_char drive))"
    and "outcome \<equiv> buffered_control L dbg K (rd_address root) CLI_IOCTL_UNMOUNT
        (unmount_request (drive_number (first_char drive))) s"
  shows "(fst outcome \<noteq> None \<longrightarrow> mounted (snd outcome) = mounted s - {n} \<and> drv_ok L opened base (snd outcome)
        \<and> unmount_via_driver D (first_char drive) = Ok ()
        \<and> cmd_unmount_kernel D drive con = (Ok (), con \<lparr> c_out := c_out con @
            [''==> Unmounting (kernel): '' @ drive, ''    Status:    unmounted''] \<rparr>))
    \<and> (n \<notin> mounted s \<longrightarrow> fst outcome \<noteq> None \<and> snd outcome = s)
    \<and> (fst outcome = None \<longrightarrow> n \<in> mounted s \<and> (\<exists>status. mountmgr_refuses K n (drv_kernel s) status
        \<and> (\<forall>out. dbg (ascii ''[Oxhide] mountmgr: ZwDeviceIoControlFile failed'') status \<noteq> Ok out)))
    \<and> (\<forall>R base0 k. dbg = kdbg_status \<and> drv_reach L dbg K R opened base0 k s \<longrightarrow>
        mounted s = {} \<and> fst outcome \<noteq> None \<and> snd outcome = s)"
proof -
  let ?n = "drive_number (first_char drive)"
  have nd: "n < MAX_DRIVE"
    using assms(4) by (simp add: n_def MAX_DRIVE_def word_le_nat_alt)
  obtain r s' where u: "unmount_device dbg K n s = (r, s')"
    by fastforce
  note d = driver_unmounts [OF assms(3,4) u [unfolded n_def], of L, folded outcome_def]
  have ok: "snd outcome = s' \<and> mounted s' = mounted s - {n} \<and> drv_ok L opened base s'
      \<and> unmount_via_driver D (first_char drive) = Ok ()" if ok: "r = Ok ()"
  proof -
    obtain reply where b: "outcome = (Some reply, s')" "read_packed_i32 reply 0 = 0"
      using d(1) [OF ok] by blast
    have "unmount_via_driver D (first_char drive) = Ok ()"
      using assms(4-6) b by (simp add: unmount_via_driver_def Let_def send_unmount_ioctl_def not_less outcome_def)
    then show ?thesis
      using b(1) drv_ok_unmount(1,3) [OF assms(1,2) nd] u ok by simp
  qed
  have answered: "fst outcome \<noteq> None \<longleftrightarrow> r = Ok ()"
    using d by (cases "r = Ok ()") auto
  have idle: "n \<notin> mounted s \<Longrightarrow> r = Ok () \<and> s' = s"
    using unmount_device_idle [OF nd, of s dbg K] u by auto
  have "fst outcome = None \<Longrightarrow> n \<in> mounted s \<and> (\<exists>status. mountmgr_refuses K n (drv_kernel s) status
        \<and> (\<forall>out. dbg (ascii ''[Oxhide] mountmgr: ZwDeviceIoControlFile failed'') status \<noteq> Ok out))"
    using unmount_device_fails [OF nd, of dbg K s] answered u by auto
  moreover have "mounted s = {}" if "dbg = kdbg_status" "drv_reach L dbg K R opened base0 k s" for R base0 k
    using that kdbg_table_empty by blast
  ultimately show ?thesis
    using ok answered idle by (auto simp: cmd_unmount_kernel_def)
qed

theorem tool_unmounts_drive_witness:
  "\<exists>s (root :: root_device) D outcome. mounted s = {0} \<and> mounted (snd outcome) = {}
    \<and> outcome = buffered_control toy_lib toy_print toy_mount_kernel (rd_address root) CLI_IOCTL_UNMOUNT (unmount_request 0) s
    \<and> unmount_via_driver D (first_char ''a'') = Ok ()"
proof -
  obtain s root where s: "drv_ok toy_lib set {} s" "mounted s = {0}" "drv_root s = Some root"
    by (rule toy_rooted)
  define control where "control = (\<lambda>input. fst (buffered_control toy_lib toy_print toy_mount_kernel (rd_address root)
    CLI_IOCTL_UNMOUNT input s))"
  define D where "D = \<lparr> dd_loaded = True, dd_control = \<lambda>code. control, dd_last_error = [] \<rparr>"
  have a: "drive_number (first_char ''a'') = 0"
    by (simp add: drive_number_def to_ascii_uppercase_def first_char_def)
  have D: "drive_number (first_char ''a'') \<le> 25" "dd_loaded D" "\<And>input. dd_control D CLI_IOCTL_UNMOUNT input =
      fst (buffered_control toy_lib toy_print toy_mount_kernel (rd_address root) CLI_IOCTL_UNMOUNT input s)"
    by (simp_all add: a D_def control_def)
  note t = tool_unmounts_drive [OF toy_handles s(1,3) D, of undefined, unfolded a]
  have "\<not> (\<forall>out. (Ok [] :: (unit, bytes) res) \<noteq> Ok out)"
    by simp
  with t have "mounted (snd (buffered_control toy_lib toy_print toy_mount_kernel (rd_address root) CLI_IOCTL_UNMOUNT
      (unmount_request 0) s)) = {}" "unmount_via_driver D (first_char ''a'') = Ok ()"
    using s(2) by auto
  then show ?thesis
    using s(2) by blast
qed

end
