(* ===== verification/Bench.thy ===== *)
theory Bench
  imports Cli "HOL-Library.Multiset"
begin

text \<open>
  The benchmark of the command-line tool (\<open>vcrypt-cli/src/bench.rs\<close>): the serial
  and the parallel pass over a buffer of sectors, the measuring loops, which
  ciphers get measured, and the table of derivation functions. The clock is a
  parameter: the list of readings that the elapsed time takes, one for each
  look at it. A rate is the pair of bytes and milliseconds it is computed from;
  the floating-point quotient and its formatting are not modelled.
\<close>

section \<open>Passes over the buffer\<close>

definition BUF_MB :: nat where "BUF_MB = 16"
definition MIN_TIME_MS :: nat where "MIN_TIME_MS = 200"

type_synonym sector_op = "u64 \<Rightarrow> bytes \<Rightarrow> bytes vres"

definition sector_op_of :: "crypto_lib \<Rightarrow> SectorCipherObj \<Rightarrow> bool \<Rightarrow> sector_op" where
  "sector_op_of L cipher encrypt = (if encrypt then obj_encrypt_sector L cipher else obj_decrypt_sector L cipher)"

text \<open>
  One round of the serial loop: the chunks in order, the sector number counting
  on; a failing sector ends the function (\<open>ok()?\<close>), which is the error \<open>()\<close> here.
\<close>

fun serial_chunks :: "sector_op \<Rightarrow> u64 \<Rightarrow> bytes list \<Rightarrow> (unit, bytes list \<times> u64) res" where
  "serial_chunks f sector [] = Ok ([], sector)"
| "serial_chunks f sector (chunk # rest) =
     bind_res (map_err (\<lambda>_. ()) (f sector chunk)) (\<lambda>chunk.
     bind_res (serial_chunks f (sector + 1) rest) (\<lambda>(rest, sector). Ok (chunk # rest, sector)))"

definition serial_pass :: "sector_op \<Rightarrow> bytes \<times> u64 \<Rightarrow> (unit, bytes \<times> u64) res" where
  "serial_pass f = (\<lambda>(buf, sector).
     bind_res (serial_chunks f sector (chunks 512 buf)) (\<lambda>(cs, sector).
     if length buf div 512 = 0 then Panic else Ok (concat cs, sector mod of_nat (length buf div 512))))"

text \<open>
  One round of the parallel loop: the chunks in whatever \<open>order\<close> the threads take
  them, each with its own number. The result of a chunk is ignored; a sector
  operation that fails has checked lengths only, and left the chunk alone.
\<close>

definition parallel_step :: "sector_op \<Rightarrow> nat \<Rightarrow> bytes list \<Rightarrow> (unit, bytes list) res" where
  "parallel_step f i cs = (case f (of_nat i) (cs ! i) of
      Ok chunk \<Rightarrow> Ok (cs [i := chunk])
    | Err _ \<Rightarrow> Ok cs
    | Panic \<Rightarrow> Panic)"

definition parallel_pass :: "sector_op \<Rightarrow> nat list \<Rightarrow> bytes \<Rightarrow> (unit, bytes) res" where
  "parallel_pass f order buf = bind_res (fold_res (parallel_step f) order (chunks 512 buf)) (\<lambda>cs. Ok (concat cs))"

section \<open>Measuring\<close>

text \<open>
  A measurement is an error when the readings end before the loop does, that is
  while it still runs; it is \<open>None\<close> when a sector operation failed.
\<close>

type_synonym rate = "u64 \<times> nat"

definition final_rate :: "u64 \<Rightarrow> nat \<Rightarrow> nat list \<Rightarrow> (unit, rate option) res" where
  "final_rate loops len readings = (case readings of
      [] \<Rightarrow> Err ()
    | ms # _ \<Rightarrow> Ok (Some (loops * of_nat len, max ms 1)))"

fun measure_sector_loop :: "sector_op \<Rightarrow> bytes \<times> u64 \<Rightarrow> u64 \<Rightarrow> nat list \<Rightarrow> (unit, rate option) res" where
  "measure_sector_loop f st loops [] = Err ()"
| "measure_sector_loop f st loops (t # ts) =
     (if t < MIN_TIME_MS then (case serial_pass f st of
          Ok st \<Rightarrow> measure_sector_loop f st (loops + 1) ts
        | Err _ \<Rightarrow> Ok None
        | Panic \<Rightarrow> Panic)
      else final_rate loops (length (fst st)) ts)"

fun measure_sector_parallel :: "sector_op \<Rightarrow> (nat \<Rightarrow> nat list) \<Rightarrow> bytes \<Rightarrow> u64 \<Rightarrow> nat list \<Rightarrow> (unit, rate option) res" where
  "measure_sector_parallel f order buf loops [] = Err ()"
| "measure_sector_parallel f order buf loops (t # ts) =
     (if t < MIN_TIME_MS then bind_res (parallel_pass f (order (length ts)) buf) (\<lambda>buf.
          measure_sector_parallel f order buf (loops + 1) ts)
      else final_rate loops (length buf) ts)"

definition measure_xts ::
  "crypto_lib \<Rightarrow> (nat \<Rightarrow> nat list) \<Rightarrow> CipherType \<Rightarrow> bytes \<Rightarrow> bytes \<Rightarrow> bool \<Rightarrow> bool \<Rightarrow> nat list \<Rightarrow> (unit, rate option) res" where
  "measure_xts L order ct key data encrypt parallel readings =
     (let need = ct_key_size ct * 2; k = take (min need (length key)) key in
      case create_sector_cipher L ct k of
        Err _ \<Rightarrow> Ok None
      | Panic \<Rightarrow> Panic
      | Ok sc \<Rightarrow>
        if parallel then measure_sector_parallel (sector_op_of L sc encrypt) order data 0 readings
        else measure_sector_loop (sector_op_of L sc encrypt) (data, 0) 0 readings)"

text \<open>
  The table of results, before it is sorted by the mean rate and printed. Every
  measurement has readings of its own.
\<close>

type_synonym cipher_row = "string \<times> rate \<times> rate \<times> rate option \<times> rate option"

definition bench_data :: bytes where "bench_data = replicate (BUF_MB * 1024 * 1024) 0x42"

definition measure_cipher ::
  "crypto_lib \<Rightarrow> (nat \<Rightarrow> nat list) \<Rightarrow> (CipherType \<Rightarrow> bool \<Rightarrow> bool \<Rightarrow> nat list) \<Rightarrow> bool \<Rightarrow> CipherType \<Rightarrow> (unit, cipher_row list) res" where
  "measure_cipher L order clock show_parallel ct =
     (let ks = ct_key_size ct * 2; key = replicate (min ks 128) 0xAA;
          measure = (\<lambda>encrypt parallel. measure_xts L order ct key bench_data encrypt parallel (clock ct encrypt parallel)) in
      bind_res (measure True False) (\<lambda>enc_s.
      bind_res (measure False False) (\<lambda>dec_s.
      bind_res (if show_parallel then measure True True else Ok None) (\<lambda>enc_p.
      bind_res (if show_parallel then measure False True else Ok None) (\<lambda>dec_p.
      case (enc_s, dec_s) of
        (Some es, Some ds) \<Rightarrow> Ok [(ct_name ct, es, ds, enc_p, dec_p)]
      | _ \<Rightarrow> Ok [])))))"

definition bench_ciphers ::
  "crypto_lib \<Rightarrow> (nat \<Rightarrow> nat list) \<Rightarrow> (CipherType \<Rightarrow> bool \<Rightarrow> bool \<Rightarrow> nat list) \<Rightarrow> bool \<Rightarrow> (unit, cipher_row list) res" where
  "bench_ciphers L order clock show_parallel =
     bind_res (mapM_res (measure_cipher L order clock show_parallel) all_supported) (\<lambda>rows. Ok (concat rows))"

section \<open>Derivation functions\<close>

text \<open>\<open>elapsed\<close> is the time the derivation took.\<close>

definition bench_one_kdf :: "crypto_lib \<Rightarrow> KeyDerivation \<Rightarrow> bytes \<Rightarrow> bytes \<Rightarrow> u32 \<Rightarrow> nat \<Rightarrow> (unit, nat) res" where
  "bench_one_kdf L kdf pwd salt iters elapsed = (case derive L kdf pwd salt iters (replicate 192 0) of
      Err _ \<Rightarrow> Ok 0
    | Panic \<Rightarrow> Panic
    | Ok _ \<Rightarrow> Ok elapsed)"

definition pad_right :: "nat \<Rightarrow> string \<Rightarrow> string" where
  "pad_right n s = s @ replicate (n - length s) (CHR '' '')"

definition pad_left :: "nat \<Rightarrow> string \<Rightarrow> string" where
  "pad_left n s = replicate (n - length s) (CHR '' '') @ s"

definition kdf_line :: "string \<times> nat \<times> u32 \<Rightarrow> string" where
  "kdf_line = (\<lambda>(name, ms, iters). pad_right 30 name @ '' '' @ pad_left 5 (show_nat ms) @ '' ms  '' @ pad_left 8 (show_nat (unat iters)))"

definition kdf_table :: "(string \<times> u32 \<times> KeyDerivation) list" where
  "kdf_table =
     [(''PBKDF2-HMAC-SHA-512'', get_iteration_count KdSha512 0, KdSha512),
      (''PBKDF2-HMAC-SHA-256'', get_iteration_count KdSha256 0, KdSha256),
      (''PBKDF2-HMAC-BLAKE2s'', get_iteration_count KdBlake2s 0, KdBlake2s),
      (''PBKDF2-HMAC-Whirlpool'', get_iteration_count KdWhirlpool 0, KdWhirlpool),
      (''PBKDF2-HMAC-Streebog'', get_iteration_count KdStreebog 0, KdStreebog)]
     @ (let (mem, time) = params_for_pim 0 in [(''Argon2id'', time, KdArgon2id mem time 1)])"

text \<open>Sorted by time, the table's order among equals, and printed.\<close>

definition bench_kdfs :: "crypto_lib \<Rightarrow> (string \<Rightarrow> nat) \<Rightarrow> unit cmd" where
  "bench_kdfs L elapsed =
     bindS (print_lines [''==> KDF Benchmark (192-byte key, 21-char passphrase)'',
       pad_right 30 ''Algorithm'' @ '' '' @ pad_left 8 ''Time'' @ '' '' @ pad_left 10 ''Iterations'', replicate 50 (CHR ''-'')]) (\<lambda>_.
     bindS (liftR (case mapM_res (\<lambda>(name, iters, kdf).
         bind_res (bench_one_kdf L kdf (ascii ''benchmark-password-21'') (replicate 64 0xAB) iters (elapsed name))
           (\<lambda>ms. Ok (name, ms, iters))) kdf_table of Ok rs \<Rightarrow> Ok rs | _ \<Rightarrow> Panic)) (\<lambda>results.
     print_lines (map kdf_line (sort_key (\<lambda>(name, ms, iters). ms) results))))"

section \<open>What a pass computes\<close>

text \<open>An operation that succeeds on whole sectors and keeps their length.\<close>

definition sector_total :: "sector_op \<Rightarrow> (u64 \<Rightarrow> bytes \<Rightarrow> bytes) \<Rightarrow> bool" where
  "sector_total f F \<longleftrightarrow> (\<forall>i d. length d = 512 \<longrightarrow> f i d = Ok (F i d) \<and> length (F i d) = 512)"

definition pass_spec :: "(u64 \<Rightarrow> bytes \<Rightarrow> bytes) \<Rightarrow> bytes \<Rightarrow> bytes" where
  "pass_spec F buf = concat (map (\<lambda>k. F (of_nat k) (chunks 512 buf ! k)) [0..<length buf div 512])"

lemma sector_chunks:
  assumes "512 dvd length buf"
  shows "length (chunks 512 buf) = length buf div 512" "\<forall>c \<in> set (chunks 512 buf). length c = 512"
proof -
  show "length (chunks 512 buf) = length buf div 512"
    by (rule length_chunks [OF _ assms]) simp
  show "\<forall>c \<in> set (chunks 512 buf). length c = 512"
    by (intro ballI) (rule chunks_blocks [OF _ assms], simp_all)
qed

lemma serial_chunks_run:
  assumes "sector_total f F" "\<forall>c \<in> set cs. length c = 512"
  shows "serial_chunks f s cs = Ok (map (\<lambda>k. F (s + of_nat k) (cs ! k)) [0..<length cs], s + of_nat (length cs))"
  using assms(2)
proof (induction cs arbitrary: s)
  case (Cons c cs)
  have "f s c = Ok (F s c)"
    using assms(1) Cons.prems by (simp add: sector_total_def)
  moreover have "[0..<length (c # cs)] = 0 # map Suc [0..<length cs]"
    by (simp add: upt_conv_Cons map_Suc_upt del: upt_Suc)
  ultimately show ?case
    using Cons by (simp add: comp_def algebra_simps del: upt_Suc)
qed simp

lemma parallel_run:
  assumes "sector_total f F" "\<forall>c \<in> set cs. length c = 512" "distinct order" "set order \<subseteq> {..<length cs}"
  shows "fold_res (parallel_step f) order cs =
    Ok (map (\<lambda>k. if k \<in> set order then F (of_nat k) (cs ! k) else cs ! k) [0..<length cs])"
  using assms(2-4)
proof (induction order arbitrary: cs)
  case Nil
  then show ?case
    by (simp add: map_nth)
next
  case (Cons i order)
  have i: "i < length cs"
    using Cons.prems by simp
  then have f: "f (of_nat i) (cs ! i) = Ok (F (of_nat i) (cs ! i))" "length (F (of_nat i) (cs ! i)) = 512"
    using assms(1) Cons.prems(1) by (simp_all add: sector_total_def)
  let ?cs = "cs [i := F (of_nat i) (cs ! i)]"
  have "\<forall>c \<in> set ?cs. length c = 512"
    using Cons.prems(1) f(2) set_update_subset_insert [of cs i] by blast
  then have "fold_res (parallel_step f) order ?cs =
      Ok (map (\<lambda>k. if k \<in> set order then F (of_nat k) (?cs ! k) else ?cs ! k) [0..<length cs])"
    using Cons.IH [of ?cs] Cons.prems by simp
  moreover have "map (\<lambda>k. if k \<in> set order then F (of_nat k) (?cs ! k) else ?cs ! k) [0..<length cs] =
      map (\<lambda>k. if k \<in> set (i # order) then F (of_nat k) (cs ! k) else cs ! k) [0..<length cs]"
    using Cons.prems by (intro map_cong refl) (auto simp: nth_list_update)
  moreover have "parallel_step f i cs = Ok ?cs"
    by (simp add: parallel_step_def f)
  ultimately show ?case
    by (simp only: fold_res.simps bind_res.simps)
qed

lemma passes_run:
  assumes "sector_total f F" "512 dvd length buf" "buf \<noteq> []"
  shows "serial_pass f (buf, 0) = Ok (pass_spec F buf, 0)"
    "mset order = mset [0..<length buf div 512] \<Longrightarrow> parallel_pass f order buf = Ok (pass_spec F buf)"
    "length (pass_spec F buf) = length buf"
proof -
  note c = sector_chunks [OF assms(2)]
  have "length buf div 512 \<noteq> 0"
    using assms(2,3) by (simp add: div_eq_0_iff not_less dvd_imp_le)
  then show "serial_pass f (buf, 0) = Ok (pass_spec F buf, 0)"
    using c by (simp add: serial_pass_def serial_chunks_run [OF assms(1)] pass_spec_def)
  show "parallel_pass f order buf = Ok (pass_spec F buf)" if "mset order = mset [0..<length buf div 512]"
  proof -
    have d: "distinct order"
      using mset_eq_imp_distinct_iff [OF that] by (simp only: distinct_upt)
    have e: "set order = {0..<length (chunks 512 buf)}"
      using mset_eq_setD [OF that] by (simp only: set_upt c(1))
    have "set order \<subseteq> {..<length (chunks 512 buf)}"
      unfolding e by auto
    note parallel_run [OF assms(1) c(2) d this]
    also have "map (\<lambda>k. if k \<in> set order then F (of_nat k) (chunks 512 buf ! k) else chunks 512 buf ! k) [0..<length (chunks 512 buf)] =
        map (\<lambda>k. F (of_nat k) (chunks 512 buf ! k)) [0..<length (chunks 512 buf)]"
      unfolding e by (intro map_cong refl) simp
    finally show ?thesis
      by (simp only: parallel_pass_def pass_spec_def bind_res.simps c(1))
  qed
  have "\<forall>b \<in> set (map (\<lambda>k. F (of_nat k) (chunks 512 buf ! k)) [0..<length buf div 512]). length b = 512"
    using c assms(1) by (auto simp: sector_total_def)
  from length_concat_blocks [OF this] show "length (pass_spec F buf) = length buf"
    using assms(2) by (simp add: pass_spec_def)
qed

lemma serial_passes_run:
  assumes "sector_total f F" "512 dvd length buf" "buf \<noteq> []"
  shows "fold_res (\<lambda>_. serial_pass f) xs (buf, 0) = Ok ((pass_spec F ^^ length xs) buf, 0)"
  using assms(2,3)
proof (induction xs arbitrary: buf)
  case (Cons x xs)
  have "pass_spec F buf \<noteq> []"
    using passes_run(3) [OF assms(1) Cons.prems] Cons.prems(2) by (metis length_0_conv)
  then show ?case
    using Cons passes_run(1,3) [OF assms(1) Cons.prems] by (simp add: funpow_swap1)
qed simp

lemma parallel_passes_run:
  assumes "sector_total f F" "512 dvd length buf" "buf \<noteq> []"
    "\<forall>order \<in> set orders. mset order = mset [0..<length buf div 512]"
  shows "fold_res (parallel_pass f) orders buf = Ok ((pass_spec F ^^ length orders) buf)"
  using assms(2-4)
proof (induction orders arbitrary: buf)
  case (Cons order orders)
  have "pass_spec F buf \<noteq> []"
    using passes_run(3) [OF assms(1) Cons.prems(1,2)] Cons.prems(2) by (metis length_0_conv)
  then show ?case
    using Cons passes_run(2,3) [OF assms(1) Cons.prems(1,2)] by (simp add: funpow_swap1)
qed simp

lemma sector_op_total:
  assumes "lib_ok L" "length key = 2 * ct_key_size ct" "create_sector_cipher L ct key = Ok c"
  shows "sector_total (sector_op_of L c encrypt) (if encrypt then sector_E L ct key else sector_D L ct key)"
proof -
  have r: "obj_refines L c ct key"
    using create_sector_cipher_refines [OF assms(1,2)] assms(3) by auto
  have "16 dvd length d \<and> d \<noteq> []" if "length d = 512" for d :: bytes
    using that by auto
  then show ?thesis
    using r sector_length [OF assms(1,2)] by (auto simp: sector_total_def sector_op_of_def obj_refines_def)
qed

text \<open>
  The parallel benchmark does what the serial one does: after the same number
  of rounds, with the sectors of each round taken in any order, the buffer has
  the same contents, those of every sector encrypted (or decrypted) as often
  under its own number.
\<close>

theorem bench_parallel_equals_serial:
  assumes "lib_ok L" "length key = 2 * ct_key_size ct" "create_sector_cipher L ct key = Ok c"
    "512 dvd length buf" "buf \<noteq> []" "\<forall>order \<in> set orders. mset order = mset [0..<length buf div 512]"
  shows "fold_res (parallel_pass (sector_op_of L c encrypt)) orders buf =
      Ok ((pass_spec (if encrypt then sector_E L ct key else sector_D L ct key) ^^ length orders) buf)
    \<and> fold_res (\<lambda>_. serial_pass (sector_op_of L c encrypt)) orders (buf, 0) =
      Ok ((pass_spec (if encrypt then sector_E L ct key else sector_D L ct key) ^^ length orders) buf, 0)"
proof -
  note t = sector_op_total [OF assms(1-3), of encrypt]
  show ?thesis
    using parallel_passes_run [OF t assms(4-6)] serial_passes_run [OF t assms(4,5), of orders] by blast
qed

theorem bench_parallel_equals_serial_witness:
  "\<exists>c out. create_sector_cipher toy_lib Aes (replicate 64 1) = Ok c
    \<and> fold_res (parallel_pass (sector_op_of toy_lib c True)) [[1, 0], [0, 1]] (replicate 1024 9) = Ok out
    \<and> fold_res (\<lambda>_. serial_pass (sector_op_of toy_lib c True)) [[1, 0], [0, 1 :: nat]] (replicate 1024 9, 0) = Ok (out, 0)"
proof -
  obtain c where c: "create_sector_cipher toy_lib Aes (replicate 64 1) = Ok c"
    using toy_cipher by blast
  have "[0..<2] = [0, 1 :: nat]"
    by (simp add: upt_rec)
  then have o: "\<forall>order \<in> set [[1, 0], [0, 1 :: nat]]. mset order = mset [0..<length (replicate 1024 (9 :: u8)) div 512]"
    by (simp del: upt_Suc)
  have k: "length (replicate 64 (1 :: u8)) = 2 * ct_key_size Aes" "512 dvd length (replicate 1024 (9 :: u8))"
    "replicate 1024 (9 :: u8) \<noteq> []"
    by simp_all
  show ?thesis
    using c bench_parallel_equals_serial [OF toy_lib_ok k(1) c k(2,3) o, of True] by blast
qed

section \<open>Which ciphers are measured\<close>

text \<open>A clock that passes the minimal time and is looked at once more.\<close>

definition clock_ok :: "nat list \<Rightarrow> bool" where
  "clock_ok readings \<longleftrightarrow> (\<exists>n. Suc n < length readings \<and> MIN_TIME_MS \<le> readings ! n)"

lemma clock_okE:
  assumes "clock_ok (t # ts)" "t < MIN_TIME_MS"
  shows "clock_ok ts"
proof -
  obtain n where n: "Suc n < length (t # ts)" "MIN_TIME_MS \<le> (t # ts) ! n"
    using assms(1) by (auto simp: clock_ok_def)
  then show ?thesis
    using assms(2) by (cases n) (auto simp: clock_ok_def)
qed

lemma final_rate_run: "clock_ok (t # ts) \<Longrightarrow> \<exists>r. final_rate loops len ts = Ok (Some r)"
  by (cases ts) (auto simp: clock_ok_def final_rate_def)

text \<open>With such a clock both loops end with a rate.\<close>

lemma measure_serial_ends:
  assumes "sector_total f F" "512 dvd length buf" "buf \<noteq> []" "clock_ok ts"
  shows "\<exists>r. measure_sector_loop f (buf, 0) loops ts = Ok (Some r)"
  using assms(2-4)
proof (induction ts arbitrary: buf loops)
  case (Cons t ts)
  note p = passes_run [OF assms(1) Cons.prems(1,2)]
  have "pass_spec F buf \<noteq> []"
    using p(3) Cons.prems(2) by (metis length_0_conv)
  then show ?case
    using Cons p(1,3) clock_okE [OF Cons.prems(3)] final_rate_run [OF Cons.prems(3)] by (cases "t < MIN_TIME_MS") simp_all
qed (simp add: clock_ok_def)

lemma measure_parallel_ends:
  assumes "sector_total f F" "512 dvd length buf" "buf \<noteq> []" "clock_ok ts"
    "\<And>k. mset (order k) = mset [0..<length buf div 512]"
  shows "\<exists>r. measure_sector_parallel f order buf loops ts = Ok (Some r)"
  using assms(2-5)
proof (induction ts arbitrary: buf loops)
  case (Cons t ts)
  note p = passes_run [OF assms(1) Cons.prems(1,2)]
  have "pass_spec F buf \<noteq> []"
    using p(3) Cons.prems(2) by (metis length_0_conv)
  then show ?case
    using Cons.IH [of "pass_spec F buf"] Cons.prems p(2) [OF Cons.prems(4)] p(3) clock_okE [OF Cons.prems(3)]
      final_rate_run [OF Cons.prems(3)]
    by (cases "t < MIN_TIME_MS") simp_all
qed (simp add: clock_ok_def)

lemma bench_data_length: "length bench_data = 512 * 32768"
  by (simp add: bench_data_def BUF_MB_def)

lemma measure_xts_short_key:
  assumes "length key < 2 * ct_key_size ct"
  shows "measure_xts L order ct key data encrypt parallel readings = Ok None"
proof -
  have "length (take (min (ct_key_size ct * 2) (length key)) key) \<noteq> 2 * ct_key_size ct"
    using assms by simp
  from create_sector_cipher_bad_key [OF this, of L] show ?thesis
    by (auto simp: measure_xts_def Let_def)
qed

lemma measure_xts_ends:
  assumes "lib_ok L" "length key = 2 * ct_key_size ct" "clock_ok readings"
    "\<And>k. mset (order k) = mset [0..<32768]"
  shows "\<exists>r. measure_xts L order ct key bench_data encrypt parallel readings = Ok (Some r)"
proof -
  obtain c where c: "create_sector_cipher L ct key = Ok c"
    using create_sector_cipher_refines [OF assms(1,2)] by blast
  note t = sector_op_total [OF assms(1,2) c, of encrypt]
  have d: "512 dvd length bench_data" "bench_data \<noteq> []" "length bench_data div 512 = 32768"
    using bench_data_length by auto
  have k: "take (min (ct_key_size ct * 2) (length key)) key = key"
    using assms(2) by simp
  show ?thesis
    using measure_serial_ends [OF t d(1,2) assms(3), of 0] measure_parallel_ends [OF t d(1,2) assms(3), of order 0] assms(4) c
    unfolding measure_xts_def Let_def k d(3) by (cases parallel) simp_all
qed

lemma measure_cipher_row:
  assumes "lib_ok L" "\<And>ct e p. clock_ok (clock ct e p)" "\<And>k. mset (order k) = mset [0..<32768]"
  shows "\<exists>rows. measure_cipher L order clock show_parallel ct = Ok rows
    \<and> map fst rows = (if ct_key_size ct \<le> 64 then [ct_name ct] else [])"
proof (cases "ct_key_size ct \<le> 64")
  case True
  then have "length (replicate (min (ct_key_size ct * 2) 128) (0xAA :: u8)) = 2 * ct_key_size ct"
    by simp
  note m = measure_xts_ends [OF assms(1) this assms(2,3)]
  obtain a b x y where
    "measure_xts L order ct (replicate (min (ct_key_size ct * 2) 128) 0xAA) bench_data True False (clock ct True False) = Ok (Some a)"
    "measure_xts L order ct (replicate (min (ct_key_size ct * 2) 128) 0xAA) bench_data False False (clock ct False False) = Ok (Some b)"
    "measure_xts L order ct (replicate (min (ct_key_size ct * 2) 128) 0xAA) bench_data True True (clock ct True True) = Ok (Some x)"
    "measure_xts L order ct (replicate (min (ct_key_size ct * 2) 128) 0xAA) bench_data False True (clock ct False True) = Ok (Some y)"
    using m by meson
  then show ?thesis
    using True by (simp add: measure_cipher_def Let_def)
next
  case False
  then have "measure_xts L order ct (replicate (min (ct_key_size ct * 2) 128) 0xAA) data e p r = Ok None" for data e p r
    by (intro measure_xts_short_key) simp
  with False show ?thesis
    by (simp add: measure_cipher_def Let_def)
qed

text \<open>
  The key made for a measurement is cut at 128 bytes, so the ciphers with a longer
  key, the cascades of three, cannot be set up and are left out of the table
  without a word; all others are measured, on any clock that moves.
\<close>

lemma bench_skips_triple_cascades:
  assumes "lib_ok L" "\<And>ct e p. clock_ok (clock ct e p)" "\<And>k. mset (order k) = mset [0..<32768]"
  shows "\<exists>rows. bench_ciphers L order clock show_parallel = Ok rows
    \<and> map fst rows = map ct_name (filter (\<lambda>ct. ct_key_size ct \<le> 64) all_supported)"
proof -
  have "\<exists>rss. mapM_res (measure_cipher L order clock show_parallel) cts = Ok rss
      \<and> map fst (concat rss) = map ct_name (filter (\<lambda>ct. ct_key_size ct \<le> 64) cts)" for cts
  proof (induction cts)
    case (Cons ct cts)
    obtain rows where "measure_cipher L order clock show_parallel ct = Ok rows"
      "map fst rows = (if ct_key_size ct \<le> 64 then [ct_name ct] else [])"
      using measure_cipher_row [of L clock order show_parallel ct] assms by blast
    then show ?case
      using Cons by auto
  qed simp
  then show ?thesis
    unfolding bench_ciphers_def by (metis bind_res.simps(1))
qed

lemma triple_cascades:
  "filter (\<lambda>ct. \<not> ct_key_size ct \<le> 64) all_supported = [AesTwofishSerpent, SerpentTwofishAes, KuznyechikSerpentCamellia]"
  by (simp add: all_supported_def)

end
