(* ===== verification/Sha256Lsx.thy ===== *)
theory Sha256Lsx
  imports Prelude
begin

text \<open>
  The SHA-256 of the vendored \<open>lsx\<close> crate (\<open>vcrypt-core/vendor/lsx/src/sha256.rs\<close>):
  the raw state that takes whole blocks, the buffered one that takes any pieces,
  and hashing at once. Against the standard's definition: however a message is
  cut into pieces, the buffered hash is the hash of the standard.
\<close>

section \<open>The code\<close>

definition HASHBYTES :: nat where "HASHBYTES = 32"
definition BLOCKBYTES :: nat where "BLOCKBYTES = 64"

text \<open>The round constants, in the rows of the source.\<close>

definition SHA_K :: "u32 list" where
  "SHA_K = concat
     [[0x428a2f98, 0x71374491, 0xb5c0fbcf, 0xe9b5dba5, 0x3956c25b, 0x59f111f1],
      [0x923f82a4, 0xab1c5ed5, 0xd807aa98, 0x12835b01, 0x243185be, 0x550c7dc3],
      [0x72be5d74, 0x80deb1fe, 0x9bdc06a7, 0xc19bf174, 0xe49b69c1, 0xefbe4786],
      [0x0fc19dc6, 0x240ca1cc, 0x2de92c6f, 0x4a7484aa, 0x5cb0a9dc, 0x76f988da],
      [0x983e5152, 0xa831c66d, 0xb00327c8, 0xbf597fc7, 0xc6e00bf3, 0xd5a79147],
      [0x06ca6351, 0x14292967, 0x27b70a85, 0x2e1b2138, 0x4d2c6dfc, 0x53380d13],
      [0x650a7354, 0x766a0abb, 0x81c2c92e, 0x92722c85, 0xa2bfe8a1, 0xa81a664b],
      [0xc24b8b70, 0xc76c51a3, 0xd192e819, 0xd6990624, 0xf40e3585, 0x106aa070],
      [0x19a4c116, 0x1e376c08, 0x2748774c, 0x34b0bcb5, 0x391c0cb3, 0x4ed8aa4a],
      [0x5b9cca4f, 0x682e6ff3, 0x748f82ee, 0x78a5636f, 0x84c87814, 0x8cc70208],
      [0x90befffa, 0xa4506ceb, 0xbef9a3f7, 0xc67178f2]]"

record RawSha256 =
  rs_h :: "u32 list"
  rs_byte_count :: u64

record BufSha256 =
  bs_inner :: RawSha256
  bs_buf :: bytes
  bs_buffered_bytes :: u32

definition raw_new :: RawSha256 where
  "raw_new = \<lparr> rs_h = [0x6a09e667, 0xbb67ae85, 0x3c6ef372, 0xa54ff53a, 0x510e527f, 0x9b05688c, 0x1f83d9ab, 0x5be0cd19],
     rs_byte_count = 0 \<rparr>"

text \<open>The three loops of a round: sixteen words of the block, the other words, the working variables.\<close>

definition load_word :: "bytes \<Rightarrow> nat \<Rightarrow> u32 list \<Rightarrow> u32 list" where
  "load_word input n w = w [n := from_be (sub input (n * 4) (n * 4 + 4))]"

definition extend_word :: "nat \<Rightarrow> u32 list \<Rightarrow> u32 list" where
  "extend_word n w =
     (let s0 = word_rotr 7 (w ! (n - 15)) XOR word_rotr 18 (w ! (n - 15)) XOR drop_bit 3 (w ! (n - 15));
          s1 = word_rotr 17 (w ! (n - 2)) XOR word_rotr 19 (w ! (n - 2)) XOR drop_bit 10 (w ! (n - 2))
      in w [n := w ! (n - 16) + s0 + w ! (n - 7) + s1])"

type_synonym working = "u32 \<times> u32 \<times> u32 \<times> u32 \<times> u32 \<times> u32 \<times> u32 \<times> u32"

definition work_step :: "u32 list \<Rightarrow> nat \<Rightarrow> working \<Rightarrow> working" where
  "work_step w n = (\<lambda>(a, b, c, d, e, f, g, h).
     let s1 = (word_rotr 6 e XOR word_rotr 11 e XOR word_rotr 25 e) + h + ((e AND f) XOR (NOT e AND g)) + SHA_K ! n + w ! n;
         s0 = (word_rotr 2 a XOR word_rotr 13 a XOR word_rotr 22 a) + ((a AND b) XOR (a AND c) XOR (b AND c))
     in (s0 + s1, a, b, c, d + s1, e, f, g))"

definition raw_round :: "bytes \<Rightarrow> RawSha256 \<Rightarrow> RawSha256" where
  "raw_round input st =
     (let hs = rs_h st;
          w = fold (load_word input) [0..<16] (replicate 64 0);
          w = fold extend_word [16..<64] w
      in case fold (work_step w) [0..<64] (hs ! 0, hs ! 1, hs ! 2, hs ! 3, hs ! 4, hs ! 5, hs ! 6, hs ! 7) of
           (a, b, c, d, e, f, g, h) \<Rightarrow> st \<lparr> rs_h :=
             [hs ! 0 + a, hs ! 1 + b, hs ! 2 + c, hs ! 3 + d, hs ! 4 + e, hs ! 5 + f, hs ! 6 + g, hs ! 7 + h] \<rparr>)"

text \<open>\<open>checked_add(..).expect(..)\<close>\<close>

definition checked_count :: "u64 \<Rightarrow> bytes \<Rightarrow> (unit, u64) res" where
  "checked_count n data = (if unat n + length data \<ge> 2 ^ 64 then Panic else Ok (n + of_nat (length data)))"

definition raw_update :: "bytes \<Rightarrow> RawSha256 \<Rightarrow> (unit, RawSha256) res" where
  "raw_update data st =
     (if length data mod BLOCKBYTES \<noteq> 0 then Panic
      else
        let st = fold raw_round (chunks BLOCKBYTES data) st
        in bind_res (checked_count (rs_byte_count st) data) (\<lambda>n. Ok (st \<lparr> rs_byte_count := n \<rparr>)))"

definition raw_finish :: "bytes \<Rightarrow> RawSha256 \<Rightarrow> (unit, bytes) res" where
  "raw_finish data st =
     bind_res (if length data \<ge> BLOCKBYTES then
         let extra = length data mod BLOCKBYTES in
         bind_res (raw_update (take (length data - extra) data) st) (\<lambda>st. Ok (st, drop (length data - extra) data))
       else Ok (st, data)) (\<lambda>(st, data).
     bind_res (checked_count (rs_byte_count st) data) (\<lambda>byte_count.
     if byte_count \<ge> 0x2000000000000000 then Panic
     else
       let block = blit (replicate (BLOCKBYTES * 2) 0) 0 data; block = block [length data := 0x80];
           st = (if length data > BLOCKBYTES - 9 then
               let block = blit block (BLOCKBYTES * 2 - 8) (be_bytes 8 (push_bit 3 byte_count))
               in raw_round (sub block BLOCKBYTES (BLOCKBYTES + BLOCKBYTES)) (raw_round (sub block 0 BLOCKBYTES) st)
             else
               let block = blit block (BLOCKBYTES - 8) (be_bytes 8 (push_bit 3 byte_count))
               in raw_round (sub block 0 BLOCKBYTES) st)
       in Ok (concat (map (\<lambda>i. be_bytes 4 (rs_h st ! i)) [0..<8]))))"

definition buf_new :: BufSha256 where
  "buf_new = \<lparr> bs_inner = raw_new, bs_buf = replicate BLOCKBYTES 0, bs_buffered_bytes = 0 \<rparr>"

text \<open>Filling the buffer with the rest of the data, after the whole blocks went to the raw state.\<close>

definition buf_rest :: "bytes \<Rightarrow> BufSha256 \<Rightarrow> (unit, BufSha256) res" where
  "buf_rest data st =
     bind_res (if length data \<ge> BLOCKBYTES then
         let chop = length data - length data mod BLOCKBYTES in
         bind_res (raw_update (take chop data) (bs_inner st)) (\<lambda>inner. Ok (st \<lparr> bs_inner := inner \<rparr>, drop chop data))
       else Ok (st, data)) (\<lambda>(st, data).
     Ok (st \<lparr> bs_buf := blit (bs_buf st) 0 data, bs_buffered_bytes := of_nat (length data) \<rparr>))"

definition buf_update :: "bytes \<Rightarrow> BufSha256 \<Rightarrow> (unit, BufSha256) res" where
  "buf_update data st =
     (if bs_buffered_bytes st > 0 then
        let buffered = unat (bs_buffered_bytes st); remaining_bytes = BLOCKBYTES - buffered in
        if remaining_bytes \<le> length data then
          let st = st \<lparr> bs_buf := blit (bs_buf st) buffered (take remaining_bytes data) \<rparr> in
          bind_res (raw_update (bs_buf st) (bs_inner st)) (\<lambda>inner.
          buf_rest (drop remaining_bytes data) (st \<lparr> bs_inner := inner, bs_buffered_bytes := 0 \<rparr>))
        else Ok (st \<lparr> bs_buf := blit (bs_buf st) buffered data,
          bs_buffered_bytes := bs_buffered_bytes st + of_nat (length data) \<rparr>)
      else buf_rest data st)"

definition buf_finish :: "bytes \<Rightarrow> BufSha256 \<Rightarrow> (unit, bytes) res" where
  "buf_finish data st =
     bind_res (if length data \<noteq> 0 then buf_update data st else Ok st) (\<lambda>st.
     raw_finish (take (unat (bs_buffered_bytes st)) (bs_buf st)) (bs_inner st))"

definition sha256_hash :: "bytes \<Rightarrow> (unit, bytes) res" where
  "sha256_hash data = raw_finish data raw_new"

section \<open>The standard\<close>

text \<open>FIPS 180-4: functions, message schedule, compression, padding.\<close>

definition Ch :: "u32 \<Rightarrow> u32 \<Rightarrow> u32 \<Rightarrow> u32" where "Ch x y z = (x AND y) XOR (NOT x AND z)"
definition Maj :: "u32 \<Rightarrow> u32 \<Rightarrow> u32 \<Rightarrow> u32" where "Maj x y z = (x AND y) XOR (x AND z) XOR (y AND z)"
definition Sigma0 :: "u32 \<Rightarrow> u32" where "Sigma0 x = word_rotr 2 x XOR word_rotr 13 x XOR word_rotr 22 x"
definition Sigma1 :: "u32 \<Rightarrow> u32" where "Sigma1 x = word_rotr 6 x XOR word_rotr 11 x XOR word_rotr 25 x"
definition sigma0 :: "u32 \<Rightarrow> u32" where "sigma0 x = word_rotr 7 x XOR word_rotr 18 x XOR drop_bit 3 x"
definition sigma1 :: "u32 \<Rightarrow> u32" where "sigma1 x = word_rotr 17 x XOR word_rotr 19 x XOR drop_bit 10 x"

function sha_W :: "bytes \<Rightarrow> nat \<Rightarrow> u32" where
  "sha_W M t = (if t < 16 then from_be (sub M (4 * t) (4 * t + 4))
     else sigma1 (sha_W M (t - 2)) + sha_W M (t - 7) + sigma0 (sha_W M (t - 15)) + sha_W M (t - 16))"
  by pat_completeness auto
termination by (relation "measure snd") auto

declare sha_W.simps [simp del]

fun sha_work :: "bytes \<Rightarrow> working \<Rightarrow> nat \<Rightarrow> working" where
  "sha_work M H 0 = H"
| "sha_work M H (Suc t) = (case sha_work M H t of (a, b, c, d, e, f, g, h) \<Rightarrow>
     let T1 = h + Sigma1 e + Ch e f g + SHA_K ! t + sha_W M t; T2 = Sigma0 a + Maj a b c
     in (T1 + T2, a, b, c, d + T1, e, f, g))"

definition sha_compress :: "bytes \<Rightarrow> u32 list \<Rightarrow> u32 list" where
  "sha_compress M H = (case sha_work M (H ! 0, H ! 1, H ! 2, H ! 3, H ! 4, H ! 5, H ! 6, H ! 7) 64 of
     (a, b, c, d, e, f, g, h) \<Rightarrow> map2 (+) [a, b, c, d, e, f, g, h] H)"

text \<open>A one bit, as many zeros as fill the last block up to its last eight bytes, the length in bits.\<close>

definition sha_pad :: "bytes \<Rightarrow> bytes" where
  "sha_pad m = m @ [0x80] @ replicate ((119 - length m mod 64) mod 64) 0 @ be_bytes 8 (of_nat (8 * length m) :: u64)"

definition sha256_spec :: "bytes \<Rightarrow> bytes" where
  "sha256_spec m = concat (map (be_bytes 4) (fold sha_compress (chunks 64 (sha_pad m)) (rs_h raw_new)))"

section \<open>One round\<close>

lemma extend_word_eq:
  "extend_word n w = w [n := sigma1 (w ! (n - 2)) + w ! (n - 7) + sigma0 (w ! (n - 15)) + w ! (n - 16)]"
  by (simp add: extend_word_def Let_def sigma0_def sigma1_def algebra_simps)

lemma loaded:
  "n \<le> 64 \<Longrightarrow> fold (load_word M) [0..<n] (replicate 64 0) = map (\<lambda>t. from_be (sub M (4 * t) (4 * t + 4))) [0..<n] @ replicate (64 - n) 0"
proof (induction n)
  case (Suc n)
  then have "replicate (64 - n) (0 :: u32) = 0 # replicate (64 - Suc n) 0"
    by (simp flip: replicate_Suc add: Suc_diff_Suc)
  then show ?case
    using Suc by (simp add: load_word_def list_update_append mult.commute)
qed simp

lemma extended:
  assumes "16 \<le> n" "n \<le> 64"
  shows "\<exists>rest. fold extend_word [16..<n] (fold (load_word M) [0..<16] (replicate 64 0)) = map (sha_W M) [0..<n] @ rest
    \<and> length rest = 64 - n"
  using assms
proof (induction n rule: dec_induct)
  case base
  have "map (\<lambda>t. from_be (sub M (4 * t) (4 * t + 4))) [0..<16] = map (sha_W M) [0..<16]"
    by (intro map_cong refl) (simp add: sha_W.simps)
  then show ?case
    unfolding loaded [of 16 M, simplified] by simp
next
  case (step n)
  then obtain rest where r: "fold extend_word [16..<n] (fold (load_word M) [0..<16] (replicate 64 0)) = map (sha_W M) [0..<n] @ rest"
    "length rest = 64 - n"
    by auto
  then obtain x xs where "rest = x # xs"
    using step by (cases rest) auto
  moreover have "sha_W M n = sigma1 (sha_W M (n - 2)) + sha_W M (n - 7) + sigma0 (sha_W M (n - 15)) + sha_W M (n - 16)"
    using step by (subst sha_W.simps) simp
  ultimately have "fold extend_word [16..<Suc n] (fold (load_word M) [0..<16] (replicate 64 0)) = map (sha_W M) [0..<Suc n] @ xs"
    using step r by (simp add: extend_word_eq nth_append list_update_append)
  then show ?case
    using r \<open>rest = x # xs\<close> step by (intro exI [of _ xs]) simp
qed

lemma schedule: "fold extend_word [16..<64] (fold (load_word M) [0..<16] (replicate 64 0)) = map (sha_W M) [0..<64]"
  using extended [of 64 M] by auto

lemma worked: "n \<le> 64 \<Longrightarrow> fold (work_step (map (sha_W M) [0..<64])) [0..<n] H = sha_work M H n"
proof (induction n)
  case (Suc n)
  have "work_step (map (sha_W M) [0..<64]) n x = (case x of (a, b, c, d, e, f, g, h) \<Rightarrow>
     let T1 = h + Sigma1 e + Ch e f g + SHA_K ! n + sha_W M n; T2 = Sigma0 a + Maj a b c
     in (T1 + T2, a, b, c, d + T1, e, f, g))" for x
    using Suc.prems by (cases x) (simp add: work_step_def Let_def Sigma0_def Sigma1_def Ch_def Maj_def algebra_simps del: upt_Suc)
  then show ?case
    using Suc by simp
qed simp

lemma raw_round_compress:
  assumes "length (rs_h st) = 8"
  shows "raw_round M st = st \<lparr> rs_h := sha_compress M (rs_h st) \<rparr>"
proof -
  have "rs_h st = map ((!) (rs_h st)) [0..<8]"
    using assms map_nth [of "rs_h st"] by simp
  also have "[0..<8] = [0, 1, 2, 3, 4, 5, 6, 7 :: nat]"
    by (simp add: upt_rec)
  finally obtain h0 h1 h2 h3 h4 h5 h6 h7 where h: "rs_h st = [h0, h1, h2, h3, h4, h5, h6, h7]"
    by simp
  show ?thesis
    unfolding raw_round_def Let_def schedule worked [OF order_refl]
    by (simp add: sha_compress_def h add.commute split: prod.split)
qed

lemma length_compress [simp]: "length H = 8 \<Longrightarrow> length (sha_compress M H) = 8"
  by (simp add: sha_compress_def split: prod.split)

section \<open>Absorbing whole blocks\<close>

definition absorbed :: "RawSha256 \<Rightarrow> bytes \<Rightarrow> bool" where
  "absorbed st m \<longleftrightarrow> 64 dvd length m \<and> length (rs_h st) = 8
     \<and> rs_h st = fold sha_compress (chunks 64 m) (rs_h raw_new) \<and> rs_byte_count st = of_nat (length m)"

lemma fold_rounds:
  "length (rs_h st) = 8 \<Longrightarrow> fold raw_round bs st = st \<lparr> rs_h := fold sha_compress bs (rs_h st) \<rparr>"
  by (induction bs arbitrary: st) (simp_all add: raw_round_compress)

lemma length_folds: "length H = 8 \<Longrightarrow> length (fold sha_compress bs H) = 8"
  by (induction bs arbitrary: H) simp_all

lemma absorbed_new: "absorbed raw_new []"
  by (simp add: absorbed_def raw_new_def)

lemma checked_count_run:
  "n + length d < 2 ^ 64 \<Longrightarrow> checked_count (of_nat n) d = Ok (of_nat (n + length d))"
  using unat_of_nat64 [of n] by (simp add: checked_count_def)

lemma raw_update_run:
  assumes "absorbed st m" "64 dvd length d" "length m + length d < 2 ^ 64"
  shows "\<exists>st'. raw_update d st = Ok st' \<and> absorbed st' (m @ d)"
proof -
  have a: "64 dvd length m" "length (rs_h st) = 8" "rs_h st = fold sha_compress (chunks 64 m) (rs_h raw_new)"
    "rs_byte_count st = of_nat (length m)"
    using assms(1) unfolding absorbed_def by blast+
  have c: "chunks 64 (m @ d) = chunks 64 m @ chunks 64 d"
    by (rule chunks_append_dvd [OF _ a(1)]) simp
  have "length d mod 64 = 0"
    using assms(2) by simp
  then have "raw_update d st = Ok (st \<lparr> rs_h := fold sha_compress (chunks 64 d) (rs_h st), rs_byte_count := of_nat (length m + length d) \<rparr>)"
    using checked_count_run [OF assms(3)] by (simp add: raw_update_def BLOCKBYTES_def Let_def fold_rounds [OF a(2)] a(4))
  moreover have "absorbed (st \<lparr> rs_h := fold sha_compress (chunks 64 d) (rs_h st), rs_byte_count := of_nat (length m + length d) \<rparr>) (m @ d)"
    using a(1) assms(2) length_folds [OF a(2), of "chunks 64 d"] unfolding absorbed_def c
    by (simp add: a(3) [symmetric])
  ultimately show ?thesis
    by blast
qed

section \<open>The last blocks\<close>

definition tail_of :: "nat \<Rightarrow> bytes \<Rightarrow> bytes" where
  "tail_of n d = d @ [0x80] @ replicate ((119 - length d) mod 64) 0 @ be_bytes 8 (of_nat (8 * n) :: u64)"

lemma sha_pad_split:
  assumes "64 dvd length m" "length d < 64"
  shows "sha_pad (m @ d) = m @ tail_of (length m + length d) d"
proof -
  have "(length m + length d) mod 64 = length d"
    using assms by (auto elim!: dvdE)
  then show ?thesis
    by (simp add: sha_pad_def tail_of_def)
qed

lemma tail_blocks:
  assumes "length d < 64"
  shows "length d \<le> 55 \<Longrightarrow> length (tail_of n d) = 64" "55 < length d \<Longrightarrow> length (tail_of n d) = 128"
proof -
  show "length (tail_of n d) = 64" if "length d \<le> 55"
  proof -
    have "(119 - length d) mod 64 = 55 - length d"
      using that mod_add_self2 [of "55 - length d" 64] by (simp add: add.commute)
    then show ?thesis
      using that by (simp add: tail_of_def)
  qed
  show "length (tail_of n d) = 128" if "55 < length d"
    using that assms by (simp add: tail_of_def)
qed

text \<open>The block the code builds, its length field at the end of the first or the second half.\<close>

lemma built_block:
  fixes d :: bytes
  assumes "length d + 9 + k = e + 8" "e + 8 \<le> 128" "length c = 8" "length d < e"
  shows "take (e + 8) (blit ((blit (replicate 128 0) 0 d) [length d := 0x80]) e c) = d @ [0x80] @ replicate k 0 @ c"
proof -
  have "blit (replicate 128 0) 0 d = d @ replicate (128 - length d) 0"
    using assms by (simp add: blit_def)
  moreover have "replicate (128 - length d) (0 :: u8) = 0 # replicate (127 - length d) 0"
    using assms by (simp flip: replicate_Suc add: Suc_diff_Suc)
  ultimately have b: "(blit (replicate 128 0) 0 d) [length d := 0x80] = d @ 0x80 # replicate (127 - length d) 0"
    by (simp add: list_update_append)
  have "e - length d = Suc k"
    using assms by simp
  then have "take e (d @ 0x80 # replicate (127 - length d) 0) = d @ 0x80 # replicate k 0"
    using assms by simp
  moreover have "take (e + 8) (blit x e c) = take e x @ c" if "e + 8 \<le> length x" for x
    using that assms(3) by (simp add: blit_def)
  ultimately show ?thesis
    using assms unfolding b by simp
qed

lemma count_bits: "push_bit 3 (of_nat n :: u64) = of_nat (8 * n)"
  by (simp add: push_bit_eq_mult mult.commute)

lemma short_end:
  fixes d :: bytes
  assumes "length d \<le> 55"
  shows "sub (blit ((blit (replicate 128 0) 0 d) [length d := 0x80]) 56 (be_bytes 8 (of_nat (8 * n) :: u64))) 0 64 = tail_of n d"
proof -
  have "(119 - length d) mod 64 = 55 - length d"
    using assms mod_add_self2 [of "55 - length d" 64] by (simp add: add.commute)
  then show ?thesis
    using built_block [of d "55 - length d" 56 "be_bytes 8 (of_nat (8 * n) :: u64)"] assms
    by (simp add: sub_def tail_of_def)
qed

lemma long_end:
  fixes d :: bytes
  assumes "55 < length d" "length d < 64"
  shows "blit ((blit (replicate 128 0) 0 d) [length d := 0x80]) 120 (be_bytes 8 (of_nat (8 * n) :: u64)) = tail_of n d"
    (is "?b = _")
proof -
  have "length ?b = 128"
    using assms by (simp add: blit_def)
  moreover have "(119 - length d) mod 64 = 119 - length d"
    using assms by simp
  ultimately show ?thesis
    using built_block [of d "119 - length d" 120 "be_bytes 8 (of_nat (8 * n) :: u64)"] assms
    by (simp add: tail_of_def)
qed

lemma two_blocks: "length (t :: bytes) = 128 \<Longrightarrow> chunks 64 t = [sub t 0 64, sub t 64 128]"
  by (subst chunks.simps, subst chunks.simps) (auto simp: sub_def)

lemma one_block: "length (t :: bytes) = 64 \<Longrightarrow> chunks 64 t = [t]"
  by (subst chunks.simps) auto

lemma finish_last:
  assumes "absorbed st m" "length d < 64" "length m + length d < 2 ^ 61"
  shows "raw_finish d st = Ok (sha256_spec (m @ d))"
proof -
  have a: "64 dvd length m" "length (rs_h st) = 8" "rs_h st = fold sha_compress (chunks 64 m) (rs_h raw_new)"
    "rs_byte_count st = of_nat (length m)"
    using assms(1) unfolding absorbed_def by blast+
  define n where "n = length m + length d"
  let ?t = "tail_of n d"
  have c: "checked_count (rs_byte_count st) d = Ok (of_nat n)"
    using checked_count_run [of "length m" d] assms(3) a(4) by (simp only: n_def) simp
  have lim: "\<not> 0x2000000000000000 \<le> (of_nat n :: u64)"
    using assms(3) unat_of_nat64 [of n] unfolding n_def [symmetric] by (simp add: word_le_nat_alt)
  have spec: "sha256_spec (m @ d) = concat (map (be_bytes 4) (fold sha_compress (chunks 64 ?t) (rs_h st)))"
    unfolding sha256_spec_def sha_pad_split [OF a(1) assms(2)] n_def [symmetric] by (simp add: chunks_append_dvd a(1) a(3))
  have out: "concat (map (\<lambda>i. be_bytes 4 (rs_h s ! i)) [0..<8]) = concat (map (be_bytes 4) (rs_h s))" if "length (rs_h s) = 8" for s
    using that by (intro arg_cong [of _ _ concat] nth_equalityI) (simp_all del: upt_Suc)
  have e: "chunks 64 ?t = (if 55 < length d then [sub ?t 0 64, sub ?t 64 128] else [?t])"
    using tail_blocks [OF assms(2), of n] by (simp add: two_blocks one_block not_less)
  show ?thesis
  proof (cases "55 < length d")
    case True
    let ?s = "raw_round (sub ?t 64 128) (raw_round (sub ?t 0 64) st)"
    have "?s = st \<lparr> rs_h := fold sha_compress (chunks 64 ?t) (rs_h st) \<rparr>"
      using True a(2) by (simp add: e raw_round_compress)
    moreover have "raw_finish d st = Ok (concat (map (\<lambda>i. be_bytes 4 (rs_h ?s ! i)) [0..<8]))"
      using True assms(2) c lim long_end [OF True assms(2), of n]
      by (simp add: raw_finish_def BLOCKBYTES_def Let_def count_bits del: upt_Suc)
    ultimately show ?thesis
      using out [of ?s] length_folds [OF a(2)] by (simp add: spec)
  next
    case False
    let ?s = "raw_round ?t st"
    have "?s = st \<lparr> rs_h := fold sha_compress (chunks 64 ?t) (rs_h st) \<rparr>"
      using False a(2) by (simp add: e raw_round_compress)
    moreover have "raw_finish d st = Ok (concat (map (\<lambda>i. be_bytes 4 (rs_h ?s ! i)) [0..<8]))"
      using False assms(2) c lim short_end [of d n]
      by (simp add: raw_finish_def BLOCKBYTES_def Let_def count_bits del: upt_Suc)
    ultimately show ?thesis
      using out [of ?s] length_folds [OF a(2)] by (simp add: spec)
  qed
qed

lemma raw_finish_run:
  assumes "absorbed st m" "length m + length d < 2 ^ 61"
  shows "raw_finish d st = Ok (sha256_spec (m @ d))"
proof (cases "length d < 64")
  case True
  then show ?thesis
    using finish_last [OF assms(1)] assms(2) by simp
next
  case False
  let ?q = "length d - length d mod 64"
  have q: "64 dvd ?q" "length (drop ?q d) = length d mod 64" "length (drop ?q d) < 64"
    using mod_less_eq_dividend [of "length d" 64] by (simp_all add: dvd_minus_mod)
  have "length (take ?q d) = ?q" "?q \<le> length d"
    by simp_all
  then have "64 dvd length (take ?q d)" "length m + length (take ?q d) < 2 ^ 64"
    using q(1) assms(2) by (simp_all only:) simp
  then obtain st' where s: "raw_update (take ?q d) st = Ok st'" "absorbed st' (m @ take ?q d)"
    using raw_update_run [OF assms(1)] by blast
  have "raw_finish d st = raw_finish (drop ?q d) st'"
    using False q(3) s(1) mod_less_divisor [of 64 "length d"]
    by (simp add: raw_finish_def BLOCKBYTES_def Let_def not_le del: upt_Suc mod_less_divisor)
  also have "\<dots> = Ok (sha256_spec ((m @ take ?q d) @ drop ?q d))"
    by (rule finish_last [OF s(2) q(3)]) (use assms(2) in simp)
  finally show ?thesis
    by simp
qed

section \<open>The buffer\<close>

text \<open>What was given so far is in the raw state up to the last whole block, and the rest in the buffer.\<close>

definition buf_inv :: "BufSha256 \<Rightarrow> bytes \<Rightarrow> bool" where
  "buf_inv st m \<longleftrightarrow> length (bs_buf st) = 64 \<and> (\<exists>whole rest. m = whole @ rest \<and> absorbed (bs_inner st) whole
     \<and> length rest < 64 \<and> unat (bs_buffered_bytes st) = length rest \<and> take (length rest) (bs_buf st) = rest)"

lemma buf_inv_new: "buf_inv buf_new []"
  by (simp add: buf_inv_def buf_new_def BLOCKBYTES_def absorbed_new)

lemma unat_small: "n < 2 ^ 32 \<Longrightarrow> unat (of_nat n :: u32) = n"
  by (simp add: unat_of_nat take_bit_nat_def)

lemma buf_rest_run:
  assumes "absorbed (bs_inner st) m" "length (bs_buf st) = 64" "length m + length d < 2 ^ 61"
  shows "\<exists>st'. buf_rest d st = Ok st' \<and> buf_inv st' (m @ d)"
proof -
  let ?q = "length d - length d mod 64"
  have q: "64 dvd ?q" "?q \<le> length d" "length (take ?q d) = ?q" "length (drop ?q d) = length d mod 64" "length d mod 64 < 64"
    using mod_less_eq_dividend [of "length d" 64] by (simp_all add: dvd_minus_mod)
  have "\<exists>inner. (if length d \<ge> BLOCKBYTES then
         let chop = length d - length d mod BLOCKBYTES in
         bind_res (raw_update (take chop d) (bs_inner st)) (\<lambda>inner. Ok (st \<lparr> bs_inner := inner \<rparr>, drop chop d))
       else Ok (st, d)) = Ok (st \<lparr> bs_inner := inner \<rparr>, drop ?q d) \<and> absorbed inner (m @ take ?q d)"
  proof (cases "64 \<le> length d")
    case True
    have "64 dvd length (take ?q d)" "length m + length (take ?q d) < 2 ^ 64"
      using q(1-3) assms(3) by (simp_all only:) simp
    then obtain inner where "raw_update (take ?q d) (bs_inner st) = Ok inner" "absorbed inner (m @ take ?q d)"
      using raw_update_run [OF assms(1)] by blast
    with True show ?thesis
      by (intro exI [of _ inner]) (simp add: BLOCKBYTES_def Let_def)
  next
    case False
    then show ?thesis
      using assms(1) by (intro exI [of _ "bs_inner st"]) (simp add: BLOCKBYTES_def)
  qed
  then obtain inner where i: "buf_rest d st = Ok (st \<lparr> bs_inner := inner, bs_buf := blit (bs_buf st) 0 (drop ?q d),
      bs_buffered_bytes := of_nat (length (drop ?q d)) \<rparr>)" "absorbed inner (m @ take ?q d)"
    unfolding buf_rest_def by auto
  have "m @ d = (m @ take ?q d) @ drop ?q d"
    by simp
  moreover have "length (blit (bs_buf st) 0 (drop ?q d)) = 64" "take (length (drop ?q d)) (blit (bs_buf st) 0 (drop ?q d)) = drop ?q d"
    using q(4,5) assms(2) by (simp_all add: blit_def)
  moreover have "unat (of_nat (length (drop ?q d)) :: u32) = length (drop ?q d)" "length (drop ?q d) < 64"
    unfolding q(4) using q(5) by (simp_all add: unat_small)
  ultimately have "buf_inv (st \<lparr> bs_inner := inner, bs_buf := blit (bs_buf st) 0 (drop ?q d),
      bs_buffered_bytes := of_nat (length (drop ?q d)) \<rparr>) (m @ d)"
    using i(2) unfolding buf_inv_def
    by (intro conjI exI [of _ "m @ take ?q d"] exI [of _ "drop ?q d"]) simp_all
  with i(1) show ?thesis
    by blast
qed

lemma buf_update_run:
  assumes "buf_inv st m" "length m + length d < 2 ^ 61"
  shows "\<exists>st'. buf_update d st = Ok st' \<and> buf_inv st' (m @ d)"
proof -
  obtain whole rest where w: "m = whole @ rest" "absorbed (bs_inner st) whole" "length rest < 64"
    "unat (bs_buffered_bytes st) = length rest" "take (length rest) (bs_buf st) = rest" "length (bs_buf st) = 64"
    using assms(1) unfolding buf_inv_def by blast
  have z: "0 < bs_buffered_bytes st \<longleftrightarrow> rest \<noteq> []"
    using w(4) by (simp add: word_less_nat_alt)
  consider "rest = []" | "rest \<noteq> []" "64 - length rest \<le> length d" | "rest \<noteq> []" "length d < 64 - length rest"
    by linarith
  then show ?thesis
  proof cases
    case 1
    then show ?thesis
      using buf_rest_run [OF w(2,6), of d] w(1) z assms(2) by (simp add: buf_update_def)
  next
    case 2
    let ?r = "64 - length rest"
    let ?buf = "blit (bs_buf st) (length rest) (take ?r d)"
    have b: "?buf = rest @ take ?r d" "length ?buf = 64"
      using w(3,5,6) 2 by (simp_all add: blit_def)
    then obtain inner where i: "raw_update ?buf (bs_inner st) = Ok inner" "absorbed inner (whole @ ?buf)"
      using raw_update_run [OF w(2), of ?buf] assms(2) w(1) by auto
    let ?st = "st \<lparr> bs_buf := ?buf, bs_inner := inner, bs_buffered_bytes := 0 \<rparr>"
    have "buf_update d st = buf_rest (drop ?r d) ?st"
      using 2 z i(1) w(4) by (simp add: buf_update_def BLOCKBYTES_def Let_def)
    moreover have "length (whole @ ?buf) + length (drop ?r d) < 2 ^ 61"
      using assms(2) w(1,3) 2 b(2) by simp
    then obtain st' where "buf_rest (drop ?r d) ?st = Ok st'" "buf_inv st' ((whole @ ?buf) @ drop ?r d)"
      using buf_rest_run [of ?st "whole @ ?buf" "drop ?r d"] i(2) b(2) by auto
    moreover have "(whole @ ?buf) @ drop ?r d = m @ d"
      unfolding b(1) w(1) by simp
    ultimately show ?thesis
      by auto
  next
    case 3
    let ?buf = "blit (bs_buf st) (length rest) d"
    let ?st = "st \<lparr> bs_buf := ?buf, bs_buffered_bytes := bs_buffered_bytes st + of_nat (length d) \<rparr>"
    have "buf_update d st = Ok ?st"
      using 3 z w(4) by (simp add: buf_update_def BLOCKBYTES_def Let_def)
    moreover have "length ?buf = 64" "take (length (rest @ d)) ?buf = rest @ d"
      using 3 w(5,6) by (simp_all add: blit_def)
    moreover have "bs_buffered_bytes st = of_nat (length rest)"
      by (simp flip: w(4))
    then have "bs_buffered_bytes st + of_nat (length d) = of_nat (length (rest @ d))"
      by simp
    moreover have "unat (of_nat (length (rest @ d)) :: u32) = length (rest @ d)"
      using 3 by (intro unat_small) simp
    ultimately show ?thesis
      using w(1,2) 3 unfolding buf_inv_def
      by (intro exI [of _ ?st] conjI exI [of _ whole] exI [of _ "rest @ d"]) simp_all
  qed
qed

lemma buf_updates_run:
  assumes "buf_inv st m" "length m + length (concat ps) < 2 ^ 61"
  shows "\<exists>st'. fold_res buf_update ps st = Ok st' \<and> buf_inv st' (m @ concat ps)"
  using assms
proof (induction ps arbitrary: st m)
  case (Cons p ps)
  obtain st1 where "buf_update p st = Ok st1" "buf_inv st1 (m @ p)"
    using buf_update_run [OF Cons.prems(1), of p] Cons.prems(2) by auto
  then show ?case
    using Cons.IH [of st1 "m @ p"] Cons.prems(2) by auto
qed simp

text \<open>
  C40: SHA-256 by pieces is SHA-256. However a message of less than \<open>2^61\<close> bytes
  is cut into pieces, empty ones and ones of any length included, giving them one
  after the other to the buffered state and the last to its finish yields the
  hash that the standard defines by padding, message schedule and compression;
  hashing the whole message at once yields the same.
\<close>

theorem sha256_by_pieces:
  assumes "length (concat pieces @ final) < 2 ^ 61"
  shows "bind_res (fold_res buf_update pieces buf_new) (buf_finish final) = Ok (sha256_spec (concat pieces @ final))
    \<and> sha256_hash (concat pieces @ final) = Ok (sha256_spec (concat pieces @ final))"
proof
  obtain st where s: "fold_res buf_update pieces buf_new = Ok st" "buf_inv st (concat pieces)"
    using buf_updates_run [OF buf_inv_new, of pieces] assms by auto
  obtain st' where f: "(if length final \<noteq> 0 then buf_update final st else Ok st) = Ok st'" "buf_inv st' (concat pieces @ final)"
    using buf_update_run [OF s(2), of final] assms s(2) by (cases "length final \<noteq> 0") auto
  obtain whole rest where w: "concat pieces @ final = whole @ rest" "absorbed (bs_inner st') whole"
    "unat (bs_buffered_bytes st') = length rest" "take (length rest) (bs_buf st') = rest"
    using f(2) unfolding buf_inv_def by blast
  have "length whole + length rest < 2 ^ 61"
    using assms unfolding w(1) by simp
  from raw_finish_run [OF w(2) this]
  show "bind_res (fold_res buf_update pieces buf_new) (buf_finish final) = Ok (sha256_spec (concat pieces @ final))"
    unfolding buf_finish_def s(1) bind_res.simps f(1) w(3,4) by (simp only: w(1))
  show "sha256_hash (concat pieces @ final) = Ok (sha256_spec (concat pieces @ final))"
    using raw_finish_run [OF absorbed_new, of "concat pieces @ final"] assms by (simp add: sha256_hash_def)
qed

theorem sha256_by_pieces_witness:
  "bind_res (fold_res buf_update [[0x61], [], [0x62]] buf_new) (buf_finish [0x63]) = sha256_hash [0x61, 0x62, 0x63]"
  using sha256_by_pieces [of "[[0x61], [], [0x62]]" "[0x63]"] by simp

section \<open>The standard's example\<close>

text \<open>The hash of \<open>abc\<close>, one block: its schedule, the working variables half way and at the end.\<close>

definition abc_block :: bytes where
  "abc_block = [0x61, 0x62, 0x63, 0x80] @ replicate 59 0 @ [24]"

definition abc_words :: "u32 list" where
  "abc_words = [0x61626380, 0x0, 0x0, 0x0, 0x0, 0x0, 0x0, 0x0, 0x0, 0x0,
      0x0, 0x0, 0x0, 0x0, 0x0, 0x18, 0x61626380, 0xf0000, 0x7da86405, 0x600003c6,
      0x3e9d7b78, 0x183fc00, 0x12dcbfdb, 0xe2e2c38e, 0xc8215c1a, 0xb73679a2, 0xe5bc3909, 0x32663c5b, 0x9d209d67, 0xec8726cb,
      0x702138a4, 0xd3b7973b, 0x93f5997f, 0x3b68ba73, 0xaff4ffc1, 0xf10a5c62, 0xa8b3996, 0x72af830a, 0x9409e33e, 0x24641522,
      0x9f47bf94, 0xf0a64f5a, 0x3e246a79, 0x27333ba3, 0xc4763f2, 0x840abf27, 0x7a290d5d, 0x65c43da, 0xfb3e89cb, 0xcc7617db,
      0xb9e66c34, 0xa9993667, 0x84badedd, 0xc21462bc, 0x1487472c, 0xb20f7a99, 0xef57b9cd, 0xebe6b238, 0x9fe3095e, 0x78bc8d4b,
      0xa43fcf15, 0x668b2ff8, 0xeeaba2cc, 0x12b1edeb]"

lemma abc_schedule_low:
  "fold extend_word [16..<40] (fold (load_word abc_block) [0..<16] (replicate 64 0)) = take 40 abc_words @ replicate 24 0"
  by code_simp

lemma abc_schedule_high: "fold extend_word [40..<64] (take 40 abc_words @ replicate 24 0) = abc_words"
  by code_simp

lemma abc_work_low:
  "fold (work_step abc_words) [0..<32] (0x6a09e667, 0xbb67ae85, 0x3c6ef372, 0xa54ff53a, 0x510e527f, 0x9b05688c, 0x1f83d9ab, 0x5be0cd19) =
     (0x73b33bf5, 0xea992a22, 0xa0060b30, 0x363482c9, 0xba591112, 0x109ab3a, 0xade79437, 0x6112a3b7)"
  by code_simp

lemma abc_work_high:
  "fold (work_step abc_words) [32..<64] (0x73b33bf5, 0xea992a22, 0xa0060b30, 0x363482c9, 0xba591112, 0x109ab3a, 0xade79437, 0x6112a3b7) =
     (0x506e3058, 0xd39a2165, 0x4d24d6c, 0xb85e2ce9, 0x5ef50f24, 0xfb121210, 0x948d25b6, 0x961f4894)"
  by code_simp

lemma fold_upt_split: "a \<le> b \<Longrightarrow> b \<le> c \<Longrightarrow> fold f [a..<c] x = fold f [b..<c] (fold f [a..<b] x)"
  using upt_add_eq_append [of a b "c - b"] by simp

lemma abc_schedule: "fold extend_word [16..<64] (fold (load_word abc_block) [0..<16] (replicate 64 0)) = abc_words"
proof -
  have "16 \<le> (40 :: nat)" "40 \<le> (64 :: nat)"
    by simp_all
  note split = fold_upt_split [OF this]
  show ?thesis
    by (simp only: split abc_schedule_low abc_schedule_high)
qed

lemma abc_work: "fold (work_step abc_words) [0..<64] (0x6a09e667, 0xbb67ae85, 0x3c6ef372, 0xa54ff53a, 0x510e527f, 0x9b05688c, 0x1f83d9ab, 0x5be0cd19) =
     (0x506e3058, 0xd39a2165, 0x4d24d6c, 0xb85e2ce9, 0x5ef50f24, 0xfb121210, 0x948d25b6, 0x961f4894)"
proof -
  have "0 \<le> (32 :: nat)" "32 \<le> (64 :: nat)"
    by simp_all
  note split = fold_upt_split [OF this]
  show ?thesis
    by (simp only: split abc_work_low abc_work_high)
qed

lemma abc_round:
  "rs_h (raw_round abc_block raw_new) = [0xba7816bf, 0x8f01cfea, 0x414140de, 0x5dae2223, 0xb00361a3, 0x96177a9c, 0xb410ff61, 0xf20015ad]"
proof -
  have "(rs_h raw_new ! 0, rs_h raw_new ! 1, rs_h raw_new ! 2, rs_h raw_new ! 3, rs_h raw_new ! 4, rs_h raw_new ! 5,
      rs_h raw_new ! 6, rs_h raw_new ! 7) = (0x6a09e667, 0xbb67ae85, 0x3c6ef372, 0xa54ff53a, 0x510e527f, 0x9b05688c, 0x1f83d9ab, 0x5be0cd19)"
    by (simp add: raw_new_def)
  then show ?thesis
    unfolding raw_round_def Let_def abc_schedule by (simp only: abc_work prod.case) (simp add: raw_new_def)
qed

lemma sha256_abc:
  "sha256_hash [0x61, 0x62, 0x63] = Ok
     [0xba, 0x78, 0x16, 0xbf, 0x8f, 0x01, 0xcf, 0xea, 0x41, 0x41, 0x40, 0xde, 0x5d, 0xae, 0x22, 0x23,
      0xb0, 0x03, 0x61, 0xa3, 0x96, 0x17, 0x7a, 0x9c, 0xb4, 0x10, 0xff, 0x61, 0xf2, 0x00, 0x15, 0xad]"
proof -
  have "tail_of 3 [0x61, 0x62, 0x63] = abc_block"
    by code_simp
  then have b: "sub (blit ((blit (replicate 128 0) 0 [0x61, 0x62, 0x63]) [length [0x61 :: u8, 0x62, 0x63] := 0x80]) 56 (be_bytes 8 (24 :: u64))) 0 64 = abc_block"
    using short_end [of "[0x61, 0x62, 0x63]" 3] by simp
  have c: "checked_count (rs_byte_count raw_new) [0x61, 0x62, 0x63] = Ok 3"
    by (simp add: checked_count_def raw_new_def)
  have "raw_finish [0x61, 0x62, 0x63] raw_new = Ok (concat (map (\<lambda>i. be_bytes 4 (rs_h (raw_round abc_block raw_new) ! i)) [0..<8]))"
    using b c by (simp add: raw_finish_def BLOCKBYTES_def Let_def)
  moreover have "concat (map (\<lambda>i. be_bytes 4 ([0xba7816bf, 0x8f01cfea, 0x414140de, 0x5dae2223, 0xb00361a3, 0x96177a9c, 0xb410ff61, 0xf20015ad] ! i :: u32)) [0..<8]) =
    [0xba, 0x78, 0x16, 0xbf, 0x8f, 0x01, 0xcf, 0xea, 0x41, 0x41, 0x40, 0xde, 0x5d, 0xae, 0x22, 0x23,
      0xb0, 0x03, 0x61, 0xa3, 0x96, 0x17, 0x7a, 0x9c, 0xb4, 0x10, 0xff, 0x61, 0xf2, 0x00, 0x15, 0xad]"
    by code_simp
  ultimately show ?thesis
    by (simp only: sha256_hash_def abc_round)
qed

end
