(* ===== verification/Spec2Isabelle.thy ===== *)
theory Spec2Isabelle
  imports KernelCipher Volume RestoreVol IrpQueue DriverDispatch VolRequests ToolDriver Bench Sha256Lsx
begin

text \<open>
  Verification of oxhide, a VeraCrypt-compatible disk encryption suite in Rust:
  libraries for ciphers and volumes, a Windows kernel driver and a command-line
  tool. The theories follow the crates, and within a theory the definitions follow
  the source file; this theory holds the properties that span components.

  \<^bold>\<open>The program.\<close> \<open>vcrypt-core\<close> has the block ciphers, cascades, XTS, hashes and key
  derivation. \<open>vcrypt-format\<close> has the 512-byte volume header, its encryption and
  keyfiles. \<open>vcrypt-volume\<close> creates, opens, changes and restores volumes in files and
  reads and writes their sectors. \<open>vcrypt-driver-core\<close> has the driver's algorithms
  that need no kernel, \<open>vcrypt-driver\<close> the driver: a root device that takes the tool's
  control requests, a table of 26 mounted volumes, a worker thread with a request
  queue for each, and the handlers of reads, writes and control requests.
  \<open>vcrypt-cli\<close> is the tool, which calls the volume library directly and talks to
  the driver by control requests with packed structures.

  \<^bold>\<open>Theories.\<close>
  \<^item> \<open>Prelude\<close>: words, results with errors and panics, slices, byte codecs, decimal
    printing, and the locale \<open>field_codec\<close> of fixed-width fields.
  \<^item> \<open>CryptoLib\<close>: the third-party crates as a record of functions \<open>crypto_lib\<close>, what
    the code relies on as \<open>lib_ok\<close>, and an instance \<open>toy_lib\<close> for the witnesses.
  \<^item> \<open>Twofish_Tables\<close>, \<open>Twofish\<close>, \<open>Sha256Lsx\<close>: the vendored \<open>lsx\<close> Twofish and SHA-256. \<open>Ciphers\<close>: the trait
    \<open>BlockCipher\<close> as a record of operations with the locale \<open>block_cipher\<close>, the
    wrappers, the cipher table (an instance of class \<open>enum\<close>). \<open>Cascade\<close>: \<open>cascade.rs\<close>.
  \<^item> \<open>Xts\<close>: \<open>xts/mod.rs\<close>, all three paths, generic in the cipher.
  \<^item> \<open>SectorSpec\<close>: the abstract specification of sector encryption, a list of XTS
    passes, and the locale \<open>sector_cipher\<close>. \<open>KernelCipher\<close> (\<open>kernel.rs\<close>) and
    \<open>VolSectorCipher\<close> (\<open>sector_cipher.rs\<close>) implement it.
  \<^item> \<open>Hashes\<close>, \<open>Kdf\<close>: hash wrappers, PIM formulas, PBKDF2 over BLAKE2s.
  \<^item> \<open>VolumeErrors\<close>, \<open>Header\<close>, \<open>HeaderCrypt\<close>, \<open>Keyfile\<close>: \<open>vcrypt-format\<close> and \<open>rng.rs\<close>.
  \<^item> \<open>OpenVol\<close>, \<open>FileIO\<close>, \<open>CreateVol\<close>, \<open>ChangeVol\<close>, \<open>RestoreVol\<close>, \<open>VolumeIO\<close>, \<open>Volume\<close>:
    \<open>layout.rs\<close>, \<open>config.rs\<close>, \<open>open.rs\<close>, \<open>create.rs\<close>, \<open>change.rs\<close>, \<open>restore.rs\<close>, \<open>io.rs\<close>
    and \<open>volume.rs\<close>. \<open>FileIO\<close> is the file: bytes, position, a budget of operations
    after which they fail, and how much of a failing write is kept.
  \<^item> \<open>SectorIo\<close>: \<open>vcrypt-driver-core\<close>. \<open>DiskView\<close>: the plaintext disk behind an
    encrypted file, the abstraction for the driver's reads and writes.
  \<^item> \<open>DriverBase\<close>, \<open>DriverDebug\<close>, \<open>IrpQueue\<close>, \<open>MountWire\<close>, \<open>NtVol\<close>, \<open>MountMgr\<close>,
    \<open>VolThread\<close>, \<open>MountTable\<close>, \<open>DriverDispatch\<close>, \<open>VolIoctl\<close>, \<open>VolRequests\<close>: the driver,
    in the order request packets and names, \<open>debug.rs\<close>, \<open>encrypted_io_queue.rs\<close>,
    \<open>types.rs\<close> and \<open>kernel_ioctl.rs\<close>, \<open>ntvol.rs\<close>, \<open>mount_mgr.rs\<close>, \<open>volume_thread.rs\<close>,
    \<open>mount.rs\<close>, \<open>driver.rs\<close> and \<open>device.rs\<close>, \<open>volume_ioctl.rs\<close>, and the request queue
    as a concurrent system.
  \<^item> \<open>Cli\<close> (\<open>main.rs\<close>), \<open>Bench\<close> (\<open>bench.rs\<close>), \<open>ToolDriver\<close>: the tool, its benchmark,
    and its mount and unmount requests in the driver.

  \<^bold>\<open>How code becomes definitions.\<close> A fallible function returns \<open>('e, 'a) res\<close>: \<open>Ok\<close>,
  \<open>Err\<close> or \<open>Panic\<close>, where \<open>Panic\<close> is a Rust panic or a fault in the kernel; a
  stateful one maps a state to a result and a state (\<open>sm\<close>), with \<open>bindS\<close> for
  sequencing. Integers have their width; sums wrap as in a release build, except
  where the code checks or saturates. Buffers are lists of bytes, packed
  structures byte lists with computed offsets. The state of an open volume is the
  record \<open>OpenVolume\<close>, of the driver \<open>driver\<close> (drive table, root device, last volume
  number, kernel), of a volume's thread \<open>worker\<close>, of the tool \<open>console\<close>.
  Interleavings are the step relations \<open>vol_step\<close>, \<open>drv_reach\<close> and \<open>own_step\<close>.

  \<^bold>\<open>What the lemmas show.\<close> Upwards from the ciphers: every cipher meets its contract;
  XTS equals the textbook mode, inverts and has three equal implementations; kernel
  and user-mode cipher refine one specification and hence agree. Headers round-trip,
  and what parsing accepts is characterised exactly. Opening a file is sound and complete with respect to what
  its header slots hold; what is created opens, normal or hidden, also from the
  backup header; a password change survives a failure at any point; hidden-volume
  protection is an invariant. The driver's handlers complete each packet once and
  read and write the virtual disk that user mode sees; its table of volumes and
  its open handles stay consistent in every reachable state; the request queue
  loses nothing and comes to rest. The tool's commands compose these; its mount
  and unmount requests are followed into the driver, for any printing routine and
  for the one it has. Several
  theorems state defects: the data area over the backup headers, the displaced
  mount request, the panicking status printer that keeps every volume from being
  mounted, the partial write that corrupts, the requests stranded by a stop.

  \<^bold>\<open>Locales.\<close> \<open>field_codec\<close> is interpreted on the codecs of 16, 32 and 64 bits,
  \<open>block_cipher\<close> on Twofish outright, and on the crates' ciphers as facts under
  \<open>lib_ok\<close>; \<open>sector_cipher\<close> on the kernel's Twofish dispatcher, and under \<open>lib_ok\<close> on
  every cipher of both modes (\<open>kernel_sector_cipher\<close>, \<open>obj_sector_cipher\<close>).

  \<^bold>\<open>Parameters and bounds.\<close> Code outside \<open>src\<close> is a parameter: the crates (\<open>lib_ok\<close>:
  lengths, and that decryption inverts encryption), the operating system's files
  and random source, the kernel's routines (\<open>mount_kernel\<close>; \<open>handles_ok\<close> says that
  opening gives a fresh handle and closing removes it), the debug printer \<open>dbg\<close>
  where a theorem does not say \<open>kdbg_status\<close> (the driver's own, which always panics:
  with it no volume is ever mounted, so what is shown of mounted volumes is shown
  of the driver with a printing routine that works), and the clock. The loops are recursions
  that end: over lists and blocks, over the 26 rounds of unmounting all, over the
  list of clock readings in the benchmark; \<open>scan_len\<close> of \<open>DriverDebug\<close> counts down the
  20 positions its loop condition allows. That the request queue comes to rest is
  a theorem over its step relation.

  \<^bold>\<open>Not modelled.\<close> The parser of command lines (a library) and logging; the
  benchmark's floating-point rates, and its hash part, which counts calls; the
  declarations of kernel routines in \<open>wdk_bindings.rs\<close> and the vendored \<open>wdk-sys\<close>; the
  types of the asynchronous engine of \<open>encrypted_io_queue.rs\<close>, which no code uses;
  \<open>io_queue.rs\<close> and \<open>volume.rs\<close> of the driver, which are not part of its crate; the
  crates \<open>test-wdm\<close> and \<open>test-wdm-runner\<close>, test doubles and harnesses. Timing side
  channels and the zeroing of secrets are out of scope. Simplified: the alignment
  of pointer accesses (\<open>multiply_tweak\<close> computes on the value); references to file
  objects, which the accounting of handles does not count; requests to the root
  device that overlap in time, for \<open>drv_reach\<close> takes them one after the other and
  ends at a fault; and stopping a volume thread, where setting the flag and
  releasing the semaphore are one step (\<open>ask_to_quit\<close>).
\<close>

section \<open>Kernel mode and user mode encrypt alike\<close>

text \<open>
  C5: The kernel dispatcher and the user-mode sector cipher built from the same
  cipher type and key agree on every 512-byte sector, in both directions: a
  volume written by one is read by the other.
\<close>

theorem kernel_and_user_mode_agree:
  assumes "lib_ok L" "kernel_new L ct key = Ok k" "create_sector_cipher L ct key = Ok u" "length data = 512"
  shows "ok_of (kernel_encrypt_sector L k i data) = ok_of (obj_encrypt_sector L u i data)
    \<and> ok_of (kernel_decrypt_sector L k i data) = ok_of (obj_decrypt_sector L u i data)
    \<and> is_ok (kernel_encrypt_sector L k i data)"
proof -
  have len: "length key = 2 * ct_key_size ct"
    using assms(2) kernel_new_bad_key [of key ct L] by fastforce
  have "16 dvd length data" "data \<noteq> []"
    using assms(4) by auto
  then show ?thesis
    using kernel_new_refines [OF assms(1) len] create_sector_cipher_refines [OF assms(1) len] assms(2-4)
    by (auto simp: kernel_refines_def obj_refines_def sector_E_def sector_D_def)
qed

theorem kernel_and_user_mode_agree_witness:
  "\<exists>k u. kernel_new toy_lib AesTwofish (replicate 128 1) = Ok k
     \<and> create_sector_cipher toy_lib AesTwofish (replicate 128 1) = Ok u
     \<and> ok_of (kernel_encrypt_sector toy_lib k 9 (replicate 512 4)) = ok_of (obj_encrypt_sector toy_lib u 9 (replicate 512 4))"
proof -
  obtain k u where ku: "kernel_new toy_lib AesTwofish (replicate 128 1) = Ok k"
    "create_sector_cipher toy_lib AesTwofish (replicate 128 1) = Ok u"
    using kernel_new_refines [OF toy_lib_ok, of "replicate 128 1" AesTwofish]
      create_sector_cipher_refines [OF toy_lib_ok, of "replicate 128 1" AesTwofish] by auto
  have "length (replicate 512 (4 :: u8)) = 512"
    by simp
  then show ?thesis
    using kernel_and_user_mode_agree [OF toy_lib_ok ku] ku by blast
qed

section \<open>The life of a volume\<close>

text \<open>A host whose file holds \<open>data\<close> and does not fail.\<close>

definition host_of :: "bytes \<Rightarrow> host" where
  "host_of data = \<lparr> h_read = (\<lambda>p. Inr data),
     h_open = (\<lambda>w p. Inr \<lparr> f_bytes = data, f_pos = 0, f_budget = None, f_short = 0, f_err = [] \<rparr>) \<rparr>"

lemma open_vol_host:
  assumes "lib_ok L" "open_volume_file_with_kdf L (\<lambda>p. Inr data) path password [] alg pim = Ok r"
    "length (or_master_key r) = 2 * ct_key_size (or_data_cipher r)"
  shows "\<exists>v. open_vol L (host_of data) path password [] (Some alg) (Some pim) = Ok v \<and> ov_inner v = r
    \<and> f_bytes (ov_file v) = data \<and> reliable (ov_file v) \<and> vol_ok L v
    \<and> (\<forall>s buf. writes_allowed v s buf \<longleftrightarrow> length buf mod 512 = 0)
    \<and> create_sector_cipher L (or_data_cipher r) (or_master_key r) = Ok (ov_cipher v)"
proof -
  obtain c where c: "create_sector_cipher L (or_data_cipher r) (or_master_key r) = Ok c"
    using create_sector_cipher_refines [OF assms(1,3)] by blast
  let ?v = "\<lparr> ov_inner = r, ov_file = \<lparr> f_bytes = data, f_pos = 0, f_budget = None, f_short = 0, f_err = [] \<rparr>,
    ov_cipher = c, ov_read_only = False, ov_protected_range = None, ov_hidden_protection_triggered = False \<rparr>"
  have "open_vol L (host_of data) path password [] (Some alg) (Some pim) = Ok ?v"
    using assms(2) c by (simp add: open_vol_def open_header_def open_handle_def host_of_def)
  moreover have "vol_ok L ?v"
    by (rule vol_okI [OF assms(1), of "or_data_cipher r" "or_master_key r"]) (simp add: c)
  ultimately show ?thesis
    using c by (intro exI [of _ ?v]) (simp add: reliable_def writes_allowed_def check_protected_range_def)
qed

lemma volume_read_files:
  assumes "reliable (ov_file v)" "reliable (ov_file v')" "f_bytes (ov_file v) = f_bytes (ov_file v')"
    "ov_cipher v = ov_cipher v'" "ov_inner v = ov_inner v'" "n mod 512 = 0"
    "unat (host_pos (or_data_offset (ov_inner v)) s) + n \<le> length (f_bytes (ov_file v))"
  shows "fst (volume_read L s n v) = fst (volume_read L s n v')"
  using assms by (simp add: volume_read_def fileV_parts read_sectors_run)

text \<open>
  C16: A volume lives through its whole cycle. Create it; open it with the same
  credentials; write any whole sectors that fit into the file; close it and
  open it again: reading the sectors gives back what was written.
\<close>

theorem volume_life_cycle:
  assumes "lib_ok L" "reliable (w_file w)" "f_pos (w_file w) = 0" "262144 \<le> length (f_bytes (w_file w))"
    "rng_for_creation ct (w_rng w) salt key"
    "derive L (kc_implementation (make_kdf_candidate alg pim)) password salt
       (kc_iterations (make_kdf_candidate alg pim)) (replicate 192 0) = Ok max_key"
    "262144 + unat s * 512 + length buf \<le> length (f_bytes (w_file w))" "length (f_bytes (w_file w)) < 2 ^ 64"
    "length buf mod 512 = 0" "buf \<noteq> []"
  defines "kc \<equiv> make_kdf_candidate alg pim"
  shows "\<exists>w'. create_volume_full L volume_size password ct (kc_implementation kc) (kc_iterations kc) progress w = (Ok (), w')
    \<and> (no_earlier_cipher L (f_bytes (w_file w')) password kc ct \<longrightarrow>
      (\<exists>v v1 v2. open_vol L (host_of (f_bytes (w_file w'))) path password [] (Some alg) (Some pim) = Ok v
        \<and> volume_write L s buf v = (Ok (), v1)
        \<and> open_vol L (host_of (f_bytes (ov_file v1))) path password [] (Some alg) (Some pim) = Ok v2
        \<and> fst (volume_read L s (length buf) v2) = Ok buf))"
proof -
  obtain w' :: world where
    c: "create_volume_full L volume_size password ct (kc_implementation kc) (kc_iterations kc) progress w = (Ok (), w')"
    and l: "length (f_bytes (w_file w')) = length (f_bytes (w_file w))"
    and o: "sub (f_bytes (w_file w')) 0 (0 + 64) = salt"
      "opens_at L (f_bytes (w_file w')) password [kc] 0 kc ct (stored_form L (created_header volume_size salt key))"
    using create_opens [OF assms(1-6), where volume_size = volume_size and progress = progress]
    unfolding kc_def by blast
  let ?data = "f_bytes (w_file w')" and ?h = "stored_form L (created_header volume_size salt key)"
  let ?r = "open_result ct ?h salt kc False"
  have new: "is_new_volume ct salt key volume_size ?r" "length key = 2 * ct_key_size ct"
    using assms(5) by (simp_all add: created_result rng_for_creation_def)
  have open_it: "open_volume_file_with_kdf L (\<lambda>p. Inr d) path password [] alg pim = Ok ?r"
    if "take 512 d = take 512 ?data" "length d = length ?data" "no_earlier_cipher L ?data password kc ct" for d
  proof -
    have "opens_first L d password kc ct ?h"
      using o(2) that kdf_opens_take [OF that(1)]
      by (auto simp: opens_first_def no_earlier_cipher_def opens_at_def)
    moreover have "take 64 d = salt"
      using arg_cong [OF that(1), of "take 64"] o(1) by (simp add: sub_def)
    ultimately show ?thesis
      using open_primary [OF assms(1), of "\<lambda>p. Inr d" path d password "[]" password alg pim ct ?h] that(2) l assms(4)
      by (simp add: mix_password_def kc_def)
  qed
  have "\<exists>v v1 v2. open_vol L (host_of ?data) path password [] (Some alg) (Some pim) = Ok v
        \<and> volume_write L s buf v = (Ok (), v1)
        \<and> open_vol L (host_of (f_bytes (ov_file v1))) path password [] (Some alg) (Some pim) = Ok v2
        \<and> fst (volume_read L s (length buf) v2) = Ok buf"
    if ne: "no_earlier_cipher L ?data password kc ct"
  proof -
    have k: "length (or_master_key ?r) = 2 * ct_key_size (or_data_cipher ?r)" "or_data_offset ?r = 262144"
      using new by (simp_all add: is_new_volume_def)
    obtain v where v: "open_vol L (host_of ?data) path password [] (Some alg) (Some pim) = Ok v" "ov_inner v = ?r"
      "f_bytes (ov_file v) = ?data" "reliable (ov_file v)" "vol_ok L v"
      "\<forall>s buf. writes_allowed v s buf \<longleftrightarrow> length buf mod 512 = 0"
      "create_sector_cipher L (or_data_cipher ?r) (or_master_key ?r) = Ok (ov_cipher v)"
      using open_vol_host [OF assms(1) open_it [OF refl refl ne] k(1)] by (elim exE conjE)
    have al: "writes_allowed v s buf"
      using v(6) assms(9) by simp
    have pos: "unat (host_pos (or_data_offset (ov_inner v)) s) = 262144 + unat s * 512"
    proof -
      have "unat (s * 512) = unat s * 512"
        using assms(7,8) by (subst unat_times64) simp_all
      then show ?thesis
        using assms(7,8) k(2) unfolding v(2) host_pos_def DATA_UNIT_SIZE_def by (subst unat_plus64) simp_all
    qed
    have fits: "unat (host_pos (or_data_offset (ov_inner v)) s) + length buf \<le> length (f_bytes (ov_file v))"
      using pos assms(7) l v(3) by simp
    obtain f' where f': "volume_write L s buf v = (Ok (), v \<lparr> ov_file := f' \<rparr>)" "reliable f'"
      "length (f_bytes f') = length (f_bytes (ov_file v))"
      "fst (volume_read L s (length buf) (v \<lparr> ov_file := f' \<rparr>)) = Ok buf"
      "\<forall>a b. b \<le> unat (host_pos (or_data_offset (ov_inner v)) s) \<or>
          unat (host_pos (or_data_offset (ov_inner v)) s) + length buf \<le> a \<longrightarrow>
        sub (f_bytes f') a b = sub (f_bytes (ov_file v)) a b"
      using volume_rw [OF assms(1) v(5,4) al assms(10) fits] by blast
    let ?v1 = "v \<lparr> ov_file := f' \<rparr>"
    have "take 512 (f_bytes f') = take 512 ?data"
      using f'(5) [rule_format, of 512 0] pos v(3) by (simp add: sub_def)
    note o2 = open_it [OF this f'(3) [unfolded v(3)] ne]
    obtain v2 where v2: "open_vol L (host_of (f_bytes f')) path password [] (Some alg) (Some pim) = Ok v2"
      "ov_inner v2 = ?r" "f_bytes (ov_file v2) = f_bytes f'" "reliable (ov_file v2)"
      "create_sector_cipher L (or_data_cipher ?r) (or_master_key ?r) = Ok (ov_cipher v2)"
      using open_vol_host [OF assms(1) o2 k(1)] by (elim exE conjE)
    have "fst (volume_read L s (length buf) v2) = fst (volume_read L s (length buf) ?v1)"
      using v2 v f' fits assms(9) by (intro volume_read_files) simp_all
    then show ?thesis
      using v(1) f'(1,4) v2(1) by (intro exI [of _ v] exI [of _ ?v1] exI [of _ v2]) simp
  qed
  then show ?thesis
    using c by blast
qed

theorem volume_life_cycle_witness:
  "\<exists>w' v v1 v2. create_volume_full toy_lib 512 [1] Aes (kc_implementation (make_kdf_candidate Pbkdf2Sha256 0))
      (kc_iterations (make_kdf_candidate Pbkdf2Sha256 0)) False (toy_world 262656) = (Ok (), w')
    \<and> open_vol toy_lib (host_of (f_bytes (w_file w'))) ''v'' [1] [] (Some Pbkdf2Sha256) (Some 0) = Ok v
    \<and> volume_write toy_lib 0 (replicate 512 171) v = (Ok (), v1)
    \<and> open_vol toy_lib (host_of (f_bytes (ov_file v1))) ''v'' [1] [] (Some Pbkdf2Sha256) (Some 0) = Ok v2
    \<and> fst (volume_read toy_lib 0 512 v2) = Ok (replicate 512 171)"
proof -
  let ?kc = "make_kdf_candidate Pbkdf2Sha256 0"
  obtain max_key where d: "derive toy_lib (kc_implementation ?kc) [1] (replicate 64 7) (kc_iterations ?kc) (replicate 192 0) = Ok max_key"
    using toy_derive by blast
  have n: "length (f_bytes (w_file (toy_world 262656))) = 262656"
    unfolding toy_world_ok(3) by simp
  have b: "262144 \<le> length (f_bytes (w_file (toy_world 262656)))"
    "262144 + unat (0 :: u64) * 512 + length (replicate 512 (171 :: u8)) \<le> length (f_bytes (w_file (toy_world 262656)))"
    "length (f_bytes (w_file (toy_world 262656))) < 2 ^ 64" "length (replicate 512 (171 :: u8)) mod 512 = 0"
    "replicate 512 (171 :: u8) \<noteq> []"
    unfolding n by simp_all
  have k: "rng_for_creation Aes (w_rng (toy_world 262656)) (replicate 64 7) (replicate 64 7)"
    using toy_world_ok(4) [of Aes] by simp
  have na: "no_earlier_cipher toy_lib x [1] ?kc Aes" for x
    by (simp add: no_earlier_cipher_def all_supported_def)
  show ?thesis
    using volume_life_cycle [OF toy_lib_ok toy_world_ok(1,2) b(1) k d b(2-5), where volume_size = 512 and progress = False
        and path = "''v''"] na by auto
qed

section \<open>One disk\<close>

lemma each_sector_single: "length d = 512 \<Longrightarrow> f i d = Ok c \<Longrightarrow> length c = 512 \<Longrightarrow> each_sector f i 1 d = Ok c"
  using each_sector_run [of 1 f i d "\<lambda>_. c"] by (simp add: sector_of_def sub_def)

text \<open>\<open>same_volume\<close>: a volume open in user mode and an extension of the driver over the same container and key.\<close>

definition same_volume ::
  "crypto_lib \<Rightarrow> CipherType \<Rightarrow> bytes \<Rightarrow> KernelSectorCipher \<Rightarrow> Extension \<Rightarrow> OpenVolume \<Rightarrow> bool" where
  "same_volume L ct key k ext v \<longleftrightarrow> lib_ok L \<and> kernel_new L ct key = Ok k \<and> create_sector_cipher L ct key = Ok (ov_cipher v)
     \<and> vol_data_area_offset ext = or_data_offset (ov_inner v) \<and> first_data_unit_no ext = 0
     \<and> volume_fits ext (f_bytes (ov_file v)) \<and> reliable (ov_file v)"

lemma same_volume_ciphers:
  assumes "same_volume L ct key k ext v" "length d = 512"
  shows "kernel_encrypt_sector L k i d = Ok (sector_E L ct key i d)"
    "kernel_decrypt_sector L k i d = Ok (sector_D L ct key i d)"
    "obj_encrypt_sector L (ov_cipher v) i d = Ok (sector_E L ct key i d)"
    "obj_decrypt_sector L (ov_cipher v) i d = Ok (sector_D L ct key i d)"
    "length (sector_E L ct key i d) = 512"
proof -
  note v = assms(1) [unfolded same_volume_def]
  have len: "length key = 2 * ct_key_size ct"
    using v kernel_new_bad_key [of key ct L] by fastforce
  have "16 dvd length d" "d \<noteq> []"
    using assms(2) by auto
  then show "kernel_encrypt_sector L k i d = Ok (sector_E L ct key i d)"
    "kernel_decrypt_sector L k i d = Ok (sector_D L ct key i d)"
    "obj_encrypt_sector L (ov_cipher v) i d = Ok (sector_E L ct key i d)"
    "obj_decrypt_sector L (ov_cipher v) i d = Ok (sector_D L ct key i d)"
    using kernel_new_refines [of L key ct] create_sector_cipher_refines [of L key ct] len v assms(2)
    by (auto simp: kernel_refines_def obj_refines_def sector_E_def sector_D_def)
  show "length (sector_E L ct key i d) = 512"
    using sector_length(1) [of L key ct d] v len assms(2) by simp
qed

lemma same_volume_sector_cipher:
  assumes "same_volume L ct key k ext v"
  shows "sector_cipher (kernel_encrypt_sector L k) (kernel_decrypt_sector L k) (\<lambda>n. n = 512)"
proof -
  have "length key = 2 * ct_key_size ct"
    using assms kernel_new_bad_key [of key ct L] unfolding same_volume_def by fastforce
  then show ?thesis
    using kernel_sector_cipher [of L key ct k] assms by (simp add: same_volume_def)
qed

lemma same_volume_position:
  assumes "same_volume L ct key k ext v" "unat s < unat (disk_length ext) div 512"
  defines "vol \<equiv> unat (vol_data_area_offset ext)"
  shows "unat (host_pos (or_data_offset (ov_inner v)) s) = vol + unat s * 512"
    "vol + unat s * 512 + 512 \<le> length (f_bytes (ov_file v))"
    "vol + unat (disk_length ext) div 512 * 512 \<le> length (f_bytes (ov_file v))"
proof -
  note v = assms(1) [unfolded same_volume_def volume_fits_def geometry_ok_def, folded vol_def]
  have N: "unat (disk_length ext) div 512 * 512 = unat (disk_length ext)"
    using v by simp
  have s: "(unat s + 1) * 512 \<le> unat (disk_length ext) div 512 * 512"
    using assms(2) by simp
  then have "unat (s * 512) = unat s * 512"
    using N v by (subst unat_times64) simp_all
  show "unat (host_pos (or_data_offset (ov_inner v)) s) = vol + unat s * 512"
  proof -
    have "or_data_offset (ov_inner v) = vol_data_area_offset ext"
      using v by simp
    moreover have "vol + unat (disk_length ext) + 511 < 2 ^ 64"
      using v by blast
    moreover have "unat s * 512 + 512 \<le> unat (disk_length ext)"
      using s N by simp
    ultimately have "or_data_offset (ov_inner v) = vol_data_area_offset ext" "vol + unat s * 512 < 2 ^ 64"
      by simp_all
    then show ?thesis
      using \<open>unat (s * 512) = unat s * 512\<close> unfolding host_pos_def DATA_UNIT_SIZE_def
      by (subst unat_plus64) (simp_all add: vol_def)
  qed
  show "vol + unat s * 512 + 512 \<le> length (f_bytes (ov_file v))"
    "vol + unat (disk_length ext) div 512 * 512 \<le> length (f_bytes (ov_file v))"
    using s N v by simp_all
qed

text \<open>User mode reads and writes single sectors of the driver's disk.\<close>

lemma user_reads_driver_disk:
  assumes "same_volume L ct key k ext v" "unat s < unat (disk_length ext) div 512"
  shows "fst (volume_read L s 512 v) = Ok (sector_of (driver_disk L k ext (f_bytes (ov_file v))) (unat s))"
proof -
  let ?vol = "unat (vol_data_area_offset ext)" and ?f = "f_bytes (ov_file v)"
  let ?raw = "sub ?f (?vol + unat s * 512) (?vol + unat s * 512 + 512)"
  note v = assms(1) [unfolded same_volume_def] and p = same_volume_position [OF assms]
  have raw: "length ?raw = 512"
    using p(2) by simp
  have "fst (volume_read L s 512 v) = obj_decrypt_sector L (ov_cipher v) s ?raw"
    using v p(1,2) by (simp add: volume_read_def fileV_parts read_sectors_run)
  moreover have "kernel_decrypt_sector L k s ?raw = Ok (sector_of (driver_disk L k ext ?f) (unat s))"
    using sector_cipher.disk_plain_sectors(2) [OF same_volume_sector_cipher [OF assms(1)] _ p(3) assms(2), of 0] v
    by (simp add: driver_disk_def)
  ultimately show ?thesis
    using same_volume_ciphers(2,4) [OF assms(1) raw] by simp
qed

lemma user_writes_driver_disk:
  assumes "same_volume L ct key k ext v" "unat s < unat (disk_length ext) div 512" "writes_allowed v s buf" "length buf = 512"
  shows "\<exists>v'. volume_write L s buf v = (Ok (), v') \<and> length (f_bytes (ov_file v')) = length (f_bytes (ov_file v))
    \<and> driver_disk L k ext (f_bytes (ov_file v')) = blit (driver_disk L k ext (f_bytes (ov_file v))) (unat s * 512) buf"
proof -
  let ?vol = "unat (vol_data_area_offset ext)" and ?f = "f_bytes (ov_file v)" and ?N = "unat (disk_length ext) div 512"
  note v = assms(1) [unfolded same_volume_def] and p = same_volume_position [OF assms(1,2)]
    and e = same_volume_ciphers [OF assms(1,4)]
  obtain c where c: "each_sector (kernel_encrypt_sector L k) (0 + of_nat (unat s)) 1 buf = Ok c"
    "disk_plain (kernel_decrypt_sector L k) 0 ?vol ?N (write_at ?f (?vol + unat s * 512) c) =
      blit (disk_plain (kernel_decrypt_sector L k) 0 ?vol ?N ?f) (unat s * 512) buf"
    using sector_cipher.encrypt_run [OF same_volume_sector_cipher [OF assms(1)] _ p(3), of "unat s" 1 buf 0] assms(2,4) by auto
  have "each_sector (kernel_encrypt_sector L k) (0 + of_nat (unat s)) 1 buf = Ok (sector_E L ct key s buf)"
    using assms(4) e(1,5) by (intro each_sector_single) simp_all
  then have ce: "c = sector_E L ct key s buf"
    using c(1) by simp
  have vo: "vol_ok L v" and rel: "reliable (ov_file v)"
    using v vol_okI by blast+
  obtain c' f' where w: "obj_encrypt_sector L (ov_cipher v) s buf = Ok c'"
    "write_sectors (obj_encrypt_sector L (ov_cipher v)) (or_data_offset (ov_inner v)) s buf (ov_file v) = (Ok (), f')"
    "f_bytes f' = write_at ?f (?vol + unat s * 512) c'"
    using write_sectors_run [OF vol_cipher [OF _ vo] _ rel, of buf s "or_data_offset (ov_inner v)"] v assms(4) p(1) by auto
  have "c' = c"
    using w(1) e(3) ce by simp
  moreover have "volume_write L s buf v = (Ok (), v \<lparr> ov_file := f' \<rparr>)"
    using w(2) by (simp add: volume_write_passed [OF assms(3)] fileV_def)
  moreover have "length (write_at ?f (?vol + unat s * 512) c) = length ?f"
    using p(2) e(5) ce by (simp add: length_write_at)
  ultimately show ?thesis
    using w(3) c(2) v by (auto simp: driver_disk_def)
qed

text \<open>
  C25: The driver and the user-mode library show the same disk. On a container
  opened with the same cipher and key and mapped at the same offset: a sector
  that user mode reads is the sector of the driver's plaintext disk, and a read
  request of the driver for that sector returns the same bytes; a sector that
  user mode writes replaces that sector of the disk and no other, and the
  driver reads it back; a sector that a write request of the driver writes is
  what user mode reads back. The kernel is any that refuses no request.
\<close>

theorem user_and_driver_see_one_disk:
  fixes L :: crypto_lib and K :: "'h kernel" and contents :: "'h \<Rightarrow> bytes" and k :: KernelSectorCipher
    and ext :: Extension and s :: u64
  assumes "same_volume L ct key k ext v" "unat s < unat (disk_length ext) div 512" "writes_allowed v s buf" "length buf = 512"
  defines "disk \<equiv> \<lambda>v. driver_disk L k ext (f_bytes (ov_file v))"
    and "request \<equiv> \<lambda>v. sector_request L K contents k ext (unat s) (f_bytes (ov_file v))"
    and "driver_read \<equiv> \<lambda>q data. \<exists>q'. process_read_irp L K ext q = (Ok STATUS_SUCCESS, q') \<and> user_memory (io_irp q') = Some data"
  shows "(\<exists>data. fst (volume_read L s 512 v) = Ok data \<and> data = sector_of (disk v) (unat s)
        \<and> (\<forall>mem q. request v mem q \<longrightarrow> driver_read q data))
    \<and> (\<exists>v'. volume_write L s buf v = (Ok (), v') \<and> disk v' = blit (disk v) (unat s * 512) buf
        \<and> (\<forall>mem q. request v' mem q \<longrightarrow> driver_read q buf))
    \<and> (\<forall>q. request v buf q \<and> \<not> b_read_only ext \<longrightarrow> (\<exists>q'. process_write_irp L K ext q = (Ok STATUS_SUCCESS, q')
        \<and> fst (volume_read L s 512 (v \<lparr> ov_file := (ov_file v) \<lparr> f_bytes := contents (io_kernel q') \<rparr> \<rparr>)) = Ok buf))"
proof -
  let ?d = "driver_disk L k ext (f_bytes (ov_file v))"
  note p = same_volume_position(2,3) [OF assms(1,2)]
  have "length ?d = unat (disk_length ext)"
    using sector_cipher.disk_plain_sectors(1) [OF same_volume_sector_cipher [OF assms(1)] _ p(2), of 0] assms(1)
    by (simp add: driver_disk_def same_volume_def volume_fits_def)
  moreover have "(unat s + 1) * 512 \<le> unat (disk_length ext)"
  proof -
    have "unat (disk_length ext) div 512 * 512 = unat (disk_length ext)"
      using assms(1) by (simp add: same_volume_def volume_fits_def)
    moreover have "(unat s + 1) * 512 \<le> unat (disk_length ext) div 512 * 512"
      using assms(2) by simp
    ultimately show ?thesis
      by simp
  qed
  ultimately have same: "sector_of (blit ?d (unat s * 512) buf) (unat s) = buf"
    using assms(4) by (simp add: sector_of_def sub_blit_same)
  have reads: "request w mem q \<Longrightarrow> driver_read q (sector_of (disk w) (unat s))" for w mem q
    unfolding request_def driver_read_def disk_def using driver_reads_sector by blast
  obtain v' where v': "volume_write L s buf v = (Ok (), v')" "disk v' = blit ?d (unat s * 512) buf"
    using user_writes_driver_disk [OF assms(1-4)] unfolding disk_def by blast
  have writes: "\<exists>q'. process_write_irp L K ext q = (Ok STATUS_SUCCESS, q')
      \<and> fst (volume_read L s 512 (v \<lparr> ov_file := (ov_file v) \<lparr> f_bytes := contents (io_kernel q') \<rparr> \<rparr>)) = Ok buf"
    if q: "request v buf q" "\<not> b_read_only ext" for q
  proof -
    obtain q' where q': "process_write_irp L K ext q = (Ok STATUS_SUCCESS, q')"
      "length (contents (io_kernel q')) = length (f_bytes (ov_file v))"
      "driver_disk L k ext (contents (io_kernel q')) = blit ?d (unat s * 512) buf"
      using driver_writes_sector [OF q(1) [unfolded request_def] q(2)] by blast
    have "same_volume L ct key k ext (v \<lparr> ov_file := (ov_file v) \<lparr> f_bytes := contents (io_kernel q') \<rparr> \<rparr>)"
      using assms(1) q'(2) by (auto simp: same_volume_def volume_fits_def reliable_def)
    from user_reads_driver_disk [OF this assms(2)] show ?thesis
      using q'(1,3) same by simp
  qed
  show ?thesis
    using user_reads_driver_disk [OF assms(1,2)] reads writes v' reads [of v'] same by (auto simp: disk_def)
qed

theorem user_and_driver_see_one_disk_witness:
  "\<exists>k v data q'. kernel_new toy_lib Aes (replicate 64 1) = Ok k \<and> fst (volume_read toy_lib 1 512 v) = Ok data
    \<and> process_read_irp toy_lib plain_kernel (toy_extension k) (toy_request IRP_MJ_READ 512 (replicate 512 7)) = (Ok STATUS_SUCCESS, q')
    \<and> user_memory (io_irp q') = Some data"
proof -
  obtain k where k: "kernel_new toy_lib Aes (replicate 64 1) = Ok k"
    using kernel_new_refines [OF toy_lib_ok, of "replicate 64 1" Aes] by auto
  obtain c where c: "create_sector_cipher toy_lib Aes (replicate 64 1) = Ok c"
    using toy_cipher by blast
  let ?v = "(toy_volume c 1536 None) \<lparr> ov_inner := toy_inner 512 1024 \<rparr>" and ?e = "toy_extension k"
    and ?q = "toy_request IRP_MJ_READ 512 (replicate 512 7)"
  have v: "same_volume toy_lib Aes (replicate 64 1) k ?e ?v" "unat (1 :: u64) < unat (disk_length ?e) div 512"
    "writes_allowed ?v 1 (replicate 512 7)" "length (replicate 512 (7 :: u8)) = 512"
    using c k toy_lib_ok by (simp_all add: same_volume_def toy_volume_def toy_extension_def toy_inner_parts volume_fits_def
        geometry_ok_def reliable_def writes_allowed_def check_protected_range_def)
  have "cipher_ok toy_lib k"
    using k toy_lib_ok unfolding cipher_ok_def by blast
  then have g: "good_request toy_lib plain_kernel id k ?e ?q (replicate 512 7)"
    by (rule toy_good_request) simp_all
  have "f_bytes (ov_file ?v) = replicate 1536 0"
    by (simp add: toy_volume_def)
  then have "sector_request toy_lib plain_kernel id k ?e (unat (1 :: u64)) (f_bytes (ov_file ?v)) (replicate 512 7) ?q"
    using g toy_never_fails by (simp add: sector_request_def) (simp add: toy_request_def)
  then show ?thesis
    using user_and_driver_see_one_disk [OF v, of plain_kernel id] k by blast
qed

end
